(* ===== verification/Prelude.thy ===== *)
theory Prelude
  imports Complex_Main "HOL-Library.List_Lexorder" "HOL-Library.Char_ord"
begin

text \<open>
  Generic library of the development: nothing here mentions the escrow program.

  \<^item> a state-and-exception monad (\<open>prog\<close>): a Python function that reads and writes the
    request's session and may raise is a function from the session to a result
    (\<open>Inl\<close> the exception, \<open>Inr\<close> the returned value) and the session it leaves behind.
    Raising keeps every state change made so far, as in Python;
  \<^item> invariant preservation (\<open>keeps\<close>) and its rules, one per construct of the monad, collected in
    \<open>keeps_intros\<close>: a handler keeps an invariant when its primitive writes do;
  \<^item> the locale \<open>frame\<close>: the same for a reflexive and transitive relation between
    the session before and after (used for "this handler does not touch that table");
  \<^item> facts about lists of rows found and updated by key;
  \<^item> the rounding of Python's \<^verbatim>\<open>Decimal.quantize(Decimal("0.01"))\<close> on rationals.
\<close>

named_theorems keeps_intros \<open>rules that push invariant preservation through a program\<close>
named_theorems stays_intros \<open>rules that push a frame through a program\<close>
named_theorems run \<open>equations that run a program on a session\<close>
named_theorems step \<open>equations that run the first step of a program and keep the rest folded\<close>

section \<open>Programs with state and exceptions\<close>

type_synonym ('s, 'e, 'a) prog = "'s \<Rightarrow> ('e + 'a) \<times> 's"

definition return :: "'a \<Rightarrow> ('s, 'e, 'a) prog" where
  "return x = (\<lambda>s. (Inr x, s))"

definition raise :: "'e \<Rightarrow> ('s, 'e, 'a) prog" where
  "raise e = (\<lambda>s. (Inl e, s))"

definition bnd :: "('s, 'e, 'a) prog \<Rightarrow> ('a \<Rightarrow> ('s, 'e, 'b) prog) \<Rightarrow> ('s, 'e, 'b) prog" where
  "bnd m f = (\<lambda>s. case m s of (Inl e, t) \<Rightarrow> (Inl e, t) | (Inr x, t) \<Rightarrow> f x t)"

definition try_except :: "('s, 'e, 'a) prog \<Rightarrow> ('e \<Rightarrow> ('s, 'e, 'a) prog) \<Rightarrow> ('s, 'e, 'a) prog" where
  "try_except m h = (\<lambda>s. case m s of (Inl e, t) \<Rightarrow> h e t | (Inr x, t) \<Rightarrow> (Inr x, t))"

definition reads :: "('s \<Rightarrow> 'a) \<Rightarrow> ('s, 'e, 'a) prog" where
  "reads f = (\<lambda>s. (Inr (f s), s))"

definition modify :: "('s \<Rightarrow> 's) \<Rightarrow> ('s, 'e, unit) prog" where
  "modify f = (\<lambda>s. (Inr (), f s))"

definition when_m :: "bool \<Rightarrow> ('s, 'e, unit) prog \<Rightarrow> ('s, 'e, unit) prog" where
  "when_m b m = (if b then m else return ())"

fun for_each :: "('a \<Rightarrow> ('s, 'e, unit) prog) \<Rightarrow> 'a list \<Rightarrow> ('s, 'e, unit) prog" where
  "for_each f [] = return ()"
| "for_each f (x # xs) = bnd (f x) (\<lambda>_. for_each f xs)"

fun map_m :: "('a \<Rightarrow> ('s, 'e, 'b) prog) \<Rightarrow> 'a list \<Rightarrow> ('s, 'e, 'b list) prog" where
  "map_m f [] = return []"
| "map_m f (x # xs) = bnd (f x) (\<lambda>y. bnd (map_m f xs) (\<lambda>ys. return (y # ys)))"

definition option_m ::
  "('a \<Rightarrow> ('s, 'e, 'b) prog) \<Rightarrow> 'a option \<Rightarrow> ('s, 'e, 'b option) prog"
where
  "option_m f x = (case x of None \<Rightarrow> return None | Some v \<Rightarrow> bnd (f v) (\<lambda>y. return (Some y)))"

lemma run_return [run, simp]: "return x s = (Inr x, s)"
  by (simp add: return_def)

lemma run_raise [run, simp]: "raise e s = (Inl e, s)"
  by (simp add: raise_def)

lemma run_reads [run, simp]: "reads f s = (Inr (f s), s)"
  by (simp add: reads_def)

lemma run_modify [run, simp]: "modify f s = (Inr (), f s)"
  by (simp add: modify_def)

lemma run_bnd [run]:
  "bnd m f s = (case m s of (Inl e, t) \<Rightarrow> (Inl e, t) | (Inr x, t) \<Rightarrow> f x t)"
  by (simp add: bnd_def)

lemma run_try [run]:
  "try_except m h s = (case m s of (Inl e, t) \<Rightarrow> h e t | (Inr x, t) \<Rightarrow> (Inr x, t))"
  by (simp add: try_except_def)

lemma run_when [run]: "when_m b m s = (if b then m s else (Inr (), s))"
  by (simp add: when_m_def)

text \<open>Known results run through \<open>bnd\<close> and \<open>try_except\<close> without a case split.\<close>

lemma bnd_Inr: "m s = (Inr x, t) \<Longrightarrow> bnd m f s = f x t"
  by (simp add: bnd_def)

lemma bnd_Inl: "m s = (Inl e, t) \<Longrightarrow> bnd m f s = (Inl e, t)"
  by (simp add: bnd_def)

lemma bnd_assoc: "bnd (bnd m f) g = bnd m (\<lambda>x. bnd (f x) g)"
  by (rule ext) (simp add: bnd_def split: prod.splits sum.splits)

lemma bnd_return: "bnd (return x) f = f x"
  by (simp add: bnd_def fun_eq_iff)

lemma bnd_steps [step]:
  "bnd (return x) f s = f x s" "bnd (raise e) f s = (Inl e, s)"
  "bnd (reads g) f s = f (g s) s" "bnd (modify h) k s = k () (h s)"
  "bnd (bnd m f') k' s = bnd m (\<lambda>x. bnd (f' x) k') s"
  "bnd (when_m b n) k s = (if b then bnd n k s else k () s)"
  by (simp_all add: bnd_def when_m_def split: prod.splits sum.splits)

lemma bnd_InrE:
  assumes "bnd m f s = (Inr y, t)"
  obtains x u where "m s = (Inr x, u)" "f x u = (Inr y, t)"
  using assms by (auto simp: bnd_def split: prod.splits sum.splits)

lemma bnd_InlE:
  assumes "bnd m f s = (Inl e, t)"
  obtains "m s = (Inl e, t)" | x u where "m s = (Inr x, u)" "f x u = (Inl e, t)"
  using assms by (auto simp: bnd_def split: prod.splits sum.splits)

section \<open>Invariants kept by a program\<close>

text \<open>\<open>keeps P m\<close>: whether \<open>m\<close> returns or raises, it leaves \<open>P\<close> true if it found it true.\<close>

definition keeps :: "('s \<Rightarrow> bool) \<Rightarrow> ('s, 'e, 'a) prog \<Rightarrow> bool" where
  "keeps P m \<longleftrightarrow> (\<forall>s. P s \<longrightarrow> P (snd (m s)))"

lemma keepsD: "keeps P m \<Longrightarrow> P s \<Longrightarrow> P (snd (m s))"
  by (simp add: keeps_def)

lemma keeps_run: "keeps P m \<Longrightarrow> m s = (r, t) \<Longrightarrow> P s \<Longrightarrow> P t"
  using keepsD [of P m s] by simp

lemma keeps_return [keeps_intros]: "keeps P (return x)"
  by (simp add: keeps_def)

lemma keeps_raise [keeps_intros]: "keeps P (raise e)"
  by (simp add: keeps_def)

lemma keeps_reads [keeps_intros]: "keeps P (reads f)"
  by (simp add: keeps_def)

lemma keeps_modify: "(\<And>s. P s \<Longrightarrow> P (f s)) \<Longrightarrow> keeps P (modify f)"
  by (simp add: keeps_def)

lemma keeps_bnd [keeps_intros]:
  assumes "keeps P m" and "\<And>x. keeps P (f x)"
  shows "keeps P (bnd m f)"
  unfolding keeps_def
proof (intro allI impI)
  fix s assume "P s"
  with assms(1) have "P (snd (m s))" by (rule keepsD)
  with assms(2) show "P (snd (bnd m f s))"
    by (auto simp: bnd_def keeps_def split: prod.splits sum.splits)
qed

lemma keeps_try [keeps_intros]:
  assumes "keeps P m" and "\<And>e. keeps P (h e)"
  shows "keeps P (try_except m h)"
  unfolding keeps_def
proof (intro allI impI)
  fix s assume "P s"
  with assms(1) have "P (snd (m s))" by (rule keepsD)
  with assms(2) show "P (snd (try_except m h s))"
    by (auto simp: try_except_def keeps_def split: prod.splits sum.splits)
qed

lemma keeps_if [keeps_intros]:
  "(b \<Longrightarrow> keeps P m) \<Longrightarrow> (\<not> b \<Longrightarrow> keeps P n) \<Longrightarrow> keeps P (if b then m else n)"
  by simp

lemma keeps_when [keeps_intros]: "(b \<Longrightarrow> keeps P m) \<Longrightarrow> keeps P (when_m b m)"
  by (simp add: when_m_def keeps_return)

lemma keeps_let [keeps_intros]: "keeps P (f x) \<Longrightarrow> keeps P (let y = x in f y)"
  by (simp add: Let_def)

lemma keeps_option [keeps_intros]:
  "keeps P m \<Longrightarrow> (\<And>x. keeps P (f x)) \<Longrightarrow> keeps P (case z of None \<Rightarrow> m | Some x \<Rightarrow> f x)"
  by (cases z) auto

lemma keeps_prod [keeps_intros]:
  "(\<And>x y. keeps P (f x y)) \<Longrightarrow> keeps P (case z of (x, y) \<Rightarrow> f x y)"
  by (cases z) auto

lemma keeps_sum [keeps_intros]:
  "(\<And>x. keeps P (f x)) \<Longrightarrow> (\<And>x. keeps P (g x)) \<Longrightarrow>
   keeps P (case z of Inl x \<Rightarrow> f x | Inr y \<Rightarrow> g y)"
  by (cases z) auto

lemma keeps_list [keeps_intros]:
  "keeps P m \<Longrightarrow> (\<And>x xs. keeps P (f x xs)) \<Longrightarrow> keeps P (case z of [] \<Rightarrow> m | x # xs \<Rightarrow> f x xs)"
  by (cases z) auto

lemma keeps_for_each [keeps_intros]: "(\<And>x. keeps P (f x)) \<Longrightarrow> keeps P (for_each f xs)"
  by (induction xs) (auto intro: keeps_intros)

lemma keeps_map_m [keeps_intros]: "(\<And>x. keeps P (f x)) \<Longrightarrow> keeps P (map_m f xs)"
  by (induction xs) (auto intro: keeps_intros)

lemma keeps_option_m [keeps_intros]: "(\<And>x. keeps P (f x)) \<Longrightarrow> keeps P (option_m f v)"
  by (cases v) (auto simp: option_m_def intro: keeps_intros)

section \<open>Frames: relations between the session before and after\<close>

definition stays :: "('s \<Rightarrow> 's \<Rightarrow> bool) \<Rightarrow> ('s, 'e, 'a) prog \<Rightarrow> bool" where
  "stays R m \<longleftrightarrow> (\<forall>s. R s (snd (m s)))"

lemma staysD: "stays R m \<Longrightarrow> m s = (r, t) \<Longrightarrow> R s t"
  by (metis stays_def snd_conv)

text \<open>
  A frame is a reflexive and transitive relation: a program built from steps inside the relation
  stays inside it.  Every construct of the monad has its rule.
\<close>

locale frame =
  fixes R :: "'s \<Rightarrow> 's \<Rightarrow> bool"
  assumes frame_refl: "R s s"
    and frame_trans: "R s t \<Longrightarrow> R t u \<Longrightarrow> R s u"
begin

lemma stays_return: "stays R (return x)"
  by (simp add: stays_def frame_refl)

lemma stays_raise: "stays R (raise e)"
  by (simp add: stays_def frame_refl)

lemma stays_reads: "stays R (reads f)"
  by (simp add: stays_def frame_refl)

lemma stays_modify: "(\<And>s. R s (f s)) \<Longrightarrow> stays R (modify f)"
  by (simp add: stays_def)

lemma stays_bnd:
  assumes "stays R m" and "\<And>x. stays R (f x)"
  shows "stays R (bnd m f)"
  unfolding stays_def
proof
  fix s
  from assms show "R s (snd (bnd m f s))"
    by (auto simp: bnd_def stays_def split: prod.splits sum.splits) (metis frame_trans snd_conv)+
qed

lemma stays_try:
  assumes "stays R m" and "\<And>e. stays R (h e)"
  shows "stays R (try_except m h)"
  unfolding stays_def
proof
  fix s
  from assms show "R s (snd (try_except m h s))"
    by (auto simp: try_except_def stays_def split: prod.splits sum.splits)
      (metis frame_trans snd_conv)+
qed

lemma stays_if: "(b \<Longrightarrow> stays R m) \<Longrightarrow> (\<not> b \<Longrightarrow> stays R n) \<Longrightarrow> stays R (if b then m else n)"
  by simp

lemma stays_when: "(b \<Longrightarrow> stays R m) \<Longrightarrow> stays R (when_m b m)"
  by (simp add: when_m_def stays_return)

lemma stays_let: "stays R (f x) \<Longrightarrow> stays R (let y = x in f y)"
  by (simp add: Let_def)

lemma stays_option:
  "stays R m \<Longrightarrow> (\<And>x. stays R (f x)) \<Longrightarrow> stays R (case z of None \<Rightarrow> m | Some x \<Rightarrow> f x)"
  by (cases z) auto

lemma stays_prod: "(\<And>x y. stays R (f x y)) \<Longrightarrow> stays R (case z of (x, y) \<Rightarrow> f x y)"
  by (cases z) auto

lemma stays_for_each: "(\<And>x. stays R (f x)) \<Longrightarrow> stays R (for_each f xs)"
  by (induction xs) (auto intro: stays_return stays_bnd)

lemma stays_map_m: "(\<And>x. stays R (f x)) \<Longrightarrow> stays R (map_m f xs)"
  by (induction xs) (auto intro: stays_return stays_bnd)

lemma stays_option_m: "(\<And>x. stays R (f x)) \<Longrightarrow> stays R (option_m f v)"
  by (cases v) (auto simp: option_m_def intro: stays_return stays_bnd)

lemma stays_sum:
  "(\<And>x. stays R (f x)) \<Longrightarrow> (\<And>y. stays R (g y)) \<Longrightarrow>
   stays R (case z of Inl x \<Rightarrow> f x | Inr y \<Rightarrow> g y)"
  by (cases z) auto

lemmas stays_rules =
  stays_return stays_raise stays_reads stays_bnd stays_try stays_if stays_when
  stays_let stays_option stays_prod stays_for_each stays_map_m stays_option_m stays_sum

end

section \<open>Rows found and replaced by key\<close>

definition find_first :: "('r \<Rightarrow> bool) \<Rightarrow> 'r list \<Rightarrow> 'r option" where
  "find_first P rs = List.find P rs"

definition replace_by :: "('r \<Rightarrow> 'k) \<Rightarrow> 'r \<Rightarrow> 'r list \<Rightarrow> 'r list" where
  "replace_by key r rs = map (\<lambda>x. if key x = key r then r else x) rs"

lemma find_first_Nil [simp]: "find_first P [] = None"
  by (simp add: find_first_def)

lemma find_first_Cons [simp]: "find_first P (x # xs) = (if P x then Some x else find_first P xs)"
  by (simp add: find_first_def)

lemma find_first_SomeD: "find_first P rs = Some r \<Longrightarrow> r \<in> set rs \<and> P r"
  by (induction rs) (auto split: if_splits)

lemma find_first_NoneD: "find_first P rs = None \<Longrightarrow> r \<in> set rs \<Longrightarrow> \<not> P r"
  by (induction rs) (auto split: if_splits)

lemma find_first_None_iff: "find_first P rs = None \<longleftrightarrow> (\<forall>r \<in> set rs. \<not> P r)"
  by (induction rs) auto

lemma find_first_append:
  "find_first P (xs @ ys) = (case find_first P xs of None \<Rightarrow> find_first P ys | Some x \<Rightarrow> Some x)"
  by (induction xs) auto

lemma find_first_key:
  assumes "distinct (map key rs)" and "r \<in> set rs"
  shows "find_first (\<lambda>x. key x = key r) rs = Some r"
  using assms by (induction rs) (auto simp: image_iff)

lemma map_key_replace [simp]: "map key (replace_by key r rs) = map key rs"
  by (auto simp: replace_by_def)

lemma replace_by_Nil [simp]: "replace_by key r [] = []"
  by (simp add: replace_by_def)

lemma replace_by_Cons [simp]:
  "replace_by key r (x # xs) = (if key x = key r then r else x) # replace_by key r xs"
  by (simp add: replace_by_def)

lemma replace_by_append [simp]:
  "replace_by key r (xs @ ys) = replace_by key r xs @ replace_by key r ys"
  by (simp add: replace_by_def)

lemma length_replace [simp]: "length (replace_by key r rs) = length rs"
  by (simp add: replace_by_def)

lemma set_replace_subset: "set (replace_by key r rs) \<subseteq> insert r (set rs)"
  by (auto simp: replace_by_def)

lemma set_replaceD: "x \<in> set (replace_by key r rs) \<Longrightarrow> x = r \<or> x \<in> set rs \<and> key x \<noteq> key r"
  by (auto simp: replace_by_def split: if_splits)

lemma replace_idle: "key r \<notin> key ` set rs \<Longrightarrow> replace_by key r rs = rs"
  by (induction rs) auto

lemma mem_replace: "y \<in> set rs \<Longrightarrow> key y \<noteq> key r \<Longrightarrow> y \<in> set (replace_by key r rs)"
  by (auto simp: replace_by_def)

lemma mem_replace_same: "x \<in> set rs \<Longrightarrow> key x = key r \<Longrightarrow> r \<in> set (replace_by key r rs)"
  by (auto simp: replace_by_def)

lemma find_replace_other:
  "k \<noteq> key r \<Longrightarrow>
   find_first (\<lambda>x. key x = k) (replace_by key r rs) = find_first (\<lambda>x. key x = k) rs"
  by (induction rs) auto

lemma find_replace_same:
  "find_first (\<lambda>x. key x = key r) (replace_by key r rs) =
     (if key r \<in> key ` set rs then Some r else None)"
  by (induction rs) auto

lemma map_replace_same_field:
  assumes "distinct (map key rs)" and "x \<in> set rs" and "key x = key r" and "f r = f x"
  shows "map f (replace_by key r rs) = map f rs"
  using assms by (induction rs) (auto simp: replace_idle image_iff)

text \<open>With distinct keys, replacing takes the old row out and puts the new one in.\<close>

lemma set_replace_by:
  assumes "distinct (map key rs)" and "x \<in> set rs" and "key r = key x"
  shows "set (replace_by key r rs) = insert r (set rs - {x})"
  using assms by (auto simp: replace_by_def distinct_map image_iff dest: inj_onD)

text \<open>A projection that a replaced row does not change is summed to the same value.\<close>

lemma sum_list_map_replace:
  fixes f :: "'r \<Rightarrow> 'n :: ab_group_add"
  assumes "distinct (map key rs)" and "x \<in> set rs" and "key x = key r"
  shows "sum_list (map f (replace_by key r rs)) = sum_list (map f rs) + (f r - f x)"
  using assms
proof (induction rs)
  case Nil
  then show ?case by simp
next
  case (Cons y ys)
  show ?case
  proof (cases "y = x")
    case True
    with Cons.prems have "key r \<notin> key ` set ys" by (auto simp: image_iff)
    with True Cons.prems show ?thesis by (simp add: replace_idle)
  next
    case False
    with Cons.prems have "x \<in> set ys" "key y \<noteq> key r" by (auto simp: image_iff)
    with Cons False show ?thesis by simp
  qed
qed

section \<open>Decimal amounts\<close>

text \<open>
  A Python \<^verbatim>\<open>Decimal\<close> is an exact decimal fraction, so a rational.  \<open>quantize2\<close> is
  \<^verbatim>\<open>x.quantize(Decimal("0.01"))\<close>: the nearest multiple of one hundredth, ties to the even
  digit (the default context's \<^verbatim>\<open>ROUND_HALF_EVEN\<close>).
\<close>

definition round_half_even :: "rat \<Rightarrow> int" where
  "round_half_even x =
     (let n = \<lfloor>x\<rfloor>; d = x - of_int n
      in if d < 1 / 2 then n else if 1 / 2 < d then n + 1 else if even n then n else n + 1)"

definition quantize2 :: "rat \<Rightarrow> rat" where
  "quantize2 x = of_int (round_half_even (x * 100)) / 100"

lemma round_half_even_of_int [simp]: "round_half_even (of_int n) = n"
  by (simp add: round_half_even_def Let_def)

lemma quantize2_of_int [simp]: "quantize2 (of_int n / 100) = of_int n / 100"
  by (simp add: quantize2_def)

text \<open>A value equals its quantisation exactly when it is a whole number of hundredths.\<close>

lemma quantize2_eq_iff: "quantize2 x = x \<longleftrightarrow> (\<exists>n. x = of_int n / 100)"
proof
  assume "quantize2 x = x"
  then have "x = of_int (round_half_even (x * 100)) / 100" by (simp add: quantize2_def)
  then show "\<exists>n. x = of_int n / 100" by blast
next
  assume "\<exists>n. x = of_int n / 100"
  then obtain n where "x = of_int n / 100" ..
  then show "quantize2 x = x" by (simp only: quantize2_of_int)
qed

end
