(* ===== verification/Enums.thy ===== *)
theory Enums
  imports Prelude
begin

text \<open>
  The enumerations of \<^verbatim>\<open>src/app/common/enums.py\<close> and
  \<^verbatim>\<open>src/app/models/paystack_transaction.py\<close>, the plain-string status columns of
  the models, and the exceptions of \<^verbatim>\<open>src/app/exceptions.py\<close> with the code and the
  HTTP status each carries.

  A \<^verbatim>\<open>StrEnum\<close> is a datatype with its members in the source's order, a function to the
  string stored in the column and the constructor \<^verbatim>\<open>Enum(value)\<close> back from it (\<open>None\<close>
  is Python's \<^verbatim>\<open>ValueError\<close>).  Human-readable messages of exceptions are not modelled,
  except the payment provider's, which the program stores.
\<close>

section \<open>Enumerations\<close>

datatype participant_role = DEPOSITOR | BENEFICIARY

datatype invitation_status = INVITED | ACCEPTED | REJECTED

datatype agreement_status = PENDING | ACTIVE | DISPUTED | COMPLETED | CANCELLED | REFUNDED

datatype notification_type =
    INVITATION_RECEIVED | AGREEMENT_ACCEPTED | AGREEMENT_DECLINED | CONDITION_ADDED
  | CONDITION_UPDATED | AGREEMENT_COMPLETED | AGREEMENT_CANCELLED | ESCROW_FUNDED
  | ESCROW_RELEASED | ESCROW_REFUNDED | WALLET_CREDITED | WITHDRAWAL_COMPLETED
  | WITHDRAWAL_FAILED | DISPUTE_RAISED | DISPUTE_EVIDENCE_ADDED | DISPUTE_UNDER_REVIEW
  | DISPUTE_RESOLVED | GENERAL

datatype ledger_entry_type =
    DEPOSIT | ESCROW_LOCK | ESCROW_RELEASE_OUT | ESCROW_RELEASE_IN | ESCROW_REFUND
  | WITHDRAWAL | WITHDRAWAL_REVERSAL | ADJUSTMENT_CREDIT | ADJUSTMENT_DEBIT

datatype ledger_direction = CREDIT | DEBIT

datatype ledger_entry_status = ENTRY_PENDING | ENTRY_COMPLETED | ENTRY_REVERSED

datatype webhook_event_status = WH_RECEIVED | WH_PROCESSED | WH_IGNORED | WH_FAILED

datatype idempotency_status = IN_PROGRESS | IDEM_COMPLETED

datatype dispute_category =
  QUALITY_ISSUES | MISSED_DEADLINE | INCOMPLETE_WORK | NON_RESPONSIVE | OTHER

datatype dispute_status = OPEN | UNDER_REVIEW | RESOLVED

datatype dispute_resolution_outcome = FAVOUR_DEPOSITOR | FAVOUR_BENEFICIARY | SPLIT | DISMISSED

datatype transaction_status = TX_PENDING | TX_SUCCESS | TX_FAILED | TX_REFUNDED

datatype transaction_type =
  PT_ESCROW_DEPOSIT | PT_ESCROW_PAYOUT | PT_ESCROW_REFUND | PT_WITHDRAWAL

text \<open>
  \<^verbatim>\<open>Invitation.status\<close> and \<^verbatim>\<open>Condition.status\<close> are plain string columns; these are the
  values the program writes to and compares with them.
\<close>

datatype invitation_row_status = INV_PENDING | INV_ACCEPTED | INV_EXPIRED

datatype condition_status = COND_PENDING | COND_SUBMITTED | COND_APPROVED | COND_REJECTED

section \<open>Stored values\<close>

fun ledger_entry_type_value :: "ledger_entry_type \<Rightarrow> string" where
  "ledger_entry_type_value DEPOSIT = ''deposit''"
| "ledger_entry_type_value ESCROW_LOCK = ''escrow_lock''"
| "ledger_entry_type_value ESCROW_RELEASE_OUT = ''escrow_release_out''"
| "ledger_entry_type_value ESCROW_RELEASE_IN = ''escrow_release_in''"
| "ledger_entry_type_value ESCROW_REFUND = ''escrow_refund''"
| "ledger_entry_type_value WITHDRAWAL = ''withdrawal''"
| "ledger_entry_type_value WITHDRAWAL_REVERSAL = ''withdrawal_reversal''"
| "ledger_entry_type_value ADJUSTMENT_CREDIT = ''adjustment_credit''"
| "ledger_entry_type_value ADJUSTMENT_DEBIT = ''adjustment_debit''"

definition ledger_entry_types :: "ledger_entry_type list" where
  "ledger_entry_types =
     [DEPOSIT, ESCROW_LOCK, ESCROW_RELEASE_OUT, ESCROW_RELEASE_IN, ESCROW_REFUND,
      WITHDRAWAL, WITHDRAWAL_REVERSAL, ADJUSTMENT_CREDIT, ADJUSTMENT_DEBIT]"

definition parse_ledger_entry_type :: "string \<Rightarrow> ledger_entry_type option" where
  "parse_ledger_entry_type v = find_first (\<lambda>t. ledger_entry_type_value t = v) ledger_entry_types"

fun agreement_status_value :: "agreement_status \<Rightarrow> string" where
  "agreement_status_value PENDING = ''pending''"
| "agreement_status_value ACTIVE = ''active''"
| "agreement_status_value DISPUTED = ''disputed''"
| "agreement_status_value COMPLETED = ''completed''"
| "agreement_status_value CANCELLED = ''cancelled''"
| "agreement_status_value REFUNDED = ''refunded''"

definition agreement_statuses :: "agreement_status list" where
  "agreement_statuses = [PENDING, ACTIVE, DISPUTED, COMPLETED, CANCELLED, REFUNDED]"

definition parse_agreement_status :: "string \<Rightarrow> agreement_status option" where
  "parse_agreement_status v =
     find_first (\<lambda>t. agreement_status_value t = v) agreement_statuses"

fun transaction_status_value :: "transaction_status \<Rightarrow> string" where
  "transaction_status_value TX_PENDING = ''PENDING''"
| "transaction_status_value TX_SUCCESS = ''SUCCESS''"
| "transaction_status_value TX_FAILED = ''FAILED''"
| "transaction_status_value TX_REFUNDED = ''REFUNDED''"

lemma parse_ledger_entry_type_value:
  "parse_ledger_entry_type (ledger_entry_type_value t) = Some t"
  by (cases t) (simp_all add: parse_ledger_entry_type_def ledger_entry_types_def)

lemma parse_agreement_status_value:
  "parse_agreement_status (agreement_status_value t) = Some t"
  by (cases t) (simp_all add: parse_agreement_status_def agreement_statuses_def)

text \<open>A dispute only moves forward: the order of its states in the source.\<close>

fun dispute_rank :: "dispute_status \<Rightarrow> nat" where
  "dispute_rank OPEN = 0"
| "dispute_rank UNDER_REVIEW = 1"
| "dispute_rank RESOLVED = 2"

lemma dispute_rank_inj: "dispute_rank a = dispute_rank b \<Longrightarrow> a = b"
  by (cases a; cases b) simp_all

instantiation dispute_status :: linorder
begin

definition less_eq_dispute_status :: "dispute_status \<Rightarrow> dispute_status \<Rightarrow> bool" where
  "less_eq_dispute_status a b \<longleftrightarrow> dispute_rank a \<le> dispute_rank b"

definition less_dispute_status :: "dispute_status \<Rightarrow> dispute_status \<Rightarrow> bool" where
  "less_dispute_status a b \<longleftrightarrow> dispute_rank a < dispute_rank b"

instance
  by standard
    (auto simp: less_eq_dispute_status_def less_dispute_status_def intro: dispute_rank_inj)

end

lemmas dispute_order = less_eq_dispute_status_def less_dispute_status_def

section \<open>Exceptions\<close>

datatype exn =
    BadRequestError
  | UnauthorizedError
  | ForbiddenError
  | WithdrawalNotAllowedError
  | AdminAccessRequiredError
  | UserNotFoundError
  | AgreementNotFoundError
  | InvitationNotFoundError
  | ConditionNotFoundError
  | ParticipantNotFoundError
  | NotificationNotFoundError
  | TransactionNotFoundError
  | BankAccountNotFoundError
  | DisputeNotFoundError
  | UserAlreadyExistsError
  | AgreementAlreadyExistsError
  | InsufficientFundsError
  | InsufficientEscrowBalanceError
  | DuplicateBankAccountError
  | DisputeAlreadyExistsError
  | DisputeNotOpenError
  | IdempotencyConflictError
  | IdempotencyKeyReusedError
  | AgreementCreationError
  | ConditionSaveError
  | AgreementAcceptanceError
  | AssetUploadError
  | AssetApprovalError
  | AssetNotFoundError
  | AssetRetrievalError
  | WalletNotFoundError
  | PaystackTransactionNotFoundError
  | DisputeCreationError
  | PaystackError string
  | PaystackTimeoutError
  | PaystackValidationError string
  | PaystackDuplicateReferenceError string
  | HTTPException nat
  | IntegrityError
  | DataError
  | ValueError
  | KeyError
  | StopIteration
  | InvalidRequestError
  | TypeError
  | RuntimeError

text \<open>
  \<^verbatim>\<open>AppError.code\<close> and \<^verbatim>\<open>AppError.status_code\<close>; \<open>None\<close> for exceptions that are not an
  \<^verbatim>\<open>AppError\<close> (driver errors and Python's own).
\<close>

fun app_error_40x :: "exn \<Rightarrow> (string \<times> nat) option" where
  "app_error_40x BadRequestError = Some (''BAD_REQUEST'', 400)"
| "app_error_40x UnauthorizedError = Some (''UNAUTHORIZED'', 401)"
| "app_error_40x ForbiddenError = Some (''FORBIDDEN'', 403)"
| "app_error_40x WithdrawalNotAllowedError = Some (''WITHDRAWALS_DISABLED'', 403)"
| "app_error_40x AdminAccessRequiredError = Some (''FORBIDDEN'', 403)"
| "app_error_40x UserNotFoundError = Some (''NOT_FOUND'', 404)"
| "app_error_40x AgreementNotFoundError = Some (''NOT_FOUND'', 404)"
| "app_error_40x InvitationNotFoundError = Some (''NOT_FOUND'', 404)"
| "app_error_40x ConditionNotFoundError = Some (''NOT_FOUND'', 404)"
| "app_error_40x ParticipantNotFoundError = Some (''NOT_FOUND'', 404)"
| "app_error_40x NotificationNotFoundError = Some (''NOT_FOUND'', 404)"
| "app_error_40x TransactionNotFoundError = Some (''NOT_FOUND'', 404)"
| "app_error_40x BankAccountNotFoundError = Some (''NOT_FOUND'', 404)"
| "app_error_40x DisputeNotFoundError = Some (''NOT_FOUND'', 404)"
| "app_error_40x _ = None"

fun app_error_409 :: "exn \<Rightarrow> (string \<times> nat) option" where
  "app_error_409 UserAlreadyExistsError = Some (''CONFLICT'', 409)"
| "app_error_409 AgreementAlreadyExistsError = Some (''CONFLICT'', 409)"
| "app_error_409 InsufficientFundsError = Some (''INSUFFICIENT_FUNDS'', 409)"
| "app_error_409 InsufficientEscrowBalanceError = Some (''INSUFFICIENT_ESCROW_BALANCE'', 409)"
| "app_error_409 DuplicateBankAccountError = Some (''CONFLICT'', 409)"
| "app_error_409 DisputeAlreadyExistsError = Some (''CONFLICT'', 409)"
| "app_error_409 DisputeNotOpenError = Some (''CONFLICT'', 409)"
| "app_error_409 IdempotencyConflictError = Some (''IDEMPOTENT_REQUEST_IN_PROGRESS'', 409)"
| "app_error_409 IdempotencyKeyReusedError = Some (''IDEMPOTENCY_KEY_REUSED'', 409)"
| "app_error_409 _ = None"

fun app_error_500 :: "exn \<Rightarrow> (string \<times> nat) option" where
  "app_error_500 AgreementCreationError = Some (''INTERNAL_SERVER_ERROR'', 500)"
| "app_error_500 ConditionSaveError = Some (''INTERNAL_SERVER_ERROR'', 500)"
| "app_error_500 AgreementAcceptanceError = Some (''INTERNAL_SERVER_ERROR'', 500)"
| "app_error_500 AssetUploadError = Some (''INTERNAL_SERVER_ERROR'', 500)"
| "app_error_500 AssetApprovalError = Some (''INTERNAL_SERVER_ERROR'', 500)"
| "app_error_500 AssetNotFoundError = Some (''NOT_FOUND'', 404)"
| "app_error_500 AssetRetrievalError = Some (''INTERNAL_SERVER_ERROR'', 500)"
| "app_error_500 WalletNotFoundError = Some (''NOT_FOUND'', 404)"
| "app_error_500 PaystackTransactionNotFoundError = Some (''NOT_FOUND'', 404)"
| "app_error_500 DisputeCreationError = Some (''INTERNAL_SERVER_ERROR'', 500)"
| "app_error_500 _ = None"

text \<open>The subclasses of \<^verbatim>\<open>AppError\<close> defined in \<^verbatim>\<open>paystack_client.py\<close>.\<close>

fun paystack_error :: "exn \<Rightarrow> (string \<times> nat) option" where
  "paystack_error (PaystackError m) = Some (''PAYSTACK_ERROR'', 502)"
| "paystack_error PaystackTimeoutError = Some (''PAYSTACK_TIMEOUT'', 504)"
| "paystack_error (PaystackValidationError m) = Some (''PAYSTACK_VALIDATION_ERROR'', 400)"
| "paystack_error (PaystackDuplicateReferenceError m) =
     Some (''PAYSTACK_DUPLICATE_REFERENCE'', 409)"
| "paystack_error _ = None"

definition app_error :: "exn \<Rightarrow> (string \<times> nat) option" where
  "app_error e =
     (case app_error_40x e of Some x \<Rightarrow> Some x | None \<Rightarrow>
     (case app_error_409 e of Some x \<Rightarrow> Some x | None \<Rightarrow>
     (case app_error_500 e of Some x \<Rightarrow> Some x | None \<Rightarrow> paystack_error e)))"

definition is_paystack_error :: "exn \<Rightarrow> bool" where
  "is_paystack_error e \<longleftrightarrow> paystack_error e \<noteq> None"

text \<open>\<^verbatim>\<open>err.message\<close> of a \<^verbatim>\<open>PaystackError\<close>.\<close>

fun paystack_message :: "exn \<Rightarrow> string" where
  "paystack_message (PaystackError m) = m"
| "paystack_message PaystackTimeoutError = ''Payment provider timed out''"
| "paystack_message (PaystackValidationError m) = m"
| "paystack_message (PaystackDuplicateReferenceError m) = m"
| "paystack_message _ = ''''"

end
