(* ===== verification/Models.thy ===== *)
theory Models
  imports Enums
begin

text \<open>
  The tables of \<^verbatim>\<open>src/app/models/\<close>: one record per SQLModel class, with its columns in the
  source's order (a field is the column's name with the table's initial in front), and the
  constraints PostgreSQL enforces on each table (primary key, UNIQUE, partial unique indexes and
  CHECK).  \<^verbatim>\<open>Numeric(12, 2)\<close> columns reject a value of \<open>10 ^ 10\<close> or more.

  Titles and messages of notifications and the raw bodies of webhooks are not columns of the model;
  the error text of a webhook event is the exception it is rendered from (\<open>Inl\<close>) or the outcome's
  status word (\<open>Inr\<close>).  Ids, references and e-mail addresses are strings, a \<^verbatim>\<open>datetime\<close> is an integer (seconds), a
  \<^verbatim>\<open>Decimal\<close> is a rational.  ORM relationships are not columns; where the program follows one
  it is a lookup by the foreign key.  Foreign keys are not enforced by the model: every key the
  program stores is the key of a row it has just read or written.
\<close>

type_synonym id = string
type_synonym money = rat
type_synonym time = int

datatype json =
    JNull
  | JBool bool
  | JInt int
  | JDec rat
  | JStr string
  | JObj "(string \<times> json) list"

type_synonym metadata = "(string \<times> json) list"

definition json_opt :: "string option \<Rightarrow> json" where
  "json_opt x = (case x of None \<Rightarrow> JNull | Some v \<Rightarrow> JStr v)"

section \<open>Rows\<close>

record user =
  u_id :: id
  u_email :: string
  u_phone_number :: "string option"
  u_name :: string
  u_profile_picture_url :: "string option"
  u_active :: int
  u_is_admin :: bool
  u_created_at :: time

record agreement =
  a_id :: id
  a_user_id :: id
  a_title :: string
  a_description :: string
  a_amount :: money
  a_status :: agreement_status
  a_created_at :: time

record participant =
  p_id :: id
  p_agreement_id :: id
  p_user_id :: id
  p_role :: participant_role
  p_status :: invitation_status
  p_joined_at :: time

record invitation =
  i_id :: id
  i_email :: string
  i_token :: string
  i_agreement_id :: id
  i_role :: participant_role
  i_invited_by :: id
  i_status :: "invitation_row_status option"
  i_expires_at :: time

record condition =
  c_id :: id
  c_agreement_id :: id
  c_participant_id :: id
  c_invitation_id :: "id option"
  c_title :: string
  c_description :: string
  c_required_from_participant_id :: "id option"
  c_status :: condition_status
  c_approved_at :: "time option"
  c_rejected_reason :: "string option"
  c_created_at :: time

record dispute =
  d_id :: id
  d_agreement_id :: id
  d_raised_by_user_id :: id
  d_against_user_id :: id
  d_category :: dispute_category
  d_description :: string
  d_status :: dispute_status
  d_agreement_status_before :: agreement_status
  d_resolution_outcome :: "dispute_resolution_outcome option"
  d_resolution_notes :: "string option"
  d_resolved_by_user_id :: "id option"
  d_resolved_at :: "time option"
  d_created_at :: time
  d_updated_at :: time

record asset_file =
  f_id :: id
  f_url :: string
  f_type :: string
  f_name :: string
  f_size :: rat

record asset =
  s_id :: id
  s_condition_id :: "id option"
  s_dispute_id :: "id option"
  s_file_id :: id
  s_uploaded_by :: id
  s_is_approved :: bool
  s_uploaded_at :: time

record wallet =
  w_id :: id
  w_user_id :: id
  w_available_balance :: money
  w_escrow_balance :: money
  w_currency :: string
  w_created_at :: time
  w_updated_at :: time

record transaction =
  t_id :: id
  t_user_id :: id
  t_wallet_id :: id
  t_reference :: string
  t_group_id :: "string option"
  t_agreement_id :: "id option"
  t_participant_id :: "id option"
  t_condition_id :: "id option"
  t_paystack_transaction_id :: "id option"
  t_counterparty_user_id :: "id option"
  t_amount :: money
  t_currency :: string
  t_available_delta :: money
  t_escrow_delta :: money
  t_balance_after :: money
  t_escrow_after :: money
  t_type :: ledger_entry_type
  t_direction :: ledger_direction
  t_status :: ledger_entry_status
  t_description :: "string option"
  t_metadata :: "metadata option"
  t_created_at :: time
  t_processed_at :: "time option"

record paystack_transaction =
  pt_id :: id
  pt_user_id :: id
  pt_reference :: string
  pt_paystack_id :: "int option"
  pt_amount :: money
  pt_currency :: string
  pt_status :: transaction_status
  pt_transaction_type :: transaction_type
  pt_transfer_code :: "string option"
  pt_recipient_code :: "string option"
  pt_bank_account_id :: "id option"
  pt_failure_reason :: "string option"
  pt_payment_channel :: "string option"
  pt_gateway_response :: "string option"
  pt_created_at :: time

record bank_account =
  b_id :: id
  b_user_id :: id
  b_account_number :: string
  b_bank_code :: string
  b_bank_name :: string
  b_account_name :: string
  b_recipient_code :: string
  b_currency :: string
  b_is_default :: bool
  b_is_active :: bool
  b_created_at :: time
  b_updated_at :: time

record webhook_event =
  e_id :: id
  e_provider :: string
  e_dedupe_key :: string
  e_event_type :: string
  e_provider_event_id :: "string option"
  e_reference :: "string option"
  e_status :: webhook_event_status
  e_attempts :: nat
  e_error :: "(exn + string) option"
  e_received_at :: time
  e_processed_at :: "time option"

record idempotency_key =
  k_id :: id
  k_user_id :: id
  k_key :: string
  k_endpoint :: string
  k_request_hash :: string
  k_status :: idempotency_status
  k_response_status_code :: "nat option"
  k_response_body :: "json option"
  k_resource_reference :: "string option"
  k_created_at :: time
  k_completed_at :: "time option"
  k_expires_at :: time

record notification =
  n_id :: id
  n_user_id :: id
  n_type :: notification_type
  n_metadata :: "metadata option"
  n_is_read :: bool
  n_created_at :: time

record refresh_token =
  r_jti :: string
  r_user_id :: id
  r_issued_at :: time
  r_expires_at :: time
  r_revoked_at :: "time option"
  r_replaced_by_jti :: "string option"

section \<open>The database\<close>

record db =
  users :: "user list"
  agreements :: "agreement list"
  participants :: "participant list"
  invitations :: "invitation list"
  conditions :: "condition list"
  disputes :: "dispute list"
  asset_files :: "asset_file list"
  assets :: "asset list"
  wallets :: "wallet list"
  transactions :: "transaction list"
  paystack_transactions :: "paystack_transaction list"
  bank_accounts :: "bank_account list"
  webhook_events :: "webhook_event list"
  idempotency_keys :: "idempotency_key list"
  notifications :: "notification list"
  refresh_tokens :: "refresh_token list"

definition empty_db :: db where
  "empty_db =
     \<lparr>users = [], agreements = [], participants = [], invitations = [], conditions = [],
      disputes = [], asset_files = [], assets = [], wallets = [], transactions = [],
      paystack_transactions = [], bank_accounts = [], webhook_events = [],
      idempotency_keys = [], notifications = [], refresh_tokens = []\<rparr>"

section \<open>Constraints\<close>

definition numeric_12_2 :: "money \<Rightarrow> bool" where
  "numeric_12_2 x \<longleftrightarrow> \<bar>x\<bar> < 10000000000"

definition wallet_constraints :: "wallet list \<Rightarrow> bool" where
  "wallet_constraints ws \<longleftrightarrow>
     distinct (map w_id ws) \<and> distinct (map w_user_id ws) \<and>
     list_all (\<lambda>w. 0 \<le> w_available_balance w \<and> 0 \<le> w_escrow_balance w) ws"

definition wallet_fits :: "wallet \<Rightarrow> bool" where
  "wallet_fits w \<longleftrightarrow> numeric_12_2 (w_available_balance w) \<and> numeric_12_2 (w_escrow_balance w)"

definition transaction_constraints :: "transaction list \<Rightarrow> bool" where
  "transaction_constraints ts \<longleftrightarrow>
     distinct (map t_id ts) \<and> distinct (map t_reference ts) \<and> list_all (\<lambda>t. 0 < t_amount t) ts"

definition transaction_fits :: "transaction \<Rightarrow> bool" where
  "transaction_fits t \<longleftrightarrow>
     numeric_12_2 (t_amount t) \<and> numeric_12_2 (t_available_delta t) \<and>
     numeric_12_2 (t_escrow_delta t) \<and> numeric_12_2 (t_balance_after t) \<and>
     numeric_12_2 (t_escrow_after t)"

definition paystack_constraints :: "paystack_transaction list \<Rightarrow> bool" where
  "paystack_constraints ps \<longleftrightarrow> distinct (map pt_id ps) \<and> distinct (map pt_reference ps)"

definition participant_constraints :: "participant list \<Rightarrow> bool" where
  "participant_constraints ps \<longleftrightarrow>
     distinct (map p_id ps) \<and> distinct (map (\<lambda>p. (p_agreement_id p, p_user_id p)) ps)"

definition dispute_active :: "dispute \<Rightarrow> bool" where
  "dispute_active d \<longleftrightarrow> d_status d \<in> {OPEN, UNDER_REVIEW}"

definition dispute_constraints :: "dispute list \<Rightarrow> bool" where
  "dispute_constraints ds \<longleftrightarrow>
     distinct (map d_id ds) \<and> distinct (map d_agreement_id (filter dispute_active ds))"

definition asset_constraints :: "asset list \<Rightarrow> bool" where
  "asset_constraints xs \<longleftrightarrow>
     distinct (map s_id xs) \<and>
     list_all (\<lambda>x. (s_condition_id x \<noteq> None \<and> s_dispute_id x = None) \<or>
                   (s_condition_id x = None \<and> s_dispute_id x \<noteq> None)) xs"

definition bank_account_constraints :: "bank_account list \<Rightarrow> bool" where
  "bank_account_constraints bs \<longleftrightarrow>
     distinct (map b_id bs) \<and> distinct (map b_recipient_code bs) \<and>
     distinct (map (\<lambda>b. (b_user_id b, b_bank_code b, b_account_number b))
                 (filter b_is_active bs)) \<and>
     distinct (map b_user_id (filter (\<lambda>b. b_is_default b \<and> b_is_active b) bs))"

definition invitation_constraints :: "invitation list \<Rightarrow> bool" where
  "invitation_constraints xs \<longleftrightarrow> distinct (map i_id xs) \<and> distinct (map i_token xs)"

definition user_constraints :: "user list \<Rightarrow> bool" where
  "user_constraints us \<longleftrightarrow> distinct (map u_id us) \<and> distinct (map u_email us)"

definition webhook_event_constraints :: "webhook_event list \<Rightarrow> bool" where
  "webhook_event_constraints es \<longleftrightarrow> distinct (map e_id es) \<and> distinct (map e_dedupe_key es)"

definition idempotency_key_constraints :: "idempotency_key list \<Rightarrow> bool" where
  "idempotency_key_constraints ks \<longleftrightarrow>
     distinct (map k_id ks) \<and> distinct (map (\<lambda>k. (k_user_id k, k_endpoint k, k_key k)) ks)"

text \<open>The remaining tables have their primary key only.\<close>

definition agreement_constraints :: "agreement list \<Rightarrow> bool" where
  "agreement_constraints xs \<longleftrightarrow> distinct (map a_id xs)"

definition condition_constraints :: "condition list \<Rightarrow> bool" where
  "condition_constraints xs \<longleftrightarrow> distinct (map c_id xs)"

definition asset_file_constraints :: "asset_file list \<Rightarrow> bool" where
  "asset_file_constraints xs \<longleftrightarrow> distinct (map f_id xs)"

definition notification_constraints :: "notification list \<Rightarrow> bool" where
  "notification_constraints xs \<longleftrightarrow> distinct (map n_id xs)"

definition refresh_token_constraints :: "refresh_token list \<Rightarrow> bool" where
  "refresh_token_constraints xs \<longleftrightarrow> distinct (map r_jti xs)"

definition db_ok :: "db \<Rightarrow> bool" where
  "db_ok d \<longleftrightarrow>
     user_constraints (users d) \<and> agreement_constraints (agreements d) \<and>
     participant_constraints (participants d) \<and> invitation_constraints (invitations d) \<and>
     condition_constraints (conditions d) \<and> dispute_constraints (disputes d) \<and>
     asset_file_constraints (asset_files d) \<and> asset_constraints (assets d) \<and>
     wallet_constraints (wallets d) \<and> transaction_constraints (transactions d) \<and>
     paystack_constraints (paystack_transactions d) \<and>
     bank_account_constraints (bank_accounts d) \<and>
     webhook_event_constraints (webhook_events d) \<and>
     idempotency_key_constraints (idempotency_keys d) \<and>
     notification_constraints (notifications d) \<and> refresh_token_constraints (refresh_tokens d)"

end
