(* ===== verification/Session.thy ===== *)
theory Session
  imports Models
begin

text \<open>
  What one HTTP request sees: the SQLAlchemy session it shares between all its repositories
  (\<^verbatim>\<open>src/app/database.py\<close>), the optional Redis cache (\<^verbatim>\<open>src/app/redis.py\<close>), the clock, the
  source of fresh ids, and the logs of what it sent to the outside.

  \<^item> \<open>committed\<close> is the database other requests see; \<open>work\<close> is the current transaction of this
    session: every flushed but uncommitted change is in \<open>work\<close> only.  \<^verbatim>\<open>commit()\<close> copies \<open>work\<close>
    to \<open>committed\<close>, \<^verbatim>\<open>rollback()\<close> copies back.
  \<^item> a write checks the constraints of its table at once (SQLAlchemy flushes before the next query
    or at the commit, inside the same \<^verbatim>\<open>try\<close> in every caller): a violated constraint is
    \<open>IntegrityError\<close>, a \<^verbatim>\<open>Numeric(12, 2)\<close> column overflowing is \<open>DataError\<close>.
  \<^item> \<open>redis = None\<close> is a process without a Redis client.  A failing client is swallowed by the
    code exactly as a missing one is, so it needs no case of its own.  Expiry of an entry may
    happen at any moment; it is the step \<open>evict\<close>.
  \<^item> \<open>uuid_supply\<close> stands for \<^verbatim>\<open>uuid4()\<close> and \<^verbatim>\<open>secrets.token_urlsafe\<close>: the \<open>n\<close>-th draw.
\<close>

section \<open>State\<close>

datatype cached =
    CAgreement agreement
  | CUserAgreements "(agreement \<times> nat \<times> nat \<times> bool) list"
  | CUser user
  | CAsset asset
  | CAssets "asset list"
  | CInvitation invitation
  | CBanks "(string \<times> string) list"

type_synonym cache = "string \<Rightarrow> cached option"

datatype ws_frame =
    WsWallet string "string option" money "(money \<times> money \<times> money) option"
  | WsAgreement string id agreement_status
  | WsDispute string id id

datatype http_request = HttpRequest string string "(string \<times> json) list"

record session =
  committed :: db
  work :: db
  redis :: "cache option"
  clock :: time
  uuid_supply :: "nat \<Rightarrow> string"
  uuid_next :: nat
  outbound :: "http_request list"
  pushes :: "(id \<times> ws_frame) list"
  emails :: "(string \<times> string) list"

type_synonym 'a handler = "(session, exn, 'a) prog"

section \<open>Transactions\<close>

definition commit :: "unit handler" where
  "commit = modify (\<lambda>s. s\<lparr>committed := work s\<rparr>)"

definition rollback :: "unit handler" where
  "rollback = modify (\<lambda>s. s\<lparr>work := committed s\<rparr>)"

definition commit_if :: "bool \<Rightarrow> unit handler" where
  "commit_if b = when_m b commit"

text \<open>
  \<^verbatim>\<open>get_session()\<close>: one session per request, closed (so rolled back) when the request ends.
\<close>

definition with_session :: "'a handler \<Rightarrow> 'a handler" where
  "with_session m =
     bnd rollback (\<lambda>_. try_except (bnd m (\<lambda>x. bnd rollback (\<lambda>_. return x)))
                                  (\<lambda>e. bnd rollback (\<lambda>_. raise e)))"

definition now :: "time handler" where
  "now = reads clock"

definition uuid4 :: "string handler" where
  "uuid4 = bnd (reads (\<lambda>s. uuid_supply s (uuid_next s))) (\<lambda>u.
           bnd (modify (\<lambda>s. s\<lparr>uuid_next := Suc (uuid_next s)\<rparr>)) (\<lambda>_. return u))"

section \<open>Tables\<close>

record 'r table =
  rows :: "db \<Rightarrow> 'r list"
  put_rows :: "'r list \<Rightarrow> db \<Rightarrow> db"
  pkey :: "'r \<Rightarrow> string"
  constraints :: "'r list \<Rightarrow> bool"
  fits :: "'r \<Rightarrow> bool"

definition write_rows :: "'r table \<Rightarrow> 'r list \<Rightarrow> unit handler" where
  "write_rows T rs =
     bnd (reads (\<lambda>_. constraints T rs)) (\<lambda>ok.
     if ok then modify (\<lambda>s. s\<lparr>work := put_rows T rs (work s)\<rparr>) else raise IntegrityError)"

text \<open>\<^verbatim>\<open>session.add(new_object)\<close> and flush; \<^verbatim>\<open>session.add(loaded_object)\<close> after mutating it.\<close>

definition insert_row :: "'r table \<Rightarrow> 'r \<Rightarrow> unit handler" where
  "insert_row T r =
     bnd (reads (\<lambda>s. rows T (work s))) (\<lambda>rs.
     if fits T r then write_rows T (rs @ [r]) else raise DataError)"

definition save_row :: "'r table \<Rightarrow> 'r \<Rightarrow> unit handler" where
  "save_row T r =
     bnd (reads (\<lambda>s. rows T (work s))) (\<lambda>rs.
     if fits T r then write_rows T (replace_by (pkey T) r rs) else raise DataError)"

definition update_rows :: "'r table \<Rightarrow> ('r \<Rightarrow> bool) \<Rightarrow> ('r \<Rightarrow> 'r) \<Rightarrow> unit handler" where
  "update_rows T P f =
     bnd (reads (\<lambda>s. rows T (work s))) (\<lambda>rs.
     write_rows T (map (\<lambda>r. if P r then f r else r) rs))"

definition delete_rows :: "'r table \<Rightarrow> ('r \<Rightarrow> bool) \<Rightarrow> unit handler" where
  "delete_rows T P =
     bnd (reads (\<lambda>s. rows T (work s))) (\<lambda>rs. write_rows T (filter (\<lambda>r. \<not> P r) rs))"

definition select :: "'r table \<Rightarrow> ('r \<Rightarrow> bool) \<Rightarrow> 'r list handler" where
  "select T P = reads (\<lambda>s. filter P (rows T (work s)))"

definition select_first :: "'r table \<Rightarrow> ('r \<Rightarrow> bool) \<Rightarrow> 'r option handler" where
  "select_first T P = reads (\<lambda>s. find_first P (rows T (work s)))"

definition get_row :: "'r table \<Rightarrow> string \<Rightarrow> 'r option handler" where
  "get_row T k = select_first T (\<lambda>r. pkey T r = k)"

text \<open>\<^verbatim>\<open>session.refresh(row)\<close>: the row as the database has it now.\<close>

definition refresh :: "'r table \<Rightarrow> 'r \<Rightarrow> 'r handler" where
  "refresh T r =
     bnd (get_row T (pkey T r)) (\<lambda>x.
     case x of None \<Rightarrow> raise InvalidRequestError | Some r' \<Rightarrow> return r')"

definition user_t :: "user table" where
  "user_t = \<lparr>rows = users, put_rows = (\<lambda>x d. d\<lparr>users := x\<rparr>), pkey = u_id,
             constraints = user_constraints, fits = (\<lambda>_. True)\<rparr>"

definition agreement_t :: "agreement table" where
  "agreement_t = \<lparr>rows = agreements, put_rows = (\<lambda>x d. d\<lparr>agreements := x\<rparr>), pkey = a_id,
                  constraints = agreement_constraints, fits = (\<lambda>_. True)\<rparr>"

definition participant_t :: "participant table" where
  "participant_t = \<lparr>rows = participants, put_rows = (\<lambda>x d. d\<lparr>participants := x\<rparr>), pkey = p_id,
                    constraints = participant_constraints, fits = (\<lambda>_. True)\<rparr>"

definition invitation_t :: "invitation table" where
  "invitation_t = \<lparr>rows = invitations, put_rows = (\<lambda>x d. d\<lparr>invitations := x\<rparr>), pkey = i_id,
                   constraints = invitation_constraints, fits = (\<lambda>_. True)\<rparr>"

definition condition_t :: "condition table" where
  "condition_t = \<lparr>rows = conditions, put_rows = (\<lambda>x d. d\<lparr>conditions := x\<rparr>), pkey = c_id,
                  constraints = condition_constraints, fits = (\<lambda>_. True)\<rparr>"

definition dispute_t :: "dispute table" where
  "dispute_t = \<lparr>rows = disputes, put_rows = (\<lambda>x d. d\<lparr>disputes := x\<rparr>), pkey = d_id,
                constraints = dispute_constraints, fits = (\<lambda>_. True)\<rparr>"

definition asset_file_t :: "asset_file table" where
  "asset_file_t = \<lparr>rows = asset_files, put_rows = (\<lambda>x d. d\<lparr>asset_files := x\<rparr>), pkey = f_id,
                   constraints = asset_file_constraints, fits = (\<lambda>_. True)\<rparr>"

definition asset_t :: "asset table" where
  "asset_t = \<lparr>rows = assets, put_rows = (\<lambda>x d. d\<lparr>assets := x\<rparr>), pkey = s_id,
              constraints = asset_constraints, fits = (\<lambda>_. True)\<rparr>"

definition wallet_t :: "wallet table" where
  "wallet_t = \<lparr>rows = wallets, put_rows = (\<lambda>x d. d\<lparr>wallets := x\<rparr>), pkey = w_id,
               constraints = wallet_constraints, fits = wallet_fits\<rparr>"

definition transaction_t :: "transaction table" where
  "transaction_t = \<lparr>rows = transactions, put_rows = (\<lambda>x d. d\<lparr>transactions := x\<rparr>), pkey = t_id,
                    constraints = transaction_constraints, fits = transaction_fits\<rparr>"

definition paystack_t :: "paystack_transaction table" where
  "paystack_t = \<lparr>rows = paystack_transactions,
                 put_rows = (\<lambda>x d. d\<lparr>paystack_transactions := x\<rparr>), pkey = pt_id,
                 constraints = paystack_constraints, fits = (\<lambda>p. numeric_12_2 (pt_amount p))\<rparr>"

definition bank_account_t :: "bank_account table" where
  "bank_account_t = \<lparr>rows = bank_accounts, put_rows = (\<lambda>x d. d\<lparr>bank_accounts := x\<rparr>),
                     pkey = b_id, constraints = bank_account_constraints, fits = (\<lambda>_. True)\<rparr>"

definition webhook_event_t :: "webhook_event table" where
  "webhook_event_t = \<lparr>rows = webhook_events, put_rows = (\<lambda>x d. d\<lparr>webhook_events := x\<rparr>),
                      pkey = e_id, constraints = webhook_event_constraints, fits = (\<lambda>_. True)\<rparr>"

definition idempotency_key_t :: "idempotency_key table" where
  "idempotency_key_t = \<lparr>rows = idempotency_keys, put_rows = (\<lambda>x d. d\<lparr>idempotency_keys := x\<rparr>),
                        pkey = k_id, constraints = idempotency_key_constraints,
                        fits = (\<lambda>_. True)\<rparr>"

definition notification_t :: "notification table" where
  "notification_t = \<lparr>rows = notifications, put_rows = (\<lambda>x d. d\<lparr>notifications := x\<rparr>),
                     pkey = n_id, constraints = notification_constraints, fits = (\<lambda>_. True)\<rparr>"

definition refresh_token_t :: "refresh_token table" where
  "refresh_token_t = \<lparr>rows = refresh_tokens, put_rows = (\<lambda>x d. d\<lparr>refresh_tokens := x\<rparr>),
                      pkey = r_jti, constraints = refresh_token_constraints,
                      fits = (\<lambda>_. True)\<rparr>"

lemmas table_defs =
  user_t_def agreement_t_def participant_t_def invitation_t_def condition_t_def dispute_t_def
  asset_file_t_def asset_t_def wallet_t_def transaction_t_def paystack_t_def bank_account_t_def
  webhook_event_t_def idempotency_key_t_def notification_t_def refresh_token_t_def

lemma table_simps [simp]:
  "rows user_t = users" "pkey user_t = u_id" "constraints user_t = user_constraints"
  "put_rows user_t user_rows d = d\<lparr>users := user_rows\<rparr>"
  "rows agreement_t = agreements" "pkey agreement_t = a_id" "constraints agreement_t = agreement_constraints"
  "put_rows agreement_t agreement_rows d = d\<lparr>agreements := agreement_rows\<rparr>"
  "rows participant_t = participants" "pkey participant_t = p_id" "constraints participant_t = participant_constraints"
  "put_rows participant_t participant_rows d = d\<lparr>participants := participant_rows\<rparr>"
  "rows invitation_t = invitations" "pkey invitation_t = i_id" "constraints invitation_t = invitation_constraints"
  "put_rows invitation_t invitation_rows d = d\<lparr>invitations := invitation_rows\<rparr>"
  "rows condition_t = conditions" "pkey condition_t = c_id" "constraints condition_t = condition_constraints"
  "put_rows condition_t condition_rows d = d\<lparr>conditions := condition_rows\<rparr>"
  "rows dispute_t = disputes" "pkey dispute_t = d_id" "constraints dispute_t = dispute_constraints"
  "put_rows dispute_t dispute_rows d = d\<lparr>disputes := dispute_rows\<rparr>"
  "rows asset_file_t = asset_files" "pkey asset_file_t = f_id" "constraints asset_file_t = asset_file_constraints"
  "put_rows asset_file_t asset_file_rows d = d\<lparr>asset_files := asset_file_rows\<rparr>"
  "rows asset_t = assets" "pkey asset_t = s_id" "constraints asset_t = asset_constraints"
  "put_rows asset_t asset_rows d = d\<lparr>assets := asset_rows\<rparr>"
  "rows wallet_t = wallets" "pkey wallet_t = w_id" "constraints wallet_t = wallet_constraints"
  "put_rows wallet_t wallet_rows d = d\<lparr>wallets := wallet_rows\<rparr>"
  "rows transaction_t = transactions" "pkey transaction_t = t_id" "constraints transaction_t = transaction_constraints"
  "put_rows transaction_t transaction_rows d = d\<lparr>transactions := transaction_rows\<rparr>"
  "rows paystack_t = paystack_transactions" "pkey paystack_t = pt_id" "constraints paystack_t = paystack_constraints"
  "put_rows paystack_t paystack_rows d = d\<lparr>paystack_transactions := paystack_rows\<rparr>"
  "rows bank_account_t = bank_accounts" "pkey bank_account_t = b_id" "constraints bank_account_t = bank_account_constraints"
  "put_rows bank_account_t bank_account_rows d = d\<lparr>bank_accounts := bank_account_rows\<rparr>"
  "rows webhook_event_t = webhook_events" "pkey webhook_event_t = e_id" "constraints webhook_event_t = webhook_event_constraints"
  "put_rows webhook_event_t webhook_event_rows d = d\<lparr>webhook_events := webhook_event_rows\<rparr>"
  "rows idempotency_key_t = idempotency_keys" "pkey idempotency_key_t = k_id" "constraints idempotency_key_t = idempotency_key_constraints"
  "put_rows idempotency_key_t idempotency_key_rows d = d\<lparr>idempotency_keys := idempotency_key_rows\<rparr>"
  "rows notification_t = notifications" "pkey notification_t = n_id" "constraints notification_t = notification_constraints"
  "put_rows notification_t notification_rows d = d\<lparr>notifications := notification_rows\<rparr>"
  "rows refresh_token_t = refresh_tokens" "pkey refresh_token_t = r_jti" "constraints refresh_token_t = refresh_token_constraints"
  "put_rows refresh_token_t refresh_token_rows d = d\<lparr>refresh_tokens := refresh_token_rows\<rparr>"
  "fits wallet_t = wallet_fits" "fits transaction_t = transaction_fits"
  "fits paystack_t = (\<lambda>p. numeric_12_2 (pt_amount p))"
  "fits user_t = (\<lambda>_. True)"
  "fits agreement_t = (\<lambda>_. True)"
  "fits participant_t = (\<lambda>_. True)"
  "fits invitation_t = (\<lambda>_. True)"
  "fits condition_t = (\<lambda>_. True)"
  "fits dispute_t = (\<lambda>_. True)"
  "fits asset_file_t = (\<lambda>_. True)"
  "fits asset_t = (\<lambda>_. True)"
  "fits bank_account_t = (\<lambda>_. True)"
  "fits webhook_event_t = (\<lambda>_. True)"
  "fits idempotency_key_t = (\<lambda>_. True)"
  "fits notification_t = (\<lambda>_. True)"
  "fits refresh_token_t = (\<lambda>_. True)"
  by (simp_all add: table_defs)

section \<open>Redis\<close>

definition cache_get :: "string \<Rightarrow> cached option handler" where
  "cache_get key = reads (\<lambda>s. case redis s of None \<Rightarrow> None | Some c \<Rightarrow> c key)"

definition cache_set :: "string \<Rightarrow> cached \<Rightarrow> unit handler" where
  "cache_set key v =
     modify (\<lambda>s. s\<lparr>redis := map_option (\<lambda>c. c(key := Some v)) (redis s)\<rparr>)"

definition cache_delete :: "string list \<Rightarrow> unit handler" where
  "cache_delete keys =
     modify (\<lambda>s. s\<lparr>redis := map_option (\<lambda>c k. if k \<in> set keys then None else c k) (redis s)\<rparr>)"

definition evict :: "string \<Rightarrow> unit handler" where
  "evict key = cache_delete [key]"

definition push_ws :: "id \<Rightarrow> ws_frame \<Rightarrow> unit handler" where
  "push_ws user_id fr = modify (\<lambda>s. s\<lparr>pushes := pushes s @ [(user_id, fr)]\<rparr>)"

text \<open>\<^verbatim>\<open>try: ... except Exception: logger.exception(...)\<close>: best effort, never raises.\<close>

definition best_effort :: "unit handler \<Rightarrow> unit handler" where
  "best_effort m = try_except m (\<lambda>_. return ())"

section \<open>What the primitives keep\<close>

text \<open>An invariant of the database, held by the committed state and by the transaction.\<close>

definition both :: "(db \<Rightarrow> bool) \<Rightarrow> session \<Rightarrow> bool" where
  "both I s \<longleftrightarrow> I (committed s) \<and> I (work s)"

lemma bothI: "I (committed s) \<Longrightarrow> I (work s) \<Longrightarrow> both I s"
  by (simp add: both_def)

lemma both_commit [keeps_intros]: "keeps (both I) commit"
  by (simp add: commit_def keeps_def both_def)

lemma both_rollback [keeps_intros]: "keeps (both I) rollback"
  by (simp add: rollback_def keeps_def both_def)

lemma both_commit_if [keeps_intros]: "keeps (both I) (commit_if b)"
  by (simp add: commit_if_def keeps_intros)

lemma both_with_session [keeps_intros]: "keeps (both I) m \<Longrightarrow> keeps (both I) (with_session m)"
  by (simp add: with_session_def keeps_intros)

lemma both_now [keeps_intros]: "keeps (both I) now"
  by (simp add: now_def keeps_intros)

lemma both_uuid4 [keeps_intros]: "keeps (both I) uuid4"
  by (auto simp: uuid4_def both_def intro!: keeps_intros keeps_modify)

lemma both_select [keeps_intros]: "keeps (both I) (select T P)"
  by (simp add: select_def keeps_intros)

lemma both_select_first [keeps_intros]: "keeps (both I) (select_first T P)"
  by (simp add: select_first_def keeps_intros)

lemma both_get_row [keeps_intros]: "keeps (both I) (get_row T k)"
  by (simp add: get_row_def keeps_intros)

lemma both_refresh [keeps_intros]: "keeps (both I) (refresh T r)"
  by (simp add: refresh_def keeps_intros)

lemma both_cache_get [keeps_intros]: "keeps (both I) (cache_get k)"
  by (simp add: cache_get_def keeps_intros)

lemma both_cache_set [keeps_intros]: "keeps (both I) (cache_set k v)"
  by (auto simp: cache_set_def both_def intro!: keeps_modify)

lemma both_cache_delete [keeps_intros]: "keeps (both I) (cache_delete ks)"
  by (auto simp: cache_delete_def both_def intro!: keeps_modify)

lemma both_push_ws [keeps_intros]: "keeps (both I) (push_ws u f)"
  by (auto simp: push_ws_def both_def intro!: keeps_modify)

lemma both_best_effort [keeps_intros]: "keeps (both I) m \<Longrightarrow> keeps (both I) (best_effort m)"
  by (simp add: best_effort_def keeps_intros)

text \<open>Writes keep an invariant that the new rows keep.\<close>

lemma both_write_rows:
  assumes "\<And>d. I d \<Longrightarrow> constraints T rs \<Longrightarrow> I (put_rows T rs d)"
  shows "keeps (both I) (write_rows T rs)"
  using assms by (auto simp: write_rows_def keeps_def both_def run)

lemma write_rows_eq:
  "write_rows T rs s =
     (if constraints T rs then (Inr (), s\<lparr>work := put_rows T rs (work s)\<rparr>)
      else (Inl IntegrityError, s))"
  by (simp add: write_rows_def run)

lemma insert_row_eq [run]:
  "insert_row T r s =
     (if \<not> fits T r then (Inl DataError, s)
      else if constraints T (rows T (work s) @ [r])
      then (Inr (), s\<lparr>work := put_rows T (rows T (work s) @ [r]) (work s)\<rparr>)
      else (Inl IntegrityError, s))"
  by (simp add: insert_row_def write_rows_eq run)

lemma save_row_eq [run]:
  "save_row T r s =
     (if \<not> fits T r then (Inl DataError, s)
      else if constraints T (replace_by (pkey T) r (rows T (work s)))
      then (Inr (), s\<lparr>work := put_rows T (replace_by (pkey T) r (rows T (work s))) (work s)\<rparr>)
      else (Inl IntegrityError, s))"
  by (simp add: save_row_def write_rows_eq run)

lemma update_rows_eq [run]:
  "update_rows T P f s =
     (let rs = map (\<lambda>r. if P r then f r else r) (rows T (work s))
      in if constraints T rs then (Inr (), s\<lparr>work := put_rows T rs (work s)\<rparr>)
         else (Inl IntegrityError, s))"
  by (simp add: update_rows_def write_rows_eq run Let_def)

lemma delete_rows_eq [run]:
  "delete_rows T P s =
     (let rs = filter (\<lambda>r. \<not> P r) (rows T (work s))
      in if constraints T rs then (Inr (), s\<lparr>work := put_rows T rs (work s)\<rparr>)
         else (Inl IntegrityError, s))"
  by (simp add: delete_rows_def write_rows_eq run Let_def)

lemma run_commit [run, simp]: "commit s = (Inr (), s\<lparr>committed := work s\<rparr>)"
  by (simp add: commit_def)

lemma run_rollback [run, simp]: "rollback s = (Inr (), s\<lparr>work := committed s\<rparr>)"
  by (simp add: rollback_def)

lemma run_commit_if [run]: "commit_if b s = (Inr (), if b then s\<lparr>committed := work s\<rparr> else s)"
  by (simp add: commit_if_def run)

lemma run_now [run, simp]: "now s = (Inr (clock s), s)"
  by (simp add: now_def)

lemma run_uuid4 [run, simp]:
  "uuid4 s = (Inr (uuid_supply s (uuid_next s)), s\<lparr>uuid_next := Suc (uuid_next s)\<rparr>)"
  by (simp add: uuid4_def run)

lemma run_select [run, simp]: "select T P s = (Inr (filter P (rows T (work s))), s)"
  by (simp add: select_def)

lemma run_select_first [run, simp]:
  "select_first T P s = (Inr (find_first P (rows T (work s))), s)"
  by (simp add: select_first_def)

lemma run_get_row [run, simp]:
  "get_row T k s = (Inr (find_first (\<lambda>r. pkey T r = k) (rows T (work s))), s)"
  by (simp add: get_row_def)

lemma run_refresh [run]:
  "refresh T r s =
     (case find_first (\<lambda>x. pkey T x = pkey T r) (rows T (work s)) of
        None \<Rightarrow> (Inl InvalidRequestError, s) | Some r' \<Rightarrow> (Inr r', s))"
  by (simp add: refresh_def run split: option.splits)

lemma run_cache_get [run, simp]:
  "cache_get k s = (Inr (case redis s of None \<Rightarrow> None | Some c \<Rightarrow> c k), s)"
  by (simp add: cache_get_def)

lemma run_cache_set [run, simp]:
  "cache_set k v s = (Inr (), s\<lparr>redis := map_option (\<lambda>c. c(k := Some v)) (redis s)\<rparr>)"
  by (simp add: cache_set_def)

lemma run_cache_delete [run, simp]:
  "cache_delete ks s =
     (Inr (), s\<lparr>redis := map_option (\<lambda>c k. if k \<in> set ks then None else c k) (redis s)\<rparr>)"
  by (simp add: cache_delete_def)

lemma run_push_ws [run, simp]:
  "push_ws u f s = (Inr (), s\<lparr>pushes := pushes s @ [(u, f)]\<rparr>)"
  by (simp add: push_ws_def)

lemma run_best_effort [run]:
  "best_effort m s = (Inr (), snd (m s))"
  by (simp add: best_effort_def run split: prod.splits sum.splits)

lemma bnd_session_steps [step]:
  "bnd commit k s = k () (s\<lparr>committed := work s\<rparr>)"
  "bnd rollback k s = k () (s\<lparr>work := committed s\<rparr>)"
  "bnd (commit_if b) k s = k () (if b then s\<lparr>committed := work s\<rparr> else s)"
  "bnd now g s = g (clock s) s"
  "bnd uuid4 g' s = g' (uuid_supply s (uuid_next s)) (s\<lparr>uuid_next := Suc (uuid_next s)\<rparr>)"
  "bnd (select T P) h s = h (filter P (rows T (work s))) s"
  "bnd (select_first T P) h' s = h' (find_first P (rows T (work s))) s"
  "bnd (get_row T i) h' s = h' (find_first (\<lambda>r. pkey T r = i) (rows T (work s))) s"
  "bnd (cache_get c) l s = l (case redis s of None \<Rightarrow> None | Some m \<Rightarrow> m c) s"
  "bnd (cache_set c v) k s = k () (s\<lparr>redis := map_option (\<lambda>m. m(c := Some v)) (redis s)\<rparr>)"
  "bnd (cache_delete cs) k s =
     k () (s\<lparr>redis := map_option (\<lambda>m x. if x \<in> set cs then None else m x) (redis s)\<rparr>)"
  "bnd (push_ws u f) k s = k () (s\<lparr>pushes := pushes s @ [(u, f)]\<rparr>)"
  "bnd (best_effort m) k s = k () (snd (m s))"
  by (simp_all add: run)

lemma bnd_table_steps [step]:
  "bnd (insert_row T r) k s =
     (if \<not> fits T r then (Inl DataError, s)
      else if constraints T (rows T (work s) @ [r])
      then k () (s\<lparr>work := put_rows T (rows T (work s) @ [r]) (work s)\<rparr>)
      else (Inl IntegrityError, s))"
  "bnd (save_row T r) k s =
     (if \<not> fits T r then (Inl DataError, s)
      else if constraints T (replace_by (pkey T) r (rows T (work s)))
      then k () (s\<lparr>work := put_rows T (replace_by (pkey T) r (rows T (work s))) (work s)\<rparr>)
      else (Inl IntegrityError, s))"
  "bnd (update_rows T P f) k s =
     (if constraints T (map (\<lambda>r. if P r then f r else r) (rows T (work s)))
      then k () (s\<lparr>work := put_rows T (map (\<lambda>r. if P r then f r else r) (rows T (work s))) (work s)\<rparr>)
      else (Inl IntegrityError, s))"
  "bnd (delete_rows T P) k s =
     (if constraints T (filter (\<lambda>r. \<not> P r) (rows T (work s)))
      then k () (s\<lparr>work := put_rows T (filter (\<lambda>r. \<not> P r) (rows T (work s))) (work s)\<rparr>)
      else (Inl IntegrityError, s))"
  "bnd (refresh T r) h s =
     (case find_first (\<lambda>x. pkey T x = pkey T r) (rows T (work s)) of
        None \<Rightarrow> (Inl InvalidRequestError, s) | Some r' \<Rightarrow> h r' s)"
  by (simp_all add: bnd_def insert_row_eq save_row_eq update_rows_eq delete_rows_eq run_refresh
      Let_def split: option.splits)

section \<open>The contract of a table\<close>

text \<open>
  What every table of the database promises its repository: the rows written are the rows read,
  writing leaves the other parts of a row list alone, and removing rows never breaks a constraint.
  Read-your-writes and "the constraints always hold" follow once for all tables.
\<close>

locale table_store =
  fixes T :: "'r table"
  assumes rows_put [simp]: "rows T (put_rows T rs d) = rs"
    and key_distinct: "constraints T rs \<Longrightarrow> distinct (map (pkey T) rs)"
    and constraints_filter: "constraints T rs \<Longrightarrow> constraints T (filter P rs)"
begin

lemma insert_then_get:
  assumes "insert_row T r s = (Inr (), t)"
  shows "get_row T (pkey T r) t = (Inr (Some r), t)"
proof -
  from assms have c: "constraints T (rows T (work s) @ [r])"
    and t: "t = s\<lparr>work := put_rows T (rows T (work s) @ [r]) (work s)\<rparr>"
    by (auto simp: insert_row_eq split: if_splits)
  from c have "distinct (map (pkey T) (rows T (work s) @ [r]))" by (rule key_distinct)
  then have "find_first (\<lambda>x. pkey T x = pkey T r) (rows T (work s) @ [r]) = Some r"
    by (rule find_first_key) simp
  with t show ?thesis by simp
qed

lemma insert_keeps_uncommitted: "insert_row T r s = (x, t) \<Longrightarrow> committed t = committed s"
  by (auto simp: insert_row_eq split: if_splits)

lemma insert_duplicate_key:
  assumes "x \<in> set (rows T (work s))" and "pkey T x = pkey T r" and "fits T r"
  shows "insert_row T r s = (Inl IntegrityError, s)"
proof -
  from assms have "\<not> distinct (map (pkey T) (rows T (work s) @ [r]))"
    by (auto simp: image_iff) (metis image_eqI)
  then have "\<not> constraints T (rows T (work s) @ [r])" using key_distinct by blast
  with assms show ?thesis by (simp add: insert_row_eq)
qed

lemma save_then_get:
  assumes "save_row T r s = (Inr (), t)" and "x \<in> set (rows T (work s))" and "pkey T x = pkey T r"
  shows "get_row T (pkey T r) t = (Inr (Some r), t)"
proof -
  from assms(1) have t: "t = s\<lparr>work := put_rows T (replace_by (pkey T) r (rows T (work s))) (work s)\<rparr>"
    by (auto simp: save_row_eq split: if_splits)
  from assms(2,3) have "pkey T r \<in> pkey T ` set (rows T (work s))" by (metis image_eqI)
  with t show ?thesis by (simp add: find_replace_same)
qed

lemma delete_succeeds:
  "constraints T (rows T (work s)) \<Longrightarrow>
   delete_rows T P s =
     (Inr (), s\<lparr>work := put_rows T (filter (\<lambda>r. \<not> P r) (rows T (work s))) (work s)\<rparr>)"
  by (simp add: delete_rows_eq Let_def constraints_filter)

end

lemma distinct_map_filter: "distinct (map f xs) \<Longrightarrow> distinct (map f (filter P xs))"
  by (induction xs) auto

lemma list_all_filter: "list_all Q xs \<Longrightarrow> list_all Q (filter P xs)"
  by (induction xs) auto

lemma filter_commute: "filter P (filter Q xs) = filter Q (filter P xs)"
  by (induction xs) auto

lemmas constraint_defs =
  user_constraints_def agreement_constraints_def participant_constraints_def
  invitation_constraints_def condition_constraints_def dispute_constraints_def
  asset_file_constraints_def asset_constraints_def wallet_constraints_def
  transaction_constraints_def paystack_constraints_def bank_account_constraints_def
  webhook_event_constraints_def idempotency_key_constraints_def
  notification_constraints_def refresh_token_constraints_def

interpretation wallet_table: table_store wallet_t
  by unfold_locales (auto simp: table_defs constraint_defs distinct_map_filter list_all_filter)

interpretation transaction_table: table_store transaction_t
  by unfold_locales (auto simp: table_defs constraint_defs distinct_map_filter list_all_filter)

interpretation paystack_table: table_store paystack_t
  by unfold_locales (auto simp: table_defs constraint_defs distinct_map_filter)

interpretation agreement_table: table_store agreement_t
  by unfold_locales (auto simp: table_defs constraint_defs distinct_map_filter)

interpretation participant_table: table_store participant_t
  by unfold_locales (auto simp: table_defs constraint_defs distinct_map_filter)

interpretation dispute_table: table_store dispute_t
  by unfold_locales
    (auto simp: table_defs constraint_defs distinct_map_filter
      simp del: filter_filter intro: filter_commute [THEN ssubst])

interpretation asset_table: table_store asset_t
  by unfold_locales (auto simp: table_defs constraint_defs distinct_map_filter list_all_filter)

interpretation refresh_token_table: table_store refresh_token_t
  by unfold_locales (auto simp: table_defs constraint_defs distinct_map_filter)

interpretation idempotency_key_table: table_store idempotency_key_t
  by unfold_locales (auto simp: table_defs constraint_defs distinct_map_filter)

interpretation webhook_event_table: table_store webhook_event_t
  by unfold_locales (auto simp: table_defs constraint_defs distinct_map_filter)

section \<open>Invariants of the database and the tables that cannot break them\<close>

text \<open>
  \<open>stable I T\<close>: writing rows that satisfy \<open>T\<close>'s constraints keeps \<open>I\<close>, whatever the rows.  It
  holds when \<open>I\<close> does not read \<open>T\<close>, and for \<open>db_ok\<close> on every table.
\<close>

definition stable :: "(db \<Rightarrow> bool) \<Rightarrow> 'r table \<Rightarrow> bool" where
  "stable I T \<longleftrightarrow> (\<forall>d rs. I d \<longrightarrow> constraints T rs \<longrightarrow> I (put_rows T rs d))"

lemma stableD: "stable I T \<Longrightarrow> I d \<Longrightarrow> constraints T rs \<Longrightarrow> I (put_rows T rs d)"
  by (simp add: stable_def)

lemma keeps_insert [keeps_intros]: "stable I T \<Longrightarrow> keeps (both I) (insert_row T r)"
  by (auto simp: keeps_def both_def insert_row_eq intro: stableD)

lemma keeps_save [keeps_intros]: "stable I T \<Longrightarrow> keeps (both I) (save_row T r)"
  by (auto simp: keeps_def both_def save_row_eq intro: stableD)

lemma keeps_update [keeps_intros]: "stable I T \<Longrightarrow> keeps (both I) (update_rows T P f)"
  by (auto simp: keeps_def both_def update_rows_eq Let_def intro: stableD)

lemma keeps_delete [keeps_intros]: "stable I T \<Longrightarrow> keeps (both I) (delete_rows T P)"
  by (auto simp: keeps_def both_def delete_rows_eq Let_def intro: stableD)

lemma db_ok_stable [keeps_intros]:
  "stable db_ok user_t" "stable db_ok agreement_t" "stable db_ok participant_t"
  "stable db_ok invitation_t" "stable db_ok condition_t" "stable db_ok dispute_t"
  "stable db_ok asset_file_t" "stable db_ok asset_t" "stable db_ok wallet_t"
  "stable db_ok transaction_t" "stable db_ok paystack_t" "stable db_ok bank_account_t"
  "stable db_ok webhook_event_t" "stable db_ok idempotency_key_t" "stable db_ok notification_t"
  "stable db_ok refresh_token_t"
  by (simp_all add: stable_def table_defs db_ok_def)

section \<open>Handlers that leave a table alone\<close>

text \<open>
  \<open>table_frame T\<close>: if the transaction has no pending change of \<open>T\<close>, then there is none afterwards and
  the committed rows of \<open>T\<close> are the same.  It is a frame for every table; a handler that writes
  other tables only (\<open>apart\<close>), commits and rolls back stays inside it.
\<close>

definition table_frame :: "'r table \<Rightarrow> session \<Rightarrow> session \<Rightarrow> bool" where
  "table_frame T s t \<longleftrightarrow>
     (rows T (work s) = rows T (committed s) \<longrightarrow>
      rows T (work t) = rows T (committed s) \<and> rows T (committed t) = rows T (committed s))"

interpretation table_frame: frame "table_frame T" for T :: "'r table"
  by unfold_locales (auto simp: table_frame_def)

lemmas [stays_intros] = table_frame.stays_rules

definition apart :: "'r table \<Rightarrow> 'q table \<Rightarrow> bool" where
  "apart T U \<longleftrightarrow> (\<forall>rs d. rows T (put_rows U rs d) = rows T d)"

lemma table_frame_writes [stays_intros]:
  "apart T U \<Longrightarrow> stays (table_frame T) (insert_row U r)"
  "apart T U \<Longrightarrow> stays (table_frame T) (save_row U r)"
  "apart T U \<Longrightarrow> stays (table_frame T) (update_rows U P f)"
  "apart T U \<Longrightarrow> stays (table_frame T) (delete_rows U P)"
  by (auto simp: stays_def table_frame_def apart_def insert_row_eq save_row_eq update_rows_eq
      delete_rows_eq Let_def)

lemma table_frame_session [stays_intros]:
  "stays (table_frame T) commit" "stays (table_frame T) rollback"
  "stays (table_frame T) (commit_if b)" "stays (table_frame T) now"
  "stays (table_frame T) uuid4" "stays (table_frame T) (select U P)"
  "stays (table_frame T) (select_first U P)" "stays (table_frame T) (get_row U k)"
  "stays (table_frame T) (refresh U r)" "stays (table_frame T) (cache_get c)"
  "stays (table_frame T) (cache_set c v)" "stays (table_frame T) (cache_delete cs)"
  "stays (table_frame T) (push_ws u f)"
  by (simp_all add: stays_def table_frame_def run_commit_if run_refresh split: option.splits)

lemma table_frame_best_effort [stays_intros]:
  "stays (table_frame T) m \<Longrightarrow> stays (table_frame T) (best_effort m)"
  unfolding best_effort_def by (intro table_frame.stays_rules)

lemma table_frame_sum [stays_intros]:
  "(\<And>x. stays R (f x)) \<Longrightarrow> (\<And>y. stays R (g y)) \<Longrightarrow>
   stays R (case z of Inl x \<Rightarrow> f x | Inr y \<Rightarrow> g y)"
  by (cases z) auto

lemma table_frameD:
  assumes "stays (table_frame T) m" and "m s = (r, t)" and "rows T (work s) = rows T (committed s)"
  shows "rows T (work t) = rows T (committed s)" "rows T (committed t) = rows T (committed s)"
  using staysD [OF assms(1,2)] assms(3) by (auto simp: table_frame_def)

end
