(* ===== verification/WalletRepo.thy ===== *)
theory WalletRepo
  imports Session
begin

text \<open>
  \<^verbatim>\<open>src/app/repository/wallet_repository.py\<close>: wallet reads, the effects table, the choke point
  through which money moves (\<open>apply_ledger_entry\<close>), its two public wrappers and the Paystack
  transaction rows.

  An ORM object is identified by its primary key: a wallet that has been locked is passed on as
  its id, and every use reads the object's current state (SQLAlchemy's identity map gives the same
  object for the same key, so a second entry on the same wallet sees the first one's balance).
  A row lock makes the section from \<open>lock_wallet\<close> to the commit atomic with respect to other
  requests on the wallet; the model runs that section as one piece (\<open>apply_entry_locked\<close>,
  \<open>apply_transfer_locked\<close>), and \<^verbatim>\<open>Concurrency\<close> shows that interleaving its steps comes to the same.
\<close>

section \<open>The effects table\<close>

definition user_wallet_key :: "id \<Rightarrow> string" where
  "user_wallet_key user_id = ''user:'' @ user_id @ '':wallet''"

fun ledger_effects :: "ledger_entry_type \<Rightarrow> int \<times> int" where
  "ledger_effects DEPOSIT = (1, 0)"
| "ledger_effects ESCROW_LOCK = (-1, 1)"
| "ledger_effects ESCROW_RELEASE_OUT = (0, -1)"
| "ledger_effects ESCROW_RELEASE_IN = (1, 0)"
| "ledger_effects ESCROW_REFUND = (1, -1)"
| "ledger_effects WITHDRAWAL = (-1, 0)"
| "ledger_effects WITHDRAWAL_REVERSAL = (1, 0)"
| "ledger_effects ADJUSTMENT_CREDIT = (1, 0)"
| "ledger_effects ADJUSTMENT_DEBIT = (-1, 0)"

fun ledger_direction_of :: "ledger_entry_type \<Rightarrow> ledger_direction" where
  "ledger_direction_of DEPOSIT = CREDIT"
| "ledger_direction_of ESCROW_LOCK = DEBIT"
| "ledger_direction_of ESCROW_RELEASE_OUT = DEBIT"
| "ledger_direction_of ESCROW_RELEASE_IN = CREDIT"
| "ledger_direction_of ESCROW_REFUND = CREDIT"
| "ledger_direction_of WITHDRAWAL = DEBIT"
| "ledger_direction_of WITHDRAWAL_REVERSAL = CREDIT"
| "ledger_direction_of ADJUSTMENT_CREDIT = CREDIT"
| "ledger_direction_of ADJUSTMENT_DEBIT = DEBIT"

record ledger_result =
  lr_entry :: transaction
  lr_wallet :: wallet
  lr_replayed :: bool

record transfer_result =
  tr_debit :: transaction
  tr_credit :: transaction
  tr_replayed :: bool

text \<open>\<^verbatim>\<open>LedgerLeg\<close>; the keyword arguments of \<^verbatim>\<open>apply_entry\<close> that describe the movement.\<close>

record ledger_leg =
  l_user_id :: id
  l_entry_type :: ledger_entry_type
  l_amount :: money
  l_description :: "string option"
  l_agreement_id :: "id option"
  l_participant_id :: "id option"
  l_condition_id :: "id option"
  l_paystack_transaction_id :: "id option"
  l_counterparty_user_id :: "id option"
  l_metadata :: "metadata option"

definition leg :: "id \<Rightarrow> ledger_entry_type \<Rightarrow> money \<Rightarrow> ledger_leg" where
  "leg user_id entry_type amount =
     \<lparr>l_user_id = user_id, l_entry_type = entry_type, l_amount = amount, l_description = None,
      l_agreement_id = None, l_participant_id = None, l_condition_id = None,
      l_paystack_transaction_id = None, l_counterparty_user_id = None, l_metadata = None\<rparr>"

section \<open>Reads\<close>

definition get_user_wallet :: "id \<Rightarrow> wallet option handler" where
  "get_user_wallet user_id = select_first wallet_t (\<lambda>w. w_user_id w = user_id)"

definition get_wallet_by_id :: "id \<Rightarrow> wallet option handler" where
  "get_wallet_by_id wallet_id = select_first wallet_t (\<lambda>w. w_id w = wallet_id)"

definition get_entry_by_reference :: "string \<Rightarrow> transaction option handler" where
  "get_entry_by_reference reference = select_first transaction_t (\<lambda>t. t_reference t = reference)"

definition get_entries_by_group :: "string \<Rightarrow> transaction list handler" where
  "get_entries_by_group group_id =
     bnd (select transaction_t (\<lambda>t. t_group_id t = Some group_id)) (\<lambda>ts.
     return (sort_key t_reference ts))"

section \<open>Wallet lifecycle\<close>

definition new_wallet :: "id \<Rightarrow> id \<Rightarrow> time \<Rightarrow> wallet" where
  "new_wallet user_id wallet_id t =
     \<lparr>w_id = wallet_id, w_user_id = user_id, w_available_balance = 0, w_escrow_balance = 0,
      w_currency = ''NGN'', w_created_at = t, w_updated_at = t\<rparr>"

lemma new_wallet_simps [simp]:
  "w_id (new_wallet user_id wallet_id t) = wallet_id"
  "w_user_id (new_wallet user_id wallet_id t) = user_id"
  "w_available_balance (new_wallet user_id wallet_id t) = 0"
  "w_escrow_balance (new_wallet user_id wallet_id t) = 0"
  by (simp_all add: new_wallet_def)

text \<open>\<^verbatim>\<open>INSERT ... ON CONFLICT (user_id) DO NOTHING\<close>, commit, read back.\<close>

definition ensure_wallet :: "id \<Rightarrow> wallet handler" where
  "ensure_wallet user_id =
     bnd now (\<lambda>t.
     bnd uuid4 (\<lambda>u.
     bnd (get_user_wallet user_id) (\<lambda>existing.
     bnd (case existing of
            Some w \<Rightarrow> return ()
          | None \<Rightarrow>
              insert_row wallet_t (new_wallet user_id u t)) (\<lambda>_.
     bnd commit (\<lambda>_.
     bnd (get_user_wallet user_id) (\<lambda>found.
     case found of None \<Rightarrow> raise InvalidRequestError | Some w \<Rightarrow> return w))))))"

definition resolve_wallet_id :: "id \<Rightarrow> id handler" where
  "resolve_wallet_id user_id =
     bnd (get_user_wallet user_id) (\<lambda>w.
     case w of
       Some w \<Rightarrow> return (w_id w)
     | None \<Rightarrow> bnd (ensure_wallet user_id) (\<lambda>w. return (w_id w)))"

definition lock_wallet :: "id \<Rightarrow> id handler" where
  "lock_wallet wallet_id =
     bnd (get_wallet_by_id wallet_id) (\<lambda>w.
     case w of None \<Rightarrow> raise WalletNotFoundError | Some w \<Rightarrow> return (w_id w))"

definition lock_order :: "id list \<Rightarrow> id list" where
  "lock_order wallet_ids = sort (remdups wallet_ids)"

definition lock_wallets :: "id list \<Rightarrow> id list handler" where
  "lock_wallets wallet_ids = map_m lock_wallet (lock_order wallet_ids)"

section \<open>The choke point\<close>

definition ledger_entry ::
  "wallet \<Rightarrow> ledger_leg \<Rightarrow> string \<Rightarrow> ledger_entry_status \<Rightarrow> string option \<Rightarrow> id \<Rightarrow> time \<Rightarrow> transaction"
where
  "ledger_entry w l reference status group_id entry_id t =
     (let (available_sign, escrow_sign) = ledger_effects (l_entry_type l);
          available_delta = l_amount l * of_int available_sign;
          escrow_delta = l_amount l * of_int escrow_sign
      in \<lparr>t_id = entry_id, t_user_id = l_user_id l, t_wallet_id = w_id w,
          t_reference = reference, t_group_id = group_id, t_agreement_id = l_agreement_id l,
          t_participant_id = l_participant_id l, t_condition_id = l_condition_id l,
          t_paystack_transaction_id = l_paystack_transaction_id l,
          t_counterparty_user_id = l_counterparty_user_id l, t_amount = l_amount l,
          t_currency = w_currency w, t_available_delta = available_delta,
          t_escrow_delta = escrow_delta,
          t_balance_after = w_available_balance w + available_delta,
          t_escrow_after = w_escrow_balance w + escrow_delta,
          t_type = l_entry_type l, t_direction = ledger_direction_of (l_entry_type l),
          t_status = status, t_description = l_description l, t_metadata = l_metadata l,
          t_created_at = t,
          t_processed_at = (if status = ENTRY_COMPLETED then Some t else None)\<rparr>)"

definition moved :: "wallet \<Rightarrow> transaction \<Rightarrow> wallet" where
  "moved w e =
     w\<lparr>w_available_balance := t_balance_after e, w_escrow_balance := t_escrow_after e,
       w_updated_at := t_created_at e\<rparr>"

definition apply_ledger_entry ::
  "id \<Rightarrow> ledger_leg \<Rightarrow> string \<Rightarrow> ledger_entry_status \<Rightarrow> string option \<Rightarrow> transaction handler"
where
  "apply_ledger_entry wallet_id l reference status group_id =
     bnd (get_wallet_by_id wallet_id) (\<lambda>found.
     case found of
       None \<Rightarrow> raise WalletNotFoundError
     | Some w \<Rightarrow>
         if l_amount l \<le> 0 then raise BadRequestError
         else if l_amount l \<noteq> quantize2 (l_amount l) then raise BadRequestError
         else
           bnd now (\<lambda>t.
           bnd uuid4 (\<lambda>u.
           let entry = ledger_entry w l reference status group_id u t in
           if t_balance_after entry < 0 then raise InsufficientFundsError
           else if t_escrow_after entry < 0 then raise InsufficientEscrowBalanceError
           else
             bnd (insert_row transaction_t entry) (\<lambda>_.
             bnd (save_row wallet_t (moved w entry)) (\<lambda>_.
             return entry)))))"

section \<open>Public wrappers\<close>

definition replay :: "transaction \<Rightarrow> ledger_result handler" where
  "replay entry =
     bnd (get_wallet_by_id (t_wallet_id entry)) (\<lambda>w.
     case w of
       None \<Rightarrow> raise WalletNotFoundError
     | Some w \<Rightarrow> return \<lparr>lr_entry = entry, lr_wallet = w, lr_replayed = True\<rparr>)"

definition replay_transfer :: "transaction list \<Rightarrow> string \<Rightarrow> transfer_result handler" where
  "replay_transfer entries debit_reference =
     (case find_first (\<lambda>e. t_reference e = debit_reference) entries of
        None \<Rightarrow> raise StopIteration
      | Some d \<Rightarrow>
         (case find_first (\<lambda>e. t_reference e \<noteq> debit_reference) entries of
            None \<Rightarrow> raise StopIteration
          | Some c \<Rightarrow> return \<lparr>tr_debit = d, tr_credit = c, tr_replayed = True\<rparr>))"

text \<open>
  From the row lock to the commit (the \<^verbatim>\<open>try\<close> block and its handlers); \<open>Inl\<close> is the replay
  after a lost race on the unique reference.
\<close>

definition apply_entry_locked ::
  "id \<Rightarrow> ledger_leg \<Rightarrow> string \<Rightarrow> ledger_entry_status \<Rightarrow> string option \<Rightarrow>
   (ledger_result + transaction) handler"
where
  "apply_entry_locked wallet_id l reference status group_id =
     try_except
       (bnd (lock_wallet wallet_id) (\<lambda>wid.
        bnd (apply_ledger_entry wid l reference status group_id) (\<lambda>entry.
        bnd commit (\<lambda>_. return (Inr entry)))))
       (\<lambda>err.
        if err = IntegrityError then
          bnd rollback (\<lambda>_.
          bnd (get_entry_by_reference reference) (\<lambda>existing.
          case existing of
            None \<Rightarrow> raise err
          | Some e \<Rightarrow> bnd (replay e) (\<lambda>r. return (Inl r))))
        else bnd rollback (\<lambda>_. raise err))"

definition apply_entry ::
  "ledger_leg \<Rightarrow> string \<Rightarrow> ledger_entry_status \<Rightarrow> string option \<Rightarrow> ledger_result handler"
where
  "apply_entry l reference status group_id =
     bnd (get_entry_by_reference reference) (\<lambda>existing.
     case existing of
       Some e \<Rightarrow> replay e
     | None \<Rightarrow>
         bnd (resolve_wallet_id (l_user_id l)) (\<lambda>wallet_id.
         bnd (apply_entry_locked wallet_id l reference status group_id) (\<lambda>out.
         case out of
           Inl r \<Rightarrow> return r
         | Inr entry \<Rightarrow>
             bnd (refresh transaction_t entry) (\<lambda>entry.
             bnd (get_wallet_by_id wallet_id) (\<lambda>w.
             bnd (cache_delete [user_wallet_key (l_user_id l)]) (\<lambda>_.
             case w of
               None \<Rightarrow> raise InvalidRequestError
             | Some w \<Rightarrow> return \<lparr>lr_entry = entry, lr_wallet = w, lr_replayed = False\<rparr>))))))"

definition debit_ref :: "string \<Rightarrow> string" where
  "debit_ref group_id = group_id @ '':out''"

definition credit_ref :: "string \<Rightarrow> string" where
  "credit_ref group_id = group_id @ '':in''"

text \<open>The \<^verbatim>\<open>except\<close> clauses of \<^verbatim>\<open>apply_transfer\<close>.\<close>

definition transfer_conflict ::
  "string \<Rightarrow> exn \<Rightarrow> (transfer_result + transaction \<times> transaction) handler"
where
  "transfer_conflict group_id err =
     (if err = IntegrityError then
        bnd rollback (\<lambda>_.
        bnd (get_entries_by_group group_id) (\<lambda>existing.
        if length existing \<noteq> 2 then raise err
        else bnd (replay_transfer existing (debit_ref group_id)) (\<lambda>r. return (Inl r))))
      else bnd rollback (\<lambda>_. raise err))"

definition apply_transfer_locked ::
  "id \<Rightarrow> id \<Rightarrow> string \<Rightarrow> ledger_leg \<Rightarrow> ledger_leg \<Rightarrow>
   (transfer_result + transaction \<times> transaction) handler"
where
  "apply_transfer_locked debit_wallet_id credit_wallet_id group_id debit credit =
     try_except
       (bnd (lock_wallets [debit_wallet_id, credit_wallet_id]) (\<lambda>_.
        bnd (apply_ledger_entry debit_wallet_id debit (debit_ref group_id) ENTRY_COMPLETED
               (Some group_id)) (\<lambda>d.
        bnd (apply_ledger_entry credit_wallet_id credit (credit_ref group_id) ENTRY_COMPLETED
               (Some group_id)) (\<lambda>c.
        bnd commit (\<lambda>_. return (Inr (d, c)))))))
       (transfer_conflict group_id)"

definition apply_transfer :: "string \<Rightarrow> ledger_leg \<Rightarrow> ledger_leg \<Rightarrow> transfer_result handler" where
  "apply_transfer group_id debit credit =
     bnd (get_entries_by_group group_id) (\<lambda>existing.
     if length existing = 2 then replay_transfer existing (debit_ref group_id)
     else
       bnd (resolve_wallet_id (l_user_id debit)) (\<lambda>debit_wallet_id.
       bnd (resolve_wallet_id (l_user_id credit)) (\<lambda>credit_wallet_id.
       bnd (apply_transfer_locked debit_wallet_id credit_wallet_id group_id debit credit) (\<lambda>out.
       case out of
         Inl r \<Rightarrow> return r
       | Inr (d, c) \<Rightarrow>
           bnd (refresh transaction_t d) (\<lambda>d.
           bnd (refresh transaction_t c) (\<lambda>c.
           bnd (cache_delete [user_wallet_key (l_user_id debit),
                              user_wallet_key (l_user_id credit)]) (\<lambda>_.
           return \<lparr>tr_debit = d, tr_credit = c, tr_replayed = False\<rparr>)))))))"

definition mark_entry_status ::
  "string \<Rightarrow> ledger_entry_status \<Rightarrow> time option \<Rightarrow> bool \<Rightarrow> transaction option handler"
where
  "mark_entry_status reference status processed_at do_commit =
     bnd (get_entry_by_reference reference) (\<lambda>found.
     case found of
       None \<Rightarrow> return None
     | Some entry \<Rightarrow>
         bnd now (\<lambda>t.
         let entry = entry\<lparr>t_status := status\<rparr>;
             entry = (if processed_at \<noteq> None then entry\<lparr>t_processed_at := processed_at\<rparr>
                      else if status = ENTRY_COMPLETED \<and> t_processed_at entry = None
                      then entry\<lparr>t_processed_at := Some t\<rparr> else entry)
         in bnd (save_row transaction_t entry) (\<lambda>_.
            bnd (commit_if do_commit) (\<lambda>_. return (Some entry)))))"

section \<open>Paystack transaction records\<close>

definition create_paystack_transaction ::
  "id \<Rightarrow> string \<Rightarrow> money \<Rightarrow> transaction_type \<Rightarrow> string option \<Rightarrow> string option \<Rightarrow> id option \<Rightarrow> bool \<Rightarrow>
   paystack_transaction handler"
where
  "create_paystack_transaction user_id reference amount transaction_type payment_channel
     recipient_code bank_account_id do_commit =
     bnd now (\<lambda>t.
     bnd uuid4 (\<lambda>u.
     let p = \<lparr>pt_id = u, pt_user_id = user_id, pt_reference = reference, pt_paystack_id = None,
              pt_amount = amount, pt_currency = ''NGN'', pt_status = TX_PENDING,
              pt_transaction_type = transaction_type, pt_transfer_code = None,
              pt_recipient_code = recipient_code, pt_bank_account_id = bank_account_id,
              pt_failure_reason = None, pt_payment_channel = payment_channel,
              pt_gateway_response = None, pt_created_at = t\<rparr>
     in bnd (insert_row paystack_t p) (\<lambda>_. bnd (commit_if do_commit) (\<lambda>_. return p))))"

definition save_paystack_transaction :: "paystack_transaction \<Rightarrow> bool \<Rightarrow> unit handler" where
  "save_paystack_transaction p do_commit =
     bnd (save_row paystack_t p) (\<lambda>_. commit_if do_commit)"

definition get_paystack_transaction :: "string \<Rightarrow> paystack_transaction option handler" where
  "get_paystack_transaction reference =
     select_first paystack_t (\<lambda>p. pt_reference p = reference)"

definition get_paystack_transaction_for_user ::
  "string \<Rightarrow> id \<Rightarrow> paystack_transaction option handler"
where
  "get_paystack_transaction_for_user reference user_id =
     select_first paystack_t (\<lambda>p. pt_reference p = reference \<and> pt_user_id p = user_id)"

end
