(* ===== verification/Samples.thy ===== *)
theory Samples
  imports WalletRepo
begin

text \<open>
  Concrete sessions for the witnesses: two users, Alice (\<open>ua\<close>) with 100.00 available and 40.00 in
  escrow, Bob (\<open>ub\<close>) with 10.00, and the three ledger entries those balances come from.
\<close>

definition sample_uuid :: "nat \<Rightarrow> string" where
  "sample_uuid n = ''id'' @ replicate n CHR ''x''"

definition sample_session :: "db \<Rightarrow> session" where
  "sample_session d =
     \<lparr>committed = d, work = d, redis = Some (\<lambda>_. None), clock = 1000, uuid_supply = sample_uuid,
      uuid_next = 0, outbound = [], pushes = [], emails = []\<rparr>"

definition wallet_alice_0 :: wallet where
  "wallet_alice_0 = new_wallet ''ua'' ''wa'' 1"

definition wallet_bob_0 :: wallet where
  "wallet_bob_0 = new_wallet ''ub'' ''wb'' 2"

definition entry_1 :: transaction where
  "entry_1 = ledger_entry wallet_alice_0 (leg ''ua'' DEPOSIT 140) ''dep_1'' ENTRY_COMPLETED None
     ''t1'' 3"

definition entry_2 :: transaction where
  "entry_2 = ledger_entry (moved wallet_alice_0 entry_1)
     ((leg ''ua'' ESCROW_LOCK 40)\<lparr>l_agreement_id := Some ''ag''\<rparr>) ''esc_lock_ag'' ENTRY_COMPLETED None
     ''t2'' 4"

definition entry_3 :: transaction where
  "entry_3 = ledger_entry wallet_bob_0 (leg ''ub'' DEPOSIT 10) ''dep_2'' ENTRY_COMPLETED None
     ''t3'' 5"

definition wallet_alice :: wallet where
  "wallet_alice = moved (moved wallet_alice_0 entry_1) entry_2"

definition wallet_bob :: wallet where
  "wallet_bob = moved wallet_bob_0 entry_3"

definition money_db :: db where
  "money_db =
     empty_db\<lparr>wallets := [wallet_alice, wallet_bob], transactions := [entry_1, entry_2, entry_3]\<rparr>"

definition money_session :: session where
  "money_session = sample_session money_db"

lemmas sample_defs =
  sample_uuid_def sample_session_def money_session_def money_db_def empty_db_def

lemmas money_defs =
  wallet_alice_0_def wallet_bob_0_def entry_1_def entry_2_def entry_3_def wallet_alice_def
  wallet_bob_def

end
