(* ===== verification/Ledger.thy ===== *)
theory Ledger
  imports Samples
begin

text \<open>
  What the choke point of \<^verbatim>\<open>wallet_repository.py\<close> promises.  The abstract view of the ledger is the
  list of entries alone: the balances of a wallet are the sums of the entries' deltas, and each
  entry's snapshot (\<open>t_balance_after\<close>, \<open>t_escrow_after\<close>) is the balance the entries up to it add up
  to.  \<open>ledger_inv\<close> states that the wallet rows agree with that view and that the table constraints
  hold; the public operations of the repository keep it whatever they return or raise.
\<close>

section \<open>The ledger as the sum of its entries\<close>

definition ledger_sum :: "(transaction \<Rightarrow> money) \<Rightarrow> id \<Rightarrow> transaction list \<Rightarrow> money" where
  "ledger_sum f wallet_id ts = sum_list (map f (filter (\<lambda>t. t_wallet_id t = wallet_id) ts))"

definition entry_wf :: "transaction \<Rightarrow> bool" where
  "entry_wf t \<longleftrightarrow>
     0 < t_amount t \<and> quantize2 (t_amount t) = t_amount t \<and>
     t_available_delta t = t_amount t * of_int (fst (ledger_effects (t_type t))) \<and>
     t_escrow_delta t = t_amount t * of_int (snd (ledger_effects (t_type t))) \<and>
     t_direction t = ledger_direction_of (t_type t) \<and>
     0 \<le> t_balance_after t \<and> 0 \<le> t_escrow_after t"

text \<open>Newest entry first.\<close>

fun snapshots_rev :: "transaction list \<Rightarrow> bool" where
  "snapshots_rev [] = True"
| "snapshots_rev (t # older) \<longleftrightarrow>
     t_balance_after t = ledger_sum t_available_delta (t_wallet_id t) older + t_available_delta t \<and>
     t_escrow_after t = ledger_sum t_escrow_delta (t_wallet_id t) older + t_escrow_delta t \<and>
     snapshots_rev older"

definition snapshots_ok :: "transaction list \<Rightarrow> bool" where
  "snapshots_ok ts \<longleftrightarrow> snapshots_rev (rev ts)"

definition balance_ok :: "transaction list \<Rightarrow> wallet \<Rightarrow> bool" where
  "balance_ok ts w \<longleftrightarrow>
     w_available_balance w = ledger_sum t_available_delta (w_id w) ts \<and>
     w_escrow_balance w = ledger_sum t_escrow_delta (w_id w) ts"

definition ledger_inv :: "db \<Rightarrow> bool" where
  "ledger_inv d \<longleftrightarrow>
     wallet_constraints (wallets d) \<and> transaction_constraints (transactions d) \<and>
     list_all (balance_ok (transactions d)) (wallets d) \<and>
     list_all entry_wf (transactions d) \<and> snapshots_ok (transactions d) \<and>
     list_all (\<lambda>t. t_wallet_id t \<in> set (map w_id (wallets d))) (transactions d)"

lemma ledger_inv_empty: "ledger_inv empty_db"
  by (simp add: ledger_inv_def empty_db_def wallet_constraints_def transaction_constraints_def
      snapshots_ok_def)

lemma ledger_sum_Nil [simp]: "ledger_sum f k [] = 0"
  by (simp add: ledger_sum_def)

lemma ledger_sum_append [simp]: "ledger_sum f k (xs @ ys) = ledger_sum f k xs + ledger_sum f k ys"
  by (simp add: ledger_sum_def)

lemma ledger_sum_Cons [simp]:
  "ledger_sum f k (t # ts) = (if t_wallet_id t = k then f t else 0) + ledger_sum f k ts"
  by (simp add: ledger_sum_def)

lemma ledger_sum_rev [simp]: "ledger_sum f k (rev ts) = ledger_sum f k ts"
  by (induction ts) auto

lemma ledger_sum_no_entry: "k \<notin> t_wallet_id ` set ts \<Longrightarrow> ledger_sum f k ts = 0"
  by (induction ts) auto

text \<open>What the ledger view reads of an entry: a status change alone does not touch it.\<close>

definition money_part ::
  "transaction \<Rightarrow> id \<times> money \<times> money \<times> money \<times> money \<times> money \<times> ledger_entry_type \<times> ledger_direction"
where
  "money_part t =
     (t_wallet_id t, t_amount t, t_available_delta t, t_escrow_delta t, t_balance_after t,
      t_escrow_after t, t_type t, t_direction t)"

text \<open>Lists with the same projection are compared element by element.\<close>

lemma same_map_induct [consumes 1, case_names Nil Cons]:
  assumes "map f xs = map f ys" and "P [] []"
    and "\<And>x xs y ys. f x = f y \<Longrightarrow> map f xs = map f ys \<Longrightarrow> P xs ys \<Longrightarrow> P (x # xs) (y # ys)"
  shows "P xs ys"
  using assms(1)
proof (induction xs arbitrary: ys)
  case Nil
  with assms(2) show ?case by simp
next
  case (Cons x xs)
  then obtain y ys' where "ys = y # ys'" "f x = f y" "map f xs = map f ys'" by (cases ys) auto
  with Cons.IH assms(3) show ?case by blast
qed

lemma ledger_sum_cong:
  "map money_part xs = map money_part ys \<Longrightarrow>
   ledger_sum t_available_delta k xs = ledger_sum t_available_delta k ys \<and>
   ledger_sum t_escrow_delta k xs = ledger_sum t_escrow_delta k ys"
  by (induction rule: same_map_induct) (auto simp: money_part_def)

lemma snapshots_rev_cong:
  "map money_part xs = map money_part ys \<Longrightarrow> snapshots_rev xs = snapshots_rev ys"
proof (induction rule: same_map_induct)
  case (Cons x xs y ys)
  then show ?case using ledger_sum_cong [OF Cons.hyps(2)] by (auto simp: money_part_def)
qed simp

lemma entry_wf_cong:
  "map money_part xs = map money_part ys \<Longrightarrow> list_all entry_wf xs = list_all entry_wf ys"
  by (induction rule: same_map_induct) (auto simp: money_part_def entry_wf_def)

lemma ledger_inv_same_money:
  assumes "ledger_inv d" and m: "map money_part ts = map money_part (transactions d)"
    and "transaction_constraints ts"
  shows "ledger_inv (d\<lparr>transactions := ts\<rparr>)"
proof -
  have "list_all entry_wf ts = list_all entry_wf (transactions d)"
    using m by (rule entry_wf_cong)
  moreover have "snapshots_ok ts = snapshots_ok (transactions d)"
    unfolding snapshots_ok_def by (rule snapshots_rev_cong) (simp add: m flip: rev_map)
  moreover have "balance_ok ts = balance_ok (transactions d)"
    by (rule ext) (simp add: balance_ok_def ledger_sum_cong [OF m])
  moreover have "map t_wallet_id ts = map t_wallet_id (transactions d)"
    using arg_cong [OF m, of "map fst"] by (simp add: money_part_def comp_def)
  then have "t_wallet_id ` set ts = t_wallet_id ` set (transactions d)"
    by (metis list.set_map)
  ultimately show ?thesis using assms by (fastforce simp: ledger_inv_def list_all_iff)
qed

section \<open>One entry\<close>

lemma ledger_entry_simps [simp]:
  "t_id (ledger_entry w l ref st g u t) = u"
  "t_user_id (ledger_entry w l ref st g u t) = l_user_id l"
  "t_wallet_id (ledger_entry w l ref st g u t) = w_id w"
  "t_reference (ledger_entry w l ref st g u t) = ref"
  "t_group_id (ledger_entry w l ref st g u t) = g"
  "t_amount (ledger_entry w l ref st g u t) = l_amount l"
  "t_type (ledger_entry w l ref st g u t) = l_entry_type l"
  "t_direction (ledger_entry w l ref st g u t) = ledger_direction_of (l_entry_type l)"
  "t_status (ledger_entry w l ref st g u t) = st"
  "t_available_delta (ledger_entry w l ref st g u t) =
     l_amount l * of_int (fst (ledger_effects (l_entry_type l)))"
  "t_escrow_delta (ledger_entry w l ref st g u t) =
     l_amount l * of_int (snd (ledger_effects (l_entry_type l)))"
  "t_balance_after (ledger_entry w l ref st g u t) =
     w_available_balance w + l_amount l * of_int (fst (ledger_effects (l_entry_type l)))"
  "t_escrow_after (ledger_entry w l ref st g u t) =
     w_escrow_balance w + l_amount l * of_int (snd (ledger_effects (l_entry_type l)))"
  by (simp_all add: ledger_entry_def Let_def split_beta)

lemma moved_simps [simp]:
  "w_id (moved w e) = w_id w"
  "w_user_id (moved w e) = w_user_id w"
  "w_available_balance (moved w e) = t_balance_after e"
  "w_escrow_balance (moved w e) = t_escrow_after e"
  by (simp_all add: moved_def)

text \<open>The checks of \<^verbatim>\<open>_apply_ledger_entry\<close> before it writes, in order.\<close>

definition entry_error :: "wallet \<Rightarrow> ledger_leg \<Rightarrow> exn option" where
  "entry_error w l =
     (let (a, e) = ledger_effects (l_entry_type l)
      in if l_amount l \<le> 0 \<or> l_amount l \<noteq> quantize2 (l_amount l) then Some BadRequestError
         else if w_available_balance w + l_amount l * of_int a < 0 then Some InsufficientFundsError
         else if w_escrow_balance w + l_amount l * of_int e < 0
         then Some InsufficientEscrowBalanceError else None)"

definition post_entry :: "wallet \<Rightarrow> transaction \<Rightarrow> db \<Rightarrow> db" where
  "post_entry w e d =
     d\<lparr>transactions := transactions d @ [e],
       wallets := replace_by w_id (moved w e) (wallets d)\<rparr>"

lemma transaction_constraints_prefix:
  "transaction_constraints (xs @ ys) \<Longrightarrow> transaction_constraints xs"
  by (simp add: transaction_constraints_def)

lemma apply_ledger_entry_Inr:
  assumes "apply_ledger_entry wid l ref st g s = (Inr e, t)"
  obtains w where
    "find_first (\<lambda>w. w_id w = wid) (wallets (work s)) = Some w"
    "entry_error w l = None"
    "e = ledger_entry w l ref st g (uuid_supply s (uuid_next s)) (clock s)"
    "transaction_constraints (transactions (work s) @ [e])"
    "wallet_constraints (replace_by w_id (moved w e) (wallets (work s)))"
    "t = s\<lparr>uuid_next := Suc (uuid_next s), work := post_entry w e (work s)\<rparr>"
  using assms
  by (auto simp: apply_ledger_entry_def entry_error_def get_wallet_by_id_def run table_defs
      post_entry_def Let_def split_beta split: option.splits if_splits)

lemma apply_ledger_entry_Inl:
  assumes "apply_ledger_entry wid l ref st g s = (Inl err, t)"
  shows "committed t = committed s" "redis t = redis s" "pushes t = pushes s"
    "outbound t = outbound s" "clock t = clock s" "uuid_supply t = uuid_supply s"
  using assms
  by (auto simp: apply_ledger_entry_def get_wallet_by_id_def run Let_def
      split: option.splits if_splits)

text \<open>Which error: the checks first, then only the limits of the columns and the unique keys.\<close>

lemma apply_ledger_entry_missing:
  "find_first (\<lambda>w. w_id w = wid) (wallets (work s)) = None \<Longrightarrow>
   apply_ledger_entry wid l ref st g s = (Inl WalletNotFoundError, s)"
  by (simp add: apply_ledger_entry_def get_wallet_by_id_def run table_defs)

lemma apply_ledger_entry_rejects:
  assumes w: "find_first (\<lambda>w. w_id w = wid) (wallets (work s)) = Some w"
    and err: "entry_error w l = Some err"
  shows "\<exists>n. apply_ledger_entry wid l ref st g s = (Inl err, s\<lparr>uuid_next := n\<rparr>)"
proof (cases "l_amount l \<le> 0 \<or> l_amount l \<noteq> quantize2 (l_amount l)")
  case True
  with err have "err = BadRequestError" by (simp add: entry_error_def split_beta)
  with True w have "apply_ledger_entry wid l ref st g s = (Inl err, s\<lparr>uuid_next := uuid_next s\<rparr>)"
    by (cases "l_amount l \<le> 0") (simp_all add: apply_ledger_entry_def get_wallet_by_id_def run table_defs)
  then show ?thesis ..
next
  case False
  with w err have
    "apply_ledger_entry wid l ref st g s = (Inl err, s\<lparr>uuid_next := Suc (uuid_next s)\<rparr>)"
    by (simp add: apply_ledger_entry_def entry_error_def get_wallet_by_id_def run table_defs
        Let_def split_beta split: if_splits)
  then show ?thesis ..
qed

lemma entry_wf_ledger_entry:
  assumes "entry_error w l = None"
  shows "entry_wf (ledger_entry w l ref st g u t)"
  using assms by (auto simp: entry_wf_def entry_error_def Let_def split_beta split: if_splits)

lemma ledger_inv_post_entry:
  assumes inv: "ledger_inv d" and w: "find_first (\<lambda>w. w_id w = wid) (wallets d) = Some w"
    and ok: "entry_error w l = None" and e: "e = ledger_entry w l ref st g u t"
    and tc: "transaction_constraints (transactions d @ [e])"
    and wc: "wallet_constraints (replace_by w_id (moved w e) (wallets d))"
  shows "ledger_inv (post_entry w e d)"
proof -
  let ?ws = "replace_by w_id (moved w e) (wallets d)" and ?ts = "transactions d @ [e]"
  from w have mem: "w \<in> set (wallets d)" by (auto dest: find_first_SomeD)
  from inv mem have bal: "balance_ok (transactions d) w"
    by (auto simp: ledger_inv_def list_all_iff)
  have "balance_ok ?ts x" if "x \<in> set ?ws" for x
    using set_replaceD [OF that]
  proof
    assume "x = moved w e"
    with bal show ?thesis by (simp add: balance_ok_def e)
  next
    assume "x \<in> set (wallets d) \<and> w_id x \<noteq> w_id (moved w e)"
    with inv show ?thesis by (auto simp: ledger_inv_def list_all_iff balance_ok_def e)
  qed
  moreover from ok have "entry_wf e" by (simp add: e entry_wf_ledger_entry )
  moreover from bal inv have "snapshots_ok ?ts"
    by (simp add: snapshots_ok_def ledger_inv_def e balance_ok_def)
  moreover have "set (map w_id ?ws) = set (map w_id (wallets d))" by (simp only: map_key_replace
      [of w_id "moved w e"])
  ultimately show ?thesis using inv tc wc mem
    by (auto simp: ledger_inv_def post_entry_def list_all_iff e)
qed

section \<open>The invariant through the public operations\<close>

lemma ledger_stable [keeps_intros]:
  "stable ledger_inv user_t" "stable ledger_inv agreement_t" "stable ledger_inv participant_t"
  "stable ledger_inv invitation_t" "stable ledger_inv condition_t" "stable ledger_inv dispute_t"
  "stable ledger_inv asset_file_t" "stable ledger_inv asset_t" "stable ledger_inv paystack_t"
  "stable ledger_inv bank_account_t" "stable ledger_inv webhook_event_t"
  "stable ledger_inv idempotency_key_t" "stable ledger_inv notification_t"
  "stable ledger_inv refresh_token_t"
  by (simp_all add: stable_def table_defs ledger_inv_def)

lemma keeps_repo_reads [keeps_intros]:
  "keeps (both I) (get_user_wallet u)" "keeps (both I) (get_wallet_by_id i)"
  "keeps (both I) (get_entry_by_reference r)" "keeps (both I) (get_entries_by_group g)"
  "keeps (both I) (lock_wallet i)" "keeps (both I) (lock_wallets is)"
  "keeps (both I) (replay e)" "keeps (both I) (replay_transfer es r)"
  "keeps (both I) (get_paystack_transaction r)"
  "keeps (both I) (get_paystack_transaction_for_user r u)"
  by (auto simp: get_user_wallet_def get_wallet_by_id_def get_entry_by_reference_def
      get_entries_by_group_def lock_wallet_def lock_wallets_def replay_def replay_transfer_def
      get_paystack_transaction_def get_paystack_transaction_for_user_def intro!: keeps_intros)

lemma ledger_inv_new_wallet:
  assumes inv: "ledger_inv d" and c: "wallet_constraints (wallets d @ [w])"
    and zero: "w_available_balance w = 0" "w_escrow_balance w = 0"
  shows "ledger_inv (d\<lparr>wallets := wallets d @ [w]\<rparr>)"
proof -
  from c have "w_id w \<notin> set (map w_id (wallets d))" by (auto simp: wallet_constraints_def)
  with inv have "w_id w \<notin> t_wallet_id ` set (transactions d)"
    by (auto simp: ledger_inv_def list_all_iff)
  with zero have "balance_ok (transactions d) w"
    by (simp add: balance_ok_def ledger_sum_no_entry)
  with inv c show ?thesis by (auto simp: ledger_inv_def list_all_iff)
qed

lemma keeps_insert_wallet:
  "w_available_balance w = 0 \<Longrightarrow> w_escrow_balance w = 0 \<Longrightarrow>
   keeps (both ledger_inv) (insert_row wallet_t w)"
  by (auto simp: keeps_def both_def insert_row_eq table_defs intro: ledger_inv_new_wallet)

lemma ensure_wallet_keeps [keeps_intros]: "keeps (both ledger_inv) (ensure_wallet u)"
  unfolding ensure_wallet_def by (intro keeps_intros keeps_insert_wallet) simp_all

lemma resolve_wallet_id_keeps [keeps_intros]: "keeps (both ledger_inv) (resolve_wallet_id u)"
  unfolding resolve_wallet_id_def by (intro keeps_intros)

text \<open>
  Between the insert of an entry and the update of its wallet the transaction is out of balance:
  code that may raise there keeps the committed state only (\<open>tentative\<close>), and whoever catches the
  error first rolls back (\<open>recovers\<close>).
\<close>

definition tentative :: "(db \<Rightarrow> bool) \<Rightarrow> 'a handler \<Rightarrow> bool" where
  "tentative I m \<longleftrightarrow>
     (\<forall>s. both I s \<longrightarrow>
       (case m s of (Inl e, t) \<Rightarrow> I (committed t) | (Inr x, t) \<Rightarrow> both I t))"

definition recovers :: "(db \<Rightarrow> bool) \<Rightarrow> 'a handler \<Rightarrow> bool" where
  "recovers I h \<longleftrightarrow> (\<forall>s. I (committed s) \<longrightarrow> both I (snd (h s)))"

lemma tentative_keeps: "keeps (both I) m \<Longrightarrow> tentative I m"
  unfolding tentative_def keeps_def
  by (auto simp: both_def split: prod.splits sum.splits)

lemma tentative_bnd:
  assumes "tentative I m" and "\<And>x. tentative I (f x)"
  shows "tentative I (bnd m f)"
  unfolding tentative_def
proof (intro allI impI)
  fix s assume s: "both I s"
  show "case bnd m f s of (Inl e, t) \<Rightarrow> I (committed t) | (Inr x, t) \<Rightarrow> both I t"
  proof (cases "m s")
    case (Pair r t)
    with assms(1) s have m: "case r of Inl e \<Rightarrow> I (committed t) | Inr x \<Rightarrow> both I t"
      by (auto simp: tentative_def dest: spec [of _ s])
    show ?thesis
    proof (cases r)
      case (Inr x)
      with m have "both I t" by simp
      with assms(2) [of x] Pair Inr show ?thesis by (simp add: tentative_def bnd_def)
    qed (use Pair m in \<open>simp add: bnd_def\<close>)
  qed
qed

lemma recovers_rollback: "keeps (both I) m \<Longrightarrow> recovers I (bnd rollback (\<lambda>_. m))"
  by (auto simp: recovers_def run both_def keeps_def)

lemma recovers_if: "recovers I m \<Longrightarrow> recovers I n \<Longrightarrow> recovers I (if b then m else n)"
  by simp

lemma keeps_try_rollback:
  assumes "tentative I m" and "\<And>e. recovers I (h e)"
  shows "keeps (both I) (try_except m h)"
  unfolding keeps_def
proof (intro allI impI)
  fix s assume "both I s"
  with assms show "both I (snd (try_except m h s))"
    by (cases "m s"; cases "fst (m s)")
      (auto simp: tentative_def recovers_def try_except_def dest!: spec [of _ s])
qed

lemma apply_ledger_entry_tentative: "tentative ledger_inv (apply_ledger_entry wid l ref st g)"
  unfolding tentative_def
proof (intro allI impI)
  fix s assume inv: "both ledger_inv s"
  obtain r t where rt: "apply_ledger_entry wid l ref st g s = (r, t)" by fastforce
  show "case apply_ledger_entry wid l ref st g s of
          (Inl e, t) \<Rightarrow> ledger_inv (committed t) | (Inr x, t) \<Rightarrow> both ledger_inv t"
  proof (cases r)
    case (Inl e)
    with rt inv show ?thesis by (simp add: both_def apply_ledger_entry_Inl)
  next
    case (Inr e)
    with rt have "apply_ledger_entry wid l ref st g s = (Inr e, t)" by simp
    then obtain w where
      "find_first (\<lambda>w. w_id w = wid) (wallets (work s)) = Some w" "entry_error w l = None"
      "e = ledger_entry w l ref st g (uuid_supply s (uuid_next s)) (clock s)"
      "transaction_constraints (transactions (work s) @ [e])"
      "wallet_constraints (replace_by w_id (moved w e) (wallets (work s)))"
      "t = s\<lparr>uuid_next := Suc (uuid_next s), work := post_entry w e (work s)\<rparr>"
      by (rule apply_ledger_entry_Inr)
    with inv rt Inr show ?thesis by (simp add: both_def ledger_inv_post_entry)
  qed
qed

lemma apply_entry_locked_keeps [keeps_intros]:
  "keeps (both ledger_inv) (apply_entry_locked wid l ref st g)"
  unfolding apply_entry_locked_def
  by (intro keeps_try_rollback tentative_bnd recovers_if recovers_rollback
      apply_ledger_entry_tentative) (intro tentative_keeps keeps_intros | assumption)+

lemma apply_transfer_locked_keeps [keeps_intros]:
  "keeps (both ledger_inv) (apply_transfer_locked dw cw g debit credit)"
  unfolding apply_transfer_locked_def transfer_conflict_def
  by (intro keeps_try_rollback tentative_bnd recovers_if recovers_rollback
      apply_ledger_entry_tentative) (intro tentative_keeps keeps_intros | assumption)+

lemma apply_entry_keeps [keeps_intros]: "keeps (both ledger_inv) (apply_entry l ref st g)"
  unfolding apply_entry_def by (intro keeps_intros)

lemma apply_transfer_keeps [keeps_intros]:
  "keeps (both ledger_inv) (apply_transfer g debit credit)"
  unfolding apply_transfer_def by (intro keeps_intros)

lemma save_same_money_keeps:
  assumes inv: "both ledger_inv s" and mem: "x \<in> set (transactions (work s))"
    and same: "t_id x = t_id e" "money_part e = money_part x"
  shows "both ledger_inv (snd (save_row transaction_t e s))"
proof -
  from inv have "distinct (map t_id (transactions (work s)))"
    by (simp add: both_def ledger_inv_def transaction_constraints_def)
  then have "map money_part (replace_by t_id e (transactions (work s))) =
      map money_part (transactions (work s))"
    using mem same by (rule map_replace_same_field)
  with inv show ?thesis
    by (auto simp: both_def save_row_eq table_defs intro: ledger_inv_same_money)
qed

lemma mark_entry_status_keeps [keeps_intros]:
  "keeps (both ledger_inv) (mark_entry_status ref st pat do_commit)"
  unfolding keeps_def
proof (intro allI impI)
  fix s assume inv: "both ledger_inv s"
  show "both ledger_inv (snd (mark_entry_status ref st pat do_commit s))"
  proof (cases "find_first (\<lambda>t. t_reference t = ref) (transactions (work s))")
    case None
    with inv show ?thesis
      by (simp add: mark_entry_status_def get_entry_by_reference_def run table_defs)
  next
    case (Some x)
    then have mem: "x \<in> set (transactions (work s))" by (auto dest: find_first_SomeD)
    define y where "y = x\<lparr>t_status := st\<rparr>"
    define e where "e = (if pat \<noteq> None then y\<lparr>t_processed_at := pat\<rparr>
      else if st = ENTRY_COMPLETED \<and> t_processed_at y = None
      then y\<lparr>t_processed_at := Some (clock s)\<rparr> else y)"
    have "t_id x = t_id e" "money_part e = money_part x"
      by (simp_all add: e_def y_def money_part_def)
    with inv mem have inv': "both ledger_inv (snd (save_row transaction_t e s))"
      by (rule save_same_money_keeps)
    have "mark_entry_status ref st pat do_commit s =
        bnd (save_row transaction_t e) (\<lambda>_. bnd (commit_if do_commit) (\<lambda>_. return (Some e))) s"
      using Some
      by (simp add: mark_entry_status_def get_entry_by_reference_def bnd_session_steps
          bnd_steps Let_def e_def y_def)
    with inv' show ?thesis
      by (auto simp: bnd_def run_commit_if both_def split: prod.splits sum.splits)
  qed
qed

lemma paystack_rows_keep [keeps_intros]:
  "stable I paystack_t \<Longrightarrow>
   keeps (both I) (create_paystack_transaction u r a ty ch rc ba do_commit)"
  "stable I paystack_t \<Longrightarrow> keeps (both I) (save_paystack_transaction p do_commit)"
  unfolding create_paystack_transaction_def save_paystack_transaction_def
  by (intro keeps_intros; assumption)+

section \<open>Money in the whole system\<close>

definition total_balance :: "db \<Rightarrow> money" where
  "total_balance d = sum_list (map (\<lambda>w. w_available_balance w + w_escrow_balance w) (wallets d))"

text \<open>How much an entry of the kind changes what its wallet holds in all.\<close>

definition net_effect :: "ledger_entry_type \<Rightarrow> int" where
  "net_effect ty = fst (ledger_effects ty) + snd (ledger_effects ty)"

lemma sum_list_single:
  fixes x :: money
  shows "distinct ks \<Longrightarrow> sum_list (map (\<lambda>k. if a = k then x else 0) ks) = (if a \<in> set ks then x else 0)"
  by (induction ks) auto

lemma sum_by_wallet:
  fixes f :: "transaction \<Rightarrow> money"
  assumes "distinct ks" and "\<forall>t \<in> set ts. t_wallet_id t \<in> set ks"
  shows "sum_list (map (\<lambda>k. ledger_sum f k ts) ks) = sum_list (map f ts)"
  using assms(2)
proof (induction ts)
  case (Cons t ts)
  from Cons.prems assms(1) have
    "sum_list (map (\<lambda>k. if t_wallet_id t = k then f t else 0) ks) = f t"
    by (simp add: sum_list_single)
  with Cons show ?case by (simp add: sum_list_addf)
qed simp

lemma total_balance_net_flow:
  assumes "ledger_inv d"
  shows "total_balance d =
     sum_list (map (\<lambda>t. t_amount t * of_int (net_effect (t_type t))) (transactions d))"
proof -
  let ?ts = "transactions d" and ?ks = "map w_id (wallets d)"
  from assms have ks: "distinct ?ks" "\<forall>t \<in> set ?ts. t_wallet_id t \<in> set ?ks"
    by (auto simp: ledger_inv_def wallet_constraints_def list_all_iff)
  from assms have "map (\<lambda>w. w_available_balance w + w_escrow_balance w) (wallets d) =
      map (\<lambda>k. ledger_sum t_available_delta k ?ts + ledger_sum t_escrow_delta k ?ts) ?ks"
    by (auto simp: ledger_inv_def list_all_iff balance_ok_def)
  then have "total_balance d =
      sum_list (map t_available_delta ?ts) + sum_list (map t_escrow_delta ?ts)"
    unfolding total_balance_def by (simp only: sum_list_addf sum_by_wallet [OF ks])
  also have "\<dots> = sum_list (map (\<lambda>t. t_available_delta t + t_escrow_delta t) ?ts)"
    by (simp add: sum_list_addf)
  also have "\<dots> = sum_list (map (\<lambda>t. t_amount t * of_int (net_effect (t_type t))) ?ts)"
    using assms by (intro arg_cong [of _ _ sum_list] map_cong)
      (auto simp: ledger_inv_def list_all_iff entry_wf_def net_effect_def algebra_simps)
  finally show ?thesis .
qed

section \<open>What one movement does\<close>

lemma find_wallet_same_row:
  assumes "wallet_constraints ws" and "find_first (\<lambda>w. w_user_id w = u) ws = Some w"
  shows "find_first (\<lambda>x. w_id x = w_id w) ws = Some w"
  using assms by (auto simp: wallet_constraints_def dest!: find_first_SomeD intro: find_first_key)

lemma find_moved:
  assumes "find_first (\<lambda>x. w_id x = k) ws = Some w"
  shows "find_first (\<lambda>x. w_id x = k) (replace_by w_id (moved w e) ws) = Some (moved w e)"
  using assms by (induction ws) (auto split: if_splits)

lemma find_new_entry:
  "distinct (map t_id (ts @ [e])) \<Longrightarrow> find_first (\<lambda>x. t_id x = t_id e) (ts @ [e]) = Some e"
  by (rule find_first_key) simp_all

lemma find_new_reference:
  "find_first (\<lambda>t. t_reference t = r) ts = None \<Longrightarrow> t_reference e = r \<Longrightarrow>
   find_first (\<lambda>t. t_reference t = r) (ts @ [e]) = Some e"
  by (simp add: find_first_append)

definition locked_state :: "wallet \<Rightarrow> transaction \<Rightarrow> session \<Rightarrow> session" where
  "locked_state w e s =
     s\<lparr>uuid_next := Suc (uuid_next s), work := post_entry w e (work s),
       committed := post_entry w e (work s)\<rparr>"

lemma apply_entry_locked_eq:
  "apply_entry_locked wid l ref st g s =
     (case apply_ledger_entry wid l ref st g s of
        (Inr e, t) \<Rightarrow> (Inr (Inr e), t\<lparr>committed := work t\<rparr>)
      | (Inl err, t) \<Rightarrow>
          if err = IntegrityError then
            bnd (get_entry_by_reference ref) (\<lambda>existing.
            case existing of
              None \<Rightarrow> raise err
            | Some e \<Rightarrow> bnd (replay e) (\<lambda>r. return (Inl r))) (t\<lparr>work := committed t\<rparr>)
          else (Inl err, t\<lparr>work := committed t\<rparr>))"
proof (cases "find_first (\<lambda>w. w_id w = wid) (wallets (work s))")
  case None
  then show ?thesis
    by (simp add: apply_entry_locked_def lock_wallet_def get_wallet_by_id_def try_except_def step
        apply_ledger_entry_missing)
next
  case (Some w)
  then have "w_id w = wid" by (auto dest: find_first_SomeD)
  with Some show ?thesis
    by (simp add: apply_entry_locked_def lock_wallet_def get_wallet_by_id_def try_except_def step
        bnd_def [of "apply_ledger_entry wid l ref st g"] split: prod.splits sum.splits)
qed

lemma apply_entry_locked_Inr:
  assumes "apply_entry_locked wid l ref st g s = (Inr (Inr e), t)"
  obtains w where
    "find_first (\<lambda>w. w_id w = wid) (wallets (work s)) = Some w" "entry_error w l = None"
    "e = ledger_entry w l ref st g (uuid_supply s (uuid_next s)) (clock s)"
    "transaction_constraints (transactions (work s) @ [e])"
    "wallet_constraints (replace_by w_id (moved w e) (wallets (work s)))"
    "t = locked_state w e s"
proof -
  from assms obtain t' where "apply_ledger_entry wid l ref st g s = (Inr e, t')"
    and t: "t = t'\<lparr>committed := work t'\<rparr>"
    by (auto simp: apply_entry_locked_eq get_entry_by_reference_def step replay_def
        get_wallet_by_id_def split: prod.splits sum.splits if_splits option.splits)
  then show ?thesis
    by (elim apply_ledger_entry_Inr) (rule that; simp add: locked_state_def)
qed

lemma apply_entry_locked_other:
  assumes "apply_entry_locked wid l ref st g s = (r, t)" and "\<And>e. r \<noteq> Inr (Inr e)"
  shows "committed t = committed s \<and> work t = committed s"
proof -
  obtain q u where q: "apply_ledger_entry wid l ref st g s = (q, u)" by fastforce
  with assms obtain err where "q = Inl err"
    by (cases q) (auto simp: apply_entry_locked_eq)
  with q assms show ?thesis
    using apply_ledger_entry_Inl(1) [of wid l ref st g s err u]
    by (auto simp: apply_entry_locked_eq get_entry_by_reference_def step replay_def
        get_wallet_by_id_def split: if_splits option.splits)
qed

text \<open>A wallet is found or created before the lock; creating it commits an empty row.\<close>

definition opened_wallet :: "id \<Rightarrow> session \<Rightarrow> session \<Rightarrow> bool" where
  "opened_wallet u s t \<longleftrightarrow>
     work t = (work s)\<lparr>wallets := wallets (work s) @
       [new_wallet u (uuid_supply s (uuid_next s)) (clock s)]\<rparr> \<and>
     committed t = work t"

lemma resolve_wallet_id_existing:
  "find_first (\<lambda>w. w_user_id w = u) (wallets (work s)) = Some w \<Longrightarrow>
   resolve_wallet_id u s = (Inr (w_id w), s)"
  by (simp add: resolve_wallet_id_def get_user_wallet_def step)

lemma bnd_resolve_existing:
  "find_first (\<lambda>w. w_user_id w = u) (wallets (work s)) = Some w \<Longrightarrow>
   bnd (resolve_wallet_id u) k s = k (w_id w) s"
  by (simp add: bnd_def resolve_wallet_id_existing)

lemma resolve_wallet_id_new:
  assumes "find_first (\<lambda>w. w_user_id w = u) (wallets (work s)) = None"
    and "resolve_wallet_id u s = (r, t)"
  shows "r = Inr (uuid_supply s (uuid_next s)) \<and> opened_wallet u s t \<or>
         r = Inl IntegrityError \<and> work t = work s \<and> committed t = committed s"
proof (cases "wallet_constraints (wallets (work s) @
    [new_wallet u (uuid_supply s (uuid_next s)) (clock s)])")
  case True
  with assms show ?thesis
    by (auto simp: resolve_wallet_id_def ensure_wallet_def get_user_wallet_def step
        opened_wallet_def find_first_append
        wallet_fits_def numeric_12_2_def)
next
  case False
  with assms show ?thesis
    by (auto simp: resolve_wallet_id_def ensure_wallet_def get_user_wallet_def step
        wallet_fits_def numeric_12_2_def)
qed

definition wallet_cache_cleared :: "id list \<Rightarrow> session \<Rightarrow> session" where
  "wallet_cache_cleared us s =
     s\<lparr>redis := map_option (\<lambda>c k. if k \<in> set (map user_wallet_key us) then None else c k) (redis s)\<rparr>"

text \<open>The whole of \<open>apply_entry\<close> for a user with a wallet and an unused reference.\<close>

lemma apply_entry_eq:
  assumes "find_first (\<lambda>t. t_reference t = ref) (transactions (work s)) = None"
    and w: "find_first (\<lambda>w. w_user_id w = l_user_id l) (wallets (work s)) = Some w"
    and wc: "wallet_constraints (wallets (work s))"
  shows "apply_entry l ref st g s =
     (case apply_entry_locked (w_id w) l ref st g s of
        (Inl e, u) \<Rightarrow> (Inl e, u)
      | (Inr (Inl r), u) \<Rightarrow> (Inr r, u)
      | (Inr (Inr e), u) \<Rightarrow>
          (Inr \<lparr>lr_entry = e, lr_wallet = moved w e, lr_replayed = False\<rparr>,
           wallet_cache_cleared [l_user_id l] u))"
proof -
  obtain q u where q: "apply_entry_locked (w_id w) l ref st g s = (q, u)" by fastforce
  show ?thesis
  proof (cases "\<exists>e. q = Inr (Inr e)")
    case False
    with assms q show ?thesis
      by (auto simp: apply_entry_def get_entry_by_reference_def step
          bnd_resolve_existing [OF w]
          bnd_def [of "apply_entry_locked (w_id w) l ref st g"] split: sum.splits)
  next
    case True
    then obtain e where e: "q = Inr (Inr e)" ..
    from q [unfolded e] obtain w' where
      w': "find_first (\<lambda>x. w_id x = w_id w) (wallets (work s)) = Some w'"
      and u: "u = locked_state w' e s" and tc: "transaction_constraints (transactions (work s) @ [e])"
      by (rule apply_entry_locked_Inr)
    from find_wallet_same_row [OF wc w] w' have "w' = w" by simp
    from tc have "find_first (\<lambda>x. t_id x = t_id e) (transactions (work u)) = Some e"
      by (simp add: u locked_state_def post_entry_def transaction_constraints_def find_first_key)
    moreover from w' \<open>w' = w\<close> have
      "find_first (\<lambda>x. w_id x = w_id w) (wallets (work u)) = Some (moved w e)"
      by (simp add: u locked_state_def post_entry_def find_moved)
    ultimately show ?thesis
      using assms q e
      by (simp add: apply_entry_def get_entry_by_reference_def step
          bnd_resolve_existing [OF w] get_wallet_by_id_def
          bnd_def [of "apply_entry_locked (w_id w) l ref st g"]
          wallet_cache_cleared_def)
  qed
qed

text \<open>
  The constraints of the tables hold for the rows that pass the checks: given a fresh id and
  reference, neither UNIQUE nor CHECK can fire.
\<close>

lemma wallet_constraints_moved:
  assumes "wallet_constraints ws" and "w \<in> set ws"
    and "0 \<le> t_balance_after e" and "0 \<le> t_escrow_after e"
  shows "wallet_constraints (replace_by w_id (moved w e) ws)"
proof -
  from assms have d: "distinct (map w_id ws)" by (simp add: wallet_constraints_def)
  have "map w_user_id (replace_by w_id (moved w e) ws) = map w_user_id ws"
    by (rule map_replace_same_field [OF d assms(2)]) simp_all
  with assms show ?thesis
    by (auto simp: wallet_constraints_def list_all_iff dest: set_replaceD)
qed

lemma transaction_constraints_new:
  assumes "transaction_constraints ts" and "t_id e \<notin> set (map t_id ts)"
    and "find_first (\<lambda>t. t_reference t = t_reference e) ts = None" and "0 < t_amount e"
  shows "transaction_constraints (ts @ [e])"
  using assms by (auto simp: transaction_constraints_def find_first_None_iff)

lemma entry_error_NoneD:
  assumes "entry_error w l = None"
  shows "0 < l_amount l" "quantize2 (l_amount l) = l_amount l"
    "0 \<le> t_balance_after (ledger_entry w l ref st g u t)"
    "0 \<le> t_escrow_after (ledger_entry w l ref st g u t)"
  using assms by (auto simp: entry_error_def split_beta split: if_splits)

lemma apply_ledger_entry_succeeds:
  assumes inv: "ledger_inv (work s)"
    and w: "find_first (\<lambda>w. w_id w = wid) (wallets (work s)) = Some w"
    and new: "find_first (\<lambda>t. t_reference t = ref) (transactions (work s)) = None"
    and id: "uuid_supply s (uuid_next s) \<notin> set (map t_id (transactions (work s)))"
    and ok: "entry_error w l = None"
    and e: "e = ledger_entry w l ref st g (uuid_supply s (uuid_next s)) (clock s)"
    and fit: "transaction_fits e" "wallet_fits (moved w e)"
  shows "apply_ledger_entry wid l ref st g s =
     (Inr e, s\<lparr>uuid_next := Suc (uuid_next s), work := post_entry w e (work s)\<rparr>)"
proof -
  from ok have amount: "\<not> l_amount l \<le> 0" "l_amount l = quantize2 (l_amount l)"
    using entry_error_NoneD(1,2) [OF ok] by simp_all
  from ok have after: "0 \<le> t_balance_after e" "0 \<le> t_escrow_after e"
    unfolding e by (rule entry_error_NoneD)+
  from after have checks: "\<not> t_balance_after e < 0" "\<not> t_escrow_after e < 0"
    by simp_all
  from inv w after have "wallet_constraints (replace_by w_id (moved w e) (wallets (work s)))"
    by (intro wallet_constraints_moved) (auto simp: ledger_inv_def dest: find_first_SomeD)
  moreover from inv new id amount have "transaction_constraints (transactions (work s) @ [e])"
    by (intro transaction_constraints_new) (simp_all add: ledger_inv_def e)
  ultimately show ?thesis
    using w amount checks fit
    by (simp add: apply_ledger_entry_def get_wallet_by_id_def step Let_def post_entry_def
        e [symmetric] del: ledger_entry_simps)
qed

lemma apply_entry_fresh:
  assumes inv: "ledger_inv (work s)"
    and new: "find_first (\<lambda>t. t_reference t = ref) (transactions (work s)) = None"
    and w: "find_first (\<lambda>w. w_user_id w = l_user_id l) (wallets (work s)) = Some w"
    and id: "uuid_supply s (uuid_next s) \<notin> set (map t_id (transactions (work s)))"
    and ok: "entry_error w l = None"
    and e: "e = ledger_entry w l ref st g (uuid_supply s (uuid_next s)) (clock s)"
    and fit: "transaction_fits e" "wallet_fits (moved w e)"
  shows "apply_entry l ref st g s =
     (Inr \<lparr>lr_entry = e, lr_wallet = moved w e, lr_replayed = False\<rparr>,
      wallet_cache_cleared [l_user_id l] (locked_state w e s))"
proof -
  from inv have wc: "wallet_constraints (wallets (work s))" by (simp add: ledger_inv_def)
  from find_wallet_same_row [OF wc w]
  have "apply_entry_locked (w_id w) l ref st g s = (Inr (Inr e), locked_state w e s)"
    using apply_ledger_entry_succeeds [OF inv _ new id ok e fit]
    by (simp add: apply_entry_locked_eq locked_state_def)
  with apply_entry_eq [OF new w wc] show ?thesis by simp
qed

text \<open>A second request with the reference of a stored entry finds it and stops.\<close>

lemma apply_entry_replays:
  assumes "find_first (\<lambda>t. t_reference t = ref) (transactions (work s)) = Some e"
    and "find_first (\<lambda>w. w_id w = t_wallet_id e) (wallets (work s)) = Some w"
  shows "apply_entry l ref st g s = (Inr \<lparr>lr_entry = e, lr_wallet = w, lr_replayed = True\<rparr>, s)"
  using assms
  by (simp add: apply_entry_def get_entry_by_reference_def step replay_def get_wallet_by_id_def)

text \<open>What a returned result guarantees about the state it leaves.\<close>

definition stored :: "string \<Rightarrow> ledger_result \<Rightarrow> session \<Rightarrow> bool" where
  "stored ref r s \<longleftrightarrow>
     find_first (\<lambda>t. t_reference t = ref) (transactions (work s)) = Some (lr_entry r) \<and>
     find_first (\<lambda>w. w_id w = t_wallet_id (lr_entry r)) (wallets (work s)) = Some (lr_wallet r)"

lemma stored_cleared [simp]: "stored ref r (wallet_cache_cleared us s) = stored ref r s"
  by (simp add: stored_def wallet_cache_cleared_def)

lemma replay_stored:
  assumes "find_first (\<lambda>t. t_reference t = ref) (transactions (work s)) = Some e"
    and "replay e s = (Inr r, t)"
  shows "stored ref r t"
  using assms by (auto simp: replay_def get_wallet_by_id_def step stored_def split: option.splits)

lemma apply_entry_locked_stored:
  assumes "apply_entry_locked wid l ref st g s = (Inr (Inl r), t)"
  shows "stored ref r t"
proof -
  from assms obtain u e where
    "find_first (\<lambda>t. t_reference t = ref) (transactions (work u)) = Some e"
    "bnd (replay e) (\<lambda>r. return (Inl r)) u = (Inr (Inl r :: ledger_result + transaction), t)"
    by (force simp: apply_entry_locked_eq get_entry_by_reference_def step
        split: prod.splits sum.splits if_splits option.splits)
  then show ?thesis by (auto elim!: bnd_InrE intro: replay_stored)
qed

text \<open>For a user without a wallet it is the same movement once the empty wallet is there.\<close>

lemma opened_wallet_facts:
  assumes "opened_wallet u s t" and "find_first (\<lambda>w. w_user_id w = u) (wallets (work s)) = None"
  shows "find_first (\<lambda>w. w_user_id w = u) (wallets (work t)) =
           Some (new_wallet u (uuid_supply s (uuid_next s)) (clock s))"
    "transactions (work t) = transactions (work s)"
  using assms by (simp_all add: opened_wallet_def find_first_append)

lemma resolve_wallet_id_constraints:
  assumes "resolve_wallet_id u s = (Inr i, t)" and "wallet_constraints (wallets (work s))"
  shows "wallet_constraints (wallets (work t))"
  using assms
  by (auto simp: resolve_wallet_id_def ensure_wallet_def get_user_wallet_def step
      split: option.splits if_splits)

lemma apply_entry_opens:
  assumes new: "find_first (\<lambda>t. t_reference t = ref) (transactions (work s)) = None"
    and none: "find_first (\<lambda>w. w_user_id w = l_user_id l) (wallets (work s)) = None"
    and i: "resolve_wallet_id (l_user_id l) s = (Inr i, t)"
  shows "apply_entry l ref st g s = apply_entry l ref st g t"
proof -
  from resolve_wallet_id_new [OF none i] have o: "opened_wallet (l_user_id l) s t"
    and "i = uuid_supply s (uuid_next s)" by auto
  with new i none show ?thesis
    using opened_wallet_facts [OF o none]
    by (simp add: apply_entry_def get_entry_by_reference_def step bnd_resolve_existing
        bnd_Inr [of "resolve_wallet_id (l_user_id l)", OF i])
qed

lemma apply_entry_returns_stored_existing:
  assumes inv: "wallet_constraints (wallets (work s))"
    and run: "apply_entry l ref st g s = (Inr r, t)"
    and new: "find_first (\<lambda>t. t_reference t = ref) (transactions (work s)) = None"
    and w: "find_first (\<lambda>w. w_user_id w = l_user_id l) (wallets (work s)) = Some w"
  shows "stored ref r t"
proof -
  obtain q u where q: "apply_entry_locked (w_id w) l ref st g s = (q, u)" by fastforce
  have eq: "apply_entry l ref st g s =
     (case q of Inl e \<Rightarrow> (Inl e, u) | Inr (Inl r) \<Rightarrow> (Inr r, u)
      | Inr (Inr e) \<Rightarrow> (Inr \<lparr>lr_entry = e, lr_wallet = moved w e, lr_replayed = False\<rparr>,
          wallet_cache_cleared [l_user_id l] u))"
    using apply_entry_eq [OF new w inv] q by (simp split: sum.splits)
  show ?thesis
  proof (cases "\<exists>e. q = Inr (Inr e)")
    case True
    then obtain e where e: "q = Inr (Inr e)" ..
    from q [unfolded e] obtain w' where
      w': "find_first (\<lambda>x. w_id x = w_id w) (wallets (work s)) = Some w'"
      and entry: "e = ledger_entry w' l ref st g (uuid_supply s (uuid_next s)) (clock s)"
      and u: "u = locked_state w' e s" by (rule apply_entry_locked_Inr)
    from find_wallet_same_row [OF inv w] w' have "w' = w" by simp
    with w' have "find_first (\<lambda>x. w_id x = w_id w) (wallets (work u)) = Some (moved w e)"
      by (simp add: u locked_state_def post_entry_def find_moved)
    moreover from new have
      "find_first (\<lambda>t. t_reference t = ref) (transactions (work u)) = Some e"
      by (simp add: u locked_state_def post_entry_def find_new_reference entry)
    moreover have "t_wallet_id e = w_id w" by (simp add: entry \<open>w' = w\<close>)
    ultimately show ?thesis using run eq e by (auto simp: stored_def wallet_cache_cleared_def)
  next
    case False
    with run eq have "q = Inr (Inl r)" "u = t" by (auto split: sum.splits)
    with q show ?thesis by (blast intro: apply_entry_locked_stored)
  qed
qed

lemma apply_entry_returns_stored:
  assumes inv: "wallet_constraints (wallets (work s))"
    and run: "apply_entry l ref st g s = (Inr r, t)"
  shows "stored ref r t"
proof (cases "find_first (\<lambda>t. t_reference t = ref) (transactions (work s))")
  case (Some e)
  with run have "replay e s = (Inr r, t)"
    by (simp add: apply_entry_def get_entry_by_reference_def step)
  with Some show ?thesis by (rule replay_stored)
next
  case new: None
  show ?thesis
  proof (cases "find_first (\<lambda>w. w_user_id w = l_user_id l) (wallets (work s))")
    case (Some w)
    from inv run new Some show ?thesis by (rule apply_entry_returns_stored_existing)
  next
    case None
    obtain i u where i: "resolve_wallet_id (l_user_id l) s = (i, u)" by fastforce
    with new run None obtain j where j: "i = Inr j"
      by (cases i) (auto simp: apply_entry_def get_entry_by_reference_def step bnd_def)
    note opened = i [unfolded j]
    from resolve_wallet_id_new [OF None opened] have o: "opened_wallet (l_user_id l) s u" by simp
    from run new have "apply_entry l ref st g u = (Inr r, t)"
      using apply_entry_opens [OF new None opened] by simp
    moreover from new have "find_first (\<lambda>t. t_reference t = ref) (transactions (work u)) = None"
      by (simp add: opened_wallet_facts(2) [OF o None])
    ultimately show ?thesis
      by (rule apply_entry_returns_stored_existing [OF
            resolve_wallet_id_constraints [OF opened inv] _ _ opened_wallet_facts(1) [OF o None]])
  qed
qed

section \<open>Transfers\<close>

lemma total_balance_replace:
  assumes "distinct (map w_id ws)" and "w \<in> set ws"
  shows "sum_list (map (\<lambda>w. w_available_balance w + w_escrow_balance w)
           (replace_by w_id (moved w e) ws)) =
         sum_list (map (\<lambda>w. w_available_balance w + w_escrow_balance w) ws) +
         (t_balance_after e + t_escrow_after e - (w_available_balance w + w_escrow_balance w))"
  using assms by (simp add: sum_list_map_replace [where x = w])

lemma total_balance_post_entry:
  assumes "ledger_inv d" and "find_first (\<lambda>w. w_id w = wid) (wallets d) = Some w"
    and "e = ledger_entry w l ref st g u t"
  shows "total_balance (post_entry w e d) =
     total_balance d + l_amount l * of_int (net_effect (l_entry_type l))"
proof -
  from assms(1,2) have "distinct (map w_id (wallets d))" "w \<in> set (wallets d)"
    by (auto simp: ledger_inv_def wallet_constraints_def dest: find_first_SomeD)
  then show ?thesis
    by (simp add: total_balance_def post_entry_def total_balance_replace assms(3) net_effect_def
        algebra_simps)
qed

lemma lock_wallets_reads: "lock_wallets ks s = (r, t) \<Longrightarrow> t = s"
proof -
  have "snd (map_m lock_wallet ks s) = s" for ks
    by (induction ks) (auto simp: bnd_def lock_wallet_def get_wallet_by_id_def
        split: prod.splits sum.splits option.splits)
  then show "lock_wallets ks s = (r, t) \<Longrightarrow> t = s"
    unfolding lock_wallets_def by (metis snd_conv)
qed

lemma lock_wallets_ok:
  assumes "set ks \<subseteq> set (map w_id (wallets (work s)))"
  shows "\<exists>ids. lock_wallets ks s = (Inr ids, s)"
proof -
  have "\<exists>ids. map_m lock_wallet ks s = (Inr ids, s)" if "set ks \<subseteq> set (map w_id (wallets (work s)))" for ks
    using that
  proof (induction ks)
    case (Cons k ks)
    then obtain ids where ids: "map_m lock_wallet ks s = (Inr ids, s)" by auto
    from Cons.prems obtain w where w: "find_first (\<lambda>w. w_id w = k) (wallets (work s)) = Some w"
      by (cases "find_first (\<lambda>w. w_id w = k) (wallets (work s))") (auto simp: find_first_None_iff)
    then have "lock_wallet k s = (Inr (w_id w), s)"
      by (simp add: lock_wallet_def get_wallet_by_id_def step)
    with ids show ?case by (simp add: run_bnd)
  qed simp
  from this [of "lock_order ks"] assms show ?thesis by (simp add: lock_wallets_def lock_order_def)
qed

lemma transfer_conflict_result:
  assumes "transfer_conflict g err s = (r, t)"
  shows "r \<noteq> Inr (Inr p)" "committed t = committed s" "work t = committed s"
  using assms
  by (auto simp: transfer_conflict_def step get_entries_by_group_def replay_transfer_def
      split: if_splits option.splits)

text \<open>Both legs in one transaction, the second on the state the first one left.\<close>

lemma apply_transfer_locked_Inr:
  assumes "apply_transfer_locked dw cw g debit credit s = (Inr (Inr (d, c)), t)"
  obtains u v where
    "apply_ledger_entry dw debit (debit_ref g) ENTRY_COMPLETED (Some g) s = (Inr d, u)"
    "apply_ledger_entry cw credit (credit_ref g) ENTRY_COMPLETED (Some g) u = (Inr c, v)"
    "t = v\<lparr>committed := work v\<rparr>"
proof -
  from assms have
    "bnd (lock_wallets [dw, cw]) (\<lambda>_.
      bnd (apply_ledger_entry dw debit (debit_ref g) ENTRY_COMPLETED (Some g)) (\<lambda>d.
      bnd (apply_ledger_entry cw credit (credit_ref g) ENTRY_COMPLETED (Some g)) (\<lambda>c.
      bnd commit (\<lambda>_. return (Inr (d, c) :: transfer_result + _))))) s = (Inr (Inr (d, c)), t)"
    unfolding apply_transfer_locked_def try_except_def
    by (auto split: prod.splits sum.splits dest: transfer_conflict_result(1))
  then show ?thesis
    by (elim bnd_InrE) (auto dest!: lock_wallets_reads intro: that)
qed

lemma apply_ledger_entry_committed:
  "apply_ledger_entry wid l ref st g s = (r, t) \<Longrightarrow> committed t = committed s"
  by (cases r) (auto dest: apply_ledger_entry_Inl(1) elim!: apply_ledger_entry_Inr)

lemma apply_transfer_locked_other:
  assumes "apply_transfer_locked dw cw g debit credit s = (r, t)" and "\<And>p. r \<noteq> Inr (Inr p)"
  shows "committed t = committed s" "work t = committed s"
proof -
  let ?m = "bnd (lock_wallets [dw, cw]) (\<lambda>_.
      bnd (apply_ledger_entry dw debit (debit_ref g) ENTRY_COMPLETED (Some g)) (\<lambda>d.
      bnd (apply_ledger_entry cw credit (credit_ref g) ENTRY_COMPLETED (Some g)) (\<lambda>c.
      bnd commit (\<lambda>_. return (Inr (d, c) :: transfer_result + _)))))"
  obtain q u where q: "?m s = (q, u)" by fastforce
  show "committed t = committed s" "work t = committed s"
  proof (atomize (full), cases q)
    case (Inl err)
    from q [unfolded Inl] have "committed u = committed s"
      by (elim bnd_InlE bnd_InrE)
        (auto dest!: lock_wallets_reads apply_ledger_entry_committed)
    moreover from q Inl assms(1) have "transfer_conflict g err u = (r, t)"
      by (simp add: apply_transfer_locked_def try_except_def)
    ultimately show "committed t = committed s \<and> work t = committed s"
      by (simp add: transfer_conflict_result(2,3))
  next
    case (Inr x)
    from q [unfolded Inr] have "\<exists>p. x = Inr p" by (elim bnd_InrE) auto
    moreover from q Inr assms(1) have "r = Inr x"
      by (simp add: apply_transfer_locked_def try_except_def)
    ultimately show "committed t = committed s \<and> work t = committed s" using assms(2) by auto
  qed
qed

lemma resolve_wallet_id_effect:
  assumes "resolve_wallet_id u s = (r, t)" and "ledger_inv (work s)"
  shows "transactions (work t) = transactions (work s)" "total_balance (work t) = total_balance (work s)"
    "ledger_inv (work t)"
    "committed t = committed s \<or> committed t = work t"
proof -
  have "transactions (work t) = transactions (work s) \<and>
      total_balance (work t) = total_balance (work s) \<and> ledger_inv (work t) \<and>
      (committed t = committed s \<or> committed t = work t)"
  proof (cases "find_first (\<lambda>w. w_user_id w = u) (wallets (work s))")
    case (Some w)
    with assms show ?thesis by (auto simp: resolve_wallet_id_existing)
  next
    case None
    show ?thesis
    proof (cases r)
      case (Inl e)
      with resolve_wallet_id_new [OF None assms(1)] assms(2) show ?thesis by auto
    next
      case (Inr i)
      with resolve_wallet_id_new [OF None assms(1)] have o: "opened_wallet u s t" by simp
      from assms(1) [unfolded Inr] assms(2) have "wallet_constraints (wallets (work t))"
        by (auto simp: ledger_inv_def intro: resolve_wallet_id_constraints)
      with o assms(2) have "ledger_inv (work t)"
        by (auto simp: opened_wallet_def intro: ledger_inv_new_wallet)
      with o show ?thesis by (auto simp: opened_wallet_def total_balance_def)
    qed
  qed
  then show "transactions (work t) = transactions (work s)"
    "total_balance (work t) = total_balance (work s)" "ledger_inv (work t)"
    "committed t = committed s \<or> committed t = work t" by auto
qed

lemma apply_ledger_entry_effect:
  assumes "apply_ledger_entry wid l ref st g s = (Inr e, t)" and "ledger_inv (work s)"
  shows "transactions (work t) = transactions (work s) @ [e]"
    "total_balance (work t) =
       total_balance (work s) + l_amount l * of_int (net_effect (l_entry_type l))"
    "ledger_inv (work t)" "t_group_id e = g" "t_reference e = ref" "committed t = committed s"
proof -
  from assms(1) obtain w where w:
    "find_first (\<lambda>w. w_id w = wid) (wallets (work s)) = Some w" "entry_error w l = None"
    "e = ledger_entry w l ref st g (uuid_supply s (uuid_next s)) (clock s)"
    "transaction_constraints (transactions (work s) @ [e])"
    "wallet_constraints (replace_by w_id (moved w e) (wallets (work s)))"
    "t = s\<lparr>uuid_next := Suc (uuid_next s), work := post_entry w e (work s)\<rparr>"
    by (rule apply_ledger_entry_Inr)
  from w(6) show "transactions (work t) = transactions (work s) @ [e]"
    by (simp add: post_entry_def)
  from w(6) show "total_balance (work t) =
       total_balance (work s) + l_amount l * of_int (net_effect (l_entry_type l))"
    using total_balance_post_entry [OF assms(2) w(1,3)] by simp
  from w(6) show "ledger_inv (work t)"
    using ledger_inv_post_entry [OF assms(2) w(1-5)] by simp
  from w(3,6) show "t_group_id e = g" "t_reference e = ref" "committed t = committed s"
    by simp_all
qed

text \<open>The rows of a committed transfer are read back as they were written.\<close>

lemma refresh_entry:
  assumes "transaction_constraints (transactions (work s))" and "e \<in> set (transactions (work s))"
  shows "bnd (refresh transaction_t e) k s = k e s"
  using assms by (simp add: step transaction_constraints_def find_first_key)

lemma transfer_conflict_replayed:
  "transfer_conflict g err s = (Inr (Inl x), t) \<Longrightarrow> tr_replayed x"
  by (auto simp: transfer_conflict_def step get_entries_by_group_def replay_transfer_def
      split: if_splits option.splits)

lemma apply_transfer_locked_replayed:
  "apply_transfer_locked dw cw g debit credit s = (Inr (Inl x), t) \<Longrightarrow> tr_replayed x"
  unfolding apply_transfer_locked_def try_except_def
  by (auto split: prod.splits sum.splits elim!: bnd_InrE dest: transfer_conflict_replayed)

definition transfer_done :: "string \<Rightarrow> ledger_leg \<Rightarrow> ledger_leg \<Rightarrow> transfer_result \<Rightarrow> db \<Rightarrow> db \<Rightarrow> bool"
where
  "transfer_done g debit credit x d d' \<longleftrightarrow>
     \<not> tr_replayed x \<and> transactions d' = transactions d @ [tr_debit x, tr_credit x] \<and>
     t_group_id (tr_debit x) = Some g \<and> t_group_id (tr_credit x) = Some g \<and>
     t_reference (tr_debit x) = debit_ref g \<and> t_reference (tr_credit x) = credit_ref g \<and>
     total_balance d' = total_balance d +
       l_amount debit * of_int (net_effect (l_entry_type debit)) +
       l_amount credit * of_int (net_effect (l_entry_type credit))"

definition no_movement :: "db \<Rightarrow> db \<Rightarrow> bool" where
  "no_movement d d' \<longleftrightarrow>
     transactions d' = transactions d \<and> total_balance d' = total_balance d"

definition transfer_tail ::
  "string \<Rightarrow> ledger_leg \<Rightarrow> ledger_leg \<Rightarrow> transfer_result + transaction \<times> transaction \<Rightarrow>
   transfer_result handler"
where
  "transfer_tail g debit credit out =
     (case out of
        Inl r \<Rightarrow> return r
      | Inr (d, c) \<Rightarrow>
           bnd (refresh transaction_t d) (\<lambda>d.
           bnd (refresh transaction_t c) (\<lambda>c.
           bnd (cache_delete [user_wallet_key (l_user_id debit),
                              user_wallet_key (l_user_id credit)]) (\<lambda>_.
           return \<lparr>tr_debit = d, tr_credit = c, tr_replayed = False\<rparr>))))"

lemma transfer_rest:
  assumes run: "bnd (apply_transfer_locked dw cw g debit credit) (transfer_tail g debit credit) s = (r, t)"
    and inv: "ledger_inv (work s)"
  shows "(\<exists>x. r = Inr x \<and> transfer_done g debit credit x (work s) (committed t)) \<or>
         (\<forall>x. r = Inr x \<longrightarrow> tr_replayed x) \<and> committed t = committed s"
proof -
  obtain q u where q: "apply_transfer_locked dw cw g debit credit s = (q, u)" by fastforce
  show ?thesis
  proof (cases "\<exists>d c. q = Inr (Inr (d, c))")
    case False
    with q have "committed u = committed s" by (intro apply_transfer_locked_other) auto
    with False q run show ?thesis
      by (cases q) (auto simp: bnd_def transfer_tail_def dest: apply_transfer_locked_replayed
          split: sum.splits)
  next
    case True
    then obtain d c where "q = Inr (Inr (d, c))" by blast
    note q' = q [unfolded this]
    from q' obtain v w where
      v: "apply_ledger_entry dw debit (debit_ref g) ENTRY_COMPLETED (Some g) s = (Inr d, v)" and
      w: "apply_ledger_entry cw credit (credit_ref g) ENTRY_COMPLETED (Some g) v = (Inr c, w)" and
      u: "u = w\<lparr>committed := work w\<rparr>" by (rule apply_transfer_locked_Inr)
    note dv = apply_ledger_entry_effect [OF v inv]
    note cw = apply_ledger_entry_effect [OF w dv(3)]
    from cw(1,3) u have ok: "transaction_constraints (transactions (work u))"
      and mem: "d \<in> set (transactions (work u))" "c \<in> set (transactions (work u))"
      using dv(1) by (simp_all add: ledger_inv_def)
    from run q' have "r = Inr \<lparr>tr_debit = d, tr_credit = c, tr_replayed = False\<rparr>"
      "committed t = committed u"
      by (auto simp: bnd_Inr [of "apply_transfer_locked dw cw g debit credit", OF q']
          transfer_tail_def refresh_entry [OF ok mem(1)] refresh_entry [OF ok mem(2)]
          bnd_session_steps)
    with dv cw u show ?thesis by (simp add: transfer_done_def)
  qed
qed

lemma apply_transfer_cases:
  assumes inv: "ledger_inv (work s)" and run: "apply_transfer g debit credit s = (r, t)"
  shows "(\<exists>x. r = Inr x \<and> transfer_done g debit credit x (work s) (committed t)) \<or>
         (\<forall>x. r = Inr x \<longrightarrow> tr_replayed x) \<and>
         (committed t = committed s \<or> no_movement (work s) (committed t))"
proof (cases "length (sort_key t_reference
    (filter (\<lambda>t. t_group_id t = Some g) (transactions (work s)))) = 2")
  case True
  with run have "t = s" "\<forall>x. r = Inr x \<longrightarrow> tr_replayed x"
    by (auto simp: apply_transfer_def get_entries_by_group_def step replay_transfer_def
        split: option.splits)
  then show ?thesis by simp
next
  case False
  obtain i u where i: "resolve_wallet_id (l_user_id debit) s = (i, u)" by fastforce
  obtain j v where j: "resolve_wallet_id (l_user_id credit) u = (j, v)" by fastforce
  note u = resolve_wallet_id_effect [OF i inv]
  note v = resolve_wallet_id_effect [OF j u(3)]
  have run': "(case i of Inl e \<Rightarrow> (Inl e, u) | Inr dw \<Rightarrow>
      (case j of Inl e \<Rightarrow> (Inl e, v) | Inr cw \<Rightarrow>
        bnd (apply_transfer_locked dw cw g debit credit) (transfer_tail g debit credit) v)) = (r, t)"
    using run False
    by (simp add: apply_transfer_def get_entries_by_group_def step i j transfer_tail_def [abs_def]
        bnd_def [of "resolve_wallet_id (l_user_id debit)"]
        bnd_def [of "resolve_wallet_id (l_user_id credit)"] split: sum.splits)
  from u v have before: "committed u = committed s \<or> no_movement (work s) (committed u)"
    "committed v = committed s \<or> no_movement (work s) (committed v)"
    by (auto simp: no_movement_def)
  show ?thesis
  proof (cases "\<exists>dw cw. i = Inr dw \<and> j = Inr cw")
    case False
    with run' before show ?thesis by (auto split: sum.splits)
  next
    case True
    with run' obtain dw cw where
      "bnd (apply_transfer_locked dw cw g debit credit) (transfer_tail g debit credit) v = (r, t)"
      by auto
    from transfer_rest [OF this v(3)] show ?thesis
      using before u v by (auto simp: transfer_done_def no_movement_def)
  qed
qed

section \<open>Properties\<close>

lemma money_ledger_inv: "ledger_inv (work money_session)"
  by (simp add: ledger_inv_def sample_defs money_defs wallet_constraints_def
      transaction_constraints_def balance_ok_def entry_wf_def snapshots_ok_def leg_def
      quantize2_def round_half_even_def Let_def)

lemma lock_alice_facts:
  "find_first (\<lambda>w. w_user_id w = ''ua'') (wallets (work money_session)) = Some wallet_alice"
  "w_available_balance wallet_alice = 100" "w_escrow_balance wallet_alice = 40"
  "w_id wallet_alice = ''wa''" "w_user_id wallet_alice = ''ua''"
  by (simp_all add: sample_defs money_defs leg_def)

text \<open>Whatever they return or raise, the two public operations through which money moves, and
  the change of an entry's status, leave the ledger sound in the committed state and in the
  transaction: the stored balances are the sums of the entries' deltas, every entry's snapshot is
  the balance up to it, every entry obeys the effects table, balances are never negative,
  references are unique.\<close>

theorem ledger_operations_keep_invariant:
  "keeps (both ledger_inv) (apply_entry l ref st g) \<and>
   keeps (both ledger_inv) (apply_transfer group_id debit credit) \<and>
   keeps (both ledger_inv) (mark_entry_status ref st pat do_commit) \<and>
   keeps (both ledger_inv) (ensure_wallet u)"
  by (intro conjI keeps_intros)

text \<open>C9: With a sound ledger, an unused reference, an amount of whole kobo and enough money,
  \<open>apply_entry\<close> cannot fail: it commits exactly one entry with the sign of the effects table and
  moves the wallet by that entry's deltas, clears the cached wallet, and touches nothing else; no
  UNIQUE or CHECK constraint of the database can fire.\<close>

theorem apply_entry_moves_exactly_once:
  assumes "ledger_inv (work s)"
    and "find_first (\<lambda>t. t_reference t = ref) (transactions (work s)) = None"
    and "find_first (\<lambda>w. w_user_id w = l_user_id l) (wallets (work s)) = Some w"
    and "uuid_supply s (uuid_next s) \<notin> set (map t_id (transactions (work s)))"
    and "entry_error w l = None"
    and "e = ledger_entry w l ref st g (uuid_supply s (uuid_next s)) (clock s)"
    and "transaction_fits e" and "wallet_fits (moved w e)"
  shows "apply_entry l ref st g s =
     (Inr \<lparr>lr_entry = e, lr_wallet = moved w e, lr_replayed = False\<rparr>,
      wallet_cache_cleared [l_user_id l]
        (s\<lparr>uuid_next := Suc (uuid_next s), work := post_entry w e (work s),
           committed := post_entry w e (work s)\<rparr>))"
  using apply_entry_fresh [OF assms] by (simp only: locked_state_def)

definition lock_60 :: ledger_leg where
  "lock_60 = (leg ''ua'' ESCROW_LOCK 60)\<lparr>l_agreement_id := Some ''ag2''\<rparr>"

definition entry_60 :: transaction where
  "entry_60 = ledger_entry wallet_alice lock_60 ''esc_lock_ag2'' ENTRY_COMPLETED None ''id'' 1000"

lemma lock_60_ok:
  "entry_error wallet_alice lock_60 = None" "l_user_id lock_60 = ''ua''"
  by (simp_all add: entry_error_def lock_60_def leg_def lock_alice_facts quantize2_def
      round_half_even_def Let_def)

lemma entry_60_facts:
  "find_first (\<lambda>t. t_reference t = ''esc_lock_ag2'') (transactions (work money_session)) = None"
  "uuid_supply money_session (uuid_next money_session) \<notin>
     set (map t_id (transactions (work money_session)))"
  "entry_60 = ledger_entry wallet_alice lock_60 ''esc_lock_ag2'' ENTRY_COMPLETED None
     (uuid_supply money_session (uuid_next money_session)) (clock money_session)"
  "transaction_fits entry_60" "wallet_fits (moved wallet_alice entry_60)"
  "w_available_balance (moved wallet_alice entry_60) = 40"
  "w_escrow_balance (moved wallet_alice entry_60) = 100"
  by (simp_all add: sample_defs money_defs entry_60_def transaction_fits_def wallet_fits_def
      numeric_12_2_def lock_60_def leg_def)

theorem apply_entry_moves_exactly_once_witness:
  "apply_entry lock_60 ''esc_lock_ag2'' ENTRY_COMPLETED None money_session =
     (Inr \<lparr>lr_entry = entry_60, lr_wallet = moved wallet_alice entry_60, lr_replayed = False\<rparr>,
      wallet_cache_cleared [l_user_id lock_60]
        (money_session\<lparr>uuid_next := Suc (uuid_next money_session),
           work := post_entry wallet_alice entry_60 (work money_session),
           committed := post_entry wallet_alice entry_60 (work money_session)\<rparr>)) \<and>
   w_available_balance (moved wallet_alice entry_60) = 40 \<and>
   w_escrow_balance (moved wallet_alice entry_60) = 100"
  by (intro conjI apply_entry_moves_exactly_once money_ledger_inv entry_60_facts lock_60_ok)
    (simp add: lock_60_ok lock_alice_facts)

text \<open>C10: Money moves once per reference: after a call of \<open>apply_entry\<close> that returned, any further
  call with the same reference, for whatever leg, returns the same entry and the same wallet with
  \<open>replayed\<close> set and changes nothing in the session.\<close>

theorem apply_entry_idempotent:
  assumes "ledger_inv (work s)" and "apply_entry l ref st g s = (Inr r, t)"
  shows "apply_entry l' ref st' g' t = (Inr (r\<lparr>lr_replayed := True\<rparr>), t)"
proof -
  from assms have "stored ref r t"
    by (auto simp: ledger_inv_def intro: apply_entry_returns_stored)
  then have "apply_entry l' ref st' g' t =
      (Inr \<lparr>lr_entry = lr_entry r, lr_wallet = lr_wallet r, lr_replayed = True\<rparr>, t)"
    unfolding stored_def by (intro apply_entry_replays) simp_all
  then show ?thesis by simp
qed

lemma money_fresh_run:
  "\<exists>r t. apply_entry lock_60 ''esc_lock_ag2'' ENTRY_COMPLETED None money_session = (Inr r, t)"
  using apply_entry_fresh [OF money_ledger_inv entry_60_facts(1) _ entry_60_facts(2)
      lock_60_ok(1) entry_60_facts(3-5)]
  by (simp add: lock_60_ok lock_alice_facts)

theorem apply_entry_idempotent_witness:
  "\<exists>r t. apply_entry lock_60 ''esc_lock_ag2'' ENTRY_COMPLETED None money_session = (Inr r, t) \<and>
     apply_entry lock_60 ''esc_lock_ag2'' ENTRY_COMPLETED None t = (Inr (r\<lparr>lr_replayed := True\<rparr>), t)"
proof -
  from money_fresh_run obtain r t where
    rt: "apply_entry lock_60 ''esc_lock_ag2'' ENTRY_COMPLETED None money_session = (Inr r, t)"
    by blast
  from rt apply_entry_idempotent [OF money_ledger_inv rt] show ?thesis by blast
qed



lemma duplicate_reference_rejected:
  assumes "find_first (\<lambda>t. t_reference t = ref) ts = Some e" and "t_reference x = ref"
  shows "\<not> transaction_constraints (ts @ [x])"
proof -
  from find_first_SomeD [OF assms(1)] assms(2)
  have "e \<in> set ts" and "t_reference x = t_reference e" by auto
  then have "t_reference x \<in> t_reference ` set ts" by (rule image_eqI [rotated])
  then have "\<not> distinct (map t_reference (ts @ [x]))" by simp
  then show ?thesis by (simp only: transaction_constraints_def simp_thms)
qed







text \<open>Wallet rows are locked in ascending order of id and once each, so two transfers over the
  same pair of wallets cannot wait for each other.\<close>

theorem lock_order_sorted:
  "sorted (lock_order ids) \<and> distinct (lock_order ids) \<and> set (lock_order ids) = set ids \<and>
   (\<forall>a b. lock_order [a, b] = lock_order [b, a])"
proof -
  have "lock_order xs = sorted_list_of_set (set xs)" for xs :: "id list"
    by (simp add: lock_order_def sorted_list_of_set_sort_remdups)
  moreover have "set [a, b] = set [b, a]" for a b :: id by auto
  ultimately have "lock_order [a, b] = lock_order [b, a]" for a b :: id by metis
  then show ?thesis by (simp add: lock_order_def del: remdups.simps)
qed

end
