(* ===== verification/PaystackClient.thy ===== *)
theory PaystackClient
  imports Session "HOL-Library.Sublist"
begin

text \<open>
  \<^verbatim>\<open>src/app/service/paystack_client.py\<close> and the part of \<^verbatim>\<open>src/app/config.py\<close> the services read.

  The provider itself is a parameter: \<open>net\<close> maps the requests sent so far and the request being sent
  to a reply.  Every request is logged in \<open>outbound\<close>, so "how often was the provider asked" is a
  statement about the session.  The payload of a reply is a record of the JSON fields the program
  reads, each optional.  Back-off sleeps do not change the state and are left out.
\<close>

section \<open>Configuration\<close>

record settings =
  paystack_transfers_enabled :: bool
  withdrawal_min_amount :: money
  withdrawal_max_amount :: money
  wallet_fund_max_amount :: money
  agreement_max_amount :: money
  paystack_callback_url :: "string option"
  idempotency_ttl_hours :: int
  idempotency_inflight_timeout_seconds :: int
  access_token_expiration_minutes :: int
  refresh_token_expiration_days :: int
  paystack_live_mode :: bool
  paystack_test_secret_key :: string
  paystack_secret_key :: "string option"

text \<open>\<^verbatim>\<open>if not self.paystack_secret_key\<close>: absent or empty.\<close>

definition paystack_active_secret_key :: "settings \<Rightarrow> exn + string" where
  "paystack_active_secret_key cfg =
     (if paystack_live_mode cfg then
        (case paystack_secret_key cfg of
           None \<Rightarrow> Inl RuntimeError
         | Some k \<Rightarrow> if k = '''' then Inl RuntimeError else Inr k)
      else Inr (paystack_test_secret_key cfg))"

definition paystack_webhook_secret :: "settings \<Rightarrow> exn + string" where
  "paystack_webhook_secret cfg = paystack_active_secret_key cfg"

section \<open>Text\<close>

definition lower_char :: "char \<Rightarrow> char" where
  "lower_char c =
     (if CHR ''A'' \<le> c \<and> c \<le> CHR ''Z'' then char_of (of_char c + (32 :: nat)) else c)"

definition upper_char :: "char \<Rightarrow> char" where
  "upper_char c =
     (if CHR ''a'' \<le> c \<and> c \<le> CHR ''z'' then char_of (of_char c - (32 :: nat)) else c)"

definition lower :: "string \<Rightarrow> string" where
  "lower s = map lower_char s"

definition upper :: "string \<Rightarrow> string" where
  "upper s = map upper_char s"

fun contains :: "string \<Rightarrow> string \<Rightarrow> bool" where
  "contains needle [] = (needle = [])"
| "contains needle (c # s) = (prefix needle (c # s) \<or> contains needle s)"

definition digit :: "nat \<Rightarrow> char" where
  "digit n = char_of (48 + n)"

fun nat_str :: "nat \<Rightarrow> string" where
  "nat_str n = (if n < 10 then [digit n] else nat_str (n div 10) @ [digit (n mod 10)])"

declare nat_str.simps [simp del]

section \<open>Errors the provider's messages stand for\<close>

definition validation_hints :: "string list" where
  "validation_hints =
     [''could not resolve'', ''cannot resolve'', ''invalid'', ''not found'', ''unknown bank'',
      ''no such'', ''is required'', ''must be'']"

definition looks_like_validation :: "string \<Rightarrow> bool" where
  "looks_like_validation message =
     (let lowered = lower message in list_ex (\<lambda>hint. contains hint lowered) validation_hints)"

definition looks_like_duplicate_reference :: "string \<Rightarrow> bool" where
  "looks_like_duplicate_reference message =
     (let lowered = lower message
      in contains ''reference'' lowered \<and>
         (contains ''duplicate'' lowered \<or> contains ''already'' lowered \<or>
          contains ''has been used'' lowered))"

section \<open>Transport\<close>

text \<open>
  A reply: \<open>TimedOut\<close> is \<^verbatim>\<open>httpx.TimeoutException\<close> or \<^verbatim>\<open>ConnectError\<close>, \<open>RequestFailed\<close> any other
  \<^verbatim>\<open>RequestError\<close>, \<open>Response\<close> an HTTP status with the parsed body (\<open>None\<close> when it is not JSON).
\<close>

record provider_data =
  pd_id :: "int option"
  pd_reference :: "string option"
  pd_status :: "string option"
  pd_currency :: "string option"
  pd_amount :: "int option"
  pd_channel :: "string option"
  pd_gateway_response :: "string option"
  pd_reason :: "string option"
  pd_transfer_code :: "string option"
  pd_access_code :: "string option"
  pd_authorization_url :: "string option"
  pd_account_name :: "string option"
  pd_account_number :: "string option"
  pd_recipient_code :: "string option"

datatype payload = Fields provider_data | Listing "(string \<times> string) list"

definition no_data :: provider_data where
  "no_data =
     \<lparr>pd_id = None, pd_reference = None, pd_status = None, pd_currency = None, pd_amount = None,
      pd_channel = None, pd_gateway_response = None, pd_reason = None, pd_transfer_code = None,
      pd_access_code = None, pd_authorization_url = None, pd_account_name = None,
      pd_account_number = None, pd_recipient_code = None\<rparr>"

record reply_body =
  rb_status :: bool
  rb_message :: string
  rb_data :: "payload option"

datatype reply =
    TimedOut
  | RequestFailed
  | Response nat "reply_body option"

type_synonym transport = "http_request list \<Rightarrow> http_request \<Rightarrow> reply"

definition send :: "transport \<Rightarrow> http_request \<Rightarrow> reply handler" where
  "send net req =
     bnd (reads (\<lambda>s. net (outbound s) req)) (\<lambda>reply.
     bnd (modify (\<lambda>s. s\<lparr>outbound := outbound s @ [req]\<rparr>)) (\<lambda>_. return reply))"

definition default_message :: "string \<Rightarrow> string \<Rightarrow> string" where
  "default_message message fallback = (if message = '''' then fallback else message)"

fun parse_response :: "nat \<Rightarrow> reply_body option \<Rightarrow> exn + payload" where
  "parse_response code None = Inl (PaystackError ''Unexpected response from the payment provider'')"
| "parse_response code (Some body) =
     (let message = rb_message body in
      if \<not> rb_status body then
        if looks_like_duplicate_reference message then
          Inl (PaystackDuplicateReferenceError
                 (default_message message ''This reference has already been used''))
        else if code < 500 \<and> looks_like_validation message then
          Inl (PaystackValidationError (default_message message ''Request was rejected''))
        else Inl (PaystackError (default_message message ''Payment provider error''))
      else
        (case rb_data body of
           None \<Rightarrow> Inl (PaystackError ''Payment provider returned no data'')
         | Some d \<Rightarrow> Inr d))"

text \<open>The attempts that are left; \<open>request_attempts net req 0\<close> is the line after the loop.\<close>

fun request_attempts :: "transport \<Rightarrow> http_request \<Rightarrow> nat \<Rightarrow> payload handler" where
  "request_attempts net req 0 = raise (PaystackError ''Payment provider request failed'')"
| "request_attempts net req (Suc left) =
     bnd (send net req) (\<lambda>reply.
     case reply of
       TimedOut \<Rightarrow>
         if 0 < left then request_attempts net req left else raise PaystackTimeoutError
     | RequestFailed \<Rightarrow> raise (PaystackError ''Could not reach the payment provider'')
     | Response code body \<Rightarrow>
         if 500 \<le> code then
           if 0 < left then request_attempts net req left
           else raise (PaystackError (''Payment provider returned '' @ nat_str code))
         else
           (case parse_response code body of Inl e \<Rightarrow> raise e | Inr d \<Rightarrow> return d))"

definition request :: "transport \<Rightarrow> http_request \<Rightarrow> nat \<Rightarrow> payload handler" where
  "request net req retries = request_attempts net req (retries + 1)"

text \<open>A caller that indexes the payload as an object.\<close>

definition fields :: "payload handler \<Rightarrow> provider_data handler" where
  "fields m =
     bnd m (\<lambda>p. case p of Fields d \<Rightarrow> return d | Listing xs \<Rightarrow> raise TypeError)"

section \<open>Calls\<close>

definition initialize_transaction ::
  "transport \<Rightarrow> string \<Rightarrow> int \<Rightarrow> string \<Rightarrow> string option \<Rightarrow> string option \<Rightarrow> provider_data handler"
where
  "initialize_transaction net email amount_kobo reference channel callback_url =
     fields (request net
       (HttpRequest ''POST'' ''/transaction/initialize''
          ([(''email'', JStr email), (''amount'', JInt amount_kobo), (''reference'', JStr reference)] @
           (case channel of None \<Rightarrow> [] | Some c \<Rightarrow> [(''channels'', JStr c)]) @
           (case callback_url of None \<Rightarrow> [] | Some u \<Rightarrow> if u = '''' then [] else [(''callback_url'', JStr u)]))) 0)"

definition verify_transaction :: "transport \<Rightarrow> string \<Rightarrow> provider_data handler" where
  "verify_transaction net reference =
     fields (request net (HttpRequest ''GET'' (''/transaction/verify/'' @ reference) []) 2)"

definition list_banks :: "transport \<Rightarrow> string \<Rightarrow> (string \<times> string) list handler" where
  "list_banks net currency =
     bnd (request net
       (HttpRequest ''GET'' ''/bank''
          [(''country'', JStr ''nigeria''), (''currency'', JStr currency), (''perPage'', JInt 100)]) 2)
     (\<lambda>p. case p of Fields d \<Rightarrow> return [] | Listing xs \<Rightarrow> return xs)"

definition resolve_account_number :: "transport \<Rightarrow> string \<Rightarrow> string \<Rightarrow> provider_data handler" where
  "resolve_account_number net account_number bank_code =
     fields (request net
       (HttpRequest ''GET'' ''/bank/resolve''
          [(''account_number'', JStr account_number), (''bank_code'', JStr bank_code)]) 2)"

definition create_transfer_recipient ::
  "transport \<Rightarrow> string \<Rightarrow> string \<Rightarrow> string \<Rightarrow> string \<Rightarrow> provider_data handler"
where
  "create_transfer_recipient net name account_number bank_code currency =
     fields (request net
       (HttpRequest ''POST'' ''/transferrecipient''
          [(''type'', JStr ''nuban''), (''name'', JStr name),
           (''account_number'', JStr account_number), (''bank_code'', JStr bank_code),
           (''currency'', JStr currency)]) 0)"

definition initiate_transfer ::
  "transport \<Rightarrow> int \<Rightarrow> string \<Rightarrow> string \<Rightarrow> string \<Rightarrow> provider_data handler"
where
  "initiate_transfer net amount_kobo recipient_code reference reason =
     fields (request net
       (HttpRequest ''POST'' ''/transfer''
          [(''source'', JStr ''balance''), (''amount'', JInt amount_kobo),
           (''recipient'', JStr recipient_code), (''reference'', JStr reference),
           (''reason'', JStr reason)]) 0)"

definition verify_transfer :: "transport \<Rightarrow> string \<Rightarrow> provider_data handler" where
  "verify_transfer net reference =
     fields (request net (HttpRequest ''GET'' (''/transfer/verify/'' @ reference) []) 2)"

section \<open>What a call does to the session\<close>

lemma send_run [run]: "send net req s = (Inr (net (outbound s) req), s\<lparr>outbound := outbound s @ [req]\<rparr>)"
  by (simp add: send_def step)

lemma bnd_send [step]:
  "bnd (send net req) f s = f (net (outbound s) req) (s\<lparr>outbound := outbound s @ [req]\<rparr>)"
  by (simp add: bnd_def send_run)

text \<open>
  A request changes the session only by logging itself, at most \<open>retries + 1\<close> times and at
  least once, and an error is always one of the client's own.
\<close>

lemma request_attempts_effect:
  "request_attempts net req n s = (r, t) \<Longrightarrow>
   (\<exists>k \<le> n. (0 < n \<longrightarrow> 0 < k) \<and> t = s\<lparr>outbound := outbound s @ replicate k req\<rparr>) \<and>
   (\<forall>e. r = Inl e \<longrightarrow> is_paystack_error e)"
proof (induction n arbitrary: s)
  case 0
  then show ?case by (auto simp: is_paystack_error_def intro: exI [of _ 0])
next
  case (Suc n)
  let ?s = "s\<lparr>outbound := outbound s @ [req]\<rparr>"
  have last: "\<exists>k \<le> Suc n. (0 < Suc n \<longrightarrow> 0 < k) \<and> ?s = s\<lparr>outbound := outbound s @ replicate k req\<rparr>"
    by (rule exI [of _ 1]) simp
  have again: ?case if "request_attempts net req n ?s = (r, t)"
  proof -
    from Suc.IH [OF that] obtain k where
      "k \<le> n" "t = ?s\<lparr>outbound := outbound ?s @ replicate k req\<rparr>"
      and e: "\<forall>e. r = Inl e \<longrightarrow> is_paystack_error e" by blast
    then have "Suc k \<le> Suc n" "t = s\<lparr>outbound := outbound s @ replicate (Suc k) req\<rparr>" by simp_all
    with e show ?thesis by blast
  qed
  show ?case
  proof (cases "net (outbound s) req")
    case TimedOut
    with Suc.prems again last show ?thesis
      by (auto simp: step is_paystack_error_def split: if_splits)
  next
    case RequestFailed
    with Suc.prems last show ?thesis by (auto simp: step is_paystack_error_def)
  next
    case (Response code body)
    show ?thesis
    proof (cases "500 \<le> code \<and> 0 < n")
      case True
      with Response Suc.prems again show ?thesis by (simp add: step)
    next
      case False
      with Response Suc.prems have "t = ?s \<and> (\<forall>e. r = Inl e \<longrightarrow> is_paystack_error e)"
        by (cases body)
          (auto simp: step is_paystack_error_def Let_def split: if_splits sum.splits option.splits)
      with last show ?thesis by blast
    qed
  qed
qed

text \<open>The frame of the client: nothing of the session changes but the log of requests.\<close>

definition only_outbound :: "session \<Rightarrow> session \<Rightarrow> bool" where
  "only_outbound s t \<longleftrightarrow> (\<exists>xs. t = s\<lparr>outbound := outbound s @ xs\<rparr>)"

interpretation outbound_frame: frame only_outbound
proof
  show "only_outbound s s" for s
    unfolding only_outbound_def by (rule exI [of _ "[]"]) simp
  show "only_outbound s u" if "only_outbound s t" "only_outbound t u" for s t u
    using that unfolding only_outbound_def by auto
qed

lemma request_stays: "stays only_outbound (request net req retries)"
  unfolding stays_def request_def
  using request_attempts_effect [of net req "retries + 1"]
  by (metis only_outbound_def prod.collapse)

lemma fields_stays: "stays only_outbound m \<Longrightarrow> stays only_outbound (fields m)"
  unfolding fields_def
  by (rule outbound_frame.stays_bnd)
    (auto split: payload.split intro: outbound_frame.stays_return outbound_frame.stays_raise)

lemma only_outbound_both: "only_outbound s t \<Longrightarrow> both I t = both I s"
  by (auto simp: only_outbound_def both_def)

lemma stays_outbound_keeps: "stays only_outbound m \<Longrightarrow> keeps (both I) m"
  unfolding stays_def keeps_def using only_outbound_both by blast

lemma client_stays:
  "stays only_outbound (initialize_transaction net email k ref ch cb)"
  "stays only_outbound (verify_transaction net ref)"
  "stays only_outbound (list_banks net cur)"
  "stays only_outbound (resolve_account_number net an bc)"
  "stays only_outbound (create_transfer_recipient net nm an bc cur)"
  "stays only_outbound (initiate_transfer net k rc ref reason)"
  "stays only_outbound (verify_transfer net ref)"
  unfolding initialize_transaction_def verify_transaction_def list_banks_def
    resolve_account_number_def create_transfer_recipient_def initiate_transfer_def
    verify_transfer_def
  by (auto intro!: fields_stays request_stays outbound_frame.stays_bnd outbound_frame.stays_return
      split: payload.split)

lemmas client_keeps [keeps_intros] = client_stays [THEN stays_outbound_keeps]

lemma client_stays_run:
  assumes "stays only_outbound m" and "m s = (r, t)"
  shows "committed t = committed s" "work t = work s" "redis t = redis s" "clock t = clock s"
    "uuid_next t = uuid_next s" "uuid_supply t = uuid_supply s" "pushes t = pushes s"
  using staysD [OF assms] by (auto simp: only_outbound_def)

section \<open>Properties\<close>

lemma fields_run:
  "fields m s =
     (case m s of
        (Inl e, t) \<Rightarrow> (Inl e, t)
      | (Inr (Fields d), t) \<Rightarrow> (Inr d, t)
      | (Inr (Listing xs), t) \<Rightarrow> (Inl TypeError, t))"
  by (simp add: fields_def bnd_def split: prod.splits sum.splits payload.splits)

lemma snd_fields: "snd (fields m s) = snd (m s)"
  by (simp add: fields_run split: prod.splits sum.splits payload.splits)

lemma request_log:
  "\<exists>k. 1 \<le> k \<and> k \<le> retries + 1 \<and>
       snd (request net req retries s) = s\<lparr>outbound := outbound s @ replicate k req\<rparr>"
proof -
  obtain r t where rt: "request_attempts net req (retries + 1) s = (r, t)" by fastforce
  from request_attempts_effect [OF this] obtain k where
    "k \<le> retries + 1" "0 < k" "t = s\<lparr>outbound := outbound s @ replicate k req\<rparr>" by auto
  with rt show ?thesis unfolding request_def by (intro exI [of _ k]) simp
qed

text \<open>C24: The retry policy: initiating a transfer sends exactly one request whatever the provider
  answers (a repeated POST could pay twice), so does registering a recipient or starting a charge;
  the reads send between one and three, all identical.  No call touches anything but the log of
  requests.\<close>

theorem transfer_is_sent_once:
  "snd (initiate_transfer net amount_kobo recipient_code reference reason s) =
     s\<lparr>outbound := outbound s @
        [HttpRequest ''POST'' ''/transfer''
          [(''source'', JStr ''balance''), (''amount'', JInt amount_kobo),
           (''recipient'', JStr recipient_code), (''reference'', JStr reference),
           (''reason'', JStr reason)]]\<rparr> \<and>
   (\<exists>k. 1 \<le> k \<and> k \<le> 3 \<and> snd (verify_transfer net reference s) =
      s\<lparr>outbound := outbound s @
         replicate k (HttpRequest ''GET'' (''/transfer/verify/'' @ reference) [])\<rparr>) \<and>
   (\<exists>k. 1 \<le> k \<and> k \<le> 3 \<and> snd (verify_transaction net reference s) =
      s\<lparr>outbound := outbound s @
         replicate k (HttpRequest ''GET'' (''/transaction/verify/'' @ reference) [])\<rparr>)"
proof -
  have one: "snd (request net req 0 s) = s\<lparr>outbound := outbound s @ [req]\<rparr>" for req
  proof -
    from request_log [of 0 net req s] obtain k where "1 \<le> k" "k \<le> 1"
      "snd (request net req 0 s) = s\<lparr>outbound := outbound s @ replicate k req\<rparr>" by auto
    moreover from this have "k = 1" by simp
    ultimately show ?thesis by simp
  qed
  have three: "\<exists>k. 1 \<le> k \<and> k \<le> 3 \<and>
      snd (request net req 2 s) = s\<lparr>outbound := outbound s @ replicate k req\<rparr>" for req
    using request_log [of 2 net req s] by simp
  show ?thesis
    unfolding initiate_transfer_def verify_transfer_def verify_transaction_def snd_fields one
    by (intro conjI refl three)
qed

end
