(* ===== verification/LedgerFrames.thy ===== *)
theory LedgerFrames
  imports Ledger PaystackClient "HOL-Library.Sublist"
begin

text \<open>
  What the operations of \<^verbatim>\<open>wallet_repository.py\<close> leave alone: tables other than their own, and the
  ledger's past.  \<open>append_only\<close> is the audit property: whatever a handler does, the entries that
  were committed are still there, in order and unchanged but for status and processing time.
\<close>

section \<open>Tables the repository does not write\<close>

lemma repo_table_frame [stays_intros]:
  "stays (table_frame T) (get_user_wallet u)" "stays (table_frame T) (get_wallet_by_id i)"
  "stays (table_frame T) (get_entry_by_reference ref)" "stays (table_frame T) (get_entries_by_group g)"
  "stays (table_frame T) (lock_wallet i)" "stays (table_frame T) (lock_wallets ids)"
  "stays (table_frame T) (replay e)" "stays (table_frame T) (replay_transfer es ref)"
  "stays (table_frame T) (get_paystack_transaction ref)"
  "stays (table_frame T) (get_paystack_transaction_for_user ref u)"
  by (auto simp: get_user_wallet_def get_wallet_by_id_def get_entry_by_reference_def
      get_entries_by_group_def lock_wallet_def lock_wallets_def replay_def replay_transfer_def
      get_paystack_transaction_def get_paystack_transaction_for_user_def intro!: stays_intros)

lemma ledger_table_frame [stays_intros]:
  assumes "apart T wallet_t" and "apart T transaction_t"
  shows "stays (table_frame T) (ensure_wallet u)" "stays (table_frame T) (resolve_wallet_id u)"
    "stays (table_frame T) (apply_ledger_entry wid l ref st g)"
    "stays (table_frame T) (apply_entry_locked wid l ref st g)"
    "stays (table_frame T) (apply_entry l ref st g)"
    "stays (table_frame T) (apply_transfer_locked dw cw gi debit credit)"
    "stays (table_frame T) (apply_transfer gi debit credit)"
    "stays (table_frame T) (mark_entry_status ref st pat do_commit)"
proof -
  show ensure: "stays (table_frame T) (ensure_wallet u)" for u
    unfolding ensure_wallet_def by (intro stays_intros assms)
  show resolve: "stays (table_frame T) (resolve_wallet_id u)" for u
    unfolding resolve_wallet_id_def by (intro stays_intros ensure)
  show one: "stays (table_frame T) (apply_ledger_entry wid l ref st g)" for wid l ref st g
    unfolding apply_ledger_entry_def by (intro stays_intros assms)
  show locked: "stays (table_frame T) (apply_entry_locked wid l ref st g)" for wid l ref st g
    unfolding apply_entry_locked_def by (intro stays_intros one)
  show "stays (table_frame T) (apply_entry l ref st g)"
    unfolding apply_entry_def by (intro stays_intros resolve locked)
  show tlocked: "stays (table_frame T) (apply_transfer_locked dw cw gi debit credit)" for dw cw
    unfolding apply_transfer_locked_def transfer_conflict_def by (intro stays_intros one)
  show "stays (table_frame T) (apply_transfer gi debit credit)"
    unfolding apply_transfer_def by (intro stays_intros resolve tlocked)
  show "stays (table_frame T) (mark_entry_status ref st pat do_commit)"
    unfolding mark_entry_status_def Let_def by (intro stays_intros assms)
qed

lemma paystack_table_frame [stays_intros]:
  assumes "apart T paystack_t"
  shows "stays (table_frame T) (create_paystack_transaction u r a ty ch rc ba do_commit)"
    "stays (table_frame T) (save_paystack_transaction p do_commit)"
  unfolding create_paystack_transaction_def save_paystack_transaction_def Let_def
  by (intro stays_intros assms)+

lemma only_outbound_table_frame: "only_outbound s t \<Longrightarrow> table_frame T s t"
  by (auto simp: only_outbound_def table_frame_def)

lemma outbound_table_frame: "stays only_outbound m \<Longrightarrow> stays (table_frame T) m"
  unfolding stays_def using only_outbound_table_frame by blast

lemmas client_table_frame [stays_intros] = client_stays [THEN outbound_table_frame]

section \<open>The ledger's past\<close>

definition core :: "transaction \<Rightarrow> transaction" where
  "core t = t\<lparr>t_status := ENTRY_PENDING, t_processed_at := None\<rparr>"

definition past :: "db \<Rightarrow> transaction list" where
  "past d = map core (transactions d)"

definition append_only :: "session \<Rightarrow> session \<Rightarrow> bool" where
  "append_only s t \<longleftrightarrow>
     (prefix (past (committed s)) (past (work s)) \<longrightarrow>
      prefix (past (committed s)) (past (committed t)) \<and>
      prefix (past (committed t)) (past (work t)))"

interpretation append_only: frame append_only
  by unfold_locales (auto simp: append_only_def intro: prefix_order.order_trans)

lemmas [stays_intros] = append_only.stays_rules

lemma append_only_writes [stays_intros]:
  "apart transaction_t U \<Longrightarrow> stays append_only (insert_row U r)"
  "apart transaction_t U \<Longrightarrow> stays append_only (save_row U r)"
  "apart transaction_t U \<Longrightarrow> stays append_only (update_rows U P f)"
  "apart transaction_t U \<Longrightarrow> stays append_only (delete_rows U P)"
  by (auto simp: stays_def append_only_def past_def apart_def insert_row_eq save_row_eq
      update_rows_eq delete_rows_eq Let_def)

lemma append_only_insert [stays_intros]: "stays append_only (insert_row transaction_t e)"
  by (auto simp: stays_def append_only_def past_def insert_row_eq intro: prefix_prefix)

lemma append_only_session [stays_intros]:
  "stays append_only commit" "stays append_only rollback"
  "stays append_only (commit_if b)" "stays append_only now"
  "stays append_only uuid4" "stays append_only (select U P)"
  "stays append_only (select_first U P)" "stays append_only (get_row U k)"
  "stays append_only (refresh U r)" "stays append_only (cache_get c)"
  "stays append_only (cache_set c v)" "stays append_only (cache_delete cs)"
  "stays append_only (push_ws u f)"
  by (simp_all add: stays_def append_only_def run_commit_if run_refresh split: option.splits)

lemma append_only_best_effort [stays_intros]:
  "stays append_only m \<Longrightarrow> stays append_only (best_effort m)"
  unfolding best_effort_def by (intro stays_intros)

lemma only_outbound_append_only: "only_outbound s t \<Longrightarrow> append_only s t"
  by (auto simp: only_outbound_def append_only_def)

lemma outbound_append_only: "stays only_outbound m \<Longrightarrow> stays append_only m"
  unfolding stays_def using only_outbound_append_only by blast

lemmas client_append_only [stays_intros] = client_stays [THEN outbound_append_only]

lemma past_save_status:
  assumes "transaction_constraints (replace_by t_id e ts)" and "x \<in> set ts"
    and "t_id x = t_id e" and "core e = core x"
  shows "map core (replace_by t_id e ts) = map core ts"
proof (rule map_replace_same_field)
  from assms(1) show "distinct (map t_id ts)" by (simp add: transaction_constraints_def)
qed (use assms in auto)

lemma mark_entry_status_append_only [stays_intros]:
  "stays append_only (mark_entry_status ref st pat do_commit)"
  unfolding stays_def
proof
  fix s
  show "append_only s (snd (mark_entry_status ref st pat do_commit s))"
  proof (cases "find_first (\<lambda>t. t_reference t = ref) (transactions (work s))")
    case None
    then show ?thesis
      by (simp add: mark_entry_status_def get_entry_by_reference_def step append_only.frame_refl)
  next
    case (Some x)
    then have mem: "x \<in> set (transactions (work s))" by (auto dest: find_first_SomeD)
    define y where "y = x\<lparr>t_status := st\<rparr>"
    define e where "e = (if pat \<noteq> None then y\<lparr>t_processed_at := pat\<rparr>
      else if st = ENTRY_COMPLETED \<and> t_processed_at y = None
      then y\<lparr>t_processed_at := Some (clock s)\<rparr> else y)"
    have e: "t_id x = t_id e" "core e = core x" by (simp_all add: e_def y_def core_def)
    have "mark_entry_status ref st pat do_commit s =
        bnd (save_row transaction_t e) (\<lambda>_. bnd (commit_if do_commit) (\<lambda>_. return (Some e))) s"
      using Some
      by (simp add: mark_entry_status_def get_entry_by_reference_def bnd_session_steps
          bnd_steps Let_def e_def y_def)
    with past_save_status [OF _ mem e] show ?thesis
      by (simp add: append_only_def past_def bnd_table_steps bnd_session_steps)
  qed
qed

lemma repo_append_only [stays_intros]:
  "stays append_only (get_user_wallet u)" "stays append_only (get_wallet_by_id i)"
  "stays append_only (get_entry_by_reference ref)" "stays append_only (get_entries_by_group g)"
  "stays append_only (lock_wallet i)" "stays append_only (lock_wallets ids)"
  "stays append_only (replay e)" "stays append_only (replay_transfer es ref)"
  "stays append_only (get_paystack_transaction ref)"
  "stays append_only (get_paystack_transaction_for_user ref u)"
  by (auto simp: get_user_wallet_def get_wallet_by_id_def get_entry_by_reference_def
      get_entries_by_group_def lock_wallet_def lock_wallets_def replay_def replay_transfer_def
      get_paystack_transaction_def get_paystack_transaction_for_user_def intro!: stays_intros)

lemma ledger_append_only [stays_intros]:
  "stays append_only (ensure_wallet u)" "stays append_only (resolve_wallet_id u)"
  "stays append_only (apply_ledger_entry wid l ref st g)"
  "stays append_only (apply_entry_locked wid l ref st g)"
  "stays append_only (apply_entry l ref st g)"
  "stays append_only (apply_transfer_locked dw cw gi debit credit)"
  "stays append_only (apply_transfer gi debit credit)"
  "stays append_only (create_paystack_transaction u r a ty ch rc ba do_commit)"
  "stays append_only (save_paystack_transaction p do_commit)"
proof -
  have apart: "apart transaction_t wallet_t" "apart transaction_t paystack_t"
    by (simp_all add: apart_def)
  show ensure: "stays append_only (ensure_wallet u)" for u
    unfolding ensure_wallet_def by (intro stays_intros apart)
  show resolve: "stays append_only (resolve_wallet_id u)" for u
    unfolding resolve_wallet_id_def by (intro stays_intros ensure)
  show one: "stays append_only (apply_ledger_entry wid l ref st g)" for wid l ref st g
    unfolding apply_ledger_entry_def by (intro stays_intros apart)
  show locked: "stays append_only (apply_entry_locked wid l ref st g)" for wid l ref st g
    unfolding apply_entry_locked_def by (intro stays_intros one)
  show "stays append_only (apply_entry l ref st g)"
    unfolding apply_entry_def by (intro stays_intros resolve locked)
  show tlocked: "stays append_only (apply_transfer_locked dw cw gi debit credit)" for dw cw
    unfolding apply_transfer_locked_def transfer_conflict_def by (intro stays_intros one)
  show "stays append_only (apply_transfer gi debit credit)"
    unfolding apply_transfer_def by (intro stays_intros resolve tlocked)
  show "stays append_only (create_paystack_transaction u r a ty ch rc ba do_commit)"
    "stays append_only (save_paystack_transaction p do_commit)"
    unfolding create_paystack_transaction_def save_paystack_transaction_def Let_def
    by (intro stays_intros apart)+
qed

section \<open>The outside world\<close>

text \<open>The repository sends no request, pushes no frame and mails nobody.\<close>

definition quiet :: "session \<Rightarrow> session \<Rightarrow> bool" where
  "quiet s t \<longleftrightarrow> outbound t = outbound s \<and> pushes t = pushes s \<and> emails t = emails s"

interpretation quiet: frame quiet
  by unfold_locales (auto simp: quiet_def)

lemmas [stays_intros] = quiet.stays_rules

lemma quiet_session [stays_intros]:
  "stays quiet commit" "stays quiet rollback" "stays quiet (commit_if b)" "stays quiet now"
  "stays quiet uuid4" "stays quiet (select U P)" "stays quiet (select_first U P)"
  "stays quiet (get_row U k)" "stays quiet (refresh U r)" "stays quiet (cache_get c)"
  "stays quiet (cache_set c v)" "stays quiet (cache_delete cs)" "stays quiet (insert_row U r)"
  "stays quiet (save_row U r)" "stays quiet (update_rows U P f)" "stays quiet (delete_rows U P)"
  by (auto simp: stays_def quiet_def run_commit_if run_refresh insert_row_eq save_row_eq
      update_rows_eq delete_rows_eq Let_def split: option.splits)

lemma repo_quiet [stays_intros]:
  "stays quiet (get_user_wallet u)" "stays quiet (get_wallet_by_id i)"
  "stays quiet (get_entry_by_reference ref)" "stays quiet (get_entries_by_group g)"
  "stays quiet (lock_wallet i)" "stays quiet (lock_wallets ids)"
  "stays quiet (replay e)" "stays quiet (replay_transfer es ref)"
  "stays quiet (get_paystack_transaction ref)"
  "stays quiet (get_paystack_transaction_for_user ref u)"
  by (auto simp: get_user_wallet_def get_wallet_by_id_def get_entry_by_reference_def
      get_entries_by_group_def lock_wallet_def lock_wallets_def replay_def replay_transfer_def
      get_paystack_transaction_def get_paystack_transaction_for_user_def intro!: stays_intros)

lemma ledger_quiet [stays_intros]:
  "stays quiet (ensure_wallet u)" "stays quiet (resolve_wallet_id u)"
  "stays quiet (apply_entry l ref st g)" "stays quiet (apply_transfer gi debit credit)"
  "stays quiet (create_paystack_transaction u r a ty ch rc ba do_commit)"
  unfolding ensure_wallet_def resolve_wallet_id_def apply_entry_def apply_entry_locked_def
    apply_transfer_def apply_transfer_locked_def transfer_conflict_def apply_ledger_entry_def
    create_paystack_transaction_def Let_def
  by (intro stays_intros)+

section \<open>Reading\<close>

text \<open>
  \<open>reading\<close>: the database is as it was, committed and pending; the cache, the drawn ids and the
  logs may have changed.  A reading operation keeps every invariant and stays inside every frame
  of the database.
\<close>

definition reading :: "session \<Rightarrow> session \<Rightarrow> bool" where
  "reading s t \<longleftrightarrow> committed t = committed s \<and> work t = work s"

interpretation reading: frame reading
  by unfold_locales (auto simp: reading_def)

lemmas [stays_intros] = reading.stays_rules

lemma reading_session [stays_intros]:
  "stays reading now" "stays reading uuid4" "stays reading (select U P)"
  "stays reading (select_first U P)" "stays reading (get_row U k)" "stays reading (refresh U r)"
  "stays reading (cache_get c)" "stays reading (cache_set c v)" "stays reading (cache_delete cs)"
  "stays reading (push_ws u f)"
  by (simp_all add: stays_def reading_def run_refresh split: option.splits)

lemma reading_best_effort [stays_intros]: "stays reading m \<Longrightarrow> stays reading (best_effort m)"
  unfolding best_effort_def by (intro stays_intros)

lemma reading_keeps: "stays reading m \<Longrightarrow> keeps (both I) m"
  by (simp add: stays_def reading_def keeps_def both_def)

lemma reading_table_frame: "stays reading m \<Longrightarrow> stays (table_frame T) m"
  by (simp add: stays_def reading_def table_frame_def)

lemma reading_append_only: "stays reading m \<Longrightarrow> stays append_only m"
  by (simp add: stays_def reading_def append_only_def)

lemma reading_run: "stays reading m \<Longrightarrow> m s = (r, t) \<Longrightarrow> committed t = committed s \<and> work t = work s"
  by (auto simp: reading_def dest: staysD)

section \<open>A new entry\<close>

text \<open>
  What a returned call of \<open>apply_entry\<close> with an unused reference has stored: the entry, committed,
  and the wallet moved by it.
\<close>

lemma apply_entry_new_existing:
  assumes inv: "ledger_inv (work s)" and run: "apply_entry l ref st g s = (Inr r, t)"
    and new: "find_first (\<lambda>t. t_reference t = ref) (transactions (work s)) = None"
    and newc: "find_first (\<lambda>t. t_reference t = ref) (transactions (committed s)) = None"
    and w: "find_first (\<lambda>w. w_user_id w = l_user_id l) (wallets (work s)) = Some w"
  shows "\<exists>e. r = \<lparr>lr_entry = e, lr_wallet = moved w e, lr_replayed = False\<rparr> \<and>
     e = ledger_entry w l ref st g (uuid_supply s (uuid_next s)) (clock s) \<and>
     entry_error w l = None \<and> committed t = post_entry w e (work s) \<and> work t = committed t"
proof -
  from inv have wc: "wallet_constraints (wallets (work s))" by (simp add: ledger_inv_def)
  obtain q u where q: "apply_entry_locked (w_id w) l ref st g s = (q, u)" by fastforce
  show ?thesis
  proof (cases "\<exists>e. q = Inr (Inr e)")
    case True
    then obtain e where "q = Inr (Inr e)" ..
    note q' = q [unfolded this]
    from q' obtain w' where w': "find_first (\<lambda>x. w_id x = w_id w) (wallets (work s)) = Some w'"
      "entry_error w' l = None"
      "e = ledger_entry w' l ref st g (uuid_supply s (uuid_next s)) (clock s)"
      "u = locked_state w' e s" by (rule apply_entry_locked_Inr)
    from find_wallet_same_row [OF wc w] w'(1) have "w' = w" by simp
    with w' run q' show ?thesis
      using apply_entry_eq [OF new w wc, of st g]
      by (auto simp: locked_state_def wallet_cache_cleared_def)
  next
    case False
    with run q have "q = Inr (Inl r)"
      using apply_entry_eq [OF new w wc, of st g] by (auto split: sum.splits)
    with q newc have False
      by (auto simp: apply_entry_locked_eq get_entry_by_reference_def step
          split: prod.splits sum.splits if_splits dest!: apply_ledger_entry_committed)
    then show ?thesis ..
  qed
qed

lemma apply_entry_new:
  assumes inv: "ledger_inv (work s)" and run: "apply_entry l ref st g s = (Inr r, t)"
    and new: "find_first (\<lambda>t. t_reference t = ref) (transactions (work s)) = None"
    and newc: "find_first (\<lambda>t. t_reference t = ref) (transactions (committed s)) = None"
  shows "\<exists>w u n. lr_entry r = ledger_entry w l ref st g u n \<and> \<not> lr_replayed r \<and>
     entry_error w l = None \<and> lr_entry r \<in> set (transactions (committed t)) \<and>
     work t = committed t"
proof (cases "find_first (\<lambda>w. w_user_id w = l_user_id l) (wallets (work s))")
  case (Some w)
  from apply_entry_new_existing [OF inv run new newc Some] show ?thesis
    by (auto simp: post_entry_def)
next
  case None
  obtain i u where i: "resolve_wallet_id (l_user_id l) s = (i, u)" by fastforce
  with new run None obtain j where "i = Inr j"
    by (cases i) (auto simp: apply_entry_def get_entry_by_reference_def step bnd_def)
  note opened = i [unfolded this]
  from resolve_wallet_id_new [OF None opened] have o: "opened_wallet (l_user_id l) s u" by simp
  note facts = opened_wallet_facts [OF o None]
  from o new facts have n: "find_first (\<lambda>t. t_reference t = ref) (transactions (work u)) = None"
    "find_first (\<lambda>t. t_reference t = ref) (transactions (committed u)) = None"
    by (simp_all add: opened_wallet_def)
  from run have "apply_entry l ref st g u = (Inr r, t)"
    using apply_entry_opens [OF new None opened] by simp
  from apply_entry_new_existing [OF resolve_wallet_id_effect(3) [OF opened inv] this n facts(1)]
  show ?thesis by (auto simp: post_entry_def)
qed

section \<open>Invariants that do not read the money tables\<close>

lemma repo_keeps_stable:
  assumes w: "stable I wallet_t" and t: "stable I transaction_t"
  shows "keeps (both I) (ensure_wallet u)" "keeps (both I) (apply_entry l ref st g)"
    "keeps (both I) (apply_transfer gi debit credit)"
    "keeps (both I) (mark_entry_status ref st pat do_commit)"
proof -
  show ensure: "keeps (both I) (ensure_wallet u)" for u
    unfolding ensure_wallet_def by (intro keeps_intros w)
  have resolve: "keeps (both I) (resolve_wallet_id u)" for u
    unfolding resolve_wallet_id_def by (intro keeps_intros ensure)
  have one: "keeps (both I) (apply_ledger_entry wid l ref st g)" for wid l ref st g
    unfolding apply_ledger_entry_def by (intro keeps_intros w t)
  have locked: "keeps (both I) (apply_entry_locked wid l ref st g)" for wid l ref st g
    unfolding apply_entry_locked_def by (intro keeps_intros one)
  show "keeps (both I) (apply_entry l ref st g)"
    unfolding apply_entry_def by (intro keeps_intros resolve locked)
  have tlocked: "keeps (both I) (apply_transfer_locked dw cw gi debit credit)" for dw cw
    unfolding apply_transfer_locked_def transfer_conflict_def by (intro keeps_intros one)
  show "keeps (both I) (apply_transfer gi debit credit)"
    unfolding apply_transfer_def by (intro keeps_intros resolve tlocked)
  show "keeps (both I) (mark_entry_status ref st pat do_commit)"
    unfolding mark_entry_status_def Let_def by (intro keeps_intros t)
qed

end
