(* ===== verification/Users.thy ===== *)
theory Users
  imports LedgerFrames
begin

text \<open>
  \<^verbatim>\<open>src/app/repository/user_repository.py\<close>, \<^verbatim>\<open>src/app/service/user_service.py\<close>, the profile route
  of \<^verbatim>\<open>src/app/routers/user.py\<close> and the object-level checks of \<^verbatim>\<open>src/app/core/authz.py\<close>.
\<close>

section \<open>Repository\<close>

definition user_key :: "id \<Rightarrow> string" where
  "user_key user_id = ''user:'' @ user_id"

definition create_user :: "user \<Rightarrow> user handler" where
  "create_user u = bnd (insert_row user_t u) (\<lambda>_. bnd commit (\<lambda>_. refresh user_t u))"

definition get_attached_user :: "id \<Rightarrow> user option handler" where
  "get_attached_user user_id = get_row user_t user_id"

definition register_profile :: "id \<Rightarrow> string \<Rightarrow> string \<Rightarrow> user option handler" where
  "register_profile user_id phone_number name =
     bnd (get_attached_user user_id) (\<lambda>found.
     case found of
       None \<Rightarrow> return None
     | Some u \<Rightarrow>
         let u = u\<lparr>u_phone_number := Some phone_number, u_name := name\<rparr> in
         bnd (save_row user_t u) (\<lambda>_.
         bnd commit (\<lambda>_.
         bnd (refresh user_t u) (\<lambda>u.
         bnd (cache_delete [user_key user_id]) (\<lambda>_. return (Some u))))))"

definition get_user_by_id :: "id \<Rightarrow> user option handler" where
  "get_user_by_id user_id =
     bnd (cache_get (user_key user_id)) (\<lambda>cached.
     case cached of
       Some (CUser u) \<Rightarrow> return (Some u)
     | _ \<Rightarrow>
         bnd (select_first user_t (\<lambda>u. u_id u = user_id)) (\<lambda>found.
         case found of
           None \<Rightarrow> return None
         | Some u \<Rightarrow> bnd (cache_set (user_key user_id) (CUser u)) (\<lambda>_. return (Some u))))"

definition get_by_email :: "string \<Rightarrow> user option handler" where
  "get_by_email email = select_first user_t (\<lambda>u. u_email u = email)"

definition get_invitations_by_email :: "string \<Rightarrow> invitation list handler" where
  "get_invitations_by_email email = select invitation_t (\<lambda>i. i_email i = email)"

definition deactivate_user :: "id \<Rightarrow> bool handler" where
  "deactivate_user user_id =
     bnd (get_attached_user user_id) (\<lambda>found.
     case found of
       None \<Rightarrow> return False
     | Some u \<Rightarrow>
         bnd (save_row user_t (u\<lparr>u_active := 0\<rparr>)) (\<lambda>_.
         bnd commit (\<lambda>_.
         bnd (cache_delete [user_key user_id]) (\<lambda>_. return True))))"

record update_user_request =
  uu_name :: "string option"
  uu_phone_number :: "string option"
  uu_profile_picture_url :: "string option"

definition patched_user :: "update_user_request \<Rightarrow> user \<Rightarrow> user" where
  "patched_user req u =
     (let u = (case uu_name req of None \<Rightarrow> u | Some n \<Rightarrow> u\<lparr>u_name := n\<rparr>);
          u = (case uu_phone_number req of None \<Rightarrow> u | Some p \<Rightarrow> u\<lparr>u_phone_number := Some p\<rparr>)
      in (case uu_profile_picture_url req of None \<Rightarrow> u
          | Some x \<Rightarrow> u\<lparr>u_profile_picture_url := Some x\<rparr>))"

definition update_user_row :: "id \<Rightarrow> update_user_request \<Rightarrow> user option handler" where
  "update_user_row user_id req =
     bnd (get_attached_user user_id) (\<lambda>found.
     case found of
       None \<Rightarrow> return None
     | Some u \<Rightarrow>
         let changed = (uu_name req \<noteq> None \<or> uu_phone_number req \<noteq> None \<or>
                        uu_profile_picture_url req \<noteq> None);
             u' = patched_user req u
         in if \<not> changed then return (Some u)
            else
              bnd (save_row user_t u') (\<lambda>_.
              bnd commit (\<lambda>_.
              bnd (refresh user_t u') (\<lambda>u'.
              bnd (cache_delete [user_key user_id]) (\<lambda>_. return (Some u'))))))"

section \<open>Service and routes\<close>

record user_response =
  ur_id :: id
  ur_name :: string
  ur_email :: string
  ur_phone_number :: "string option"
  ur_profile_picture_url :: "string option"
  ur_is_admin :: bool

definition user_response_of :: "user \<Rightarrow> user_response" where
  "user_response_of u =
     \<lparr>ur_id = u_id u, ur_name = u_name u, ur_email = u_email u,
      ur_phone_number = u_phone_number u, ur_profile_picture_url = u_profile_picture_url u,
      ur_is_admin = u_is_admin u\<rparr>"

definition update_user_service :: "id \<Rightarrow> update_user_request \<Rightarrow> user_response handler" where
  "update_user_service user_id req =
     bnd (update_user_row user_id req) (\<lambda>found.
     case found of None \<Rightarrow> raise UserNotFoundError | Some u \<Rightarrow> return (user_response_of u))"

definition get_user_service :: "id \<Rightarrow> user_response handler" where
  "get_user_service user_id =
     bnd (get_user_by_id user_id) (\<lambda>found.
     case found of None \<Rightarrow> raise UserNotFoundError | Some u \<Rightarrow> return (user_response_of u))"

definition update_user_route ::
  "user \<Rightarrow> id \<Rightarrow> update_user_request \<Rightarrow> user_response handler"
where
  "update_user_route current_user user_id req =
     (if user_id \<noteq> u_id current_user then raise ForbiddenError
      else update_user_service (u_id current_user) req)"

section \<open>Object-level authorization\<close>

definition agreement_exists :: "id \<Rightarrow> agreement handler" where
  "agreement_exists agreement_id =
     bnd (get_row agreement_t agreement_id) (\<lambda>found.
     case found of None \<Rightarrow> raise AgreementNotFoundError | Some a \<Rightarrow> return a)"

definition get_participant :: "id \<Rightarrow> id \<Rightarrow> participant option handler" where
  "get_participant agreement_id user_id =
     select_first participant_t (\<lambda>p. p_agreement_id p = agreement_id \<and> p_user_id p = user_id)"

definition require_participant :: "id \<Rightarrow> id \<Rightarrow> participant handler" where
  "require_participant agreement_id user_id =
     bnd (agreement_exists agreement_id) (\<lambda>_.
     bnd (get_participant agreement_id user_id) (\<lambda>p.
     case p of None \<Rightarrow> raise ForbiddenError | Some p \<Rightarrow> return p))"

definition require_role :: "id \<Rightarrow> id \<Rightarrow> participant_role \<Rightarrow> participant handler" where
  "require_role agreement_id user_id role =
     bnd (require_participant agreement_id user_id) (\<lambda>p.
     if p_role p \<noteq> role then raise ForbiddenError else return p)"

text \<open>\<^verbatim>\<open>(invitation.status or "pending") == "pending"\<close>\<close>

definition invitation_pending :: "invitation \<Rightarrow> bool" where
  "invitation_pending i \<longleftrightarrow> (case i_status i of None \<Rightarrow> True | Some st \<Rightarrow> st = INV_PENDING)"

definition has_pending_invitation :: "id \<Rightarrow> string \<Rightarrow> bool handler" where
  "has_pending_invitation agreement_id email =
     (if email = '''' then return False
      else
        bnd (select_first invitation_t
               (\<lambda>i. i_agreement_id i = agreement_id \<and> i_email i = email)) (\<lambda>found.
        return (case found of None \<Rightarrow> False | Some i \<Rightarrow> invitation_pending i)))"

definition require_read_access :: "id \<Rightarrow> id \<Rightarrow> string \<Rightarrow> unit handler" where
  "require_read_access agreement_id user_id email =
     bnd (agreement_exists agreement_id) (\<lambda>_.
     bnd (get_participant agreement_id user_id) (\<lambda>p.
     if p \<noteq> None then return ()
     else
       bnd (has_pending_invitation agreement_id email) (\<lambda>ok.
       if ok then return () else raise ForbiddenError)))"

text \<open>\<^verbatim>\<open>AdminUserDep\<close>: the only gate on the administrators' routes.\<close>

definition get_admin_user :: "user \<Rightarrow> user handler" where
  "get_admin_user current_user =
     (if \<not> u_is_admin current_user then raise AdminAccessRequiredError else return current_user)"


section \<open>What these operations keep\<close>

lemma users_reading [stays_intros]:
  "stays reading (get_attached_user u)" "stays reading (get_user_by_id u)"
  "stays reading (get_by_email em)" "stays reading (get_invitations_by_email em)"
  "stays reading (get_user_service u)" "stays reading (agreement_exists a)"
  "stays reading (get_participant a u)" "stays reading (require_participant a u)"
  "stays reading (require_role a u ro)" "stays reading (has_pending_invitation a em)"
  "stays reading (require_read_access a u em)" "stays reading (get_admin_user cu)"
proof -
  show user: "stays reading (get_user_by_id u)" for u
    unfolding get_user_by_id_def
    by (intro stays_intros) (auto intro!: stays_intros split: option.splits cached.splits)
  show "stays reading (get_user_service u)"
    unfolding get_user_service_def by (intro stays_intros user)
qed (auto simp: get_attached_user_def get_by_email_def get_invitations_by_email_def
    agreement_exists_def get_participant_def require_participant_def require_role_def
    has_pending_invitation_def require_read_access_def get_admin_user_def intro!: stays_intros)

lemmas [keeps_intros] = users_reading [THEN reading_keeps]
lemmas [stays_intros] =
  users_reading [THEN reading_table_frame] users_reading [THEN reading_append_only]

lemma users_keep [keeps_intros]:
  assumes "stable I user_t"
  shows "keeps (both I) (create_user us)" "keeps (both I) (register_profile u ph na)"
    "keeps (both I) (deactivate_user u)" "keeps (both I) (update_user_route cu u req)"
  unfolding create_user_def register_profile_def deactivate_user_def update_user_route_def
    update_user_service_def update_user_row_def Let_def
  by (intro keeps_intros assms)+

end
