(* ===== verification/AgreementRepo.thy ===== *)
theory AgreementRepo
  imports Users
begin

text \<open>
  \<^verbatim>\<open>src/app/repository/agreement_repository.py\<close>, the ledger reads that decide whether an agreement
  is funded or released (\<^verbatim>\<open>src/app/repository/transaction_repository.py\<close>), and the invitation
  tokens of \<^verbatim>\<open>src/app/service/invitation_service.py\<close>.

  A value of \<open>get_agreement_by_id\<close> is the agreement with a flag: \<open>True\<close> for a row of the session,
  \<open>False\<close> for the transient object built from the cache, whose relationships are never loaded.
\<close>

section \<open>Cache keys\<close>

definition agreement_key :: "id \<Rightarrow> string" where
  "agreement_key agreement_id = ''agreement:'' @ agreement_id"

definition user_agreements_key :: "id \<Rightarrow> string" where
  "user_agreements_key user_id = ''user:'' @ user_id @ '':agreements:v2''"

definition agreement_cache_keys :: "id \<Rightarrow> id list \<Rightarrow> string list" where
  "agreement_cache_keys agreement_id user_ids =
     agreement_key agreement_id # map user_agreements_key (filter (\<lambda>u. u \<noteq> '''') user_ids)"

section \<open>The ledger's view of an agreement\<close>

definition exists_reference :: "string \<Rightarrow> bool handler" where
  "exists_reference reference =
     bnd (select_first transaction_t (\<lambda>t. t_reference t = reference)) (\<lambda>found.
     return (found \<noteq> None))"

definition agreement_has_entry_of_type :: "id \<Rightarrow> ledger_entry_type \<Rightarrow> bool handler" where
  "agreement_has_entry_of_type agreement_id entry_type =
     bnd (select_first transaction_t
            (\<lambda>t. t_agreement_id t = Some agreement_id \<and> t_type t = entry_type)) (\<lambda>found.
     return (found \<noteq> None))"

definition is_agreement_funded :: "id \<Rightarrow> bool handler" where
  "is_agreement_funded agreement_id = agreement_has_entry_of_type agreement_id ESCROW_LOCK"

definition is_agreement_released :: "id \<Rightarrow> bool handler" where
  "is_agreement_released agreement_id =
     exists_reference (''esc_rel_'' @ agreement_id @ '':out'')"

section \<open>Reads\<close>

definition get_condition_counts :: "id \<Rightarrow> (nat \<times> nat) handler" where
  "get_condition_counts agreement_id =
     bnd (select condition_t (\<lambda>c. c_agreement_id c = agreement_id)) (\<lambda>cs.
     return (length cs, length (filter (\<lambda>c. c_status c = COND_APPROVED) cs)))"

definition funded_agreement_ids :: "id list \<Rightarrow> id list handler" where
  "funded_agreement_ids agreement_ids =
     (if agreement_ids = [] then return []
      else
        bnd (select transaction_t
               (\<lambda>t. t_agreement_id t \<in> Some ` set agreement_ids \<and> t_type t = ESCROW_LOCK)) (\<lambda>ts.
        return (filter (\<lambda>r. r \<noteq> '''')
                 (remdups (map (\<lambda>t. case t_agreement_id t of None \<Rightarrow> '''' | Some i \<Rightarrow> i) ts)))))"

definition is_funded :: "id \<Rightarrow> bool handler" where
  "is_funded agreement_id =
     bnd (funded_agreement_ids [agreement_id]) (\<lambda>ids. return (agreement_id \<in> set ids))"

definition get_agreement_by_id :: "id \<Rightarrow> (agreement \<times> bool) option handler" where
  "get_agreement_by_id agreement_id =
     bnd (cache_get (agreement_key agreement_id)) (\<lambda>cached.
     case cached of
       Some (CAgreement a) \<Rightarrow> return (Some (a, False))
     | _ \<Rightarrow>
         bnd (select_first agreement_t (\<lambda>a. a_id a = agreement_id)) (\<lambda>found.
         case found of
           None \<Rightarrow> return None
         | Some a \<Rightarrow>
             bnd (cache_set (agreement_key agreement_id) (CAgreement a)) (\<lambda>_.
             return (Some (a, True)))))"

definition get_attached :: "id \<Rightarrow> agreement option handler" where
  "get_attached agreement_id = get_row agreement_t agreement_id"

text \<open>\<^verbatim>\<open>session.merge(x)\<close>: the session's row with the key gets the columns of \<open>x\<close>, or \<open>x\<close> is new.\<close>

definition merge_agreement :: "agreement \<Rightarrow> unit handler" where
  "merge_agreement a =
     bnd (get_attached (a_id a)) (\<lambda>found.
     case found of None \<Rightarrow> insert_row agreement_t a | Some _ \<Rightarrow> save_row agreement_t a)"

definition joined_agreements :: "id \<Rightarrow> agreement list \<Rightarrow> participant list \<Rightarrow> agreement list" where
  "joined_agreements user_id as ps =
     concat (map (\<lambda>a. map (\<lambda>_. a)
       (filter (\<lambda>p. p_agreement_id p = a_id a \<and> p_user_id p = user_id) ps)) as)"

definition get_user_agreements :: "id \<Rightarrow> (agreement \<times> nat \<times> nat \<times> bool) list handler" where
  "get_user_agreements user_id =
     bnd (cache_get (user_agreements_key user_id)) (\<lambda>cached.
     case cached of
       Some (CUserAgreements summaries) \<Rightarrow>
         bnd (for_each (\<lambda>(a, _). merge_agreement a) summaries) (\<lambda>_. return summaries)
     | _ \<Rightarrow>
         bnd (select agreement_t (\<lambda>_. True)) (\<lambda>as.
         bnd (select participant_t (\<lambda>_. True)) (\<lambda>ps.
         let mine = joined_agreements user_id as ps in
         if mine = [] then return []
         else
           bnd (map_m (\<lambda>a. get_condition_counts (a_id a)) mine) (\<lambda>counts.
           bnd (funded_agreement_ids (map a_id mine)) (\<lambda>funded.
           let results = map (\<lambda>(a, total, met). (a, total, met, a_id a \<in> set funded))
                             (zip mine counts) in
           bnd (cache_set (user_agreements_key user_id) (CUserAgreements results)) (\<lambda>_.
           return results))))))"

definition get_participant_for_user :: "id \<Rightarrow> id \<Rightarrow> participant option handler" where
  "get_participant_for_user agreement_id user_id =
     select_first participant_t (\<lambda>p. p_agreement_id p = agreement_id \<and> p_user_id p = user_id)"

definition get_participants_for_agreement :: "id \<Rightarrow> participant list handler" where
  "get_participants_for_agreement agreement_id =
     select participant_t (\<lambda>p. p_agreement_id p = agreement_id)"

definition get_invitation_by_agreement_id :: "string \<Rightarrow> id \<Rightarrow> invitation option handler" where
  "get_invitation_by_agreement_id email agreement_id =
     select_first invitation_t (\<lambda>i. i_agreement_id i = agreement_id \<and> i_email i = email)"

definition get_invitation_for_user :: "id \<Rightarrow> id \<Rightarrow> string \<Rightarrow> invitation option handler" where
  "get_invitation_for_user agreement_id user_id email =
     bnd (select_first agreement_t (\<lambda>a. a_id a = agreement_id)) (\<lambda>found.
     case found of
       None \<Rightarrow> return None
     | Some a \<Rightarrow>
         bnd (get_participant_for_user agreement_id user_id) (\<lambda>p.
         let is_creator = (a_user_id a = user_id) in
         if \<not> is_creator \<and> p = None then return None
         else if is_creator then select_first invitation_t (\<lambda>i. i_agreement_id i = agreement_id)
         else select_first invitation_t
                (\<lambda>i. i_agreement_id i = agreement_id \<and> i_email i = email)))"

definition get_invitations_for_email :: "string \<Rightarrow> invitation list handler" where
  "get_invitations_for_email email = select invitation_t (\<lambda>i. i_email i = email)"

section \<open>Writes\<close>

definition save_agreement :: "agreement \<Rightarrow> bool \<Rightarrow> unit handler" where
  "save_agreement a do_commit = bnd (save_row agreement_t a) (\<lambda>_. commit_if do_commit)"

definition invite_participant ::
  "string \<Rightarrow> id \<Rightarrow> participant_role \<Rightarrow> agreement \<Rightarrow> string \<Rightarrow> invitation handler"
where
  "invite_participant invitation_token invited_by role a other_participant_email =
     bnd now (\<lambda>t.
     bnd uuid4 (\<lambda>u.
     let i = \<lparr>i_id = u, i_email = other_participant_email, i_token = invitation_token,
              i_agreement_id = a_id a, i_role = role, i_invited_by = invited_by,
              i_status = Some INV_PENDING, i_expires_at = t + 7 * 86400\<rparr>
     in bnd (insert_row invitation_t i) (\<lambda>_. return i)))"

definition update_agreement_conditions_with_invitation :: "id \<Rightarrow> id \<Rightarrow> id \<Rightarrow> unit handler" where
  "update_agreement_conditions_with_invitation agreement_id invitation_id participant_id =
     (let p = (\<lambda>c. c_agreement_id c = agreement_id \<and> c_invitation_id c = Some invitation_id) in
      bnd (select condition_t p) (\<lambda>cs.
      if cs = [] then return ()
      else
        bnd (update_rows condition_t p
               (\<lambda>c. c\<lparr>c_required_from_participant_id := Some participant_id\<rparr>)) (\<lambda>_. commit)))"

definition invalidate_agreement_keys :: "id \<Rightarrow> id list \<Rightarrow> unit handler" where
  "invalidate_agreement_keys agreement_id user_ids =
     cache_delete (agreement_cache_keys agreement_id user_ids)"

section \<open>Invitation tokens\<close>

definition token_key :: "string \<Rightarrow> string" where
  "token_key token = ''participant_invite:'' @ token"

definition get_invitation_token :: "string handler" where
  "get_invitation_token = uuid4"

definition store_invitation :: "string \<Rightarrow> invitation \<Rightarrow> unit handler" where
  "store_invitation token i = cache_set (token_key token) (CInvitation i)"

definition get_cached_invitation :: "string \<Rightarrow> invitation option handler" where
  "get_cached_invitation token =
     bnd (cache_get (token_key token)) (\<lambda>cached.
     return (case cached of Some (CInvitation i) \<Rightarrow> Some i | _ \<Rightarrow> None))"

definition delete_invitation :: "string \<Rightarrow> unit handler" where
  "delete_invitation token = cache_delete [token_key token]"

definition invitation_live :: "time \<Rightarrow> invitation \<Rightarrow> bool" where
  "invitation_live t i \<longleftrightarrow> invitation_pending i \<and> t < i_expires_at i"

definition find_invitation_by_token :: "string \<Rightarrow> invitation option handler" where
  "find_invitation_by_token token = select_first invitation_t (\<lambda>i. i_token i = token)"

definition validate_token :: "string \<Rightarrow> invitation handler" where
  "validate_token token =
     bnd now (\<lambda>t.
     bnd (get_cached_invitation token) (\<lambda>cached.
     case cached of
       Some i \<Rightarrow>
         if invitation_live t i then return i
         else
           bnd (find_invitation_by_token token) (\<lambda>found.
           case found of
             None \<Rightarrow> raise InvitationNotFoundError
           | Some i \<Rightarrow> if invitation_live t i then return i else raise InvitationNotFoundError)
     | None \<Rightarrow>
         bnd (find_invitation_by_token token) (\<lambda>found.
         case found of
           None \<Rightarrow> raise InvitationNotFoundError
         | Some i \<Rightarrow> if invitation_live t i then return i else raise InvitationNotFoundError)))"

section \<open>What these operations keep\<close>

lemma keeps_cached [keeps_intros]:
  "(\<And>a. keeps P (f a)) \<Longrightarrow> keeps P m \<Longrightarrow>
   keeps P (case c of Some (CAgreement a) \<Rightarrow> f a | _ \<Rightarrow> m)"
  "(\<And>a. keeps P (g a)) \<Longrightarrow> keeps P m \<Longrightarrow>
   keeps P (case c of Some (CUserAgreements a) \<Rightarrow> g a | _ \<Rightarrow> m)"
  by (auto split: option.splits cached.splits)

lemma stays_cached [stays_intros]:
  "(\<And>a. stays R (f a)) \<Longrightarrow> stays R m \<Longrightarrow>
   stays R (case c of Some (CAgreement a) \<Rightarrow> f a | _ \<Rightarrow> m)"
  "(\<And>a. stays R (g a)) \<Longrightarrow> stays R m \<Longrightarrow>
   stays R (case c of Some (CUserAgreements a) \<Rightarrow> g a | _ \<Rightarrow> m)"
  by (auto split: option.splits cached.splits)

lemma agreements_reading [stays_intros]:
  "stays reading (exists_reference ref)" "stays reading (agreement_has_entry_of_type a ty)"
  "stays reading (is_agreement_funded a)" "stays reading (is_agreement_released a)"
  "stays reading (get_condition_counts a)" "stays reading (funded_agreement_ids as)"
  "stays reading (is_funded a)" "stays reading (get_agreement_by_id a)"
  "stays reading (get_attached a)" "stays reading (get_participant_for_user a u)"
  "stays reading (get_participants_for_agreement a)"
  "stays reading (get_invitation_by_agreement_id em a)"
  "stays reading (get_invitation_for_user a u em)" "stays reading (get_invitations_for_email em)"
  "stays reading (invalidate_agreement_keys a us)" "stays reading get_invitation_token"
  "stays reading (store_invitation tok i)" "stays reading (get_cached_invitation tok)"
  "stays reading (delete_invitation tok)" "stays reading (find_invitation_by_token tok)"
  "stays reading (validate_token tok)"
  unfolding exists_reference_def agreement_has_entry_of_type_def is_agreement_funded_def
    is_agreement_released_def get_condition_counts_def funded_agreement_ids_def is_funded_def
    get_agreement_by_id_def get_attached_def get_participant_for_user_def
    get_participants_for_agreement_def get_invitation_by_agreement_id_def
    get_invitation_for_user_def get_invitations_for_email_def invalidate_agreement_keys_def
    get_invitation_token_def store_invitation_def get_cached_invitation_def
    delete_invitation_def find_invitation_by_token_def validate_token_def Let_def
  by (intro stays_intros)+

lemmas [keeps_intros] = agreements_reading [THEN reading_keeps]
lemmas [stays_intros] =
  agreements_reading [THEN reading_table_frame] agreements_reading [THEN reading_append_only]

lemma agreement_writes_keep [keeps_intros]:
  "stable I agreement_t \<Longrightarrow> keeps (both I) (save_agreement a do_commit)"
  "stable I invitation_t \<Longrightarrow> keeps (both I) (invite_participant tok by ro ag em)"
  "stable I condition_t \<Longrightarrow>
   keeps (both I) (update_agreement_conditions_with_invitation i iv p)"
  unfolding save_agreement_def invite_participant_def
    update_agreement_conditions_with_invitation_def Let_def
  by (intro keeps_intros; assumption)+

lemma agreement_writes_frame [stays_intros]:
  "apart T agreement_t \<Longrightarrow> stays (table_frame T) (save_agreement a do_commit)"
  "apart T invitation_t \<Longrightarrow> stays (table_frame T) (invite_participant tok by ro ag em)"
  "apart T condition_t \<Longrightarrow>
   stays (table_frame T) (update_agreement_conditions_with_invitation i iv p)"
  unfolding save_agreement_def invite_participant_def
    update_agreement_conditions_with_invitation_def Let_def
  by (intro stays_intros; assumption)+

end
