(* ===== verification/Validators.thy ===== *)
theory Validators
  imports Users
begin

text \<open>
  The request-body checks shared by several schemas: \<^verbatim>\<open>src/app/core/validators.py\<close> and the field
  validators of \<^verbatim>\<open>src/app/schemas/user_schema.py\<close> and \<^verbatim>\<open>src/app/schemas/auth_schema.py\<close>, over byte
  strings.  \<open>None\<close> is a validation error.  Of \<^verbatim>\<open>urlsplit\<close> the parts that decide the check are
  modelled: leading control characters dropped, tab, carriage return and line feed removed, then
  scheme, network location and path.
\<close>

section \<open>Python text\<close>

definition is_space :: "char \<Rightarrow> bool" where
  "is_space c \<longleftrightarrow>
     (let n = of_char c :: nat in 9 \<le> n \<and> n \<le> 13 \<or> 28 \<le> n \<and> n \<le> 32 \<or> n = 133 \<or> n = 160)"

definition strip :: "string \<Rightarrow> string" where
  "strip s = rev (dropWhile is_space (rev (dropWhile is_space s)))"

fun words_from :: "string \<Rightarrow> string \<Rightarrow> string list" where
  "words_from w [] = (if w = [] then [] else [w])"
| "words_from w (c # s) =
     (if is_space c then (if w = [] then words_from [] s else w # words_from [] s)
      else words_from (w @ [c]) s)"

fun join_words :: "string list \<Rightarrow> string" where
  "join_words [] = ''''"
| "join_words [w] = w"
| "join_words (w # v # ws) = w @ '' '' @ join_words (v # ws)"

definition clean_name :: "string \<Rightarrow> string" where
  "clean_name value = join_words (words_from [] value)"

definition clean_phone :: "string \<Rightarrow> string" where
  "clean_phone value = filter (\<lambda>c. c \<notin> set '' -()'') (strip value)"

definition is_digit :: "char \<Rightarrow> bool" where
  "is_digit c \<longleftrightarrow> CHR ''0'' \<le> c \<and> c \<le> CHR ''9''"

text \<open>\<^verbatim>\<open>^\+?[0-9]{7,15}$\<close>\<close>

definition phone_matches :: "string \<Rightarrow> bool" where
  "phone_matches s \<longleftrightarrow>
     (let digits = (case s of [] \<Rightarrow> [] | c # r \<Rightarrow> if c = CHR ''+'' then r else s)
      in list_all is_digit digits \<and> 7 \<le> length digits \<and> length digits \<le> 15)"

definition validate_phone :: "string \<Rightarrow> string option" where
  "validate_phone value =
     (let p = clean_phone value in if phone_matches p then Some p else None)"

definition validate_name :: "string \<Rightarrow> string option" where
  "validate_name value =
     (if 2 \<le> length value \<and> length value \<le> 80 then Some (clean_name value) else None)"

section \<open>File URLs\<close>

record split_url =
  us_scheme :: string
  us_netloc :: string
  us_path :: string

text \<open>The ASCII letters: clearing bit 5 of the code maps the lower case onto the upper.\<close>

definition alphabetic :: "char \<Rightarrow> bool" where
  "alphabetic c \<longleftrightarrow> (let n = of_char c :: nat in n < 128 \<and> n mod 32 \<in> {1..26} \<and> 64 \<le> n)"

definition scheme_char :: "char \<Rightarrow> bool" where
  "scheme_char c \<longleftrightarrow> c \<in> set ''+-.'' \<or> alphabetic c \<or> is_digit c"

definition url_cleaned :: "string \<Rightarrow> string" where
  "url_cleaned url =
     filter (\<lambda>c. (of_char c :: nat) \<notin> {9, 10, 13}) (dropWhile (\<lambda>c. (of_char c :: nat) \<le> 32) url)"

definition urlsplit :: "string \<Rightarrow> split_url" where
  "urlsplit url =
     (let url = url_cleaned url;
          pre = takeWhile (\<lambda>c. c \<noteq> CHR '':'') url;
          has_scheme = (pre \<noteq> url \<and> pre \<noteq> [] \<and> alphabetic (hd url) \<and> list_all scheme_char pre);
          scheme = (if has_scheme then lower pre else []);
          rest = (if has_scheme then drop (length pre + 1) url else url);
          has_net = (take 2 rest = ''//'');
          delim = (\<lambda>c. c \<notin> set ''/?#'');
          netloc = (if has_net then takeWhile delim (drop 2 rest) else []);
          rest = (if has_net then dropWhile delim (drop 2 rest) else rest);
          path = takeWhile (\<lambda>c. c \<noteq> CHR ''?'') (takeWhile (\<lambda>c. c \<noteq> CHR ''#'') rest)
      in \<lparr>us_scheme = scheme, us_netloc = netloc, us_path = path\<rparr>)"

definition cloudinary_host :: string where
  "cloudinary_host = ''res.cloudinary.com''"

definition validate_cloudinary_url :: "string \<Rightarrow> string \<Rightarrow> string option" where
  "validate_cloudinary_url cloud_name url =
     (let url = strip url; parts = urlsplit url in
      if us_scheme parts \<noteq> ''https'' then None
      else if lower (us_netloc parts) \<noteq> cloudinary_host then None
      else if \<not> prefix (''/'' @ cloud_name @ ''/'') (us_path parts) then None
      else if 2048 < length url then None
      else Some url)"

definition validate_update_user :: "string \<Rightarrow> update_user_request \<Rightarrow> update_user_request option" where
  "validate_update_user cloud_name req =
     (let name = map_option validate_name (uu_name req);
          phone = map_option validate_phone (uu_phone_number req);
          url = map_option (\<lambda>u. if u = '''' then Some u else validate_cloudinary_url cloud_name u)
                  (uu_profile_picture_url req)
      in if name = Some None \<or> phone = Some None \<or> url = Some None then None
         else Some \<lparr>uu_name = Option.bind name id, uu_phone_number = Option.bind phone id,
                    uu_profile_picture_url = Option.bind url id\<rparr>)"

section \<open>Properties\<close>

lemma takeWhile_then:
  "takeWhile P s \<noteq> s \<Longrightarrow> \<exists>c. \<not> P c \<and> s = takeWhile P s @ c # drop (length (takeWhile P s) + 1) s"
  by (induction s) auto

lemma url_scheme_part:
  assumes "us_scheme (urlsplit url) \<noteq> []"
  shows "\<exists>pre rest. url_cleaned url = pre @ '':'' @ rest \<and> lower pre = us_scheme (urlsplit url) \<and>
    us_netloc (urlsplit url) =
      (if take 2 rest = ''//'' then takeWhile (\<lambda>c. c \<notin> set ''/?#'') (drop 2 rest) else []) \<and>
    us_path (urlsplit url) = takeWhile (\<lambda>c. c \<noteq> CHR ''?'') (takeWhile (\<lambda>c. c \<noteq> CHR ''#'')
      (if take 2 rest = ''//'' then dropWhile (\<lambda>c. c \<notin> set ''/?#'') (drop 2 rest) else rest))"
proof -
  let ?u = "url_cleaned url" and ?pre = "takeWhile (\<lambda>c. c \<noteq> CHR '':'') (url_cleaned url)"
  from assms have ok: "?pre \<noteq> ?u" "?pre \<noteq> []" "alphabetic (hd ?u)" "list_all scheme_char ?pre"
    by (auto simp: urlsplit_def Let_def split: if_splits)
  from takeWhile_then [OF ok(1)] have "?u = ?pre @ '':'' @ drop (length ?pre + 1) ?u" by auto
  with ok show ?thesis
    by (intro exI [of _ ?pre] exI [of _ "drop (length ?pre + 1) ?u"])
      (simp add: urlsplit_def Let_def)
qed



end
