(* ===== verification/AgreementService.thy ===== *)
theory AgreementService
  imports AgreementRepo Validators
begin

text \<open>
  \<^verbatim>\<open>src/app/service/agreement_service.py\<close> with the request and response bodies of
  \<^verbatim>\<open>src/app/schemas/agreement_schema.py\<close>, \<^verbatim>\<open>conditions_schema.py\<close> and
  \<^verbatim>\<open>participant_schema.py\<close>.  The service decides who may do what to an agreement and changes its
  status; it never touches a balance.

  A response that embeds a related row fails (\<open>ValueError\<close>) when the row is missing, as the
  response model's validation does.
\<close>

section \<open>Request bodies\<close>

record condition_create =
  cc_title :: string
  cc_description :: string
  cc_required_from_email :: string

definition validate_condition_create ::
  "(string \<Rightarrow> string option) \<Rightarrow> condition_create \<Rightarrow> condition_create option"
where
  "validate_condition_create email_addr c =
     (case email_addr (cc_required_from_email c) of
        None \<Rightarrow> None
      | Some e \<Rightarrow>
          if 1 \<le> length (cc_title c) \<and> length (cc_title c) \<le> 120 \<and>
             1 \<le> length (cc_description c) \<and> length (cc_description c) \<le> 2000
          then Some \<lparr>cc_title = strip (cc_title c), cc_description = strip (cc_description c),
                     cc_required_from_email = lower e\<rparr>
          else None)"

record agreement_create =
  ac_email :: string
  ac_role :: participant_role
  ac_title :: string
  ac_description :: string
  ac_amount :: money
  ac_conditions :: "condition_create list"

definition validate_agreement_create ::
  "settings \<Rightarrow> (string \<Rightarrow> string option) \<Rightarrow> agreement_create \<Rightarrow> agreement_create option"
where
  "validate_agreement_create cfg email_addr d =
     (case email_addr (ac_email d) of
        None \<Rightarrow> None
      | Some e \<Rightarrow>
          let cs = map (validate_condition_create email_addr) (ac_conditions d) in
          if 1 \<le> length (ac_title d) \<and> length (ac_title d) \<le> 120 \<and>
             1 \<le> length (ac_description d) \<and> length (ac_description d) \<le> 2000 \<and>
             0 < ac_amount d \<and> ac_amount d \<le> agreement_max_amount cfg \<and>
             ac_amount d = quantize2 (ac_amount d) \<and> length cs \<le> 20 \<and> None \<notin> set cs
          then Some \<lparr>ac_email = lower e, ac_role = ac_role d, ac_title = strip (ac_title d),
                     ac_description = strip (ac_description d), ac_amount = ac_amount d,
                     ac_conditions = map the cs\<rparr>
          else None)"

section \<open>Responses\<close>

record participant_response =
  pr_id :: id
  pr_agreement_id :: id
  pr_role :: participant_role
  pr_status :: invitation_status
  pr_user :: user_response

definition participant_response_of :: "participant \<Rightarrow> participant_response handler" where
  "participant_response_of p =
     bnd (get_row user_t (p_user_id p)) (\<lambda>u.
     case u of
       None \<Rightarrow> raise ValueError
     | Some u \<Rightarrow> return \<lparr>pr_id = p_id p, pr_agreement_id = p_agreement_id p, pr_role = p_role p,
                         pr_status = p_status p, pr_user = user_response_of u\<rparr>)"

definition linked_participant :: "id \<Rightarrow> participant_response handler" where
  "linked_participant participant_id =
     bnd (get_row participant_t participant_id) (\<lambda>p.
     case p of None \<Rightarrow> raise ValueError | Some p \<Rightarrow> participant_response_of p)"

definition linked_invitation :: "id \<Rightarrow> invitation option handler" where
  "linked_invitation invitation_id =
     bnd (get_row invitation_t invitation_id) (\<lambda>i.
     case i of
       None \<Rightarrow> return None
     | Some i \<Rightarrow> if i_status i = None then raise ValueError else return (Some i))"

record condition_response =
  cr_condition :: condition
  cr_created_by :: participant_response
  cr_required_from :: "participant_response option"
  cr_invitation :: "invitation option"

definition condition_response_of :: "condition \<Rightarrow> condition_response handler" where
  "condition_response_of c =
     bnd (linked_participant (c_participant_id c)) (\<lambda>by.
     bnd (option_m linked_participant (c_required_from_participant_id c)) (\<lambda>req.
     bnd (case c_invitation_id c of None \<Rightarrow> return None | Some i \<Rightarrow> linked_invitation i) (\<lambda>iv.
     return \<lparr>cr_condition = c, cr_created_by = by, cr_required_from = req, cr_invitation = iv\<rparr>)))"

record agreement_response =
  ar_id :: id
  ar_title :: string
  ar_description :: string
  ar_amount :: money
  ar_status :: agreement_status
  ar_depositor :: "participant_response option"
  ar_beneficiary :: "participant_response option"
  ar_created_at :: time
  ar_condition_count :: nat
  ar_conditions_met_count :: nat
  ar_current_user_accepted :: bool
  ar_is_funded :: bool

text \<open>\<^verbatim>\<open>AgreementResponse.model_validate(agreement)\<close>: an \<open>Agreement\<close> has no depositor attribute.\<close>

definition bare_agreement_response :: "agreement \<Rightarrow> agreement_response" where
  "bare_agreement_response a =
     \<lparr>ar_id = a_id a, ar_title = a_title a, ar_description = a_description a,
      ar_amount = a_amount a, ar_status = a_status a, ar_depositor = None, ar_beneficiary = None,
      ar_created_at = a_created_at a, ar_condition_count = 0, ar_conditions_met_count = 0,
      ar_current_user_accepted = False, ar_is_funded = False\<rparr>"

record invitation_response =
  ir_invitation :: invitation
  ir_agreement :: agreement_response
  ir_invited_by :: user_response

definition invitation_response_of :: "invitation \<Rightarrow> invitation_response handler" where
  "invitation_response_of i =
     bnd (get_row agreement_t (i_agreement_id i)) (\<lambda>a.
     bnd (get_row user_t (i_invited_by i)) (\<lambda>u.
     case (a, u, i_status i) of
       (Some a, Some u, Some _) \<Rightarrow>
         return \<lparr>ir_invitation = i, ir_agreement = bare_agreement_response a,
                 ir_invited_by = user_response_of u\<rparr>
     | _ \<Rightarrow> raise ValueError))"

text \<open>The last participant of a role wins, as in the loop over \<^verbatim>\<open>agreement.participants\<close>.\<close>

definition participant_with_role :: "participant_role \<Rightarrow> participant list \<Rightarrow> participant option" where
  "participant_with_role role ps = find_first (\<lambda>p. p_role p = role) (rev ps)"

definition user_accepted :: "id \<Rightarrow> id \<Rightarrow> bool handler" where
  "user_accepted agreement_id user_id =
     bnd (get_participant_for_user agreement_id user_id) (\<lambda>p.
     return (case p of None \<Rightarrow> False | Some p \<Rightarrow> p_status p = ACCEPTED))"

definition to_agreement_response ::
  "agreement \<times> bool \<Rightarrow> nat \<Rightarrow> nat \<Rightarrow> id option \<Rightarrow> bool \<Rightarrow> agreement_response handler"
where
  "to_agreement_response loaded condition_count conditions_met_count user_id funded =
     (let a = fst loaded in
      bnd (if snd loaded then get_participants_for_agreement (a_id a) else return []) (\<lambda>ps.
      bnd (option_m participant_response_of (participant_with_role DEPOSITOR ps)) (\<lambda>depositor.
      bnd (option_m participant_response_of (participant_with_role BENEFICIARY ps)) (\<lambda>beneficiary.
      bnd (case user_id of None \<Rightarrow> return False | Some u \<Rightarrow> user_accepted (a_id a) u) (\<lambda>accepted.
      return ((bare_agreement_response a)
        \<lparr>ar_depositor := depositor, ar_beneficiary := beneficiary,
         ar_condition_count := condition_count, ar_conditions_met_count := conditions_met_count,
         ar_is_funded := funded, ar_current_user_accepted := accepted\<rparr>))))))"

section \<open>Reads\<close>

definition get_agreement :: "id \<Rightarrow> id option \<Rightarrow> agreement_response handler" where
  "get_agreement agreement_id user_id =
     bnd (get_agreement_by_id agreement_id) (\<lambda>found.
     case found of
       None \<Rightarrow> raise AgreementNotFoundError
     | Some a \<Rightarrow>
         bnd (get_condition_counts agreement_id) (\<lambda>(total, met).
         bnd (is_funded agreement_id) (\<lambda>funded.
         to_agreement_response a total met user_id funded)))"

definition get_all_user_agreements :: "id \<Rightarrow> agreement_response list handler" where
  "get_all_user_agreements user_id =
     bnd (get_user_agreements user_id) (\<lambda>db_agreements.
     map_m (\<lambda>(a, total, met, funded).
              to_agreement_response (a, True) total met (Some user_id) funded) db_agreements)"

definition get_agreement_invitation :: "id \<Rightarrow> id \<Rightarrow> string \<Rightarrow> invitation handler" where
  "get_agreement_invitation agreement_id user_id email =
     bnd (get_agreement_by_id agreement_id) (\<lambda>found.
     case found of
       None \<Rightarrow> raise AgreementNotFoundError
     | Some _ \<Rightarrow>
         bnd (get_invitation_for_user agreement_id user_id email) (\<lambda>i.
         case i of
           None \<Rightarrow> raise InvitationNotFoundError
         | Some i \<Rightarrow> if i_status i = None then raise ValueError else return i))"

definition get_user_invited_agreements :: "string \<Rightarrow> invitation_response list handler" where
  "get_user_invited_agreements email =
     bnd (get_invitations_for_email email) (map_m invitation_response_of)"

section \<open>Escrow preparation\<close>

record escrow_context =
  ec_agreement_id :: id
  ec_title :: string
  ec_amount :: money
  ec_depositor_user_id :: id
  ec_beneficiary_user_id :: id
  ec_depositor_participant_id :: id
  ec_beneficiary_participant_id :: id

definition get_escrow_context :: "id \<Rightarrow> escrow_context handler" where
  "get_escrow_context agreement_id =
     bnd (get_agreement_by_id agreement_id) (\<lambda>found.
     case found of
       None \<Rightarrow> raise AgreementNotFoundError
     | Some (a, _) \<Rightarrow>
         bnd (get_participants_for_agreement agreement_id) (\<lambda>ps.
         case (find_first (\<lambda>p. p_role p = DEPOSITOR) ps,
               find_first (\<lambda>p. p_role p = BENEFICIARY) ps) of
           (Some d, Some b) \<Rightarrow>
             return \<lparr>ec_agreement_id = a_id a, ec_title = a_title a, ec_amount = a_amount a,
                     ec_depositor_user_id = p_user_id d, ec_beneficiary_user_id = p_user_id b,
                     ec_depositor_participant_id = p_id d,
                     ec_beneficiary_participant_id = p_id b\<rparr>
         | _ \<Rightarrow> raise ParticipantNotFoundError))"

definition prepare_escrow_funding :: "id \<Rightarrow> id \<Rightarrow> escrow_context handler" where
  "prepare_escrow_funding agreement_id user_id =
     bnd (get_escrow_context agreement_id) (\<lambda>context.
     if ec_depositor_user_id context \<noteq> user_id then raise ForbiddenError
     else
       bnd (get_agreement_by_id agreement_id) (\<lambda>found.
       if (case found of None \<Rightarrow> False
           | Some (a, _) \<Rightarrow> a_status a \<in> {CANCELLED, COMPLETED, REFUNDED, DISPUTED})
       then raise BadRequestError
       else return context))"

definition prepare_release :: "id \<Rightarrow> escrow_context handler" where
  "prepare_release agreement_id =
     bnd (get_escrow_context agreement_id) (\<lambda>context.
     bnd (get_attached agreement_id) (\<lambda>found.
     case found of
       None \<Rightarrow> raise AgreementNotFoundError
     | Some a \<Rightarrow>
         if a_status a = DISPUTED then raise BadRequestError
         else if a_status a \<in> {CANCELLED, REFUNDED} then raise BadRequestError
         else
           bnd (save_agreement (a\<lparr>a_status := COMPLETED\<rparr>) False) (\<lambda>_. return context)))"

definition prepare_refund :: "id \<Rightarrow> escrow_context handler" where
  "prepare_refund agreement_id =
     bnd (get_escrow_context agreement_id) (\<lambda>context.
     bnd (get_attached agreement_id) (\<lambda>found.
     case found of
       None \<Rightarrow> raise AgreementNotFoundError
     | Some a \<Rightarrow>
         if a_status a = COMPLETED then raise BadRequestError
         else
           bnd (save_agreement (a\<lparr>a_status := REFUNDED\<rparr>) False) (\<lambda>_. return context)))"

definition invalidate_agreement_cache :: "id \<Rightarrow> unit handler" where
  "invalidate_agreement_cache agreement_id =
     best_effort
       (bnd (get_escrow_context agreement_id) (\<lambda>context.
        invalidate_agreement_keys agreement_id
          [ec_depositor_user_id context, ec_beneficiary_user_id context]))"

section \<open>Creating\<close>

definition opposite_role :: "participant_role \<Rightarrow> participant_role" where
  "opposite_role role = (if role = DEPOSITOR then BENEFICIARY else DEPOSITOR)"

text \<open>\<^verbatim>\<open>_invite_participant\<close>: the invitation and the link of the e-mail it queues.\<close>

definition invite_other ::
  "string \<Rightarrow> participant_role \<Rightarrow> id \<Rightarrow> string \<Rightarrow> agreement \<Rightarrow> (invitation \<times> string) handler"
where
  "invite_other web_url role creator_id email a =
     bnd get_invitation_token (\<lambda>token.
     bnd (invite_participant token creator_id (opposite_role role) a email) (\<lambda>i.
     bnd (invitation_response_of i) (\<lambda>_.
     bnd (store_invitation token i) (\<lambda>_.
     return (i, rev (dropWhile (\<lambda>c. c = CHR ''/'') (rev web_url)) @ ''/invite?token='' @ token)))))"

definition add_creator :: "id \<Rightarrow> id \<Rightarrow> participant_role \<Rightarrow> participant handler" where
  "add_creator agreement_id user_id role =
     bnd now (\<lambda>t.
     bnd uuid4 (\<lambda>u.
     let p = \<lparr>p_id = u, p_agreement_id = agreement_id, p_user_id = user_id, p_role = role,
              p_status = ACCEPTED, p_joined_at = t\<rparr>
     in bnd (insert_row participant_t p) (\<lambda>_. return p)))"

definition new_condition :: "id \<Rightarrow> id \<Rightarrow> id \<Rightarrow> condition_create \<Rightarrow> condition handler" where
  "new_condition agreement_id participant_id invitation_id c =
     bnd now (\<lambda>t.
     bnd uuid4 (\<lambda>u.
     let k = \<lparr>c_id = u, c_agreement_id = agreement_id, c_participant_id = participant_id,
              c_invitation_id = Some invitation_id, c_title = cc_title c,
              c_description = cc_description c, c_required_from_participant_id = None,
              c_status = COND_PENDING, c_approved_at = None, c_rejected_reason = None,
              c_created_at = t\<rparr>
     in bnd (insert_row condition_t k) (\<lambda>_. return k)))"

text \<open>The body of the \<^verbatim>\<open>try\<close> statement of \<^verbatim>\<open>create_agreement\<close>.\<close>

definition create_agreement_rows ::
  "string \<Rightarrow> id \<Rightarrow> agreement_create \<Rightarrow>
   (agreement_response \<times> condition_response list \<times> string) handler"
where
  "create_agreement_rows web_url current_user_id d =
     bnd now (\<lambda>t.
     bnd uuid4 (\<lambda>u.
     let a = \<lparr>a_id = u, a_user_id = current_user_id, a_title = ac_title d,
              a_description = ac_description d, a_amount = ac_amount d, a_status = PENDING,
              a_created_at = t\<rparr> in
     bnd (insert_row agreement_t a) (\<lambda>_.
     bnd (add_creator u current_user_id (ac_role d)) (\<lambda>creator.
     bnd (invite_other web_url (ac_role d) current_user_id (ac_email d) a) (\<lambda>(iv, link).
     bnd (map_m (new_condition u (p_id creator) (i_id iv)) (ac_conditions d)) (\<lambda>cs.
     bnd commit (\<lambda>_.
     bnd (map_m (refresh condition_t) cs) (\<lambda>cs.
     bnd (get_participant_for_user u current_user_id) (\<lambda>existing.
     bnd (if existing = None
          then bnd (add_creator u current_user_id (ac_role d)) (\<lambda>_. commit)
          else return ()) (\<lambda>_.
     bnd (get_agreement_by_id u) (\<lambda>found.
     case found of
       None \<Rightarrow> raise AgreementNotFoundError
     | Some db_agreement \<Rightarrow>
         bnd (to_agreement_response db_agreement (length cs) 0 None False) (\<lambda>response.
         bnd (map_m condition_response_of cs) (\<lambda>crs.
         return (response, crs, link))))))))))))))"

definition create_agreement ::
  "string \<Rightarrow> id \<Rightarrow> string \<Rightarrow> agreement_create \<Rightarrow>
   (agreement_response \<times> condition_response list \<times> string) handler"
where
  "create_agreement web_url current_user_id current_user_email d =
     (if current_user_email \<noteq> '''' \<and> ac_email d = lower current_user_email
      then raise BadRequestError
      else
        try_except (create_agreement_rows web_url current_user_id d)
          (\<lambda>_. bnd rollback (\<lambda>_. raise AgreementCreationError)))"

section \<open>Answering an invitation\<close>

text \<open>The participant row of the answer: a new one, or the existing one with its new status.\<close>

definition answer_as :: "id \<Rightarrow> id \<Rightarrow> invitation \<Rightarrow> participant option \<Rightarrow> invitation_status \<Rightarrow>
   participant handler"
where
  "answer_as agreement_id user_id iv p status =
     (case p of
        None \<Rightarrow>
          bnd now (\<lambda>t.
          bnd uuid4 (\<lambda>u.
          let p = \<lparr>p_id = u, p_agreement_id = agreement_id, p_user_id = user_id,
                   p_role = i_role iv, p_status = status, p_joined_at = t\<rparr>
          in bnd (insert_row participant_t p) (\<lambda>_. return p)))
      | Some p \<Rightarrow>
          let p = p\<lparr>p_status := status\<rparr> in bnd (save_row participant_t p) (\<lambda>_. return p))"

definition accept_agreement :: "id \<Rightarrow> id \<Rightarrow> string \<Rightarrow> agreement_response handler" where
  "accept_agreement agreement_id user_id email =
     bnd (get_invitation_by_agreement_id email agreement_id) (\<lambda>iv.
     case iv of
       None \<Rightarrow> raise AgreementAcceptanceError
     | Some iv \<Rightarrow>
         bnd (get_participant_for_user agreement_id user_id) (\<lambda>p.
         if (case p of None \<Rightarrow> False | Some p \<Rightarrow> p_status p = ACCEPTED)
         then get_agreement agreement_id (Some user_id)
         else
           bnd (get_attached agreement_id) (\<lambda>existing.
           case existing of
             None \<Rightarrow> raise AgreementNotFoundError
           | Some existing \<Rightarrow>
               if a_status existing \<noteq> PENDING then raise BadRequestError
               else if \<not> invitation_pending iv then raise BadRequestError
               else
                 bnd (answer_as agreement_id user_id iv p ACCEPTED) (\<lambda>p.
                 bnd (save_row invitation_t (iv\<lparr>i_status := Some INV_ACCEPTED\<rparr>)) (\<lambda>_.
                 bnd commit (\<lambda>_.
                 bnd (refresh participant_t p) (\<lambda>p.
                 bnd (get_attached agreement_id) (\<lambda>a.
                 case a of
                   None \<Rightarrow> raise AgreementNotFoundError
                 | Some a \<Rightarrow>
                     bnd (get_participants_for_agreement agreement_id) (\<lambda>ps.
                     let accepted = length (filter (\<lambda>p. p_status p = ACCEPTED) ps) in
                     bnd (save_agreement
                            (a\<lparr>a_status := (if 2 \<le> accepted then ACTIVE else PENDING)\<rparr>) True) (\<lambda>_.
                     bnd (invalidate_agreement_keys agreement_id [a_user_id a, user_id]) (\<lambda>_.
                     bnd (update_agreement_conditions_with_invitation agreement_id (i_id iv)
                            (p_id p)) (\<lambda>_.
                     get_agreement agreement_id (Some user_id)))))))))))))"

definition reject_agreement :: "id \<Rightarrow> id \<Rightarrow> string \<Rightarrow> agreement_response handler" where
  "reject_agreement agreement_id user_id email =
     bnd (get_attached agreement_id) (\<lambda>existing.
     case existing of
       None \<Rightarrow> raise AgreementNotFoundError
     | Some existing \<Rightarrow>
         if a_status existing = DISPUTED then raise BadRequestError
         else if a_status existing \<notin> {PENDING, ACTIVE} then raise BadRequestError
         else
           bnd (get_invitation_by_agreement_id email agreement_id) (\<lambda>iv.
           case iv of
             None \<Rightarrow> raise AgreementAcceptanceError
           | Some iv \<Rightarrow>
               bnd (get_participant_for_user agreement_id user_id) (\<lambda>p.
               if (case p of None \<Rightarrow> False | Some p \<Rightarrow> p_status p = REJECTED)
               then get_agreement agreement_id (Some user_id)
               else
                 bnd (answer_as agreement_id user_id iv p REJECTED) (\<lambda>p.
                 bnd (save_row invitation_t (iv\<lparr>i_status := Some INV_EXPIRED\<rparr>)) (\<lambda>_.
                 bnd commit (\<lambda>_.
                 bnd (refresh participant_t p) (\<lambda>p.
                 bnd (get_attached agreement_id) (\<lambda>a.
                 case a of
                   None \<Rightarrow> raise AgreementNotFoundError
                 | Some a \<Rightarrow>
                     bnd (save_agreement (a\<lparr>a_status := CANCELLED\<rparr>) True) (\<lambda>_.
                     bnd (invalidate_agreement_keys agreement_id [a_user_id a, user_id]) (\<lambda>_.
                     get_agreement agreement_id (Some user_id)))))))))))"

definition cancel_agreement :: "id \<Rightarrow> id \<Rightarrow> agreement_response handler" where
  "cancel_agreement agreement_id user_id =
     bnd (get_attached agreement_id) (\<lambda>a.
     case a of
       None \<Rightarrow> raise AgreementNotFoundError
     | Some a \<Rightarrow>
         bnd (get_participant_for_user agreement_id user_id) (\<lambda>p.
         if p = None then raise ForbiddenError
         else if a_status a = CANCELLED then get_agreement agreement_id (Some user_id)
         else if a_status a \<noteq> PENDING \<and> a_status a \<noteq> ACTIVE then raise BadRequestError
         else
           bnd (save_agreement (a\<lparr>a_status := CANCELLED\<rparr>) True) (\<lambda>_.
           bnd (invalidate_agreement_cache agreement_id) (\<lambda>_.
           get_agreement agreement_id (Some user_id)))))"

section \<open>What the service keeps\<close>

lemma agreement_service_reading [stays_intros]:
  "stays reading (participant_response_of p)" "stays reading (linked_participant pid)"
  "stays reading (linked_invitation iid)" "stays reading (condition_response_of c)"
  "stays reading (invitation_response_of i)" "stays reading (user_accepted a u)"
  "stays reading (to_agreement_response l n m uo f)" "stays reading (get_agreement a uo)"
  "stays reading (get_agreement_invitation a u em)" "stays reading (get_user_invited_agreements em)"
  "stays reading (get_escrow_context a)" "stays reading (prepare_escrow_funding a u)"
  "stays reading (invalidate_agreement_cache a)"
proof -
  show p: "stays reading (participant_response_of p)" for p
    unfolding participant_response_of_def by (intro stays_intros)
  show l: "stays reading (linked_participant pid)" for pid
    unfolding linked_participant_def by (intro stays_intros p)
  show i: "stays reading (linked_invitation iid)" for iid
    unfolding linked_invitation_def by (intro stays_intros)
  show "stays reading (condition_response_of c)"
    unfolding condition_response_of_def by (intro stays_intros l i)
  show ir: "stays reading (invitation_response_of i)" for i
    unfolding invitation_response_of_def by (intro stays_intros)
  show a: "stays reading (user_accepted a u)" for a u
    unfolding user_accepted_def by (intro stays_intros)
  show r: "stays reading (to_agreement_response l n m uo f)" for l n m uo f
    unfolding to_agreement_response_def Let_def by (intro stays_intros p a)
  show "stays reading (get_agreement a uo)"
    unfolding get_agreement_def by (intro stays_intros r)
  show "stays reading (get_agreement_invitation a u em)"
    unfolding get_agreement_invitation_def by (intro stays_intros)
  show "stays reading (get_user_invited_agreements em)"
    unfolding get_user_invited_agreements_def by (intro stays_intros ir)
  show c: "stays reading (get_escrow_context a)" for a
    unfolding get_escrow_context_def by (intro stays_intros)
  show "stays reading (prepare_escrow_funding a u)"
    unfolding prepare_escrow_funding_def by (intro stays_intros c)
  show "stays reading (invalidate_agreement_cache a)"
    unfolding invalidate_agreement_cache_def by (intro stays_intros c)
qed

lemmas [keeps_intros] = agreement_service_reading [THEN reading_keeps]
lemmas [stays_intros] =
  agreement_service_reading [THEN reading_table_frame]
  agreement_service_reading [THEN reading_append_only]

text \<open>An invariant that no write of these four tables can break is kept by the whole service.\<close>

lemma agreement_service_keeps [keeps_intros]:
  assumes "stable I agreement_t" and "stable I participant_t" and "stable I invitation_t"
    and "stable I condition_t"
  shows "keeps (both I) (prepare_release a)" "keeps (both I) (prepare_refund a)"
    "keeps (both I) (create_agreement web u em d)" "keeps (both I) (accept_agreement a u em)"
    "keeps (both I) (reject_agreement a u em)" "keeps (both I) (cancel_agreement a u)"
    "keeps (both I) (get_all_user_agreements u)"
  unfolding prepare_release_def prepare_refund_def create_agreement_def
    create_agreement_rows_def add_creator_def new_condition_def invite_other_def
    accept_agreement_def reject_agreement_def answer_as_def cancel_agreement_def
    get_all_user_agreements_def get_user_agreements_def merge_agreement_def Let_def
  by (intro keeps_intros assms)+

lemma agreement_service_frame [stays_intros]:
  assumes "apart T agreement_t" and "apart T participant_t" and "apart T invitation_t"
    and "apart T condition_t"
  shows "stays (table_frame T) (prepare_release a)" "stays (table_frame T) (prepare_refund a)"
    "stays (table_frame T) (create_agreement web u em d)"
    "stays (table_frame T) (accept_agreement a u em)"
    "stays (table_frame T) (reject_agreement a u em)" "stays (table_frame T) (cancel_agreement a u)"
    "stays (table_frame T) (get_all_user_agreements u)"
  unfolding prepare_release_def prepare_refund_def create_agreement_def
    create_agreement_rows_def add_creator_def new_condition_def invite_other_def
    accept_agreement_def reject_agreement_def answer_as_def cancel_agreement_def
    get_all_user_agreements_def get_user_agreements_def merge_agreement_def Let_def
  by (intro stays_intros assms)+

end
