(* ===== verification/ConditionService.thy ===== *)
theory ConditionService
  imports AgreementService
begin

text \<open>
  \<^verbatim>\<open>src/app/repository/condition_repository.py\<close> and \<^verbatim>\<open>src/app/service/condition_service.py\<close>: the
  conditions that hold the escrow.  Participants add them while the agreement is pending; only the
  depositor decides on them, and only while the agreement is active.
\<close>

section \<open>Repository\<close>

definition agreement_condition_key :: "id \<Rightarrow> string" where
  "agreement_condition_key agreement_id = ''agreement:'' @ agreement_id @ '':condition''"

definition condition_key :: "id \<Rightarrow> string" where
  "condition_key condition_id = ''condition:'' @ condition_id"

definition get_agreement_condition :: "id \<Rightarrow> condition list handler" where
  "get_agreement_condition agreement_id =
     select condition_t (\<lambda>c. c_agreement_id c = agreement_id)"

text \<open>Conditions joined with their agreement and its participants, one row per participant.\<close>

definition user_conditions_rows :: "id \<Rightarrow> condition list handler" where
  "user_conditions_rows user_id =
     bnd (select condition_t (\<lambda>_. True)) (\<lambda>cs.
     bnd (select agreement_t (\<lambda>_. True)) (\<lambda>as.
     bnd (select participant_t (\<lambda>p. p_user_id p = user_id)) (\<lambda>ps.
     return [c. c \<leftarrow> cs, a \<leftarrow> as, a_id a = c_agreement_id c, p \<leftarrow> ps, p_agreement_id p = a_id a])))"

definition get_condition_by_id :: "id \<Rightarrow> condition option handler" where
  "get_condition_by_id condition_id = get_row condition_t condition_id"

definition get_condition_participant :: "id \<Rightarrow> id \<Rightarrow> participant option handler" where
  "get_condition_participant user_id agreement_id =
     select_first participant_t (\<lambda>p. p_user_id p = user_id \<and> p_agreement_id p = agreement_id)"

definition get_participant_or_invitation_by_email ::
  "string \<Rightarrow> id \<Rightarrow> (participant + invitation) option handler"
where
  "get_participant_or_invitation_by_email email agreement_id =
     bnd (select user_t (\<lambda>u. u_email u = email)) (\<lambda>us.
     bnd (select_first participant_t
            (\<lambda>p. p_agreement_id p = agreement_id \<and> p_user_id p \<in> u_id ` set us)) (\<lambda>p.
     case p of
       Some p \<Rightarrow> return (Some (Inl p))
     | None \<Rightarrow>
         bnd (select_first invitation_t
                (\<lambda>i. i_email i = email \<and> i_agreement_id i = agreement_id)) (\<lambda>i.
         return (map_option Inr i))))"

definition save_condition :: "condition \<Rightarrow> condition handler" where
  "save_condition c =
     bnd (save_row condition_t c) (\<lambda>_. bnd commit (\<lambda>_. refresh condition_t c))"

section \<open>Service\<close>

definition require_condition :: "id \<Rightarrow> condition handler" where
  "require_condition condition_id =
     bnd (get_condition_by_id condition_id) (\<lambda>c.
     case c of None \<Rightarrow> raise ConditionNotFoundError | Some c \<Rightarrow> return c)"

definition decidable_status :: "condition_status \<Rightarrow> bool" where
  "decidable_status st \<longleftrightarrow> st \<in> {COND_PENDING, COND_SUBMITTED, COND_REJECTED}"

definition require_depositor :: "condition \<Rightarrow> id \<Rightarrow> participant handler" where
  "require_depositor c user_id =
     bnd (get_condition_participant user_id (c_agreement_id c)) (\<lambda>p.
     case p of
       None \<Rightarrow> raise ForbiddenError
     | Some p \<Rightarrow>
         if p_role p \<noteq> DEPOSITOR then raise ForbiddenError
         else
           bnd (get_row agreement_t (c_agreement_id c)) (\<lambda>a.
           if (case a of None \<Rightarrow> True | Some a \<Rightarrow> a_status a \<noteq> ACTIVE) then raise BadRequestError
           else if \<not> decidable_status (c_status c) then raise BadRequestError
           else return p))"

definition invalidate_conditions :: "id \<Rightarrow> id option \<Rightarrow> unit handler" where
  "invalidate_conditions agreement_id condition_id =
     cache_delete
       (agreement_condition_key agreement_id #
        (case condition_id of None \<Rightarrow> []
         | Some i \<Rightarrow> if i = '''' then [] else [condition_key i]))"

definition add_condition :: "id \<Rightarrow> id \<Rightarrow> condition_create \<Rightarrow> condition_response handler" where
  "add_condition agreement_id user_id d =
     bnd (get_condition_participant user_id agreement_id) (\<lambda>current.
     case current of
       None \<Rightarrow> raise ParticipantNotFoundError
     | Some current \<Rightarrow>
         bnd (get_row agreement_t agreement_id) (\<lambda>a.
         case a of
           None \<Rightarrow> raise ParticipantNotFoundError
         | Some a \<Rightarrow>
             if a_status a \<noteq> PENDING then raise BadRequestError
             else
               bnd (get_participant_or_invitation_by_email (cc_required_from_email d)
                      agreement_id) (\<lambda>other.
               case other of
                 None \<Rightarrow> raise ParticipantNotFoundError
               | Some other \<Rightarrow>
                   bnd now (\<lambda>t.
                   bnd uuid4 (\<lambda>u.
                   let c = \<lparr>c_id = u, c_agreement_id = agreement_id, c_participant_id = p_id current,
                            c_invitation_id =
                              (case other of Inl p \<Rightarrow> None | Inr i \<Rightarrow> Some (i_id i)),
                            c_title = cc_title d, c_description = cc_description d,
                            c_required_from_participant_id =
                              (case other of Inl p \<Rightarrow> Some (p_id p) | Inr i \<Rightarrow> None),
                            c_status = COND_PENDING, c_approved_at = None,
                            c_rejected_reason = None, c_created_at = t\<rparr>
                   in try_except
                        (bnd (insert_row condition_t c) (\<lambda>_.
                         bnd commit (\<lambda>_.
                         bnd (refresh condition_t c) (\<lambda>c.
                         bnd (invalidate_conditions agreement_id None) (\<lambda>_.
                         bnd (get_condition_by_id (c_id c)) (\<lambda>c.
                         case c of
                           None \<Rightarrow> raise ValueError
                         | Some c \<Rightarrow> condition_response_of c))))))
                        (\<lambda>_. bnd rollback (\<lambda>_. raise ConditionSaveError)))))))"

definition approve_condition :: "id \<Rightarrow> id \<Rightarrow> condition_response handler" where
  "approve_condition condition_id user_id =
     bnd (require_condition condition_id) (\<lambda>c.
     bnd (require_depositor c user_id) (\<lambda>_.
     bnd now (\<lambda>t.
     bnd (save_condition (c\<lparr>c_approved_at := Some t, c_rejected_reason := None,
                            c_status := COND_APPROVED\<rparr>)) (\<lambda>c.
     bnd (invalidate_conditions (c_agreement_id c) (Some condition_id)) (\<lambda>_.
     condition_response_of c)))))"

definition reject_condition :: "id \<Rightarrow> id \<Rightarrow> string \<Rightarrow> condition_response handler" where
  "reject_condition condition_id user_id rejected_reason =
     bnd (require_condition condition_id) (\<lambda>c.
     bnd (require_depositor c user_id) (\<lambda>_.
     bnd (save_condition (c\<lparr>c_rejected_reason := Some rejected_reason, c_approved_at := None,
                            c_status := COND_REJECTED\<rparr>)) (\<lambda>c.
     bnd (invalidate_conditions (c_agreement_id c) (Some condition_id)) (\<lambda>_.
     condition_response_of c))))"

definition get_condition :: "id \<Rightarrow> condition_response handler" where
  "get_condition condition_id = bnd (require_condition condition_id) condition_response_of"

definition get_agreement_id_for_condition :: "id \<Rightarrow> id handler" where
  "get_agreement_id_for_condition condition_id =
     bnd (require_condition condition_id) (\<lambda>c. return (c_agreement_id c))"

definition get_agreement_conditions :: "id \<Rightarrow> condition_response list handler" where
  "get_agreement_conditions agreement_id =
     bnd (get_agreement_condition agreement_id) (map_m condition_response_of)"

definition all_conditions_approved :: "id \<Rightarrow> bool handler" where
  "all_conditions_approved agreement_id =
     bnd (get_agreement_condition agreement_id) (\<lambda>cs.
     if cs = [] then return False
     else return (list_all (\<lambda>c. c_status c = COND_APPROVED) cs))"

definition get_user_conditions :: "id \<Rightarrow> condition_response list handler" where
  "get_user_conditions user_id = bnd (user_conditions_rows user_id) (map_m condition_response_of)"

section \<open>What the service keeps\<close>

lemma condition_service_reading [stays_intros]:
  "stays reading (get_agreement_condition a)" "stays reading (user_conditions_rows u)"
  "stays reading (get_condition_by_id c)" "stays reading (get_condition_participant u a)"
  "stays reading (get_participant_or_invitation_by_email em a)"
  "stays reading (require_condition c)" "stays reading (require_depositor co u)"
  "stays reading (invalidate_conditions a co')" "stays reading (get_condition c)"
  "stays reading (get_agreement_id_for_condition c)" "stays reading (get_agreement_conditions a)"
  "stays reading (all_conditions_approved a)" "stays reading (get_user_conditions u)"
  unfolding get_agreement_condition_def user_conditions_rows_def get_condition_by_id_def
    get_condition_participant_def get_participant_or_invitation_by_email_def
    require_condition_def require_depositor_def invalidate_conditions_def get_condition_def
    get_agreement_id_for_condition_def get_agreement_conditions_def all_conditions_approved_def
    get_user_conditions_def
  by (intro stays_intros)+

lemmas [keeps_intros] = condition_service_reading [THEN reading_keeps]
lemmas [stays_intros] =
  condition_service_reading [THEN reading_table_frame]
  condition_service_reading [THEN reading_append_only]

lemma condition_service_keeps [keeps_intros]:
  assumes "stable I condition_t"
  shows "keeps (both I) (add_condition a u d)" "keeps (both I) (approve_condition c u)"
    "keeps (both I) (reject_condition c u re)"
  unfolding add_condition_def approve_condition_def reject_condition_def save_condition_def Let_def
  by (intro keeps_intros assms)+

lemma condition_service_frame [stays_intros]:
  assumes "apart T condition_t"
  shows "stays (table_frame T) (add_condition a u d)" "stays (table_frame T) (approve_condition c u)"
    "stays (table_frame T) (reject_condition c u re)"
  unfolding add_condition_def approve_condition_def reject_condition_def save_condition_def Let_def
  by (intro stays_intros assms)+

end
