(* ===== verification/Assets.thy ===== *)
theory Assets
  imports ConditionService
begin

text \<open>
  \<^verbatim>\<open>src/app/repository/asset_repository.py\<close>, \<^verbatim>\<open>src/app/service/asset_service.py\<close>,
  \<^verbatim>\<open>src/app/service/image_upload_service.py\<close> and \<^verbatim>\<open>src/app/routers/asset.py\<close>: the files handed in for
  a condition.

  As with agreements, an asset comes with a flag: \<open>False\<close> marks the transient object rebuilt from the
  cache.  Adding a transient object to the session is an \<^verbatim>\<open>INSERT\<close>, and its relationships
  (uploader, file) are empty, so a response built from it does not validate.
\<close>

section \<open>Repository\<close>

definition asset_key :: "id \<Rightarrow> string" where
  "asset_key asset_id = ''asset:'' @ asset_id"

definition agreement_asset_key :: "id \<Rightarrow> string" where
  "agreement_asset_key agreement_id = ''agreement:'' @ agreement_id @ '':asset''"

definition condition_asset_key :: "id \<Rightarrow> string" where
  "condition_asset_key condition_id = ''condition:'' @ condition_id @ '':asset''"

definition get_asset_by_id :: "id \<Rightarrow> (asset \<times> bool) option handler" where
  "get_asset_by_id asset_id =
     bnd (cache_get (asset_key asset_id)) (\<lambda>cached.
     case cached of
       Some (CAsset x) \<Rightarrow> return (Some (x, False))
     | _ \<Rightarrow>
         bnd (select_first asset_t (\<lambda>x. s_id x = asset_id)) (\<lambda>found.
         case found of
           None \<Rightarrow> return None
         | Some x \<Rightarrow>
             bnd (cache_set (asset_key asset_id) (CAsset x)) (\<lambda>_. return (Some (x, True)))))"

definition get_assets_by_ids :: "id list \<Rightarrow> asset list handler" where
  "get_assets_by_ids asset_ids = select asset_t (\<lambda>x. s_id x \<in> set asset_ids)"

definition cached_assets ::
  "string \<Rightarrow> (condition \<Rightarrow> bool) \<Rightarrow> (asset \<times> bool) list handler"
where
  "cached_assets key wanted =
     bnd (cache_get key) (\<lambda>cached.
     case cached of
       Some (CAssets xs) \<Rightarrow> return (map (\<lambda>x. (x, False)) xs)
     | _ \<Rightarrow>
         bnd (select condition_t wanted) (\<lambda>cs.
         bnd (select asset_t (\<lambda>x. s_condition_id x \<in> Some ` c_id ` set cs)) (\<lambda>xs.
         bnd (when_m (xs \<noteq> []) (cache_set key (CAssets xs))) (\<lambda>_.
         return (map (\<lambda>x. (x, True)) xs)))))"

definition get_agreement_assets :: "id \<Rightarrow> (asset \<times> bool) list handler" where
  "get_agreement_assets agreement_id =
     cached_assets (agreement_asset_key agreement_id) (\<lambda>c. c_agreement_id c = agreement_id)"

definition get_condition_assets :: "id \<Rightarrow> (asset \<times> bool) list handler" where
  "get_condition_assets condition_id =
     cached_assets (condition_asset_key condition_id) (\<lambda>c. c_id c = condition_id)"

definition delete_asset :: "id \<Rightarrow> unit handler" where
  "delete_asset asset_id =
     bnd (get_asset_by_id asset_id) (\<lambda>found.
     case found of
       None \<Rightarrow> return ()
     | Some (x, attached) \<Rightarrow>
         if \<not> attached then raise InvalidRequestError
         else
           bnd (delete_rows asset_t (\<lambda>y. s_id y = s_id x)) (\<lambda>_.
           bnd commit (\<lambda>_. cache_delete [asset_key asset_id])))"

definition save_asset :: "asset \<times> bool \<Rightarrow> asset handler" where
  "save_asset loaded =
     bnd (if snd loaded then save_row asset_t (fst loaded) else insert_row asset_t (fst loaded)) (\<lambda>_.
     bnd commit (\<lambda>_. refresh asset_t (fst loaded)))"

section \<open>Upload signatures\<close>

record signed_upload =
  su_timestamp :: int
  su_signature :: string
  su_folder :: string
  su_expires_at :: int

definition folder_char :: "char \<Rightarrow> bool" where
  "folder_char c \<longleftrightarrow> alphabetic c \<or> is_digit c \<or> c \<in> set ''_-/''"

text \<open>\<^verbatim>\<open>^[A-Za-z0-9_\-/]{1,120}$\<close>; Python's \<^verbatim>\<open>$\<close> also matches before a final line feed.\<close>

definition safe_folder :: "string \<Rightarrow> bool" where
  "safe_folder folder \<longleftrightarrow>
     (let body = (if folder \<noteq> [] \<and> last folder = CHR 0x0A then butlast folder else folder)
      in list_all folder_char body \<and> 1 \<le> length body \<and> length body \<le> 120)"

definition create_upload_signature ::
  "(int \<Rightarrow> string \<Rightarrow> string) \<Rightarrow> string \<Rightarrow> signed_upload handler"
where
  "create_upload_signature sign folder =
     (if \<not> safe_folder folder then raise ValueError
      else
        bnd now (\<lambda>t.
        let scoped = ''adehun/'' @ folder in
        return \<lparr>su_timestamp = t, su_signature = sign t scoped, su_folder = scoped,
                su_expires_at = t + 3600\<rparr>))"

section \<open>Service\<close>

record asset_file_in =
  af_url :: string
  af_type :: string
  af_name :: string
  af_size :: rat

definition validate_asset_file :: "string \<Rightarrow> rat \<Rightarrow> asset_file_in \<Rightarrow> asset_file_in option" where
  "validate_asset_file cloud_name max_bytes f =
     (case validate_cloudinary_url cloud_name (af_url f) of
        None \<Rightarrow> None
      | Some u \<Rightarrow>
          if af_type f \<in> {''image'', ''audio'', ''video'', ''pdf'', ''document'', ''archive''} \<and>
             1 \<le> length (af_name f) \<and> length (af_name f) \<le> 255 \<and>
             0 < af_size f \<and> af_size f \<le> max_bytes
          then Some (f\<lparr>af_url := u, af_name := strip (af_name f)\<rparr>)
          else None)"

definition validate_asset_files ::
  "string \<Rightarrow> rat \<Rightarrow> nat \<Rightarrow> asset_file_in list \<Rightarrow> asset_file_in list option"
where
  "validate_asset_files cloud_name max_bytes min_files files =
     (let checked = map (validate_asset_file cloud_name max_bytes) files in
      if min_files \<le> length files \<and> length files \<le> 10 \<and> None \<notin> set checked
      then Some (map the checked) else None)"

record asset_response =
  as_asset :: asset
  as_uploader :: participant_response
  as_file :: asset_file

definition asset_response_of :: "asset \<times> bool \<Rightarrow> asset_response handler" where
  "asset_response_of loaded =
     (let x = fst loaded in
      if \<not> snd loaded then raise ValueError
      else
        bnd (linked_participant (s_uploaded_by x)) (\<lambda>uploader.
        bnd (get_row asset_file_t (s_file_id x)) (\<lambda>file.
        case file of
          None \<Rightarrow> raise ValueError
        | Some file \<Rightarrow> return \<lparr>as_asset = x, as_uploader = uploader, as_file = file\<rparr>)))"

text \<open>\<^verbatim>\<open>except (A, B): raise\<close> followed by \<^verbatim>\<open>except Exception\<close>.\<close>

definition except_other_than :: "exn list \<Rightarrow> 'a handler \<Rightarrow> 'a handler \<Rightarrow> 'a handler" where
  "except_other_than passed m h = try_except m (\<lambda>e. if e \<in> set passed then raise e else h)"

definition create_asset_signature ::
  "(int \<Rightarrow> string \<Rightarrow> string) \<Rightarrow> id \<Rightarrow> signed_upload handler"
where
  "create_asset_signature sign condition_id =
     except_other_than [ConditionNotFoundError]
       (bnd (get_row condition_t condition_id) (\<lambda>c.
        if c = None then raise ConditionNotFoundError
        else create_upload_signature sign (''assets/'' @ condition_id)))
       (raise AssetUploadError)"

definition new_asset_file :: "asset_file_in \<Rightarrow> asset_file handler" where
  "new_asset_file f =
     bnd uuid4 (\<lambda>u.
     let x = \<lparr>f_id = u, f_url = af_url f, f_type = af_type f, f_name = af_name f,
              f_size = af_size f\<rparr>
     in bnd (insert_row asset_file_t x) (\<lambda>_. return x))"

definition new_asset :: "id option \<Rightarrow> id option \<Rightarrow> id \<Rightarrow> id \<Rightarrow> asset handler" where
  "new_asset condition_id dispute_id participant_id file_id =
     bnd now (\<lambda>t.
     bnd uuid4 (\<lambda>u.
     let x = \<lparr>s_id = u, s_condition_id = condition_id, s_dispute_id = dispute_id,
              s_file_id = file_id, s_uploaded_by = participant_id, s_is_approved = False,
              s_uploaded_at = t\<rparr>
     in bnd (insert_row asset_t x) (\<lambda>_. return x)))"

definition add_asset_to_condition ::
  "id \<Rightarrow> id \<Rightarrow> asset_file_in list \<Rightarrow> asset_response list handler"
where
  "add_asset_to_condition user_id condition_id files =
     except_other_than [ConditionNotFoundError, ForbiddenError]
       (bnd (get_row condition_t condition_id) (\<lambda>c.
        case c of
          None \<Rightarrow> raise ConditionNotFoundError
        | Some c \<Rightarrow>
            bnd (get_condition_participant user_id (c_agreement_id c)) (\<lambda>p.
            case p of
              None \<Rightarrow> raise ForbiddenError
            | Some p \<Rightarrow>
                bnd (map_m new_asset_file files) (\<lambda>fs.
                bnd (map_m (\<lambda>f. new_asset (Some condition_id) None (p_id p) (f_id f)) fs) (\<lambda>xs.
                bnd commit (\<lambda>_.
                bnd (cache_delete [condition_asset_key condition_id]) (\<lambda>_.
                bnd (get_assets_by_ids (map s_id xs)) (\<lambda>xs.
                map_m (\<lambda>x. asset_response_of (x, True)) xs))))))))
       (bnd rollback (\<lambda>_. raise AssetUploadError))"

definition get_assets_for_condition :: "id \<Rightarrow> asset_response list handler" where
  "get_assets_for_condition condition_id =
     except_other_than [ConditionNotFoundError]
       (bnd (get_row condition_t condition_id) (\<lambda>c.
        if c = None then raise ConditionNotFoundError
        else bnd (get_condition_assets condition_id) (map_m asset_response_of)))
       (raise AssetRetrievalError)"

definition get_assets_for_agreement :: "id \<Rightarrow> asset_response list handler" where
  "get_assets_for_agreement agreement_id =
     except_other_than [AgreementNotFoundError]
       (bnd (get_row agreement_t agreement_id) (\<lambda>a.
        if a = None then raise AgreementNotFoundError
        else bnd (get_agreement_assets agreement_id) (map_m asset_response_of)))
       (raise AssetRetrievalError)"

text \<open>\<open>approve_asset\<close> and \<open>reject_asset\<close> differ in the flag they write.\<close>

definition decide_asset :: "bool \<Rightarrow> id \<Rightarrow> id \<Rightarrow> id \<Rightarrow> asset_response handler" where
  "decide_asset approved condition_id asset_id user_id =
     except_other_than [ConditionNotFoundError, ForbiddenError, AssetNotFoundError]
       (bnd (get_row condition_t condition_id) (\<lambda>c.
        case c of
          None \<Rightarrow> raise ConditionNotFoundError
        | Some c \<Rightarrow>
            bnd (get_condition_participant user_id (c_agreement_id c)) (\<lambda>p.
            case p of
              None \<Rightarrow> raise ForbiddenError
            | Some p \<Rightarrow>
                if p_role p \<noteq> DEPOSITOR then raise ForbiddenError
                else
                  bnd (get_asset_by_id asset_id) (\<lambda>found.
                  case found of
                    None \<Rightarrow> raise AssetNotFoundError
                  | Some (x, attached) \<Rightarrow>
                      if s_condition_id x \<noteq> Some condition_id then raise AssetNotFoundError
                      else
                        bnd (save_asset (x\<lparr>s_is_approved := approved\<rparr>, attached)) (\<lambda>x.
                        bnd (cache_delete [condition_asset_key condition_id]) (\<lambda>_.
                        asset_response_of (x, True)))))))
       (bnd rollback (\<lambda>_. raise AssetApprovalError))"

definition approve_asset :: "id \<Rightarrow> id \<Rightarrow> id \<Rightarrow> asset_response handler" where
  "approve_asset condition_id asset_id user_id = decide_asset True condition_id asset_id user_id"

definition reject_asset :: "id \<Rightarrow> id \<Rightarrow> id \<Rightarrow> asset_response handler" where
  "reject_asset condition_id asset_id user_id = decide_asset False condition_id asset_id user_id"

section \<open>Routes\<close>

definition get_assets_for_agreement_route :: "user \<Rightarrow> id \<Rightarrow> asset_response list handler" where
  "get_assets_for_agreement_route current_user agreement_id =
     bnd (require_read_access agreement_id (u_id current_user) (u_email current_user)) (\<lambda>_.
     get_assets_for_agreement agreement_id)"

definition add_asset_to_condition_route ::
  "string \<Rightarrow> rat \<Rightarrow> user \<Rightarrow> id \<Rightarrow> asset_file_in list \<Rightarrow> asset_response list handler"
where
  "add_asset_to_condition_route cloud_name max_bytes current_user condition_id files =
     (case validate_asset_files cloud_name max_bytes 1 files of
        None \<Rightarrow> raise (HTTPException 422)
      | Some files \<Rightarrow>
          bnd (get_agreement_id_for_condition condition_id) (\<lambda>agreement_id.
          bnd (require_participant agreement_id (u_id current_user)) (\<lambda>_.
          add_asset_to_condition (u_id current_user) condition_id files)))"

definition get_assets_for_condition_route :: "user \<Rightarrow> id \<Rightarrow> asset_response list handler" where
  "get_assets_for_condition_route current_user condition_id =
     bnd (get_agreement_id_for_condition condition_id) (\<lambda>agreement_id.
     bnd (require_read_access agreement_id (u_id current_user) (u_email current_user)) (\<lambda>_.
     get_assets_for_condition condition_id))"

definition get_upload_signature_route ::
  "(int \<Rightarrow> string \<Rightarrow> string) \<Rightarrow> user \<Rightarrow> id \<Rightarrow> signed_upload handler"
where
  "get_upload_signature_route sign current_user condition_id =
     bnd (get_agreement_id_for_condition condition_id) (\<lambda>agreement_id.
     bnd (require_participant agreement_id (u_id current_user)) (\<lambda>_.
     create_asset_signature sign condition_id))"

section \<open>What these operations keep\<close>

lemma keeps_cached_asset [keeps_intros]:
  "(\<And>x. keeps P (f x)) \<Longrightarrow> keeps P m \<Longrightarrow>
   keeps P (case c of Some (CAsset x) \<Rightarrow> f x | _ \<Rightarrow> m)"
  "(\<And>x. keeps P (g x)) \<Longrightarrow> keeps P m \<Longrightarrow>
   keeps P (case c of Some (CAssets x) \<Rightarrow> g x | _ \<Rightarrow> m)"
  by (auto split: option.splits cached.splits)

lemma stays_cached_asset [stays_intros]:
  "(\<And>x. stays R (f x)) \<Longrightarrow> stays R m \<Longrightarrow>
   stays R (case c of Some (CAsset x) \<Rightarrow> f x | _ \<Rightarrow> m)"
  "(\<And>x. stays R (g x)) \<Longrightarrow> stays R m \<Longrightarrow>
   stays R (case c of Some (CAssets x) \<Rightarrow> g x | _ \<Rightarrow> m)"
  by (auto split: option.splits cached.splits)

lemma assets_reading [stays_intros]:
  "stays reading (get_asset_by_id i)" "stays reading (get_assets_by_ids is)"
  "stays reading (cached_assets k w)" "stays reading (get_agreement_assets a)"
  "stays reading (get_condition_assets c)" "stays reading (create_upload_signature sign f)"
  "stays reading (asset_response_of l)" "stays reading (create_asset_signature sign c)"
  "stays reading (get_assets_for_condition c)" "stays reading (get_assets_for_agreement a)"
  "stays reading (get_assets_for_agreement_route cu a)"
  "stays reading (get_assets_for_condition_route cu c)"
  "stays reading (get_upload_signature_route sign cu c)"
  unfolding get_asset_by_id_def get_assets_by_ids_def cached_assets_def get_agreement_assets_def
    get_condition_assets_def create_upload_signature_def asset_response_of_def
    create_asset_signature_def get_assets_for_condition_def get_assets_for_agreement_def
    get_assets_for_agreement_route_def get_assets_for_condition_route_def
    get_upload_signature_route_def except_other_than_def Let_def
  by (intro stays_intros)+

lemmas [keeps_intros] = assets_reading [THEN reading_keeps]
lemmas [stays_intros] =
  assets_reading [THEN reading_table_frame] assets_reading [THEN reading_append_only]

lemma new_rows_keep [keeps_intros]:
  "stable I asset_file_t \<Longrightarrow> keeps (both I) (new_asset_file f)"
  "stable I asset_t \<Longrightarrow> keeps (both I) (new_asset c d p fi)"
  unfolding new_asset_file_def new_asset_def Let_def
  by (intro keeps_intros; assumption)+

lemma new_rows_frame [stays_intros]:
  "apart T asset_file_t \<Longrightarrow> stays (table_frame T) (new_asset_file f)"
  "apart T asset_t \<Longrightarrow> stays (table_frame T) (new_asset c d p fi)"
  unfolding new_asset_file_def new_asset_def Let_def
  by (intro stays_intros; assumption)+

lemma assets_keep [keeps_intros]:
  assumes "stable I asset_file_t" and "stable I asset_t"
  shows "keeps (both I) (delete_asset i)" "keeps (both I) (add_asset_to_condition u c fs)"
    "keeps (both I) (approve_asset c i u)" "keeps (both I) (reject_asset c i u)"
    "keeps (both I) (add_asset_to_condition_route cl mb cu c fs)"
  unfolding delete_asset_def add_asset_to_condition_def approve_asset_def reject_asset_def
    decide_asset_def save_asset_def add_asset_to_condition_route_def except_other_than_def
  by (intro keeps_intros assms)+

end
