(* ===== verification/Idempotency.thy ===== *)
theory Idempotency
  imports PaystackClient Samples
begin

text \<open>
  Client-facing idempotency: \<^verbatim>\<open>src/app/repository/idempotency_repository.py\<close> (the reservations)
  and \<^verbatim>\<open>src/app/core/idempotency.py\<close> (\<^verbatim>\<open>IdempotencyContext\<close>), with the yield dependency of
  \<^verbatim>\<open>src/app/dependencies.py\<close> that releases an abandoned reservation.

  Parameters: \<open>digest\<close> is \<^verbatim>\<open>_canonical_hash\<close> (SHA-256 of the canonical JSON text); \<open>sweep\<close> is the
  outcome of \<^verbatim>\<open>random.random() < _SWEEP_PROBABILITY\<close>.  A JSON response is its status, its body and
  whether it carries the \<^verbatim>\<open>Idempotent-Replay\<close> header.
\<close>

record http_response =
  hr_status :: nat
  hr_body :: json
  hr_replayed :: bool

definition success_response :: "nat \<Rightarrow> json \<Rightarrow> http_response" where
  "success_response status_code data =
     \<lparr>hr_status = status_code, hr_body = JObj [(''success'', JBool True), (''data'', data)],
      hr_replayed = False\<rparr>"

section \<open>Repository\<close>

definition sweep_expired :: "unit handler" where
  "sweep_expired =
     try_except
       (bnd now (\<lambda>t.
        bnd (delete_rows idempotency_key_t (\<lambda>k. k_expires_at k < t)) (\<lambda>_. commit)))
       (\<lambda>_. rollback)"

definition reserve ::
  "settings \<Rightarrow> bool \<Rightarrow> id \<Rightarrow> string \<Rightarrow> string \<Rightarrow> string \<Rightarrow> id option handler"
where
  "reserve cfg sweep user_id endpoint key request_hash =
     bnd now (\<lambda>t.
     bnd uuid4 (\<lambda>u.
     let expires_at = t + idempotency_ttl_hours cfg * 3600;
         stale_before = t - idempotency_inflight_timeout_seconds cfg in
     bnd (select_first idempotency_key_t
            (\<lambda>k. k_user_id k = user_id \<and> k_endpoint k = endpoint \<and> k_key k = key)) (\<lambda>existing.
     bnd (case existing of
            None \<Rightarrow>
              bnd (insert_row idempotency_key_t
                \<lparr>k_id = u, k_user_id = user_id, k_key = key, k_endpoint = endpoint,
                 k_request_hash = request_hash, k_status = IN_PROGRESS,
                 k_response_status_code = None, k_response_body = None,
                 k_resource_reference = None, k_created_at = t, k_completed_at = None,
                 k_expires_at = expires_at\<rparr>) (\<lambda>_. return (Some u))
          | Some k \<Rightarrow>
              if k_status k = IN_PROGRESS \<and> k_created_at k < stale_before then
                bnd (save_row idempotency_key_t
                  (k\<lparr>k_status := IN_PROGRESS, k_request_hash := request_hash, k_created_at := t,
                     k_expires_at := expires_at, k_completed_at := None,
                     k_response_status_code := None, k_response_body := None\<rparr>)) (\<lambda>_.
                return (Some (k_id k)))
              else return None) (\<lambda>reserved_id.
     bnd commit (\<lambda>_.
     bnd (when_m (reserved_id \<noteq> None \<and> sweep) sweep_expired) (\<lambda>_.
     return reserved_id))))))"

definition get_key :: "id \<Rightarrow> string \<Rightarrow> string \<Rightarrow> idempotency_key option handler" where
  "get_key user_id endpoint key =
     select_first idempotency_key_t
       (\<lambda>k. k_user_id k = user_id \<and> k_endpoint k = endpoint \<and> k_key k = key)"

definition complete_key :: "id \<Rightarrow> nat \<Rightarrow> json option \<Rightarrow> unit handler" where
  "complete_key record_id status_code body =
     bnd now (\<lambda>t.
     bnd (get_row idempotency_key_t record_id) (\<lambda>r.
     case r of
       None \<Rightarrow> return ()
     | Some k \<Rightarrow>
         bnd (save_row idempotency_key_t
                (k\<lparr>k_status := IDEM_COMPLETED, k_response_status_code := Some status_code,
                   k_response_body := body, k_completed_at := Some t\<rparr>)) (\<lambda>_. commit)))"

definition bind_key_reference :: "id \<Rightarrow> string \<Rightarrow> unit handler" where
  "bind_key_reference record_id reference =
     bnd (get_row idempotency_key_t record_id) (\<lambda>r.
     case r of
       None \<Rightarrow> return ()
     | Some k \<Rightarrow>
         bnd (save_row idempotency_key_t (k\<lparr>k_resource_reference := Some reference\<rparr>)) (\<lambda>_. commit))"

definition release_key :: "id \<Rightarrow> unit handler" where
  "release_key record_id =
     bnd rollback (\<lambda>_.
     bnd (delete_rows idempotency_key_t (\<lambda>k. k_id k = record_id \<and> k_status k = IN_PROGRESS)) (\<lambda>_.
     commit))"

section \<open>The context of one request\<close>

definition max_key_length :: nat where
  "max_key_length = 120"

datatype begun = Replay http_response | Proceed "id option"

definition begin_request ::
  "settings \<Rightarrow> bool \<Rightarrow> (json \<Rightarrow> string) \<Rightarrow> id \<Rightarrow> string option \<Rightarrow> string \<Rightarrow> json \<Rightarrow> begun handler"
where
  "begin_request cfg sweep digest user_id key endpoint payload =
     (case key of
        None \<Rightarrow> raise BadRequestError
      | Some key \<Rightarrow>
          if key = '''' then raise BadRequestError
          else if max_key_length < length key then raise BadRequestError
          else
            let request_hash = digest payload in
            bnd (reserve cfg sweep user_id endpoint key request_hash) (\<lambda>record_id.
            case record_id of
              Some i \<Rightarrow> return (Proceed (Some i))
            | None \<Rightarrow>
                bnd (get_key user_id endpoint key) (\<lambda>existing.
                case existing of
                  None \<Rightarrow> return (Proceed None)
                | Some k \<Rightarrow>
                    if k_request_hash k \<noteq> request_hash then raise IdempotencyKeyReusedError
                    else if k_status k = IDEM_COMPLETED then
                      return (Replay
                        \<lparr>hr_status = (case k_response_status_code k of
                             None \<Rightarrow> 200 | Some c \<Rightarrow> if c = 0 then 200 else c),
                         hr_body = (case k_response_body k of None \<Rightarrow> JNull | Some b \<Rightarrow> b),
                         hr_replayed = True\<rparr>)
                    else raise IdempotencyConflictError)))"

definition bind_reference :: "id option \<Rightarrow> string \<Rightarrow> unit handler" where
  "bind_reference record_id reference =
     (case record_id of
        None \<Rightarrow> return ()
      | Some i \<Rightarrow> best_effort (bind_key_reference i reference))"

definition complete :: "id option \<Rightarrow> http_response \<Rightarrow> http_response handler" where
  "complete record_id response =
     (case record_id of
        None \<Rightarrow> return response
      | Some i \<Rightarrow>
          bnd (complete_key i (hr_status response) (Some (hr_body response))) (\<lambda>_.
          return response))"

definition release_if_abandoned :: "id option \<Rightarrow> unit handler" where
  "release_if_abandoned record_id =
     (case record_id of None \<Rightarrow> return () | Some i \<Rightarrow> best_effort (release_key i))"

text \<open>
  A route that uses the context: \<open>begin\<close>, then the operation (which returns the reference to bind,
  if the route binds one, and the response), then \<open>complete\<close>; when anything after \<open>begin\<close> raises,
  the teardown of the dependency releases the reservation.
\<close>

definition with_idempotency ::
  "settings \<Rightarrow> bool \<Rightarrow> (json \<Rightarrow> string) \<Rightarrow> id \<Rightarrow> string option \<Rightarrow> string \<Rightarrow> json \<Rightarrow>
   (string option \<times> http_response) handler \<Rightarrow> http_response handler"
where
  "with_idempotency cfg sweep digest user_id key endpoint payload operation =
     bnd (begin_request cfg sweep digest user_id key endpoint payload) (\<lambda>b.
     case b of
       Replay r \<Rightarrow> return r
     | Proceed record_id \<Rightarrow>
         try_except
           (bnd operation (\<lambda>(reference, response).
            bnd (case reference of None \<Rightarrow> return () | Some ref \<Rightarrow> bind_reference record_id ref) (\<lambda>_.
            complete record_id response)))
           (\<lambda>e. bnd (release_if_abandoned record_id) (\<lambda>_. raise e)))"

section \<open>What the context keeps\<close>

lemma keeps_begun [keeps_intros]:
  "(\<And>r. keeps P (f r)) \<Longrightarrow> (\<And>i. keeps P (g i)) \<Longrightarrow>
   keeps P (case b of Replay r \<Rightarrow> f r | Proceed i \<Rightarrow> g i)"
  by (cases b) auto

lemma idempotency_keeps [keeps_intros]:
  assumes "stable I idempotency_key_t"
  shows "keeps (both I) sweep_expired" "keeps (both I) (reserve cfg sweep u ep k h)"
    "keeps (both I) (get_key u ep k)" "keeps (both I) (complete_key i c b)"
    "keeps (both I) (bind_key_reference i r)" "keeps (both I) (release_key i)"
    "keeps (both I) (begin_request cfg sweep digest u key ep p)"
    "keeps (both I) (bind_reference ri r)" "keeps (both I) (complete ri resp)"
    "keeps (both I) (release_if_abandoned ri)"
proof -
  show sweep: "keeps (both I) sweep_expired"
    unfolding sweep_expired_def by (intro keeps_intros assms)
  show reserve: "keeps (both I) (reserve cfg sweep u ep k h)" for cfg sweep u ep k h
    unfolding reserve_def Let_def by (intro keeps_intros assms sweep)
  show get: "keeps (both I) (get_key u ep k)" for u ep k
    unfolding get_key_def by (intro keeps_intros)
  show complete: "keeps (both I) (complete_key i c b)" for i c b
    unfolding complete_key_def by (intro keeps_intros assms)
  show bindk: "keeps (both I) (bind_key_reference i r)" for i r
    unfolding bind_key_reference_def by (intro keeps_intros assms)
  show releasek: "keeps (both I) (release_key i)" for i
    unfolding release_key_def by (intro keeps_intros assms)
  show "keeps (both I) (begin_request cfg sweep digest u key ep p)"
    unfolding begin_request_def Let_def by (intro keeps_intros reserve get)
  show "keeps (both I) (bind_reference ri r)"
    unfolding bind_reference_def by (intro keeps_intros bindk)
  show "keeps (both I) (complete ri resp)"
    unfolding complete_def by (intro keeps_intros complete)
  show "keeps (both I) (release_if_abandoned ri)"
    unfolding release_if_abandoned_def by (intro keeps_intros releasek)
qed

lemma with_idempotency_keeps [keeps_intros]:
  "stable I idempotency_key_t \<Longrightarrow> keeps (both I) operation \<Longrightarrow>
   keeps (both I) (with_idempotency cfg sweep digest u key ep p operation)"
  unfolding with_idempotency_def by (intro keeps_intros)

section \<open>A reservation through the life of a request\<close>

definition key_triple :: "idempotency_key \<Rightarrow> id \<times> string \<times> string" where
  "key_triple k = (k_user_id k, k_endpoint k, k_key k)"

text \<open>The reservation \<open>i\<close> for a key is stored, committed, and satisfies \<open>Q\<close>.\<close>

definition held ::
  "(idempotency_key \<Rightarrow> bool) \<Rightarrow> id \<Rightarrow> id \<times> string \<times> string \<Rightarrow> string \<Rightarrow> session \<Rightarrow> bool"
where
  "held Q i tr h s \<longleftrightarrow>
     idempotency_key_constraints (idempotency_keys (work s)) \<and>
     idempotency_keys (work s) = idempotency_keys (committed s) \<and>
     (\<exists>k \<in> set (idempotency_keys (work s)).
        k_id k = i \<and> key_triple k = tr \<and> k_request_hash k = h \<and> Q k)"

lemma key_constraints_replace:
  assumes "idempotency_key_constraints ks" and "k \<in> set ks"
    and "k_id k' = k_id k" and "key_triple k' = key_triple k"
  shows "idempotency_key_constraints (replace_by k_id k' ks)"
proof -
  from assms(1) have d: "distinct (map k_id ks)" and t: "distinct (map key_triple ks)"
    by (simp_all add: idempotency_key_constraints_def key_triple_def [abs_def])
  have "map key_triple (replace_by k_id k' ks) = map key_triple ks"
    using d assms(2) assms(3) [symmetric] assms(4) by (rule map_replace_same_field)
  with d t show ?thesis
    by (simp add: idempotency_key_constraints_def key_triple_def [abs_def])
qed

lemma held_row:
  assumes "held Q i tr h s"
  obtains k where "find_first (\<lambda>k. k_id k = i) (idempotency_keys (work s)) = Some k"
    "k \<in> set (idempotency_keys (work s))" "k_id k = i" "key_triple k = tr"
    "k_request_hash k = h" "Q k"
proof -
  from assms obtain k where k: "k \<in> set (idempotency_keys (work s))" "k_id k = i"
    "key_triple k = tr" "k_request_hash k = h" "Q k"
    and "distinct (map k_id (idempotency_keys (work s)))"
    by (auto simp: held_def idempotency_key_constraints_def)
  moreover from this have "find_first (\<lambda>x. k_id x = k_id k) (idempotency_keys (work s)) = Some k"
    by (intro find_first_key)
  ultimately show ?thesis using that by simp
qed

lemma held_found:
  assumes "held Q i tr h s"
  shows "\<exists>k. find_first (\<lambda>k. k_user_id k = fst tr \<and> k_endpoint k = fst (snd tr) \<and> k_key k = snd (snd tr))
      (idempotency_keys (work s)) = Some k \<and> k_id k = i \<and> k_request_hash k = h \<and> Q k"
proof -
  from assms obtain k where k: "k \<in> set (idempotency_keys (work s))" "k_id k = i"
    "key_triple k = tr" "k_request_hash k = h" "Q k"
    and "distinct (map key_triple (idempotency_keys (work s)))"
    by (auto simp: held_def idempotency_key_constraints_def key_triple_def [abs_def])
  from this(6,1) have "find_first (\<lambda>x. key_triple x = key_triple k) (idempotency_keys (work s)) = Some k"
    by (rule find_first_key)
  moreover have "(\<lambda>x. key_triple x = key_triple k) =
      (\<lambda>x. k_user_id x = fst tr \<and> k_endpoint x = fst (snd tr) \<and> k_key x = snd (snd tr))"
    using k(3) by (auto simp: key_triple_def)
  ultimately show ?thesis using k by auto
qed

text \<open>Updating the row of a held reservation succeeds and keeps it held.\<close>

lemma held_update:
  assumes held: "held Q i tr h s"
    and upd: "\<And>k. k_id (f k) = k_id k \<and> key_triple (f k) = key_triple k \<and>
      k_request_hash (f k) = k_request_hash k"
    and new: "\<And>k. Q k \<Longrightarrow> Q' (f k)"
  shows "\<exists>t. bnd (get_row idempotency_key_t i) (\<lambda>r.
      case r of None \<Rightarrow> return () | Some k \<Rightarrow>
        bnd (save_row idempotency_key_t (f k)) (\<lambda>_. commit)) s = (Inr (), t) \<and> held Q' i tr h t \<and>
      committed t = work t"
proof -
  from held obtain k where
    k: "find_first (\<lambda>k. k_id k = i) (idempotency_keys (work s)) = Some k"
    "k \<in> set (idempotency_keys (work s))" "k_id k = i" "key_triple k = tr"
    "k_request_hash k = h" "Q k" by (rule held_row)
  let ?ks = "replace_by k_id (f k) (idempotency_keys (work s))"
  from upd have f: "k_id (f k) = k_id k" "key_triple (f k) = key_triple k"
    "k_request_hash (f k) = k_request_hash k" by simp_all
  from held have "idempotency_key_constraints (idempotency_keys (work s))"
    unfolding held_def by blast
  from key_constraints_replace [OF this k(2) f(1,2)] have c: "idempotency_key_constraints ?ks" .
  have "f k \<in> set ?ks" using k(2) f(1) by (auto intro: mem_replace_same)
  with c k f new have "held Q' i tr h
      (s\<lparr>work := (work s)\<lparr>idempotency_keys := ?ks\<rparr>, committed := (work s)\<lparr>idempotency_keys := ?ks\<rparr>\<rparr>)"
    by (auto simp: held_def)
  with c k show ?thesis by (simp add: step)
qed

lemma held_bind:
  assumes held: "held Q i tr h s" and Q: "\<And>k r. Q k \<Longrightarrow> Q (k\<lparr>k_resource_reference := Some r\<rparr>)"
  shows "\<exists>t. bind_reference (Some i) ref s = (Inr (), t) \<and> held Q i tr h t"
proof -
  have "\<exists>t. bind_key_reference i ref s = (Inr (), t) \<and> held Q i tr h t \<and> committed t = work t"
    unfolding bind_key_reference_def
    by (rule held_update [OF held]) (simp_all add: key_triple_def Q)
  then show ?thesis by (auto simp: bind_reference_def run_best_effort)
qed

definition answered :: "http_response \<Rightarrow> idempotency_key \<Rightarrow> bool" where
  "answered r k \<longleftrightarrow>
     k_status k = IDEM_COMPLETED \<and> k_response_status_code k = Some (hr_status r) \<and>
     k_response_body k = Some (hr_body r)"

lemma held_complete:
  assumes held: "held Q i tr h s"
  shows "\<exists>t. complete (Some i) r s = (Inr r, t) \<and> held (answered r) i tr h t \<and> committed t = work t"
proof -
  let ?f = "\<lambda>k. k\<lparr>k_status := IDEM_COMPLETED, k_response_status_code := Some (hr_status r),
      k_response_body := Some (hr_body r), k_completed_at := Some (clock s)\<rparr>"
  have "\<exists>t. bnd (get_row idempotency_key_t i) (\<lambda>x.
      case x of None \<Rightarrow> return () | Some k \<Rightarrow>
        bnd (save_row idempotency_key_t (?f k)) (\<lambda>_. commit)) s = (Inr (), t) \<and>
      held (answered r) i tr h t \<and> committed t = work t"
    by (rule held_update [OF held]) (simp_all add: key_triple_def answered_def)
  then obtain t where t: "complete_key i (hr_status r) (Some (hr_body r)) s = (Inr (), t)"
    and "held (answered r) i tr h t" "committed t = work t"
    by (auto simp: complete_key_def bnd_session_steps)
  then show ?thesis
    by (auto simp: complete_def bnd_Inr [of "complete_key i (hr_status r) (Some (hr_body r))", OF t])
qed

lemma held_frame:
  assumes "held Q i tr h s" and "stays (table_frame idempotency_key_t) m" and "m s = (r, t)"
  shows "held Q i tr h t"
  using table_frameD [OF assms(2,3)] assms(1) by (auto simp: held_def)

text \<open>A reservation just taken is held, and a sweep does not remove it before it expires.\<close>

lemma sweep_held:
  assumes held: "held (\<lambda>k. Q k \<and> clock s \<le> k_expires_at k) i tr h s"
    and run: "sweep_expired s = (r, t)"
  shows "held Q i tr h t"
proof -
  let ?ks = "filter (\<lambda>k. \<not> k_expires_at k < clock s) (idempotency_keys (work s))"
  from held have "idempotency_key_constraints (idempotency_keys (work s))"
    unfolding held_def by blast
  then have c: "idempotency_key_constraints ?ks"
    by (simp add: idempotency_key_constraints_def distinct_map_filter)
  with run have t: "t = s\<lparr>work := (work s)\<lparr>idempotency_keys := ?ks\<rparr>,
      committed := (work s)\<lparr>idempotency_keys := ?ks\<rparr>\<rparr>"
    by (auto simp: sweep_expired_def run_try step)
  from held obtain k where "k \<in> set (idempotency_keys (work s))" "k_id k = i" "key_triple k = tr"
    "k_request_hash k = h" "Q k" "clock s \<le> k_expires_at k" unfolding held_def by blast
  then have "k \<in> set ?ks \<and> k_id k = i \<and> key_triple k = tr \<and> k_request_hash k = h \<and> Q k" by simp
  with c t show ?thesis unfolding held_def by auto
qed

definition in_progress :: "idempotency_key \<Rightarrow> bool" where
  "in_progress k \<longleftrightarrow> k_status k = IN_PROGRESS"

lemma reserve_held:
  assumes c: "idempotency_key_constraints (idempotency_keys (work s))"
    and ttl: "0 \<le> idempotency_ttl_hours cfg"
    and run: "reserve cfg sweep u ep key h s = (Inr (Some i), t)"
  shows "held in_progress i (u, ep, key) h t"
proof -
  let ?find = "find_first (\<lambda>k. k_user_id k = u \<and> k_endpoint k = ep \<and> k_key k = key)
      (idempotency_keys (work s))"
  have ex: "\<exists>v. held (\<lambda>k. in_progress k \<and> clock v \<le> k_expires_at k) i (u, ep, key) h v \<and>
      when_m sweep sweep_expired v = (Inr (), t)"
  proof (cases ?find)
    case None
    let ?k = "\<lparr>k_id = i, k_user_id = u, k_key = key, k_endpoint = ep,
        k_request_hash = h, k_status = IN_PROGRESS, k_response_status_code = None,
        k_response_body = None, k_resource_reference = None, k_created_at = clock s,
        k_completed_at = None, k_expires_at = clock s + idempotency_ttl_hours cfg * 3600\<rparr>"
    let ?d = "(work s)\<lparr>idempotency_keys := idempotency_keys (work s) @ [?k]\<rparr>"
    let ?v = "s\<lparr>uuid_next := Suc (uuid_next s), work := ?d, committed := ?d\<rparr>"
    from run None have i: "i = uuid_supply s (uuid_next s)"
      and ok: "idempotency_key_constraints (idempotency_keys (work s) @ [?k])"
      and w: "when_m sweep sweep_expired ?v = (Inr (), t)"
      by (auto simp: reserve_def step Let_def run_when elim!: bnd_InrE split: if_splits)
    from ok ttl have "held (\<lambda>k. in_progress k \<and> clock ?v \<le> k_expires_at k) i (u, ep, key) h ?v"
      by (auto simp: held_def key_triple_def in_progress_def)
    with w show ?thesis by blast
  next
    case (Some k)
    let ?k = "k\<lparr>k_status := IN_PROGRESS, k_request_hash := h, k_created_at := clock s,
                k_expires_at := clock s + idempotency_ttl_hours cfg * 3600, k_completed_at := None,
                k_response_status_code := None, k_response_body := None\<rparr>"
    let ?ks = "replace_by k_id ?k (idempotency_keys (work s))"
    let ?d = "(work s)\<lparr>idempotency_keys := ?ks\<rparr>"
    let ?v = "s\<lparr>uuid_next := Suc (uuid_next s), work := ?d, committed := ?d\<rparr>"
    from Some have k: "k \<in> set (idempotency_keys (work s))" "k_user_id k = u" "k_endpoint k = ep"
      "k_key k = key" by (auto dest: find_first_SomeD)
    from run Some have i: "i = k_id k" and ok: "idempotency_key_constraints ?ks"
      and w: "when_m sweep sweep_expired ?v = (Inr (), t)"
      by (auto simp: reserve_def step Let_def run_when elim!: bnd_InrE split: if_splits)
    from k(1) have "?k \<in> set ?ks" by (auto intro: mem_replace_same)
    with ok ttl k i have "held (\<lambda>k. in_progress k \<and> clock ?v \<le> k_expires_at k) i (u, ep, key) h ?v"
      by (auto simp: held_def key_triple_def in_progress_def intro!: bexI [of _ ?k])
    with w show ?thesis by blast
  qed
  then obtain v where v: "held (\<lambda>k. in_progress k \<and> clock v \<le> k_expires_at k) i (u, ep, key) h v"
    and w: "when_m sweep sweep_expired v = (Inr (), t)" by blast
  show ?thesis
  proof (cases sweep)
    case True
    with w v show ?thesis by (auto simp: run_when intro: sweep_held)
  next
    case False
    with w v show ?thesis by (auto simp: run_when held_def)
  qed
qed

text \<open>The replay: a held, answered reservation answers for its key, and runs nothing.\<close>

lemma reserve_taken:
  assumes "held (answered r) i (u, ep, key) h s"
  shows "reserve cfg sweep u ep key h' s =
    (Inr None, s\<lparr>uuid_next := Suc (uuid_next s), committed := work s\<rparr>)"
  using held_found [OF assms]
  by (auto simp: reserve_def step Let_def answered_def run_when)

lemma replay_answered:
  assumes held: "held (answered r) i (u, ep, key) (digest p) s"
    and key: "key \<noteq> ''''" "length key \<le> max_key_length" and status: "hr_status r \<noteq> 0"
  shows "with_idempotency cfg sweep digest u (Some key) ep p' operation s =
     (if digest p' = digest p then Inr (r\<lparr>hr_replayed := True\<rparr>) else Inl IdempotencyKeyReusedError,
      s\<lparr>uuid_next := Suc (uuid_next s), committed := work s\<rparr>)"
proof -
  from held_found [OF held] obtain k where k:
    "find_first (\<lambda>k. k_user_id k = u \<and> k_endpoint k = ep \<and> k_key k = key)
      (idempotency_keys (work s)) = Some k" "k_request_hash k = digest p" "answered r k" by auto
  show ?thesis
    using key k status
    by (auto simp: with_idempotency_def begin_request_def step Let_def get_key_def answered_def
        bnd_Inr [of "reserve cfg sweep u ep key (digest p')", OF reserve_taken [OF held]]
        split: option.splits)
qed

section \<open>Properties\<close>

lemma reserve_taken_by_other:
  assumes "reserve cfg sweep u ep key h s = (Inr None, t)"
  shows "\<exists>k. find_first (\<lambda>k. k_user_id k = u \<and> k_endpoint k = ep \<and> k_key k = key)
      (idempotency_keys (work t)) = Some k"
  using assms
  by (auto simp: reserve_def step Let_def run_when split: option.splits if_splits elim!: bnd_InrE)

lemma first_request_answers:
  assumes c: "idempotency_key_constraints (idempotency_keys (work s))"
    and ttl: "0 \<le> idempotency_ttl_hours cfg"
    and key: "key \<noteq> ''''" "length key \<le> max_key_length"
    and frame: "stays (table_frame idempotency_key_t) operation"
    and run: "with_idempotency cfg sweep digest u (Some key) ep p operation s = (Inr r, t)"
    and first: "\<not> hr_replayed r"
  shows "\<exists>i. held (answered r) i (u, ep, key) (digest p) t \<and> committed t = work t"
proof -
  obtain q v where q: "reserve cfg sweep u ep key (digest p) s = (q, v)" by fastforce
  show ?thesis
  proof (cases "\<exists>i. q = Inr (Some i)")
    case True
    then obtain i where "q = Inr (Some i)" ..
    note q' = q [unfolded this]
    from reserve_held [OF c ttl q'] have held: "held in_progress i (u, ep, key) (digest p) v" .
    from q' key run have
      "bnd operation (\<lambda>(reference, response).
         bnd (case reference of None \<Rightarrow> return () | Some ref \<Rightarrow> bind_reference (Some i) ref) (\<lambda>_.
         complete (Some i) response)) v = (Inr r, t)"
      by (auto simp: with_idempotency_def begin_request_def Let_def step run_try
          bnd_Inr [of "reserve cfg sweep u ep key (digest p)", OF q']
          split: prod.splits sum.splits elim!: bnd_InrE)
    then obtain ref resp w x where w: "operation v = (Inr (ref, resp), w)"
      and x: "(case ref of None \<Rightarrow> return () | Some ref \<Rightarrow> bind_reference (Some i) ref) w = (Inr (), x)"
      and y: "complete (Some i) resp x = (Inr r, t)" by (auto elim!: bnd_InrE)
    from held_frame [OF held frame w] have "held in_progress i (u, ep, key) (digest p) w" .
    with x have "held in_progress i (u, ep, key) (digest p) x"
    proof (cases ref)
      case (Some rf)
      have "\<exists>z. bind_reference (Some i) rf w = (Inr (), z) \<and> held in_progress i (u, ep, key) (digest p) z"
        by (rule held_bind) (simp_all add: \<open>held in_progress i (u, ep, key) (digest p) w\<close> in_progress_def)
      with x Some show ?thesis by auto
    qed (use x \<open>held in_progress i (u, ep, key) (digest p) w\<close> in simp)
    from held_complete [OF this, of resp] y show ?thesis by auto
  next
    case False
    then consider e where "q = Inl e" | "q = Inr None" by (cases q) (auto simp: not_Some_eq)
    then show ?thesis
    proof cases
      case 1
      with q key run show ?thesis
        by (simp add: with_idempotency_def begin_request_def Let_def bnd_steps
            bnd_Inl [of "reserve cfg sweep u ep key (digest p)" s e v])
    next
      case 2
      with q have q': "reserve cfg sweep u ep key (digest p) s = (Inr None, v)" by simp
      from reserve_taken_by_other [OF q'] key run first show ?thesis
        by (auto simp: with_idempotency_def begin_request_def Let_def step get_key_def
            bnd_Inr [of "reserve cfg sweep u ep key (digest p)", OF q'] split: if_splits)
    qed
  qed
qed

text \<open>A request repeated with its \<open>Idempotency-Key\<close> is answered from the stored response: once
  a route guarded by the context has answered, the same user's next request on that endpoint with
  that key gets the same status and body (marked as a replay) when the body is the same and
  \<open>IDEMPOTENCY_KEY_REUSED\<close> when it differs, and the route's operation is not run: nothing in the
  session changes but a drawn id.  It holds for every operation that leaves the reservations
  alone.\<close>

theorem idempotent_request_is_replayed:
  assumes "idempotency_key_constraints (idempotency_keys (work s))"
    and "0 \<le> idempotency_ttl_hours cfg"
    and "key \<noteq> ''''" and "length key \<le> max_key_length"
    and "stays (table_frame idempotency_key_t) operation"
    and "with_idempotency cfg sweep digest u (Some key) ep p operation s = (Inr r, t)"
    and "\<not> hr_replayed r" and "hr_status r \<noteq> 0"
  shows "with_idempotency cfg sweep' digest u (Some key) ep p' operation' t =
     (if digest p' = digest p then Inr (r\<lparr>hr_replayed := True\<rparr>) else Inl IdempotencyKeyReusedError,
      t\<lparr>uuid_next := Suc (uuid_next t)\<rparr>)"
proof -
  from first_request_answers [OF assms(1-7)] obtain i where
    held: "held (answered r) i (u, ep, key) (digest p) t" and c: "committed t = work t" by blast
  from c have "t\<lparr>uuid_next := n, committed := work t\<rparr> = t\<lparr>uuid_next := n\<rparr>" for n by simp
  with replay_answered [of r i u ep key digest p t cfg sweep' p' operation',
      OF held assms(3,4,8)]
  show ?thesis by simp
qed

definition sample_settings :: settings where
  "sample_settings =
     \<lparr>paystack_transfers_enabled = True, withdrawal_min_amount = 10,
      withdrawal_max_amount = 1000000, wallet_fund_max_amount = 10000000,
      agreement_max_amount = 50000000, paystack_callback_url = None, idempotency_ttl_hours = 24,
      idempotency_inflight_timeout_seconds = 120, access_token_expiration_minutes = 30,
      refresh_token_expiration_days = 3, paystack_live_mode = False,
      paystack_test_secret_key = ''sk_test'', paystack_secret_key = None\<rparr>"

definition sample_answer :: "(string option \<times> http_response) handler" where
  "sample_answer = return (Some ''ref'', success_response 201 (JStr ''done''))"

theorem idempotent_request_is_replayed_witness:
  "\<exists>t. with_idempotency sample_settings False (\<lambda>_. ''h'') ''ua'' (Some ''k1'') ''POST /x'' JNull sample_answer
       (sample_session empty_db) = (Inr (success_response 201 (JStr ''done'')), t) \<and>
     with_idempotency sample_settings False (\<lambda>_. ''h'') ''ua'' (Some ''k1'') ''POST /x'' JNull (raise TypeError) t =
       (Inr ((success_response 201 (JStr ''done''))\<lparr>hr_replayed := True\<rparr>),
        t\<lparr>uuid_next := Suc (uuid_next t)\<rparr>)"
proof -
  let ?s = "sample_session empty_db"
  have c: "idempotency_key_constraints (idempotency_keys (work ?s))"
    by (simp add: sample_defs idempotency_key_constraints_def)
  have frame: "stays (table_frame idempotency_key_t) sample_answer"
    unfolding sample_answer_def by (intro stays_intros)
  have "\<exists>t. with_idempotency sample_settings False (\<lambda>_. ''h'') ''ua'' (Some ''k1'') ''POST /x'' JNull
      sample_answer ?s = (Inr (success_response 201 (JStr ''done'')), t)"
    by (simp add: with_idempotency_def begin_request_def reserve_def sample_answer_def
        sample_settings_def sample_defs max_key_length_def step run_try idempotency_key_constraints_def
        bind_reference_def bind_key_reference_def complete_def complete_key_def run_best_effort
        Let_def)
  then obtain t where t: "with_idempotency sample_settings False (\<lambda>_. ''h'') ''ua'' (Some ''k1'')
      ''POST /x'' JNull sample_answer ?s = (Inr (success_response 201 (JStr ''done'')), t)" ..
  have "with_idempotency sample_settings False (\<lambda>_. ''h'') ''ua'' (Some ''k1'') ''POST /x'' JNull
      (raise TypeError) t =
    (if ''h'' = ''h'' then Inr ((success_response 201 (JStr ''done''))\<lparr>hr_replayed := True\<rparr>)
     else Inl IdempotencyKeyReusedError, t\<lparr>uuid_next := Suc (uuid_next t)\<rparr>)"
    by (rule idempotent_request_is_replayed [OF c _ _ _ frame t])
      (simp_all add: sample_settings_def max_key_length_def success_response_def)
  with t show ?thesis by auto
qed

end
