(* ===== verification/BankAccountRepo.thy ===== *)
theory BankAccountRepo
  imports WalletRepo
begin

text \<open>
  \<^verbatim>\<open>src/app/repository/bank_account_repository.py\<close>: payout accounts, every query scoped by the
  user.
\<close>

definition bank_list_key :: "string \<Rightarrow> string" where
  "bank_list_key currency = ''paystack:banks:'' @ currency"

definition get_cached_banks :: "string \<Rightarrow> (string \<times> string) list option handler" where
  "get_cached_banks currency =
     bnd (cache_get (bank_list_key currency)) (\<lambda>c.
     case c of Some (CBanks xs) \<Rightarrow> return (Some xs) | _ \<Rightarrow> return None)"

definition cache_banks :: "string \<Rightarrow> (string \<times> string) list \<Rightarrow> unit handler" where
  "cache_banks currency banks = cache_set (bank_list_key currency) (CBanks banks)"

text \<open>Order: default first, then newest first.\<close>

definition list_for_user :: "id \<Rightarrow> bank_account list handler" where
  "list_for_user user_id =
     bnd (select bank_account_t (\<lambda>b. b_user_id b = user_id \<and> b_is_active b)) (\<lambda>bs.
     return (sort_key (\<lambda>b. if b_is_default b then 0 else (1 :: nat))
              (sort_key (\<lambda>b. - b_created_at b) bs)))"

definition get_for_user :: "id \<Rightarrow> id \<Rightarrow> bank_account option handler" where
  "get_for_user bank_account_id user_id =
     select_first bank_account_t
       (\<lambda>b. b_id b = bank_account_id \<and> b_user_id b = user_id \<and> b_is_active b)"

definition get_default_for_user :: "id \<Rightarrow> bank_account option handler" where
  "get_default_for_user user_id =
     select_first bank_account_t (\<lambda>b. b_user_id b = user_id \<and> b_is_default b \<and> b_is_active b)"

definition find_active_duplicate :: "id \<Rightarrow> string \<Rightarrow> string \<Rightarrow> bank_account option handler" where
  "find_active_duplicate user_id bank_code account_number =
     select_first bank_account_t
       (\<lambda>b. b_user_id b = user_id \<and> b_bank_code b = bank_code \<and>
            b_account_number b = account_number \<and> b_is_active b)"

definition add_account :: "bank_account \<Rightarrow> bool \<Rightarrow> bank_account handler" where
  "add_account b do_commit =
     bnd (insert_row bank_account_t b) (\<lambda>_.
     if do_commit then bnd commit (\<lambda>_. refresh bank_account_t b) else return b)"

definition set_default :: "bank_account \<Rightarrow> bank_account handler" where
  "set_default b =
     bnd now (\<lambda>t.
     bnd (get_default_for_user (b_user_id b)) (\<lambda>current.
     bnd (case current of
            None \<Rightarrow> return ()
          | Some c \<Rightarrow>
              when_m (b_id c \<noteq> b_id b)
                (save_row bank_account_t (c\<lparr>b_is_default := False, b_updated_at := t\<rparr>))) (\<lambda>_.
     bnd (save_row bank_account_t (b\<lparr>b_is_default := True, b_updated_at := t\<rparr>)) (\<lambda>_.
     bnd commit (\<lambda>_.
     refresh bank_account_t (b\<lparr>b_is_default := True, b_updated_at := t\<rparr>))))))"

definition deactivate :: "bank_account \<Rightarrow> bank_account handler" where
  "deactivate b =
     bnd now (\<lambda>t.
     let b' = b\<lparr>b_is_active := False, b_is_default := False, b_updated_at := t\<rparr> in
     bnd (save_row bank_account_t b') (\<lambda>_.
     bnd commit (\<lambda>_. refresh bank_account_t b')))"

definition has_pending_withdrawal :: "id \<Rightarrow> bool handler" where
  "has_pending_withdrawal bank_account_id =
     bnd (select_first paystack_t
            (\<lambda>p. pt_bank_account_id p = Some bank_account_id \<and> pt_status p = TX_PENDING)) (\<lambda>r.
     return (r \<noteq> None))"

lemma bank_account_reads_keep [keeps_intros]:
  "keeps (both I) (get_cached_banks c)" "keeps (both I) (cache_banks c xs)"
  "keeps (both I) (list_for_user u)" "keeps (both I) (get_for_user i u)"
  "keeps (both I) (get_default_for_user u)" "keeps (both I) (find_active_duplicate u bc an)"
  "keeps (both I) (has_pending_withdrawal i)"
  by (auto simp: get_cached_banks_def cache_banks_def list_for_user_def get_for_user_def
      get_default_for_user_def find_active_duplicate_def has_pending_withdrawal_def
      intro!: keeps_intros split: option.split cached.split)

lemma bank_account_writes_keep [keeps_intros]:
  assumes "stable I bank_account_t"
  shows "keeps (both I) (add_account b do_commit)" "keeps (both I) (set_default b)"
    "keeps (both I) (deactivate b)"
  using assms unfolding add_account_def set_default_def deactivate_def Let_def
  by (auto intro!: keeps_intros split: option.split)

end
