(* ===== verification/WalletService.thy ===== *)
theory WalletService
  imports LedgerFrames Idempotency BankAccountRepo
begin

text \<open>
  \<^verbatim>\<open>src/app/service/wallet_service.py\<close> and the routes of \<^verbatim>\<open>src/app/routers/wallet.py\<close> that start a
  payment, withdraw and read a withdrawal.  The service never writes a balance: every movement is
  an \<open>apply_entry\<close> or an \<open>apply_transfer\<close> of the repository.
\<close>

section \<open>References and amounts\<close>

definition uuid_hex12 :: "string \<Rightarrow> string" where
  "uuid_hex12 u = take 12 (filter (\<lambda>c. c \<noteq> CHR ''-'') u)"

definition generate_fund_reference :: "id \<Rightarrow> string handler" where
  "generate_fund_reference user_id =
     bnd uuid4 (\<lambda>u. return (''ESC-'' @ take 8 user_id @ ''-'' @ uuid_hex12 u))"

definition generate_withdrawal_reference :: "id \<Rightarrow> string handler" where
  "generate_withdrawal_reference user_id =
     bnd uuid4 (\<lambda>u. return (''WD-'' @ take 8 user_id @ ''-'' @ uuid_hex12 u))"

text \<open>\<^verbatim>\<open>int(x)\<close> of a Decimal truncates towards zero.\<close>

definition py_int :: "money \<Rightarrow> int" where
  "py_int x = (if x < 0 then - \<lfloor>- x\<rfloor> else \<lfloor>x\<rfloor>)"

definition to_kobo :: "money \<Rightarrow> int" where
  "to_kobo amount = py_int (quantize2 amount * 100)"

text \<open>\<^verbatim>\<open>reject_sub_kobo\<close> and the bounds of the request bodies.\<close>

definition reject_sub_kobo :: "money \<Rightarrow> money handler" where
  "reject_sub_kobo v = (if v \<noteq> quantize2 v then raise ValueError else return v)"

record wallet_create =
  wc_amount :: money
  wc_channel :: string

definition validate_wallet_create :: "settings \<Rightarrow> wallet_create \<Rightarrow> bool" where
  "validate_wallet_create cfg p \<longleftrightarrow>
     0 < wc_amount p \<and> wc_amount p \<le> wallet_fund_max_amount cfg \<and>
     wc_amount p = quantize2 (wc_amount p) \<and>
     wc_channel p \<in> {''card'', ''bank'', ''ussd'', ''bank_transfer'', ''qr'', ''mobile_money''}"

record withdrawal_create =
  wd_amount :: money
  wd_bank_account_id :: "id option"

definition validate_withdrawal_create :: "withdrawal_create \<Rightarrow> bool" where
  "validate_withdrawal_create p \<longleftrightarrow> 0 < wd_amount p \<and> wd_amount p = quantize2 (wd_amount p)"

section \<open>Balances\<close>

record balance_response =
  br_available :: money
  br_escrow :: money
  br_total :: money
  br_currency :: string
  br_updated_at :: time

definition get_balance :: "id \<Rightarrow> balance_response handler" where
  "get_balance user_id =
     bnd (ensure_wallet user_id) (\<lambda>w.
     return \<lparr>br_available = w_available_balance w, br_escrow = w_escrow_balance w,
             br_total = w_available_balance w + w_escrow_balance w, br_currency = w_currency w,
             br_updated_at = w_updated_at w\<rparr>)"

definition get_wallet_state_for_ws :: "id \<Rightarrow> ws_frame handler" where
  "get_wallet_state_for_ws user_id =
     bnd (ensure_wallet user_id) (\<lambda>w.
     return (WsWallet ''WALLET_STATE'' None 0
       (Some (w_available_balance w, w_escrow_balance w,
              w_available_balance w + w_escrow_balance w))))"

section \<open>Funding\<close>

record fund_response =
  fr_reference :: string
  fr_access_code :: string
  fr_authorization_url :: "string option"
  fr_amount :: money

definition request_wallet_fund ::
  "settings \<Rightarrow> transport \<Rightarrow> id \<Rightarrow> string \<Rightarrow> wallet_create \<Rightarrow> fund_response handler"
where
  "request_wallet_fund cfg net user_id user_email wallet_data =
     bnd (generate_fund_reference user_id) (\<lambda>reference.
     bnd (create_paystack_transaction user_id reference (wc_amount wallet_data) PT_ESCROW_DEPOSIT
            (Some (wc_channel wallet_data)) None None True) (\<lambda>p.
     bnd (try_except
            (initialize_transaction net user_email (to_kobo (wc_amount wallet_data)) reference
               (Some (wc_channel wallet_data)) (paystack_callback_url cfg))
            (\<lambda>err.
             if is_paystack_error err then
               bnd (save_paystack_transaction
                      (p\<lparr>pt_status := TX_FAILED,
                         pt_failure_reason := Some (take 255 (paystack_message err))\<rparr>) True) (\<lambda>_.
               raise err)
             else raise err)) (\<lambda>data.
     case pd_access_code data of
       None \<Rightarrow> raise KeyError
     | Some access_code \<Rightarrow>
         return \<lparr>fr_reference = reference, fr_access_code = access_code,
                 fr_authorization_url = pd_authorization_url data,
                 fr_amount = wc_amount wallet_data\<rparr>)))"

section \<open>Escrow\<close>

definition esc_lock_ref :: "id \<Rightarrow> string" where
  "esc_lock_ref agreement_id = ''esc_lock_'' @ agreement_id"

definition esc_rel_group :: "id \<Rightarrow> string" where
  "esc_rel_group agreement_id = ''esc_rel_'' @ agreement_id"

definition esc_ref_ref :: "id \<Rightarrow> string" where
  "esc_ref_ref agreement_id = ''esc_ref_'' @ agreement_id"

definition lock_escrow ::
  "id \<Rightarrow> money \<Rightarrow> id \<Rightarrow> id option \<Rightarrow> id option \<Rightarrow> string option \<Rightarrow> ledger_result handler"
where
  "lock_escrow user_id amount agreement_id participant_id counterparty_user_id description =
     apply_entry
       ((leg user_id ESCROW_LOCK amount)
          \<lparr>l_agreement_id := Some agreement_id, l_participant_id := participant_id,
           l_counterparty_user_id := counterparty_user_id,
           l_description := Some (case description of None \<Rightarrow> ''Escrow funding''
                                  | Some d \<Rightarrow> default_message d ''Escrow funding'')\<rparr>)
       (esc_lock_ref agreement_id) ENTRY_COMPLETED None"

definition release_escrow ::
  "id \<Rightarrow> id \<Rightarrow> id \<Rightarrow> money \<Rightarrow> string option \<Rightarrow> transfer_result handler"
where
  "release_escrow agreement_id depositor_user_id beneficiary_user_id amount description =
     (let label = Some (case description of None \<Rightarrow> ''Escrow release''
                        | Some d \<Rightarrow> default_message d ''Escrow release'') in
      apply_transfer (esc_rel_group agreement_id)
        ((leg depositor_user_id ESCROW_RELEASE_OUT amount)
           \<lparr>l_agreement_id := Some agreement_id,
            l_counterparty_user_id := Some beneficiary_user_id, l_description := label\<rparr>)
        ((leg beneficiary_user_id ESCROW_RELEASE_IN amount)
           \<lparr>l_agreement_id := Some agreement_id,
            l_counterparty_user_id := Some depositor_user_id, l_description := label\<rparr>))"

definition refund_escrow :: "id \<Rightarrow> id \<Rightarrow> money \<Rightarrow> string option \<Rightarrow> ledger_result handler" where
  "refund_escrow agreement_id depositor_user_id amount description =
     apply_entry
       ((leg depositor_user_id ESCROW_REFUND amount)
          \<lparr>l_agreement_id := Some agreement_id,
           l_description := Some (case description of None \<Rightarrow> ''Escrow refund''
                                  | Some d \<Rightarrow> default_message d ''Escrow refund'')\<rparr>)
       (esc_ref_ref agreement_id) ENTRY_COMPLETED None"

section \<open>Withdrawal\<close>

text \<open>\<^verbatim>\<open>if bank_account_id:\<close> is false for the empty string too.\<close>

definition resolve_bank_account :: "id \<Rightarrow> id option \<Rightarrow> bank_account handler" where
  "resolve_bank_account user_id bank_account_id =
     bnd (case bank_account_id of
            None \<Rightarrow> get_default_for_user user_id
          | Some i \<Rightarrow> if i = '''' then get_default_for_user user_id else get_for_user i user_id) (\<lambda>a.
     case a of None \<Rightarrow> raise BankAccountNotFoundError | Some account \<Rightarrow> return account)"

definition wd_ref :: "string \<Rightarrow> string" where
  "wd_ref reference = ''wd_'' @ reference"

definition wdrev_ref :: "string \<Rightarrow> string" where
  "wdrev_ref reference = ''wdrev_'' @ reference"

definition last4 :: "string \<Rightarrow> string" where
  "last4 account_number = drop (length account_number - 4) account_number"

record withdrawal_response =
  wr_reference :: string
  wr_amount :: money
  wr_currency :: string
  wr_status :: transaction_status
  wr_bank_account_id :: "id option"
  wr_account_number :: "string option"
  wr_bank_name :: "string option"
  wr_available_balance :: "money option"
  wr_failure_reason :: "string option"
  wr_created_at :: time

definition withdrawal_response_of ::
  "paystack_transaction \<Rightarrow> bank_account \<Rightarrow> money option \<Rightarrow> withdrawal_response"
where
  "withdrawal_response_of p account available_balance =
     \<lparr>wr_reference = pt_reference p, wr_amount = pt_amount p, wr_currency = pt_currency p,
      wr_status = pt_status p, wr_bank_account_id = Some (b_id account),
      wr_account_number = Some (b_account_number account),
      wr_bank_name = Some (b_bank_name account), wr_available_balance = available_balance,
      wr_failure_reason = pt_failure_reason p, wr_created_at = pt_created_at p\<rparr>"

definition reverse_withdrawal :: "string \<Rightarrow> id \<Rightarrow> money \<Rightarrow> string \<Rightarrow> unit handler" where
  "reverse_withdrawal reference user_id amount reason =
     bnd (get_paystack_transaction reference) (\<lambda>found.
     bnd (case found of
            None \<Rightarrow> return ()
          | Some p \<Rightarrow>
              save_paystack_transaction
                (p\<lparr>pt_status := TX_FAILED, pt_failure_reason := Some (take 255 reason)\<rparr>) False) (\<lambda>_.
     bnd (mark_entry_status (wd_ref reference) ENTRY_REVERSED None False) (\<lambda>_.
     bnd (apply_entry
            ((leg user_id WITHDRAWAL_REVERSAL amount)
               \<lparr>l_description := Some ''Withdrawal could not be sent'',
                l_metadata := Some [(''reason'', JStr (take 255 reason))]\<rparr>)
            (wdrev_ref reference) ENTRY_COMPLETED None) (\<lambda>_.
     return ()))))"

definition withdrawal_leg ::
  "id \<Rightarrow> withdrawal_create \<Rightarrow> bank_account \<Rightarrow> paystack_transaction \<Rightarrow> ledger_leg"
where
  "withdrawal_leg user_id payload account p =
     (leg user_id WITHDRAWAL (wd_amount payload))
       \<lparr>l_paystack_transaction_id := Some (pt_id p),
        l_description := Some (''Withdrawal to '' @ b_bank_name account @ '' ****'' @
                               last4 (b_account_number account)),
        l_metadata := Some [(''bank_account_id'', JStr (b_id account)),
                            (''bank_code'', JStr (b_bank_code account)),
                            (''account_last4'', JStr (last4 (b_account_number account)))]\<rparr>"

text \<open>\<^verbatim>\<open>except (PaystackTimeoutError, PaystackDuplicateReferenceError)\<close>\<close>

fun outcome_unknown :: "exn \<Rightarrow> bool" where
  "outcome_unknown PaystackTimeoutError = True"
| "outcome_unknown (PaystackDuplicateReferenceError m) = True"
| "outcome_unknown _ = False"

text \<open>The provider call and what its outcome means (the \<^verbatim>\<open>try\<close> statement and what follows).\<close>

definition send_withdrawal ::
  "transport \<Rightarrow> id \<Rightarrow> withdrawal_create \<Rightarrow> bank_account \<Rightarrow> string \<Rightarrow> paystack_transaction \<Rightarrow>
   ledger_result \<Rightarrow> withdrawal_response handler"
where
  "send_withdrawal net user_id payload account reference p result =
     bnd (try_except
            (bnd (initiate_transfer net (to_kobo (wd_amount payload)) (b_recipient_code account)
                    reference ''Wallet withdrawal'') (\<lambda>d. return (Some d)))
            (\<lambda>err.
             if outcome_unknown err then return None
             else if is_paystack_error err then
               bnd (reverse_withdrawal reference user_id (wd_amount payload)
                      (paystack_message err)) (\<lambda>_. raise err)
             else raise err)) (\<lambda>data.
     case data of
       None \<Rightarrow>
         return (withdrawal_response_of p account (Some (w_available_balance (lr_wallet result))))
     | Some d \<Rightarrow>
         let p = p\<lparr>pt_transfer_code := pd_transfer_code d, pt_paystack_id := pd_id d\<rparr> in
         bnd (save_paystack_transaction p True) (\<lambda>_.
         return (withdrawal_response_of p account
                   (Some (w_available_balance (lr_wallet result))))))"

definition request_withdrawal ::
  "settings \<Rightarrow> transport \<Rightarrow> id \<Rightarrow> withdrawal_create \<Rightarrow> withdrawal_response handler"
where
  "request_withdrawal cfg net user_id payload =
     (if \<not> paystack_transfers_enabled cfg then raise WithdrawalNotAllowedError
      else if wd_amount payload < withdrawal_min_amount cfg then raise BadRequestError
      else if withdrawal_max_amount cfg < wd_amount payload then raise BadRequestError
      else
        bnd (resolve_bank_account user_id (wd_bank_account_id payload)) (\<lambda>account.
        bnd (generate_withdrawal_reference user_id) (\<lambda>reference.
        bnd (create_paystack_transaction user_id reference (wd_amount payload) PT_WITHDRAWAL None
               (Some (b_recipient_code account)) (Some (b_id account)) False) (\<lambda>p.
        bnd (apply_entry (withdrawal_leg user_id payload account p) (wd_ref reference)
               ENTRY_PENDING None) (\<lambda>result.
        send_withdrawal net user_id payload account reference p result)))))"

definition reconcile_pending_withdrawal :: "transport \<Rightarrow> paystack_transaction \<Rightarrow> unit handler" where
  "reconcile_pending_withdrawal net p =
     bnd (try_except
            (bnd (verify_transfer net (pt_reference p)) (\<lambda>d. return (Some d)))
            (\<lambda>err. if is_paystack_error err then return None else raise err)) (\<lambda>data.
     case data of
       None \<Rightarrow> return ()
     | Some d \<Rightarrow>
         let status = lower (case pd_status d of None \<Rightarrow> '''' | Some x \<Rightarrow> x) in
         if status = ''success'' then
           bnd (save_paystack_transaction
                  (p\<lparr>pt_status := TX_SUCCESS, pt_transfer_code := pd_transfer_code d\<rparr>) False) (\<lambda>_.
           bnd (mark_entry_status (wd_ref (pt_reference p)) ENTRY_COMPLETED None True) (\<lambda>_.
           return ()))
         else if status \<in> {''failed'', ''reversed'', ''abandoned''} then
           reverse_withdrawal (pt_reference p) (pt_user_id p) (pt_amount p)
             (case pd_reason d of None \<Rightarrow> ''Transfer failed''
              | Some x \<Rightarrow> default_message x ''Transfer failed'')
         else return ())"

text \<open>
  \<open>get_withdrawal\<close> reads the row's attributes again after the reconciliation: the ORM object is the
  one the reconciliation changed.
\<close>

definition get_withdrawal :: "transport \<Rightarrow> id \<Rightarrow> string \<Rightarrow> withdrawal_response handler" where
  "get_withdrawal net user_id reference =
     bnd (get_paystack_transaction_for_user reference user_id) (\<lambda>found.
     case found of
       None \<Rightarrow> raise TransactionNotFoundError
     | Some p \<Rightarrow>
         bnd (when_m (pt_status p = TX_PENDING) (reconcile_pending_withdrawal net p)) (\<lambda>_.
         bnd (refresh paystack_t p) (\<lambda>p.
         bnd (case pt_bank_account_id p of
                None \<Rightarrow> return None
              | Some i \<Rightarrow> if i = '''' then return None else get_for_user i user_id) (\<lambda>account.
         bnd (get_user_wallet user_id) (\<lambda>w.
         return \<lparr>wr_reference = pt_reference p, wr_amount = pt_amount p,
                 wr_currency = pt_currency p, wr_status = pt_status p,
                 wr_bank_account_id = pt_bank_account_id p,
                 wr_account_number = map_option b_account_number account,
                 wr_bank_name = map_option b_bank_name account,
                 wr_available_balance = map_option w_available_balance w,
                 wr_failure_reason = pt_failure_reason p, wr_created_at = pt_created_at p\<rparr>)))))"

section \<open>Routes\<close>

definition opt_str :: "string option \<Rightarrow> json" where
  "opt_str x = (case x of None \<Rightarrow> JNull | Some v \<Rightarrow> JStr v)"

definition fund_json :: "fund_response \<Rightarrow> json" where
  "fund_json r =
     JObj [(''reference'', JStr (fr_reference r)), (''access_code'', JStr (fr_access_code r)),
           (''authorization_url'', opt_str (fr_authorization_url r)),
           (''amount'', JDec (fr_amount r))]"

definition withdrawal_json :: "withdrawal_response \<Rightarrow> json" where
  "withdrawal_json r =
     JObj [(''reference'', JStr (wr_reference r)), (''amount'', JDec (wr_amount r)),
           (''currency'', JStr (wr_currency r)),
           (''status'', JStr (lower (transaction_status_value (wr_status r)))),
           (''bank_account_id'', opt_str (wr_bank_account_id r)),
           (''account_number'', opt_str (wr_account_number r)),
           (''bank_name'', opt_str (wr_bank_name r)),
           (''available_balance'',
            (case wr_available_balance r of None \<Rightarrow> JNull | Some x \<Rightarrow> JDec x)),
           (''failure_reason'', opt_str (wr_failure_reason r)),
           (''created_at'', JInt (wr_created_at r))]"

definition fund_wallet ::
  "settings \<Rightarrow> transport \<Rightarrow> bool \<Rightarrow> (json \<Rightarrow> string) \<Rightarrow> user \<Rightarrow> string option \<Rightarrow> wallet_create \<Rightarrow>
   http_response handler"
where
  "fund_wallet cfg net sweep digest current_user key wallet_data =
     (if \<not> validate_wallet_create cfg wallet_data then raise (HTTPException 422)
      else
        with_idempotency cfg sweep digest (u_id current_user) key ''POST /wallet/fund''
          (JObj [(''amount'', JDec (wc_amount wallet_data)), (''channel'', JStr (wc_channel wallet_data))])
          (bnd (request_wallet_fund cfg net (u_id current_user) (u_email current_user) wallet_data)
             (\<lambda>result. return (Some (fr_reference result), success_response 201 (fund_json result)))))"

text \<open>\<^verbatim>\<open>RequiredIdempotencyDep\<close>: without the header the request is refused (422) before the body runs.\<close>

definition required_key :: "string option \<Rightarrow> 'a handler \<Rightarrow> 'a handler" where
  "required_key key m = (if key = None then raise (HTTPException 422) else m)"

definition withdraw ::
  "settings \<Rightarrow> transport \<Rightarrow> bool \<Rightarrow> (json \<Rightarrow> string) \<Rightarrow> user \<Rightarrow> string option \<Rightarrow> withdrawal_create \<Rightarrow>
   http_response handler"
where
  "withdraw cfg net sweep digest current_user key payload =
     required_key key
       (if \<not> validate_withdrawal_create payload then raise (HTTPException 422)
        else
          with_idempotency cfg sweep digest (u_id current_user) key ''POST /wallet/withdraw''
            (JObj [(''amount'', JDec (wd_amount payload)),
                   (''bank_account_id'', opt_str (wd_bank_account_id payload))])
            (bnd (request_withdrawal cfg net (u_id current_user) payload)
               (\<lambda>result. return (Some (wr_reference result),
                                 success_response 202 (withdrawal_json result)))))"

section \<open>What the service keeps\<close>

lemma wallet_service_keeps [keeps_intros]:
  "keeps (both ledger_inv) (get_balance u)"
  "keeps (both ledger_inv) (get_wallet_state_for_ws u)"
  "keeps (both ledger_inv) (request_wallet_fund cfg net u em wc)"
  "keeps (both ledger_inv) (lock_escrow u am ag pa cp de)"
  "keeps (both ledger_inv) (release_escrow ag du bu am de)"
  "keeps (both ledger_inv) (refund_escrow ag du am de)"
  "keeps (both ledger_inv) (reverse_withdrawal ref u am re)"
  unfolding get_balance_def get_wallet_state_for_ws_def request_wallet_fund_def
    generate_fund_reference_def lock_escrow_def release_escrow_def refund_escrow_def
    reverse_withdrawal_def Let_def
  by (intro keeps_intros)+

lemma request_withdrawal_keeps [keeps_intros]:
  "keeps (both ledger_inv) (request_withdrawal cfg net u wd)"
  unfolding request_withdrawal_def resolve_bank_account_def generate_withdrawal_reference_def
    send_withdrawal_def Let_def
  by (intro keeps_intros)

lemma get_withdrawal_keeps [keeps_intros]:
  "keeps (both ledger_inv) (reconcile_pending_withdrawal net p)"
  "keeps (both ledger_inv) (get_withdrawal net u ref)"
  unfolding get_withdrawal_def reconcile_pending_withdrawal_def Let_def
  by (intro keeps_intros)+

lemma wallet_routes_keep [keeps_intros]:
  "keeps (both ledger_inv) (fund_wallet cfg net sweep digest cu key wc)"
  "keeps (both ledger_inv) (withdraw cfg net sweep digest cu key wd)"
  unfolding fund_wallet_def withdraw_def required_key_def
  by (intro keeps_intros)+

lemma bank_account_reads_stay [stays_intros]:
  "stays (table_frame T) (get_for_user i u)" "stays (table_frame T) (get_default_for_user u)"
  "stays append_only (get_for_user i u)" "stays append_only (get_default_for_user u)"
  by (auto simp: get_for_user_def get_default_for_user_def intro!: stays_intros)

text \<open>The service leaves every table but its own three alone, in particular the reservations.\<close>

lemma wallet_service_table_frame [stays_intros]:
  assumes "apart T wallet_t" and "apart T transaction_t" and "apart T paystack_t"
  shows "stays (table_frame T) (request_wallet_fund cfg net u em wc)"
    "stays (table_frame T) (lock_escrow u am ag pa cp de)"
    "stays (table_frame T) (release_escrow ag du bu am de)"
    "stays (table_frame T) (refund_escrow ag du am de)"
    "stays (table_frame T) (reverse_withdrawal ref u am re)"
    "stays (table_frame T) (send_withdrawal net u wd ac ref p res)"
    "stays (table_frame T) (request_withdrawal cfg net u wd)"
    "stays (table_frame T) (reconcile_pending_withdrawal net p)"
proof -
  show "stays (table_frame T) (request_wallet_fund cfg net u em wc)"
    "stays (table_frame T) (lock_escrow u am ag pa cp de)"
    "stays (table_frame T) (release_escrow ag du bu am de)"
    "stays (table_frame T) (refund_escrow ag du am de)"
    unfolding request_wallet_fund_def generate_fund_reference_def lock_escrow_def
      release_escrow_def refund_escrow_def Let_def
    by (intro stays_intros assms)+
  show reverse: "stays (table_frame T) (reverse_withdrawal ref u am re)" for ref u am re
    unfolding reverse_withdrawal_def by (intro stays_intros assms)
  show send: "stays (table_frame T) (send_withdrawal net u wd ac ref p res)" for ac ref p res
    unfolding send_withdrawal_def Let_def by (intro stays_intros assms reverse)
  show "stays (table_frame T) (request_withdrawal cfg net u wd)"
    unfolding request_withdrawal_def resolve_bank_account_def generate_withdrawal_reference_def
    by (intro stays_intros assms send)
  show "stays (table_frame T) (reconcile_pending_withdrawal net p)"
    unfolding reconcile_pending_withdrawal_def Let_def by (intro stays_intros assms reverse)
qed

lemma wallet_service_append_only [stays_intros]:
  "stays append_only (request_wallet_fund cfg net u em wc)"
  "stays append_only (lock_escrow u am ag pa cp de)"
  "stays append_only (release_escrow ag du bu am de)"
  "stays append_only (refund_escrow ag du am de)"
  "stays append_only (reverse_withdrawal ref u am re)"
  "stays append_only (send_withdrawal net u wd ac ref p res)"
  "stays append_only (request_withdrawal cfg net u wd)"
  "stays append_only (reconcile_pending_withdrawal net p)"
proof -
  show "stays append_only (request_wallet_fund cfg net u em wc)"
    "stays append_only (lock_escrow u am ag pa cp de)"
    "stays append_only (release_escrow ag du bu am de)"
    "stays append_only (refund_escrow ag du am de)"
    unfolding request_wallet_fund_def generate_fund_reference_def lock_escrow_def
      release_escrow_def refund_escrow_def Let_def
    by (intro stays_intros)+
  show reverse: "stays append_only (reverse_withdrawal ref u am re)" for ref u am re
    unfolding reverse_withdrawal_def by (intro stays_intros)
  show send: "stays append_only (send_withdrawal net u wd ac ref p res)" for ac ref p res
    unfolding send_withdrawal_def Let_def by (intro stays_intros reverse)
  show "stays append_only (request_withdrawal cfg net u wd)"
    unfolding request_withdrawal_def resolve_bank_account_def generate_withdrawal_reference_def
    by (intro stays_intros send)
  show "stays append_only (reconcile_pending_withdrawal net p)"
    unfolding reconcile_pending_withdrawal_def Let_def by (intro stays_intros reverse)
qed

section \<open>The order of a withdrawal\<close>

definition withdrawal_reference :: "id \<Rightarrow> session \<Rightarrow> string" where
  "withdrawal_reference user_id s =
     ''WD-'' @ take 8 user_id @ ''-'' @ uuid_hex12 (uuid_supply s (uuid_next s))"

lemma bnd_generate_withdrawal_reference:
  "bnd (generate_withdrawal_reference u) f s =
     f (withdrawal_reference u s) (s\<lparr>uuid_next := Suc (uuid_next s)\<rparr>)"
  by (simp add: generate_withdrawal_reference_def withdrawal_reference_def step)

lemma resolve_bank_account_reads: "resolve_bank_account u i s = (r, t) \<Longrightarrow> t = s"
  by (auto simp: resolve_bank_account_def get_default_for_user_def get_for_user_def step
      split: option.splits if_splits)

lemma create_paystack_transaction_Inr:
  assumes "create_paystack_transaction u r a ty ch rc ba False s = (Inr p, t)"
  shows "work t = (work s)\<lparr>paystack_transactions := paystack_transactions (work s) @ [p]\<rparr>"
    "committed t = committed s" "outbound t = outbound s" "uuid_supply t = uuid_supply s"
    "uuid_next t = Suc (uuid_next s)" "clock t = clock s" "pt_reference p = r" "pt_status p = TX_PENDING"
  using assms
  by (auto simp: create_paystack_transaction_def step Let_def split: if_splits)

lemma entry_reaches:
  assumes "append_only s t" and "work s = committed s" and "e \<in> set (transactions (committed s))"
  shows "\<exists>e' \<in> set (transactions (committed t)). core e' = core e"
proof -
  from assms(1,2) have "prefix (past (committed s)) (past (committed t))"
    by (simp add: append_only_def)
  then have "set (past (committed s)) \<subseteq> set (past (committed t))" by (rule set_mono_prefix)
  moreover from assms(3) have "core e \<in> set (past (committed s))" by (simp add: past_def)
  ultimately have "core e \<in> set (past (committed t))" by blast
  then obtain e' where "e' \<in> set (transactions (committed t))" "core e = core e'"
    by (auto simp: past_def)
  then show ?thesis by (intro bexI [of _ e']) simp_all
qed

lemma core_simps [simp]:
  "t_reference (core t) = t_reference t" "t_user_id (core t) = t_user_id t"
  "t_type (core t) = t_type t" "t_amount (core t) = t_amount t"
  "t_available_delta (core t) = t_available_delta t" "t_balance_after (core t) = t_balance_after t"
  by (simp_all add: core_def)

lemma core_eqD:
  assumes "core a = core b"
  shows "t_reference a = t_reference b" "t_user_id a = t_user_id b" "t_type a = t_type b"
    "t_amount a = t_amount b" "t_available_delta a = t_available_delta b"
    "t_balance_after a = t_balance_after b"
  using assms by (metis core_simps)+

lemma debited_before_sent:
  assumes inv: "ledger_inv (work s)" and settled: "work s = committed s"
    and new: "find_first (\<lambda>t. t_reference t = wd_ref (withdrawal_reference u s))
      (transactions (committed s)) = None"
    and run: "request_withdrawal cfg net u wd s = (r, t)" and sent: "outbound t \<noteq> outbound s"
  shows "\<exists>w e acc pt x y. paystack_transfers_enabled cfg \<and>
     withdrawal_min_amount cfg \<le> wd_amount wd \<and> wd_amount wd \<le> withdrawal_max_amount cfg \<and>
     e = ledger_entry w (withdrawal_leg u wd acc pt) (wd_ref (withdrawal_reference u s))
           ENTRY_PENDING None x y \<and>
     entry_error w (withdrawal_leg u wd acc pt) = None \<and>
     (\<exists>e' \<in> set (transactions (committed t)). core e' = core e)"
proof -
  let ?ref = "withdrawal_reference u s"
  from run sent have guards: "paystack_transfers_enabled cfg"
    "\<not> wd_amount wd < withdrawal_min_amount cfg" "\<not> withdrawal_max_amount cfg < wd_amount wd"
    by (auto simp: request_withdrawal_def split: if_splits)
  obtain a s1 where a: "resolve_bank_account u (wd_bank_account_id wd) s = (a, s1)" by fastforce
  from resolve_bank_account_reads [OF a] have "s1 = s" .
  note a' = a [unfolded this]
  from run sent guards a' obtain acc where acc: "a = Inr acc"
    by (cases a) (auto simp: request_withdrawal_def
        bnd_Inl [of "resolve_bank_account u (wd_bank_account_id wd)"])
  let ?s = "s\<lparr>uuid_next := Suc (uuid_next s)\<rparr>"
  obtain p s2 where p: "create_paystack_transaction u ?ref (wd_amount wd) PT_WITHDRAWAL None
      (Some (b_recipient_code acc)) (Some (b_id acc)) False ?s = (p, s2)" by fastforce
  have quiet: "outbound s2 = outbound s"
    using staysD [OF ledger_quiet(5) p] by (simp add: quiet_def)
  have run': "(case p of Inl e \<Rightarrow> (Inl e, s2) | Inr p \<Rightarrow>
      bnd (apply_entry (withdrawal_leg u wd acc p) (wd_ref ?ref) ENTRY_PENDING None) (\<lambda>result.
      send_withdrawal net u wd acc ?ref p result) s2) = (r, t)"
    using run guards p
    by (simp add: request_withdrawal_def bnd_generate_withdrawal_reference
        bnd_Inr [of "resolve_bank_account u (wd_bank_account_id wd)", OF a' [unfolded acc]]
        bnd_def [of "create_paystack_transaction u ?ref (wd_amount wd) PT_WITHDRAWAL None
          (Some (b_recipient_code acc)) (Some (b_id acc)) False"] split: sum.splits)
  with quiet sent obtain pt where pt: "p = Inr pt" by (cases p) auto
  note c = create_paystack_transaction_Inr [OF p [unfolded pt]]
  obtain q s3 where q: "apply_entry (withdrawal_leg u wd acc pt) (wd_ref ?ref) ENTRY_PENDING None s2 = (q, s3)"
    by fastforce
  have quiet3: "outbound s3 = outbound s"
    using staysD [OF ledger_quiet(3) q] quiet by (simp add: quiet_def)
  with run' pt q sent obtain res where res: "q = Inr res"
    by (cases q) (auto simp: bnd_Inl [of "apply_entry (withdrawal_leg u wd acc pt) (wd_ref ?ref)
      ENTRY_PENDING None"])
  from inv c(1) have inv2: "ledger_inv (work s2)" by (simp add: ledger_inv_def)
  from new settled c(1,2) have
    n: "find_first (\<lambda>t. t_reference t = wd_ref ?ref) (transactions (work s2)) = None"
    "find_first (\<lambda>t. t_reference t = wd_ref ?ref) (transactions (committed s2)) = None" by simp_all
  from apply_entry_new [OF inv2 q [unfolded res] n] obtain w x y where
    e: "lr_entry res = ledger_entry w (withdrawal_leg u wd acc pt) (wd_ref ?ref) ENTRY_PENDING None x y"
    "entry_error w (withdrawal_leg u wd acc pt) = None"
    "lr_entry res \<in> set (transactions (committed s3))" "work s3 = committed s3" by blast
  from run' pt q res have "send_withdrawal net u wd acc ?ref pt res s3 = (r, t)"
    by (simp add: bnd_Inr [of "apply_entry (withdrawal_leg u wd acc pt) (wd_ref ?ref) ENTRY_PENDING None"])
  from entry_reaches [OF staysD [OF wallet_service_append_only(6) this] e(4,3)] e guards
  show ?thesis by (metis not_less)
qed

section \<open>The outcome of a withdrawal\<close>

definition withdrawal_row ::
  "id \<Rightarrow> withdrawal_create \<Rightarrow> bank_account \<Rightarrow> session \<Rightarrow> paystack_transaction"
where
  "withdrawal_row u wd acc s =
     \<lparr>pt_id = uuid_supply s (Suc (uuid_next s)), pt_user_id = u,
      pt_reference = withdrawal_reference u s, pt_paystack_id = None, pt_amount = wd_amount wd,
      pt_currency = ''NGN'', pt_status = TX_PENDING, pt_transaction_type = PT_WITHDRAWAL,
      pt_transfer_code = None, pt_recipient_code = Some (b_recipient_code acc),
      pt_bank_account_id = Some (b_id acc), pt_failure_reason = None, pt_payment_channel = None,
      pt_gateway_response = None, pt_created_at = clock s\<rparr>"

definition withdrawal_entry :: "id \<Rightarrow> withdrawal_create \<Rightarrow> bank_account \<Rightarrow> wallet \<Rightarrow> session \<Rightarrow> transaction"
where
  "withdrawal_entry u wd acc w s =
     ledger_entry w (withdrawal_leg u wd acc (withdrawal_row u wd acc s))
       (wd_ref (withdrawal_reference u s)) ENTRY_PENDING None
       (uuid_supply s (Suc (Suc (uuid_next s)))) (clock s)"

definition reversal_leg :: "id \<Rightarrow> money \<Rightarrow> string \<Rightarrow> ledger_leg" where
  "reversal_leg u amount reason =
     (leg u WITHDRAWAL_REVERSAL amount)
       \<lparr>l_description := Some ''Withdrawal could not be sent'',
        l_metadata := Some [(''reason'', JStr (take 255 reason))]\<rparr>"

definition reversal_entry ::
  "id \<Rightarrow> withdrawal_create \<Rightarrow> bank_account \<Rightarrow> wallet \<Rightarrow> string \<Rightarrow> session \<Rightarrow> transaction"
where
  "reversal_entry u wd acc w reason s =
     ledger_entry (moved w (withdrawal_entry u wd acc w s)) (reversal_leg u (wd_amount wd) reason)
       (wdrev_ref (withdrawal_reference u s)) ENTRY_COMPLETED None
       (uuid_supply s (Suc (Suc (Suc (uuid_next s))))) (clock s)"

text \<open>A user with a payout account and enough money asks for an allowed amount; ids are fresh.\<close>

definition withdrawal_ready ::
  "settings \<Rightarrow> id \<Rightarrow> withdrawal_create \<Rightarrow> bank_account \<Rightarrow> wallet \<Rightarrow> session \<Rightarrow> bool"
where
  "withdrawal_ready cfg u wd acc w s \<longleftrightarrow>
     ledger_inv (work s) \<and> committed s = work s \<and> paystack_transfers_enabled cfg \<and>
     withdrawal_min_amount cfg \<le> wd_amount wd \<and> wd_amount wd \<le> withdrawal_max_amount cfg \<and>
     0 < wd_amount wd \<and> quantize2 (wd_amount wd) = wd_amount wd \<and>
     wd_amount wd \<le> w_available_balance w \<and>
     fst (resolve_bank_account u (wd_bank_account_id wd) s) = Inr acc \<and>
     find_first (\<lambda>w. w_user_id w = u) (wallets (work s)) = Some w \<and>
     paystack_constraints (paystack_transactions (work s) @ [withdrawal_row u wd acc s]) \<and>
     uuid_supply s (Suc (Suc (uuid_next s))) \<notin> set (map t_id (transactions (work s))) \<and>
     uuid_supply s (Suc (Suc (Suc (uuid_next s)))) \<notin>
       insert (uuid_supply s (Suc (Suc (uuid_next s)))) (set (map t_id (transactions (work s)))) \<and>
     find_first (\<lambda>t. t_reference t = wd_ref (withdrawal_reference u s)) (transactions (work s)) = None \<and>
     find_first (\<lambda>t. t_reference t = wdrev_ref (withdrawal_reference u s)) (transactions (work s)) = None \<and>
     w_available_balance w < 10000000000 \<and> w_escrow_balance w < 10000000000"

definition debited_db :: "id \<Rightarrow> withdrawal_create \<Rightarrow> bank_account \<Rightarrow> wallet \<Rightarrow> session \<Rightarrow> db" where
  "debited_db u wd acc w s =
     post_entry w (withdrawal_entry u wd acc w s)
       ((work s)\<lparr>paystack_transactions :=
          paystack_transactions (work s) @ [withdrawal_row u wd acc s]\<rparr>)"

definition debited :: "id \<Rightarrow> withdrawal_create \<Rightarrow> bank_account \<Rightarrow> wallet \<Rightarrow> session \<Rightarrow> session" where
  "debited u wd acc w s =
     wallet_cache_cleared [u]
       (s\<lparr>uuid_next := Suc (Suc (Suc (uuid_next s))), work := debited_db u wd acc w s,
          committed := debited_db u wd acc w s\<rparr>)"

lemma withdrawal_leg_simps [simp]:
  "l_user_id (withdrawal_leg u wd acc p) = u" "l_amount (withdrawal_leg u wd acc p) = wd_amount wd"
  "l_entry_type (withdrawal_leg u wd acc p) = WITHDRAWAL"
  "l_user_id (reversal_leg u a r) = u" "l_amount (reversal_leg u a r) = a"
  "l_entry_type (reversal_leg u a r) = WITHDRAWAL_REVERSAL"
  by (simp_all add: withdrawal_leg_def reversal_leg_def leg_def)

lemma withdrawal_entry_simps [simp]:
  "t_id (withdrawal_entry u wd acc w s) = uuid_supply s (Suc (Suc (uuid_next s)))"
  "t_reference (withdrawal_entry u wd acc w s) = wd_ref (withdrawal_reference u s)"
  "t_wallet_id (withdrawal_entry u wd acc w s) = w_id w"
  "t_amount (withdrawal_entry u wd acc w s) = wd_amount wd"
  "t_type (withdrawal_entry u wd acc w s) = WITHDRAWAL"
  "t_status (withdrawal_entry u wd acc w s) = ENTRY_PENDING"
  "t_balance_after (withdrawal_entry u wd acc w s) = w_available_balance w - wd_amount wd"
  "t_escrow_after (withdrawal_entry u wd acc w s) = w_escrow_balance w"
  "t_available_delta (withdrawal_entry u wd acc w s) = - wd_amount wd"
  "t_escrow_delta (withdrawal_entry u wd acc w s) = 0"
  by (simp_all add: withdrawal_entry_def)

lemma ready_wallet:
  assumes "withdrawal_ready cfg u wd acc w s"
  shows "w \<in> set (wallets (work s))" "0 \<le> w_escrow_balance w" "w_user_id w = u"
    "wallet_constraints (wallets (work s))"
proof -
  from assms have f: "find_first (\<lambda>w. w_user_id w = u) (wallets (work s)) = Some w"
    and inv: "ledger_inv (work s)" by (simp_all add: withdrawal_ready_def)
  from f show m: "w \<in> set (wallets (work s))" "w_user_id w = u" by (auto dest: find_first_SomeD)
  from inv show wc: "wallet_constraints (wallets (work s))" by (simp add: ledger_inv_def)
  with m(1) show "0 \<le> w_escrow_balance w" by (auto simp: wallet_constraints_def list_all_iff)
qed

lemma withdrawal_row_run:
  assumes "withdrawal_ready cfg u wd acc w s"
  shows "create_paystack_transaction u (withdrawal_reference u s) (wd_amount wd) PT_WITHDRAWAL None
      (Some (b_recipient_code acc)) (Some (b_id acc)) False (s\<lparr>uuid_next := Suc (uuid_next s)\<rparr>) =
    (Inr (withdrawal_row u wd acc s),
     s\<lparr>uuid_next := Suc (Suc (uuid_next s)), work := (work s)\<lparr>paystack_transactions :=
        paystack_transactions (work s) @ [withdrawal_row u wd acc s]\<rparr>\<rparr>)"
  using assms
  by (simp add: create_paystack_transaction_def step Let_def withdrawal_row_def
      withdrawal_ready_def numeric_12_2_def abs_if)

lemma withdrawal_debit_run:
  assumes ready: "withdrawal_ready cfg u wd acc w s"
  shows "apply_entry (withdrawal_leg u wd acc (withdrawal_row u wd acc s))
      (wd_ref (withdrawal_reference u s)) ENTRY_PENDING None
      (s\<lparr>uuid_next := Suc (Suc (uuid_next s)), work := (work s)\<lparr>paystack_transactions :=
        paystack_transactions (work s) @ [withdrawal_row u wd acc s]\<rparr>\<rparr>) =
    (Inr \<lparr>lr_entry = withdrawal_entry u wd acc w s,
          lr_wallet = moved w (withdrawal_entry u wd acc w s), lr_replayed = False\<rparr>,
     debited u wd acc w s)"
proof -
  let ?s = "s\<lparr>uuid_next := Suc (Suc (uuid_next s)), work := (work s)\<lparr>paystack_transactions :=
        paystack_transactions (work s) @ [withdrawal_row u wd acc s]\<rparr>\<rparr>"
  let ?e = "withdrawal_entry u wd acc w s"
  from ready have r: "0 < wd_amount wd" "wd_amount wd \<le> w_available_balance w"
    "w_available_balance w < 10000000000" "w_escrow_balance w < 10000000000"
    by (simp_all add: withdrawal_ready_def)
  have fits: "transaction_fits ?e" "wallet_fits (moved w ?e)"
    using r ready_wallet(2) [OF ready]
    by (simp_all add: transaction_fits_def wallet_fits_def numeric_12_2_def abs_if)
  have "apply_entry (withdrawal_leg u wd acc (withdrawal_row u wd acc s))
      (wd_ref (withdrawal_reference u s)) ENTRY_PENDING None ?s =
    (Inr \<lparr>lr_entry = ?e, lr_wallet = moved w ?e, lr_replayed = False\<rparr>,
     wallet_cache_cleared [l_user_id (withdrawal_leg u wd acc (withdrawal_row u wd acc s))]
       (locked_state w ?e ?s))"
    by (rule apply_entry_fresh)
      (use ready ready_wallet(2) [OF ready] fits in \<open>simp_all add: withdrawal_ready_def ledger_inv_def
        entry_error_def withdrawal_entry_def\<close>)
  then show ?thesis by (simp add: debited_def debited_db_def locked_state_def)
qed

lemma request_withdrawal_ready:
  assumes ready: "withdrawal_ready cfg u wd acc w s"
  shows "request_withdrawal cfg net u wd s =
     send_withdrawal net u wd acc (withdrawal_reference u s) (withdrawal_row u wd acc s)
       \<lparr>lr_entry = withdrawal_entry u wd acc w s,
        lr_wallet = moved w (withdrawal_entry u wd acc w s), lr_replayed = False\<rparr>
       (debited u wd acc w s)"
proof -
  obtain t where "resolve_bank_account u (wd_bank_account_id wd) s = (Inr acc, t)"
    using ready by (cases "resolve_bank_account u (wd_bank_account_id wd) s")
      (simp add: withdrawal_ready_def)
  with resolve_bank_account_reads have
    a: "resolve_bank_account u (wd_bank_account_id wd) s = (Inr acc, s)" by blast
  from ready show ?thesis
    by (simp add: request_withdrawal_def bnd_generate_withdrawal_reference withdrawal_ready_def
        bnd_Inr [of "resolve_bank_account u (wd_bank_account_id wd)", OF a]
        bnd_Inr [of "create_paystack_transaction u (withdrawal_reference u s) (wd_amount wd)
          PT_WITHDRAWAL None (Some (b_recipient_code acc)) (Some (b_id acc)) False",
          OF withdrawal_row_run [OF ready]]
        bnd_Inr [of "apply_entry (withdrawal_leg u wd acc (withdrawal_row u wd acc s))
          (wd_ref (withdrawal_reference u s)) ENTRY_PENDING None", OF withdrawal_debit_run [OF ready]])
qed

text \<open>A request that is not retried: the reply decides.\<close>

fun single_reply :: "reply \<Rightarrow> exn + payload" where
  "single_reply TimedOut = Inl PaystackTimeoutError"
| "single_reply RequestFailed = Inl (PaystackError ''Could not reach the payment provider'')"
| "single_reply (Response code body) =
     (if 500 \<le> code then Inl (PaystackError (''Payment provider returned '' @ nat_str code))
      else parse_response code body)"

lemma request_once:
  "request net req 0 s = (single_reply (net (outbound s) req), s\<lparr>outbound := outbound s @ [req]\<rparr>)"
  by (auto simp: request_def step split: reply.splits sum.splits)

definition transfer_request :: "id \<Rightarrow> withdrawal_create \<Rightarrow> bank_account \<Rightarrow> session \<Rightarrow> http_request" where
  "transfer_request u wd acc s =
     HttpRequest ''POST'' ''/transfer''
       [(''source'', JStr ''balance''), (''amount'', JInt (to_kobo (wd_amount wd))),
        (''recipient'', JStr (b_recipient_code acc)),
        (''reference'', JStr (withdrawal_reference u s)), (''reason'', JStr ''Wallet withdrawal'')]"

lemma initiate_transfer_error:
  assumes "single_reply (net (outbound v) (transfer_request u wd acc s)) = Inl err"
  shows "initiate_transfer net (to_kobo (wd_amount wd)) (b_recipient_code acc)
      (withdrawal_reference u s) ''Wallet withdrawal'' v =
    (Inl err, v\<lparr>outbound := outbound v @ [transfer_request u wd acc s]\<rparr>)"
  using assms by (simp add: initiate_transfer_def fields_run request_once transfer_request_def)

definition sent :: "id \<Rightarrow> withdrawal_create \<Rightarrow> bank_account \<Rightarrow> session \<Rightarrow> session \<Rightarrow> session" where
  "sent u wd acc s v = v\<lparr>outbound := outbound s @ [transfer_request u wd acc s]\<rparr>"

lemma outbound_debited [simp]: "outbound (debited u wd acc w s) = outbound s"
  by (simp add: debited_def wallet_cache_cleared_def)

text \<open>The two rows a reversal rewrites, and the database it leaves.\<close>

definition failed_row :: "id \<Rightarrow> withdrawal_create \<Rightarrow> bank_account \<Rightarrow> string \<Rightarrow> session \<Rightarrow> paystack_transaction"
where
  "failed_row u wd acc reason s =
     (withdrawal_row u wd acc s)\<lparr>pt_status := TX_FAILED, pt_failure_reason := Some (take 255 reason)\<rparr>"

definition marked_db ::
  "id \<Rightarrow> withdrawal_create \<Rightarrow> bank_account \<Rightarrow> wallet \<Rightarrow> string \<Rightarrow> session \<Rightarrow> db"
where
  "marked_db u wd acc w reason s =
     (debited_db u wd acc w s)
       \<lparr>paystack_transactions := paystack_transactions (work s) @ [failed_row u wd acc reason s],
        transactions := transactions (work s) @
          [(withdrawal_entry u wd acc w s)\<lparr>t_status := ENTRY_REVERSED\<rparr>]\<rparr>"

definition reversed_db ::
  "id \<Rightarrow> withdrawal_create \<Rightarrow> bank_account \<Rightarrow> wallet \<Rightarrow> string \<Rightarrow> session \<Rightarrow> db"
where
  "reversed_db u wd acc w reason s =
     post_entry (moved w (withdrawal_entry u wd acc w s)) (reversal_entry u wd acc w reason s)
       (marked_db u wd acc w reason s)"

lemma replace_last:
  assumes "distinct (map key (xs @ [x]))" and "key y = key x"
  shows "replace_by key y (xs @ [x]) = xs @ [y]"
  using assms by (auto simp: replace_idle)

lemma find_last_key:
  assumes "distinct (map key (xs @ [x]))"
  shows "find_first (\<lambda>r. key r = key x) (xs @ [x]) = Some x"
  using assms by (intro find_first_key) simp_all

lemma withdrawal_row_simps [simp]:
  "pt_id (failed_row u wd acc reason s) = pt_id (withdrawal_row u wd acc s)"
  "pt_reference (failed_row u wd acc reason s) = pt_reference (withdrawal_row u wd acc s)"
  "pt_amount (failed_row u wd acc reason s) = pt_amount (withdrawal_row u wd acc s)"
  "pt_reference (withdrawal_row u wd acc s) = withdrawal_reference u s"
  "pt_amount (withdrawal_row u wd acc s) = wd_amount wd"
  by (simp_all add: failed_row_def withdrawal_row_def)

lemma debited_inv:
  assumes ready: "withdrawal_ready cfg u wd acc w s"
  shows "ledger_inv (debited_db u wd acc w s)"
proof -
  let ?s = "s\<lparr>uuid_next := Suc (Suc (uuid_next s)), work := (work s)\<lparr>paystack_transactions :=
        paystack_transactions (work s) @ [withdrawal_row u wd acc s]\<rparr>\<rparr>"
  have "both ledger_inv ?s" using ready by (simp add: both_def withdrawal_ready_def ledger_inv_def)
  from keeps_run [OF apply_entry_keeps withdrawal_debit_run [OF ready] this]
  show ?thesis by (simp add: both_def debited_def wallet_cache_cleared_def)
qed

lemma marked_inv:
  assumes ready: "withdrawal_ready cfg u wd acc w s"
  shows "ledger_inv (marked_db u wd acc w reason s)"
    "transaction_constraints (transactions (marked_db u wd acc w reason s))"
proof -
  let ?d = "debited_db u wd acc w s"
  from debited_inv [OF ready] have inv: "ledger_inv ?d" .
  have ts: "transactions ?d = transactions (work s) @ [withdrawal_entry u wd acc w s]"
    by (simp add: debited_db_def post_entry_def)
  from inv show c: "transaction_constraints (transactions (marked_db u wd acc w reason s))"
    by (simp add: ledger_inv_def ts marked_db_def transaction_constraints_def)
  from inv have inv': "ledger_inv (?d\<lparr>paystack_transactions :=
      paystack_transactions (work s) @ [failed_row u wd acc reason s]\<rparr>)"
    by (simp add: ledger_inv_def)
  have "ledger_inv (?d\<lparr>paystack_transactions :=
      paystack_transactions (work s) @ [failed_row u wd acc reason s],
      transactions := transactions (marked_db u wd acc w reason s)\<rparr>)"
    using c by (intro ledger_inv_same_money [OF inv']) (simp_all add: marked_db_def ts money_part_def)
  then show "ledger_inv (marked_db u wd acc w reason s)" by (simp add: marked_db_def)
qed

lemma reverse_withdrawal_marks:
  assumes ready: "withdrawal_ready cfg u wd acc w s"
    and v: "work v = debited_db u wd acc w s"
  shows "reverse_withdrawal (withdrawal_reference u s) u (wd_amount wd) reason v =
     bnd (apply_entry (reversal_leg u (wd_amount wd) reason) (wdrev_ref (withdrawal_reference u s))
            ENTRY_COMPLETED None) (\<lambda>_. return ())
       (v\<lparr>work := marked_db u wd acc w reason s\<rparr>)"
proof -
  let ?p = "withdrawal_row u wd acc s" and ?e = "withdrawal_entry u wd acc w s"
  let ?ref = "withdrawal_reference u s"
  from ready have pc: "paystack_constraints (paystack_transactions (work s) @ [?p])"
    by (simp add: withdrawal_ready_def)
  have ps: "paystack_transactions (work v) = paystack_transactions (work s) @ [?p]"
    and ts: "transactions (work v) = transactions (work s) @ [?e]"
    by (simp_all add: v debited_db_def post_entry_def)
  from pc have find: "find_first (\<lambda>p. pt_reference p = ?ref) (paystack_transactions (work v)) = Some ?p"
    using find_last_key [of pt_reference "paystack_transactions (work s)" ?p]
    by (simp add: ps paystack_constraints_def)
  from pc have rp: "replace_by pt_id (failed_row u wd acc reason s) (paystack_transactions (work v)) =
      paystack_transactions (work s) @ [failed_row u wd acc reason s]"
    unfolding ps by (intro replace_last) (simp_all add: paystack_constraints_def)
  have pc': "paystack_constraints (paystack_transactions (work s) @ [failed_row u wd acc reason s])"
    using pc by (simp add: paystack_constraints_def)
  from debited_inv [OF ready] have tc: "transaction_constraints (transactions (work v))"
    by (simp add: v ledger_inv_def)
  from ready have finde: "find_first (\<lambda>t. t_reference t = wd_ref ?ref) (transactions (work v)) = Some ?e"
    by (simp add: ts withdrawal_ready_def find_new_reference)
  from tc have re: "replace_by t_id (?e\<lparr>t_status := ENTRY_REVERSED\<rparr>) (transactions (work v)) =
      transactions (work s) @ [?e\<lparr>t_status := ENTRY_REVERSED\<rparr>]"
    unfolding ts by (intro replace_last) (simp_all add: transaction_constraints_def)
  from marked_inv(2) [OF ready, of reason] have tc':
    "transaction_constraints (transactions (work s) @ [?e\<lparr>t_status := ENTRY_REVERSED\<rparr>])"
    by (simp add: marked_db_def)
  from ready ready_wallet(2) [OF ready] have fits: "numeric_12_2 (wd_amount wd)"
    "transaction_fits (?e\<lparr>t_status := ENTRY_REVERSED\<rparr>)"
    by (simp_all add: withdrawal_ready_def transaction_fits_def numeric_12_2_def abs_if)
  have "save_paystack_transaction
      (?p\<lparr>pt_status := TX_FAILED, pt_failure_reason := Some (take 255 reason)\<rparr>) False v =
    (Inr (), v\<lparr>work := (work v)\<lparr>paystack_transactions :=
      paystack_transactions (work s) @ [failed_row u wd acc reason s]\<rparr>\<rparr>)"
    using rp pc' fits
    by (simp add: save_paystack_transaction_def step run_commit_if failed_row_def [symmetric])
  with find have "reverse_withdrawal ?ref u (wd_amount wd) reason v =
      bnd (mark_entry_status (wd_ref ?ref) ENTRY_REVERSED None False) (\<lambda>_.
      bnd (apply_entry (reversal_leg u (wd_amount wd) reason) (wdrev_ref ?ref)
            ENTRY_COMPLETED None) (\<lambda>_. return ()))
      (v\<lparr>work := (work v)\<lparr>paystack_transactions :=
        paystack_transactions (work s) @ [failed_row u wd acc reason s]\<rparr>\<rparr>)"
    by (simp add: reverse_withdrawal_def get_paystack_transaction_def step reversal_leg_def bnd_def
        [of "save_paystack_transaction _ False"])
  also have "\<dots> = bnd (apply_entry (reversal_leg u (wd_amount wd) reason) (wdrev_ref ?ref)
            ENTRY_COMPLETED None) (\<lambda>_. return ())
       (v\<lparr>work := marked_db u wd acc w reason s\<rparr>)"
    using finde re tc' fits
    by (simp add: mark_entry_status_def get_entry_by_reference_def step Let_def marked_db_def v)
  finally show ?thesis .
qed

lemma reverse_withdrawal_run:
  assumes ready: "withdrawal_ready cfg u wd acc w s"
    and v: "work v = debited_db u wd acc w s" "uuid_next v = Suc (Suc (Suc (uuid_next s)))"
      "uuid_supply v = uuid_supply s" "clock v = clock s"
  shows "reverse_withdrawal (withdrawal_reference u s) u (wd_amount wd) reason v =
    (Inr (), wallet_cache_cleared [u]
       (v\<lparr>uuid_next := Suc (uuid_next v), work := reversed_db u wd acc w reason s,
          committed := reversed_db u wd acc w reason s\<rparr>))"
proof -
  let ?m = "marked_db u wd acc w reason s" and ?v = "v\<lparr>work := marked_db u wd acc w reason s\<rparr>"
  let ?w = "moved w (withdrawal_entry u wd acc w s)"
  let ?l = "reversal_leg u (wd_amount wd) reason"
  from ready_wallet [OF ready] have mem: "w \<in> set (wallets (work s))"
    and "w_user_id w = u" and e0: "0 \<le> w_escrow_balance w" by simp_all
  have ws: "wallets ?m = replace_by w_id ?w (wallets (work s))"
    by (simp add: marked_db_def debited_db_def post_entry_def)
  have "wallet_constraints (wallets ?m)"
    using marked_inv(1) [OF ready] by (simp add: ledger_inv_def)
  then have "find_first (\<lambda>x. w_user_id x = w_user_id ?w) (wallets ?m) = Some ?w"
    using mem unfolding ws by (intro find_first_key)
      (auto simp: wallet_constraints_def intro: mem_replace_same)
  then have w: "find_first (\<lambda>x. w_user_id x = u) (wallets ?m) = Some ?w"
    using \<open>w_user_id w = u\<close> by simp
  have wdref: "wd_ref x \<noteq> wdrev_ref y" for x y by (simp add: wd_ref_def wdrev_ref_def)
  have new: "find_first (\<lambda>t. t_reference t = wdrev_ref (withdrawal_reference u s)) (transactions ?m) = None"
    using ready wdref by (simp add: marked_db_def find_first_append withdrawal_ready_def)
  have fits: "transaction_fits (reversal_entry u wd acc w reason s)"
    "wallet_fits (moved ?w (reversal_entry u wd acc w reason s))"
    using ready e0
    by (simp_all add: withdrawal_ready_def reversal_entry_def transaction_fits_def wallet_fits_def
        numeric_12_2_def abs_if)
  have "apply_entry ?l (wdrev_ref (withdrawal_reference u s)) ENTRY_COMPLETED None ?v =
    (Inr \<lparr>lr_entry = reversal_entry u wd acc w reason s,
          lr_wallet = moved ?w (reversal_entry u wd acc w reason s), lr_replayed = False\<rparr>,
     wallet_cache_cleared [l_user_id ?l] (locked_state ?w (reversal_entry u wd acc w reason s) ?v))"
  proof (rule apply_entry_fresh)
    show "entry_error ?w ?l = None"
      using ready e0 by (simp add: entry_error_def withdrawal_ready_def)
    show "uuid_supply ?v (uuid_next ?v) \<notin> set (map t_id (transactions (work ?v)))"
      using ready v by (simp add: withdrawal_ready_def marked_db_def)
  qed (use w new fits v marked_inv(1) [OF ready] in \<open>simp_all add: reversal_entry_def\<close>)
  then show ?thesis
    by (simp add: reverse_withdrawal_marks [OF ready v(1)] locked_state_def reversed_db_def
        bnd_Inr [of "apply_entry ?l (wdrev_ref (withdrawal_reference u s)) ENTRY_COMPLETED None"])
qed

lemma request_withdrawal_error:
  assumes ready: "withdrawal_ready cfg u wd acc w s"
    and reply: "single_reply (net (outbound s) (transfer_request u wd acc s)) = Inl err"
  shows "request_withdrawal cfg net u wd s =
    (if outcome_unknown err then
       (Inr (withdrawal_response_of (withdrawal_row u wd acc s) acc
               (Some (w_available_balance w - wd_amount wd))),
        sent u wd acc s (debited u wd acc w s))
     else if is_paystack_error err then
       (Inl err, wallet_cache_cleared [u]
         ((sent u wd acc s (debited u wd acc w s))
           \<lparr>uuid_next := Suc (Suc (Suc (Suc (uuid_next s)))),
            work := reversed_db u wd acc w (paystack_message err) s,
            committed := reversed_db u wd acc w (paystack_message err) s\<rparr>))
     else (Inl err, sent u wd acc s (debited u wd acc w s)))"
proof -
  let ?d = "debited u wd acc w s" and ?v = "sent u wd acc s (debited u wd acc w s)"
  from reply have "single_reply (net (outbound ?d) (transfer_request u wd acc s)) = Inl err" by simp
  from initiate_transfer_error [of net ?d u wd acc s err, OF this] have i:
    "initiate_transfer net (to_kobo (wd_amount wd)) (b_recipient_code acc)
      (withdrawal_reference u s) ''Wallet withdrawal'' ?d = (Inl err, ?v)"
    by (simp add: sent_def)
  have v: "work ?v = debited_db u wd acc w s" "uuid_next ?v = Suc (Suc (Suc (uuid_next s)))"
    "uuid_supply ?v = uuid_supply s" "clock ?v = clock s"
    by (simp_all add: sent_def debited_def wallet_cache_cleared_def)
  note rev = reverse_withdrawal_run [OF ready v]
  show ?thesis
    unfolding request_withdrawal_ready [OF ready] send_withdrawal_def
    by (simp add: bnd_def [of "try_except _ _"] run_try i step v(2)
        bnd_Inl [of "initiate_transfer net (to_kobo (wd_amount wd)) (b_recipient_code acc)
          (withdrawal_reference u s) ''Wallet withdrawal''", OF i]
        bnd_Inr [of "reverse_withdrawal (withdrawal_reference u s) u (wd_amount wd)
          (paystack_message err)", OF rev])
qed

lemma wallet_routes_append_only [stays_intros]:
  "stays append_only (get_balance u)" "stays append_only (get_withdrawal net u ref)"
proof -
  show "stays append_only (get_balance u)"
    unfolding get_balance_def by (intro stays_intros)
  show "stays append_only (get_withdrawal net u ref)"
    unfolding get_withdrawal_def by (intro stays_intros)
qed

section \<open>Properties\<close>

text \<open>No operation of the wallet, whatever the payment provider answers and wherever it fails,
  leaves the ledger unsound, and none rewrites its past: the committed entries stay in order with
  all their columns but status and processing time.\<close>

theorem wallet_operations_keep_ledger:
  "keeps (both ledger_inv) (request_withdrawal cfg net u wd) \<and>
   keeps (both ledger_inv) (get_withdrawal net u ref) \<and>
   keeps (both ledger_inv) (request_wallet_fund cfg net u em wc) \<and>
   keeps (both ledger_inv) (release_escrow ag du bu am de) \<and>
   keeps (both ledger_inv) (lock_escrow u am ag pa cp de) \<and>
   keeps (both ledger_inv) (refund_escrow ag du am de) \<and>
   stays append_only (request_withdrawal cfg net u wd) \<and>
   stays append_only (get_withdrawal net u ref) \<and>
   stays append_only (request_wallet_fund cfg net u em wc) \<and>
   stays append_only (release_escrow ag du bu am de) \<and>
   stays append_only (lock_escrow u am ag pa cp de) \<and>
   stays append_only (refund_escrow ag du am de)"
  by (intro conjI keeps_intros stays_intros)

text \<open>C21: Debit first, then pay: if a withdrawal request has sent anything to the provider, transfers
  are enabled, the amount is inside the configured limits, and the ledger holds a committed debit
  of exactly that amount on the user, under the reference the transfer was sent with, that left the
  balance non-negative.\<close>

theorem withdrawal_debits_before_paying:
  assumes "ledger_inv (work s)" and "work s = committed s"
    and "find_first (\<lambda>t. t_reference t = wd_ref (withdrawal_reference u s)) (transactions (committed s)) = None"
    and "request_withdrawal cfg net u wd s = (r, t)" and "outbound t \<noteq> outbound s"
  shows "paystack_transfers_enabled cfg \<and>
     withdrawal_min_amount cfg \<le> wd_amount wd \<and> wd_amount wd \<le> withdrawal_max_amount cfg \<and>
     (\<exists>e \<in> set (transactions (committed t)).
        t_reference e = wd_ref (withdrawal_reference u s) \<and> t_user_id e = u \<and>
        t_type e = WITHDRAWAL \<and> t_available_delta e = - wd_amount wd \<and> 0 < wd_amount wd \<and>
        0 \<le> t_balance_after e)"
proof -
  from debited_before_sent [OF assms] obtain w e acc pt x y e' where
    g: "paystack_transfers_enabled cfg" "withdrawal_min_amount cfg \<le> wd_amount wd"
    "wd_amount wd \<le> withdrawal_max_amount cfg" and
    e: "e = ledger_entry w (withdrawal_leg u wd acc pt) (wd_ref (withdrawal_reference u s))
           ENTRY_PENDING None x y" "entry_error w (withdrawal_leg u wd acc pt) = None" and
    e': "e' \<in> set (transactions (committed t))" "core e' = core e" by blast
  from core_eqD [OF e'(2)] entry_error_NoneD(1,3) [OF e(2)] g e' show ?thesis
    unfolding e by (auto intro!: bexI [of _ e'])
qed

definition alice_account :: bank_account where
  "alice_account =
     \<lparr>b_id = ''b1'', b_user_id = ''ua'', b_account_number = ''0123456789'', b_bank_code = ''058'',
      b_bank_name = ''GTB'', b_account_name = ''Alice'', b_recipient_code = ''RCP_1'',
      b_currency = ''NGN'', b_is_default = True, b_is_active = True, b_created_at = 1,
      b_updated_at = 1\<rparr>"

definition payout_session :: session where
  "payout_session = sample_session (money_db\<lparr>bank_accounts := [alice_account]\<rparr>)"

definition payout_30 :: withdrawal_create where
  "payout_30 = \<lparr>wd_amount = 30, wd_bank_account_id = None\<rparr>"

lemma payout_ready:
  "withdrawal_ready sample_settings ''ua'' payout_30 alice_account wallet_alice payout_session"
proof -
  have "ledger_inv (work payout_session)"
    using money_ledger_inv by (simp add: payout_session_def sample_defs ledger_inv_def)
  then show ?thesis
    by (simp add: withdrawal_ready_def payout_session_def payout_30_def alice_account_def sample_defs
        money_defs sample_settings_def leg_def quantize2_def round_half_even_def Let_def
        resolve_bank_account_def get_default_for_user_def step paystack_constraints_def
        wd_ref_def wdrev_ref_def)
qed

definition broken_net :: transport where
  "broken_net = (\<lambda>_ _. Response 503 None)"

definition silent_net :: transport where
  "silent_net = (\<lambda>_ _. TimedOut)"

theorem withdrawal_debits_before_paying_witness:
  "\<exists>t. \<exists>e \<in> set (transactions (committed t)). t_type e = WITHDRAWAL \<and> t_available_delta e = - 30 \<and>
     snd (request_withdrawal sample_settings silent_net ''ua'' payout_30 payout_session) = t"
proof -
  let ?s = payout_session
  obtain r t where rt: "request_withdrawal sample_settings silent_net ''ua'' payout_30 ?s = (r, t)"
    by fastforce
  have "single_reply (silent_net (outbound ?s) (transfer_request ''ua'' payout_30 alice_account ?s)) =
      Inl PaystackTimeoutError" by (simp add: silent_net_def)
  from request_withdrawal_error [where net = silent_net, OF payout_ready this] rt
  have out: "outbound t \<noteq> outbound ?s" by (auto simp: sent_def)
  from payout_ready have p: "ledger_inv (work ?s)" "work ?s = committed ?s"
    "find_first (\<lambda>t. t_reference t = wd_ref (withdrawal_reference ''ua'' ?s)) (transactions (committed ?s)) = None"
    by (simp_all add: withdrawal_ready_def)
  from withdrawal_debits_before_paying [OF p rt out] rt show ?thesis
    by (auto simp: payout_30_def intro!: exI [of _ t])
qed

text \<open>C22: When the outcome of the transfer is unknown (the call timed out, or the provider says the
  reference was used) the withdrawal is answered as pending: the debit stands, entry and payment
  record stay PENDING for the webhook to settle, and nothing is reversed.\<close>

theorem unknown_outcome_stays_pending:
  assumes "withdrawal_ready cfg u wd acc w s"
    and "single_reply (net (outbound s) (transfer_request u wd acc s)) = Inl err"
    and "outcome_unknown err"
  shows "\<exists>t resp. request_withdrawal cfg net u wd s = (Inr resp, t) \<and> wr_status resp = TX_PENDING \<and>
     wr_available_balance resp = Some (w_available_balance w - wd_amount wd) \<and>
     outbound t = outbound s @ [transfer_request u wd acc s] \<and>
     transactions (committed t) = transactions (committed s) @ [withdrawal_entry u wd acc w s] \<and>
     t_status (withdrawal_entry u wd acc w s) = ENTRY_PENDING \<and>
     paystack_transactions (committed t) =
       paystack_transactions (committed s) @ [withdrawal_row u wd acc s] \<and>
     pt_status (withdrawal_row u wd acc s) = TX_PENDING"
  using request_withdrawal_error [where net = net, OF assms(1,2)] assms
  by (simp add: withdrawal_response_of_def withdrawal_row_def sent_def debited_def debited_db_def
      post_entry_def wallet_cache_cleared_def withdrawal_ready_def)

theorem unknown_outcome_stays_pending_witness:
  "\<exists>t resp. request_withdrawal sample_settings silent_net ''ua'' payout_30 payout_session = (Inr resp, t) \<and>
     wr_status resp = TX_PENDING \<and> wr_available_balance resp = Some 70"
proof -
  have r: "single_reply (silent_net (outbound payout_session)
      (transfer_request ''ua'' payout_30 alice_account payout_session)) = Inl PaystackTimeoutError"
    by (simp add: silent_net_def)
  have "w_available_balance wallet_alice - wd_amount payout_30 = 70"
    by (simp add: lock_alice_facts payout_30_def)
  with unknown_outcome_stays_pending [where net = silent_net, OF payout_ready r] show ?thesis by auto
qed

text \<open>C23: When the provider's answer is taken as a refusal, the money comes back in full: the
  request fails with the provider's error, the user's balances are what they were, the debit is
  marked REVERSED next to a credit of the same amount, and the payment record is FAILED.  Every
  answer that is neither a timeout nor a duplicate reference is taken so, an HTTP 5xx and a
  connection broken after the request was written included, although the transfer has been
  sent.\<close>

theorem refused_transfer_is_reversed:
  assumes "withdrawal_ready cfg u wd acc w s"
    and "single_reply (net (outbound s) (transfer_request u wd acc s)) = Inl err"
    and "is_paystack_error err" and "\<not> outcome_unknown err"
  shows "\<exists>t. request_withdrawal cfg net u wd s = (Inl err, t) \<and>
     outbound t = outbound s @ [transfer_request u wd acc s] \<and>
     (\<exists>w'. w' \<in> set (wallets (committed t)) \<and> w_id w' = w_id w \<and> w_user_id w' = u \<and>
        w_available_balance w' = w_available_balance w \<and> w_escrow_balance w' = w_escrow_balance w) \<and>
     transactions (committed t) = transactions (committed s) @
       [(withdrawal_entry u wd acc w s)\<lparr>t_status := ENTRY_REVERSED\<rparr>,
        reversal_entry u wd acc w (paystack_message err) s] \<and>
     t_available_delta (reversal_entry u wd acc w (paystack_message err) s) = wd_amount wd \<and>
     pt_status (failed_row u wd acc (paystack_message err) s) = TX_FAILED \<and>
     failed_row u wd acc (paystack_message err) s \<in> set (paystack_transactions (committed t))"
proof -
  let ?w = "moved (moved w (withdrawal_entry u wd acc w s))
    (reversal_entry u wd acc w (paystack_message err) s)"
  let ?d = "reversed_db u wd acc w (paystack_message err) s"
  from ready_wallet [OF assms(1)] have mem: "w \<in> set (wallets (work s))" and u: "w_user_id w = u"
    by simp_all
  have "?w \<in> set (wallets ?d)"
    unfolding reversed_db_def marked_db_def debited_db_def post_entry_def
    using mem by (auto intro!: mem_replace_same)
  moreover have "w_available_balance ?w = w_available_balance w"
    "w_escrow_balance ?w = w_escrow_balance w" "w_id ?w = w_id w"
    "w_user_id ?w = u"
    using u by (simp_all add: reversal_entry_def)
  ultimately have wallet: "\<exists>w'. w' \<in> set (wallets ?d) \<and> w_id w' = w_id w \<and> w_user_id w' = u \<and>
      w_available_balance w' = w_available_balance w \<and> w_escrow_balance w' = w_escrow_balance w"
    by blast
  have rest: "transactions ?d = transactions (work s) @
       [(withdrawal_entry u wd acc w s)\<lparr>t_status := ENTRY_REVERSED\<rparr>,
        reversal_entry u wd acc w (paystack_message err) s]"
    "failed_row u wd acc (paystack_message err) s \<in> set (paystack_transactions ?d)"
    "t_available_delta (reversal_entry u wd acc w (paystack_message err) s) = wd_amount wd"
    "pt_status (failed_row u wd acc (paystack_message err) s) = TX_FAILED"
    by (simp_all add: reversed_db_def marked_db_def debited_db_def post_entry_def
        reversal_entry_def failed_row_def)
  from assms(1) have "committed s = work s" by (simp add: withdrawal_ready_def)
  with wallet rest request_withdrawal_error [where net = net, OF assms(1,2)] assms(3,4) show ?thesis
    by (simp add: sent_def wallet_cache_cleared_def)
qed

theorem refused_transfer_is_reversed_witness:
  "\<exists>t. request_withdrawal sample_settings broken_net ''ua'' payout_30 payout_session =
         (Inl (PaystackError ''Payment provider returned 503''), t) \<and>
     (\<exists>w \<in> set (wallets (committed t)). w_user_id w = ''ua'' \<and> w_available_balance w = 100)"
proof -
  have n: "nat_str 503 = ''503''" by code_simp
  have r: "single_reply (broken_net (outbound payout_session)
      (transfer_request ''ua'' payout_30 alice_account payout_session)) =
      Inl (PaystackError ''Payment provider returned 503'')"
    by (simp add: broken_net_def n)
  from refused_transfer_is_reversed [where net = broken_net, OF payout_ready r] show ?thesis
    by (auto simp: is_paystack_error_def lock_alice_facts)
qed

end
