(* ===== verification/Notifications.thy ===== *)
theory Notifications
  imports LedgerFrames
begin

text \<open>
  \<^verbatim>\<open>src/app/repository/notification_repository.py\<close>, \<^verbatim>\<open>src/app/service/notification_service.py\<close> and
  the routes of \<^verbatim>\<open>src/app/routers/notification.py\<close>.  Every query and update is scoped by the user.
\<close>

section \<open>Repository and service\<close>

definition create_notification ::
  "id \<Rightarrow> notification_type \<Rightarrow> metadata option \<Rightarrow> notification handler"
where
  "create_notification user_id ty meta =
     bnd now (\<lambda>t.
     bnd uuid4 (\<lambda>u.
     let n = \<lparr>n_id = u, n_user_id = user_id, n_type = ty, n_metadata = meta, n_is_read = False,
              n_created_at = t\<rparr> in
     bnd (insert_row notification_t n) (\<lambda>_.
     bnd commit (\<lambda>_.
     refresh notification_t n))))"

definition get_by_user :: "id \<Rightarrow> nat \<Rightarrow> nat \<Rightarrow> notification list handler" where
  "get_by_user user_id skip limit =
     bnd (select notification_t (\<lambda>n. n_user_id n = user_id)) (\<lambda>ns.
     return (take limit (drop skip (sort_key (\<lambda>n. - n_created_at n) ns))))"

definition get_total_count :: "id \<Rightarrow> nat handler" where
  "get_total_count user_id =
     bnd (select notification_t (\<lambda>n. n_user_id n = user_id)) (\<lambda>ns. return (length ns))"

definition get_unread_count :: "id \<Rightarrow> nat handler" where
  "get_unread_count user_id =
     bnd (select notification_t (\<lambda>n. n_user_id n = user_id \<and> \<not> n_is_read n)) (\<lambda>ns.
     return (length ns))"

definition mark_as_read :: "id list \<Rightarrow> id \<Rightarrow> nat handler" where
  "mark_as_read notification_ids user_id =
     (if notification_ids = [] then return 0
      else
        let p = (\<lambda>n. n_user_id n = user_id \<and> n_id n \<in> set notification_ids \<and> \<not> n_is_read n) in
        bnd (select notification_t p) (\<lambda>ns.
        bnd (update_rows notification_t p (\<lambda>n. n\<lparr>n_is_read := True\<rparr>)) (\<lambda>_.
        bnd commit (\<lambda>_. return (length ns)))))"

definition mark_all_as_read :: "id \<Rightarrow> nat handler" where
  "mark_all_as_read user_id =
     (let p = (\<lambda>n. n_user_id n = user_id \<and> \<not> n_is_read n) in
      bnd (select notification_t p) (\<lambda>ns.
      bnd (update_rows notification_t p (\<lambda>n. n\<lparr>n_is_read := True\<rparr>)) (\<lambda>_.
      bnd commit (\<lambda>_. return (length ns)))))"

record notification_list =
  nl_notifications :: "notification list"
  nl_unread_count :: nat
  nl_total :: nat

definition get_user_notifications :: "id \<Rightarrow> nat \<Rightarrow> nat \<Rightarrow> notification_list handler" where
  "get_user_notifications user_id skip limit =
     bnd (get_by_user user_id skip limit) (\<lambda>ns.
     bnd (get_unread_count user_id) (\<lambda>unread.
     bnd (get_total_count user_id) (\<lambda>total.
     return \<lparr>nl_notifications = ns, nl_unread_count = unread, nl_total = total\<rparr>)))"

text \<open>\<open>get_notifications\<close>: \<^verbatim>\<open>Query(0, ge=0)\<close>, \<^verbatim>\<open>Query(20, ge=1, le=100)\<close>.\<close>

definition get_notifications :: "user \<Rightarrow> int \<Rightarrow> int \<Rightarrow> notification_list handler" where
  "get_notifications current_user skip limit =
     (if skip < 0 \<or> limit < 1 \<or> 100 < limit then raise (HTTPException 422)
      else get_user_notifications (u_id current_user) (nat skip) (nat limit))"

lemma notification_keeps [keeps_intros]:
  assumes "stable I notification_t"
  shows "keeps (both I) (create_notification u ty me)" "keeps (both I) (mark_as_read ids u)"
    "keeps (both I) (mark_all_as_read u)" "keeps (both I) (get_notifications cu sk li)"
  using assms
  unfolding create_notification_def mark_as_read_def mark_all_as_read_def get_notifications_def
    get_user_notifications_def
    get_by_user_def get_unread_count_def get_total_count_def Let_def
  by (auto intro!: keeps_intros)

lemma notification_frame [stays_intros]:
  "apart T notification_t \<Longrightarrow> stays (table_frame T) (create_notification u ty me)"
  unfolding create_notification_def Let_def by (intro stays_intros)

lemma notification_append_only [stays_intros]:
  "stays append_only (create_notification u ty me)"
proof -
  have "apart transaction_t notification_t" by (simp add: apart_def)
  then show ?thesis unfolding create_notification_def Let_def by (intro stays_intros)
qed

section \<open>Properties\<close>

lemma unread_after_mark:
  "filter (\<lambda>n. n_user_id n = u \<and> \<not> n_is_read n)
     (map (\<lambda>n. if n_user_id n = u \<and> \<not> n_is_read n then n\<lparr>n_is_read := True\<rparr> else n) ns) = []"
  by (induction ns) auto

lemma ids_after_mark:
  "map n_id (map (\<lambda>n. if P n then n\<lparr>n_is_read := True\<rparr> else n) ns) = map n_id ns"
  by (induction ns) auto

text \<open>Marking all notifications read reports how many were unread, leaves none of the user's
  unread, and does not touch anybody else's.\<close>

theorem mark_all_as_read_clears:
  assumes "notification_constraints (notifications (work s))"
  shows "\<exists>t. mark_all_as_read u s =
      (Inr (length (filter (\<lambda>n. n_user_id n = u \<and> \<not> n_is_read n) (notifications (work s)))), t) \<and>
    get_unread_count u t = (Inr 0, t) \<and> committed t = work t \<and>
    filter (\<lambda>n. n_user_id n \<noteq> u) (notifications (work t)) =
      filter (\<lambda>n. n_user_id n \<noteq> u) (notifications (work s))"
proof -
  let ?f = "\<lambda>n. if n_user_id n = u \<and> \<not> n_is_read n then n\<lparr>n_is_read := True\<rparr> else n"
  have others: "filter (\<lambda>n. n_user_id n \<noteq> u) (map ?f ns) = filter (\<lambda>n. n_user_id n \<noteq> u) ns" for ns
    by (induction ns) auto
  have "notification_constraints (map ?f (notifications (work s)))"
    using assms unfolding notification_constraints_def ids_after_mark .
  with others show ?thesis
    by (simp add: mark_all_as_read_def step Let_def get_unread_count_def unread_after_mark
        del: filter_map map_map)
qed

definition notes_session :: session where
  "notes_session = sample_session (empty_db\<lparr>notifications :=
     [\<lparr>n_id = ''n1'', n_user_id = ''ua'', n_type = GENERAL, n_metadata = None, n_is_read = False,
       n_created_at = 1\<rparr>,
      \<lparr>n_id = ''n2'', n_user_id = ''ub'', n_type = GENERAL, n_metadata = None, n_is_read = False,
       n_created_at = 2\<rparr>]\<rparr>)"

theorem mark_all_as_read_clears_witness:
  "\<exists>t. mark_all_as_read ''ua'' notes_session = (Inr 1, t) \<and> get_unread_count ''ua'' t = (Inr 0, t)"
proof -
  have "notification_constraints (notifications (work notes_session))"
    by (simp add: notes_session_def sample_defs notification_constraints_def)
  from mark_all_as_read_clears [OF this, of "''ua''"] show ?thesis
    by (auto simp: notes_session_def sample_defs)
qed

end
