(* ===== verification/EscrowRoutes.thy ===== *)
theory EscrowRoutes
  imports ConditionService WalletService Notifications
begin

text \<open>
  \<^verbatim>\<open>src/app/routers/agreement.py\<close>: the routes of an agreement's life, where the agreement service
  (who may, and the status) meets the wallet service (the money) in one session, and the two
  money movements shared with the condition and dispute routes.

  The text of notifications and the body of web-socket frames are abridged; amounts in metadata
  are kept as numbers.  The order in which a Python \<^verbatim>\<open>set\<close> of recipients is visited is the
  order of first occurrence here.
\<close>

section \<open>JSON\<close>

definition user_json :: "user_response \<Rightarrow> json" where
  "user_json u =
     JObj [(''id'', JStr (ur_id u)), (''name'', JStr (ur_name u)), (''email'', JStr (ur_email u)),
           (''phone_number'', json_opt (ur_phone_number u)),
           (''profile_picture_url'', json_opt (ur_profile_picture_url u)),
           (''is_admin'', JBool (ur_is_admin u))]"

fun role_value :: "participant_role \<Rightarrow> string" where
  "role_value DEPOSITOR = ''depositor''"
| "role_value BENEFICIARY = ''beneficiary''"

fun invitation_status_value :: "invitation_status \<Rightarrow> string" where
  "invitation_status_value INVITED = ''invited''"
| "invitation_status_value ACCEPTED = ''accepted''"
| "invitation_status_value REJECTED = ''rejected''"

fun invitation_row_value :: "invitation_row_status \<Rightarrow> string" where
  "invitation_row_value INV_PENDING = ''pending''"
| "invitation_row_value INV_ACCEPTED = ''accepted''"
| "invitation_row_value INV_EXPIRED = ''expired''"

definition participant_json :: "participant_response \<Rightarrow> json" where
  "participant_json p =
     JObj [(''id'', JStr (pr_id p)), (''agreement_id'', JStr (pr_agreement_id p)),
           (''role'', JStr (role_value (pr_role p))),
           (''status'', JStr (invitation_status_value (pr_status p))),
           (''user'', user_json (pr_user p))]"

definition agreement_fields :: "agreement_response \<Rightarrow> (string \<times> json) list" where
  "agreement_fields a =
     [(''id'', JStr (ar_id a)), (''title'', JStr (ar_title a)),
      (''description'', JStr (ar_description a)), (''amount'', JDec (ar_amount a)),
      (''status'', JStr (agreement_status_value (ar_status a))),
      (''depositor'', case ar_depositor a of None \<Rightarrow> JNull | Some p \<Rightarrow> participant_json p),
      (''beneficiary'', case ar_beneficiary a of None \<Rightarrow> JNull | Some p \<Rightarrow> participant_json p),
      (''created_at'', JInt (ar_created_at a)),
      (''condition_count'', JInt (int (ar_condition_count a))),
      (''conditions_met_count'', JInt (int (ar_conditions_met_count a))),
      (''current_user_accepted'', JBool (ar_current_user_accepted a)),
      (''is_funded'', JBool (ar_is_funded a))]"

definition agreement_json :: "agreement_response \<Rightarrow> json" where
  "agreement_json a = JObj (agreement_fields a)"

definition invitation_metadata :: "invitation_response \<Rightarrow> metadata" where
  "invitation_metadata r =
     (let i = ir_invitation r in
      [(''id'', JStr (i_id i)), (''email'', JStr (i_email i)), (''token'', JStr (i_token i)),
       (''agreement'', agreement_json (ir_agreement r)), (''role'', JStr (role_value (i_role i))),
       (''invited_by_user'', user_json (ir_invited_by r)),
       (''status'', json_opt (map_option invitation_row_value (i_status i))),
       (''expires_at'', JInt (i_expires_at i))])"

definition escrow_movement_json :: "id \<Rightarrow> money \<Rightarrow> string \<Rightarrow> money \<Rightarrow> money \<Rightarrow> bool \<Rightarrow> json" where
  "escrow_movement_json agreement_id amount reference available escrow replayed =
     JObj [(''agreement_id'', JStr agreement_id), (''amount'', JDec amount),
           (''reference'', JStr reference), (''available_balance'', JDec available),
           (''escrow_balance'', JDec escrow), (''replayed'', JBool replayed)]"

section \<open>Telling the parties\<close>

definition notify :: "id \<Rightarrow> notification_type \<Rightarrow> metadata \<Rightarrow> unit handler" where
  "notify user_id ty meta =
     best_effort (bnd (create_notification user_id ty (Some meta)) (\<lambda>_. return ()))"

definition send_agreement_ws_payload :: "id \<Rightarrow> agreement_response \<Rightarrow> string \<Rightarrow> unit handler" where
  "send_agreement_ws_payload user_id a event = push_ws user_id (WsAgreement event (ar_id a) (ar_status a))"

definition party_ids :: "agreement_response \<Rightarrow> id list" where
  "party_ids a =
     (case ar_depositor a of None \<Rightarrow> [] | Some p \<Rightarrow> [ur_id (pr_user p)]) @
     (case ar_beneficiary a of None \<Rightarrow> [] | Some p \<Rightarrow> [ur_id (pr_user p)])"

definition broadcast_agreement_update :: "id \<Rightarrow> string \<Rightarrow> unit handler" where
  "broadcast_agreement_update agreement_id event =
     best_effort
       (bnd (get_agreement agreement_id None) (\<lambda>a.
        for_each (\<lambda>u. send_agreement_ws_payload u a event) (remdups (party_ids a))))"

definition queue_email :: "string \<Rightarrow> string \<Rightarrow> unit handler" where
  "queue_email address link = modify (\<lambda>s. s\<lparr>emails := emails s @ [(address, link)]\<rparr>)"

definition quoted :: "string \<Rightarrow> string \<Rightarrow> string" where
  "quoted label title = label @ [CHR 0x27] @ title @ [CHR 0x27]"

definition agreement_meta :: "id \<Rightarrow> metadata" where
  "agreement_meta agreement_id = [(''agreement_id'', JStr agreement_id)]"

definition amount_meta :: "id \<Rightarrow> money \<Rightarrow> metadata" where
  "amount_meta agreement_id amount =
     [(''agreement_id'', JStr agreement_id), (''amount'', JDec amount)]"

section \<open>Moving the escrow\<close>

definition perform_escrow_refund :: "id \<Rightarrow> (escrow_context \<times> ledger_result) handler" where
  "perform_escrow_refund agreement_id =
     bnd (prepare_refund agreement_id) (\<lambda>context.
     bnd (refund_escrow agreement_id (ec_depositor_user_id context) (ec_amount context)
            (Some (quoted ''Escrow refund for '' (ec_title context)))) (\<lambda>result.
     bnd (invalidate_agreement_cache agreement_id) (\<lambda>_.
     bnd (notify (ec_depositor_user_id context) ESCROW_REFUNDED
            (amount_meta agreement_id (ec_amount context))) (\<lambda>_.
     bnd (notify (ec_beneficiary_user_id context) ESCROW_REFUNDED
            (amount_meta agreement_id (ec_amount context))) (\<lambda>_.
     return (context, result))))))"

definition perform_escrow_release :: "id \<Rightarrow> transfer_result handler" where
  "perform_escrow_release agreement_id =
     bnd (prepare_release agreement_id) (\<lambda>context.
     bnd (release_escrow agreement_id (ec_depositor_user_id context)
            (ec_beneficiary_user_id context) (ec_amount context)
            (Some (quoted ''Escrow release for '' (ec_title context)))) (\<lambda>result.
     bnd (invalidate_agreement_cache agreement_id) (\<lambda>_.
     bnd (notify (ec_beneficiary_user_id context) ESCROW_RELEASED
            (amount_meta agreement_id (ec_amount context))) (\<lambda>_.
     bnd (notify (ec_depositor_user_id context) ESCROW_RELEASED
            (amount_meta agreement_id (ec_amount context))) (\<lambda>_.
     return result)))))"

section \<open>Routes that move money\<close>

definition agreement_body :: "id \<Rightarrow> json" where
  "agreement_body agreement_id = JObj (agreement_meta agreement_id)"

definition fund_operation :: "user \<Rightarrow> id \<Rightarrow> (string option \<times> http_response) handler" where
  "fund_operation current_user agreement_id =
     bnd (prepare_escrow_funding agreement_id (u_id current_user)) (\<lambda>context.
     bnd (is_agreement_funded agreement_id) (\<lambda>funded.
     if funded then raise BadRequestError
     else
       bnd (lock_escrow (u_id current_user) (ec_amount context) agreement_id
              (Some (ec_depositor_participant_id context)) (Some (ec_beneficiary_user_id context))
              (Some (quoted ''Escrow funding for '' (ec_title context)))) (\<lambda>result.
       bnd (notify (ec_beneficiary_user_id context) ESCROW_FUNDED
              (amount_meta agreement_id (ec_amount context))) (\<lambda>_.
       bnd (get_agreement agreement_id None) (\<lambda>payload.
       bnd (send_agreement_ws_payload (u_id current_user) payload ''updated'') (\<lambda>_.
       bnd (send_agreement_ws_payload (ec_beneficiary_user_id context) payload ''updated'') (\<lambda>_.
       return (Some (t_reference (lr_entry result)),
               success_response 200
                 (escrow_movement_json agreement_id (ec_amount context)
                    (t_reference (lr_entry result)) (w_available_balance (lr_wallet result))
                    (w_escrow_balance (lr_wallet result)) (lr_replayed result))))))))))"

definition fund_agreement ::
  "settings \<Rightarrow> bool \<Rightarrow> (json \<Rightarrow> string) \<Rightarrow> user \<Rightarrow> string option \<Rightarrow> id \<Rightarrow> http_response handler"
where
  "fund_agreement cfg sweep digest current_user key agreement_id =
     required_key key
       (with_idempotency cfg sweep digest (u_id current_user) key ''POST /agreements/{id}/fund''
          (agreement_body agreement_id) (fund_operation current_user agreement_id))"

definition release_operation :: "user \<Rightarrow> id \<Rightarrow> (string option \<times> http_response) handler" where
  "release_operation current_user agreement_id =
     bnd (get_escrow_context agreement_id) (\<lambda>context.
     if u_id current_user \<notin> {ec_depositor_user_id context, ec_beneficiary_user_id context}
     then raise BadRequestError
     else
       bnd (is_agreement_funded agreement_id) (\<lambda>funded.
       if \<not> funded then raise BadRequestError
       else
         bnd (all_conditions_approved agreement_id) (\<lambda>approved.
         if \<not> approved then raise BadRequestError
         else
           bnd (perform_escrow_release agreement_id) (\<lambda>result.
           bnd (broadcast_agreement_update agreement_id ''released'') (\<lambda>_.
           return (Some (t_reference (tr_debit result)),
                   success_response 200
                     (escrow_movement_json agreement_id (ec_amount context)
                        (t_reference (tr_debit result)) (t_balance_after (tr_debit result))
                        (t_escrow_after (tr_debit result)) (tr_replayed result))))))))"

definition release_agreement_escrow ::
  "settings \<Rightarrow> bool \<Rightarrow> (json \<Rightarrow> string) \<Rightarrow> user \<Rightarrow> string option \<Rightarrow> id \<Rightarrow> http_response handler"
where
  "release_agreement_escrow cfg sweep digest current_user key agreement_id =
     required_key key
       (with_idempotency cfg sweep digest (u_id current_user) key
          ''POST /agreements/{id}/release'' (agreement_body agreement_id)
          (release_operation current_user agreement_id))"

definition refund_operation :: "id \<Rightarrow> (string option \<times> http_response) handler" where
  "refund_operation agreement_id =
     bnd (is_agreement_funded agreement_id) (\<lambda>funded.
     if \<not> funded then raise BadRequestError
     else
       bnd (is_agreement_released agreement_id) (\<lambda>released.
       if released then raise BadRequestError
       else
         bnd (perform_escrow_refund agreement_id) (\<lambda>(context, result).
         bnd (broadcast_agreement_update agreement_id ''refunded'') (\<lambda>_.
         return (Some (t_reference (lr_entry result)),
                 success_response 200
                   (escrow_movement_json agreement_id (ec_amount context)
                      (t_reference (lr_entry result)) (w_available_balance (lr_wallet result))
                      (w_escrow_balance (lr_wallet result)) (lr_replayed result)))))))"

definition refund_agreement_escrow ::
  "settings \<Rightarrow> bool \<Rightarrow> (json \<Rightarrow> string) \<Rightarrow> user \<Rightarrow> string option \<Rightarrow> id \<Rightarrow> http_response handler"
where
  "refund_agreement_escrow cfg sweep digest current_user key agreement_id =
     bnd (get_admin_user current_user) (\<lambda>current_user.
     required_key key
       (with_idempotency cfg sweep digest (u_id current_user) key ''POST /agreements/{id}/refund''
          (agreement_body agreement_id) (refund_operation agreement_id)))"

section \<open>Routes that form and end an agreement\<close>

definition create_agreement_route ::
  "settings \<Rightarrow> string \<Rightarrow> (string \<Rightarrow> string option) \<Rightarrow> user \<Rightarrow> agreement_create \<Rightarrow>
   (agreement_response \<times> condition_response list) handler"
where
  "create_agreement_route cfg web_url email_addr current_user body =
     (case validate_agreement_create cfg email_addr body of
        None \<Rightarrow> raise (HTTPException 422)
      | Some d \<Rightarrow>
          bnd (create_agreement web_url (u_id current_user) (u_email current_user) d) (\<lambda>(a, cs, link).
          bnd (get_by_email (ac_email d)) (\<lambda>invited.
          bnd (get_invitation_by_agreement_id (ac_email d) (ar_id a)) (\<lambda>iv.
          bnd (case invited of
                 None \<Rightarrow> return ()
               | Some u \<Rightarrow>
                   if u_id u = u_id current_user then return ()
                   else
                     bnd (best_effort
                            (bnd (option_m invitation_response_of iv) (\<lambda>r.
                             bnd (create_notification (u_id u) INVITATION_RECEIVED
                                    (Some (case r of None \<Rightarrow> [] | Some r \<Rightarrow> invitation_metadata r))) (\<lambda>_.
                             return ())))) (\<lambda>_.
                     send_agreement_ws_payload (u_id u) a ''created'')) (\<lambda>_.
          bnd (send_agreement_ws_payload (u_id current_user) a ''created'') (\<lambda>_.
          bnd (queue_email (ac_email d) link) (\<lambda>_.
          return (a, cs))))))))"

text \<open>Both parties of the agreement when it has both, as \<^verbatim>\<open>participant_ids\<close> of the routes.\<close>

definition both_party_ids :: "agreement_response \<Rightarrow> id list" where
  "both_party_ids a =
     (if ar_depositor a \<noteq> None \<and> ar_beneficiary a \<noteq> None then party_ids a else [])"

definition accept_operation :: "user \<Rightarrow> id \<Rightarrow> (string option \<times> http_response) handler" where
  "accept_operation current_user agreement_id =
     bnd (accept_agreement agreement_id (u_id current_user) (u_email current_user)) (\<lambda>a.
     let ids = both_party_ids a in
     bnd (for_each (\<lambda>u. notify u AGREEMENT_ACCEPTED (agreement_meta (ar_id a)))
            (filter (\<lambda>u. u \<noteq> u_id current_user) ids)) (\<lambda>_.
     bnd (when_m (ar_status a = ACTIVE)
            (for_each (\<lambda>u. notify u AGREEMENT_COMPLETED (agreement_meta (ar_id a))) ids)) (\<lambda>_.
     bnd (for_each (\<lambda>u. send_agreement_ws_payload u a ''updated'')
            (remdups (ids @ [u_id current_user]))) (\<lambda>_.
     return (None, success_response 200 (agreement_json a))))))"

definition accept_agreement_route ::
  "settings \<Rightarrow> bool \<Rightarrow> (json \<Rightarrow> string) \<Rightarrow> user \<Rightarrow> string option \<Rightarrow> id \<Rightarrow> http_response handler"
where
  "accept_agreement_route cfg sweep digest current_user key agreement_id =
     with_idempotency cfg sweep digest (u_id current_user) key ''POST /agreements/{id}/accept''
       (agreement_body agreement_id) (accept_operation current_user agreement_id)"

text \<open>The guard shared by \<^verbatim>\<open>/reject\<close> and \<^verbatim>\<open>/cancel\<close>: funded and not released.\<close>

definition escrow_held :: "id \<Rightarrow> bool handler" where
  "escrow_held agreement_id =
     bnd (is_agreement_funded agreement_id) (\<lambda>funded.
     if \<not> funded then return False
     else bnd (is_agreement_released agreement_id) (\<lambda>released. return (\<not> released)))"

definition reject_operation :: "user \<Rightarrow> id \<Rightarrow> (string option \<times> http_response) handler" where
  "reject_operation current_user agreement_id =
     bnd (escrow_held agreement_id) (\<lambda>held.
     if held then raise BadRequestError
     else
       bnd (reject_agreement agreement_id (u_id current_user) (u_email current_user)) (\<lambda>a.
       let ids = both_party_ids a in
       bnd (for_each (\<lambda>u. notify u AGREEMENT_DECLINED (agreement_meta (ar_id a)))
              (filter (\<lambda>u. u \<noteq> u_id current_user) ids)) (\<lambda>_.
       bnd (for_each (\<lambda>u. send_agreement_ws_payload u a ''updated'')
              (remdups (ids @ [u_id current_user]))) (\<lambda>_.
       return (None, success_response 200 (agreement_json a))))))"

definition reject_agreement_route ::
  "settings \<Rightarrow> bool \<Rightarrow> (json \<Rightarrow> string) \<Rightarrow> user \<Rightarrow> string option \<Rightarrow> id \<Rightarrow> http_response handler"
where
  "reject_agreement_route cfg sweep digest current_user key agreement_id =
     with_idempotency cfg sweep digest (u_id current_user) key ''POST /agreements/{id}/reject''
       (agreement_body agreement_id) (reject_operation current_user agreement_id)"

definition cancel_agreement_route :: "user \<Rightarrow> id \<Rightarrow> agreement_response handler" where
  "cancel_agreement_route current_user agreement_id =
     bnd (escrow_held agreement_id) (\<lambda>held.
     if held then raise BadRequestError
     else
       bnd (cancel_agreement agreement_id (u_id current_user)) (\<lambda>a.
       bnd (for_each (\<lambda>u. notify u AGREEMENT_CANCELLED (agreement_meta (ar_id a)))
              (filter (\<lambda>u. u \<noteq> u_id current_user) (party_ids a))) (\<lambda>_.
       bnd (for_each (\<lambda>u. send_agreement_ws_payload u a ''cancelled'')
              (remdups (party_ids a @ [u_id current_user]))) (\<lambda>_.
       return a))))"

section \<open>Reading routes\<close>

definition get_agreement_route :: "user \<Rightarrow> id \<Rightarrow> agreement_response handler" where
  "get_agreement_route current_user agreement_id =
     bnd (require_read_access agreement_id (u_id current_user) (u_email current_user)) (\<lambda>_.
     get_agreement agreement_id (Some (u_id current_user)))"

definition get_all_user_agreements_route :: "user \<Rightarrow> agreement_response list handler" where
  "get_all_user_agreements_route current_user = get_all_user_agreements (u_id current_user)"

definition get_invited_agreements_route :: "user \<Rightarrow> invitation_response list handler" where
  "get_invited_agreements_route current_user = get_user_invited_agreements (u_email current_user)"

definition get_agreement_invitation_route :: "user \<Rightarrow> id \<Rightarrow> invitation handler" where
  "get_agreement_invitation_route current_user agreement_id =
     get_agreement_invitation agreement_id (u_id current_user) (u_email current_user)"

section \<open>What the routes keep\<close>

lemma queue_email_reading [stays_intros]: "stays reading (queue_email a l)"
  by (simp add: stays_def reading_def queue_email_def)

lemma escrow_routes_reading [stays_intros]:
  "stays reading (send_agreement_ws_payload u r ev)" "stays reading (broadcast_agreement_update i ev)"
  "stays reading (escrow_held i)" "stays reading (get_agreement_route cu i)"
  "stays reading (get_invited_agreements_route cu)"
  "stays reading (get_agreement_invitation_route cu i)"
  unfolding send_agreement_ws_payload_def broadcast_agreement_update_def escrow_held_def
    get_agreement_route_def get_invited_agreements_route_def get_agreement_invitation_route_def
  by (intro stays_intros)+

lemmas [keeps_intros] = queue_email_reading [THEN reading_keeps] escrow_routes_reading [THEN reading_keeps]
lemmas [stays_intros] =
  queue_email_reading [THEN reading_table_frame] escrow_routes_reading [THEN reading_table_frame]
  queue_email_reading [THEN reading_append_only] escrow_routes_reading [THEN reading_append_only]

lemma notify_keeps [keeps_intros]: "stable I notification_t \<Longrightarrow> keeps (both I) (notify u ty me)"
  unfolding notify_def by (intro keeps_intros)

lemma notify_frame [stays_intros]:
  "apart T notification_t \<Longrightarrow> stays (table_frame T) (notify u ty me)"
  unfolding notify_def by (intro stays_intros)

text \<open>Forming and ending an agreement keeps whatever the service and a notification keep.\<close>

lemma agreement_routes_keep:
  assumes "stable I notification_t" and "stable I idempotency_key_t"
    and "\<And>u em d. keeps (both I) (create_agreement web u em d)"
    and "\<And>u em. keeps (both I) (accept_agreement i u em)"
    and "\<And>u em. keeps (both I) (reject_agreement i u em)" and "\<And>u. keeps (both I) (cancel_agreement i u)"
  shows "keeps (both I) (create_agreement_route cfg web addr cu body)"
    "keeps (both I) (accept_agreement_route cfg sweep digest cu key i)"
    "keeps (both I) (reject_agreement_route cfg sweep digest cu key i)"
    "keeps (both I) (cancel_agreement_route cu i)"
  unfolding create_agreement_route_def accept_agreement_route_def reject_agreement_route_def
    cancel_agreement_route_def accept_operation_def reject_operation_def Let_def
  by (intro keeps_intros assms)+

end
