(* ===== verification/Disputes.thy ===== *)
theory Disputes
  imports Assets EscrowRoutes
begin

text \<open>
  \<^verbatim>\<open>src/app/repository/dispute_repository.py\<close>, \<^verbatim>\<open>src/app/service/dispute_service.py\<close>,
  \<^verbatim>\<open>src/app/routers/dispute.py\<close> and \<^verbatim>\<open>src/app/routers/admin_dispute.py\<close>: a participant freezes an
  active agreement; an administrator claims the dispute, resolves it and settles the escrow.
\<close>

section \<open>Repository\<close>

definition party_to :: "id \<Rightarrow> dispute \<Rightarrow> bool" where
  "party_to user_id d \<longleftrightarrow> d_raised_by_user_id d = user_id \<or> d_against_user_id d = user_id"

definition newest_first :: "dispute list \<Rightarrow> dispute list" where
  "newest_first ds = sort_key (\<lambda>d. - d_created_at d) ds"

definition get_dispute_for_user :: "id \<Rightarrow> id \<Rightarrow> dispute option handler" where
  "get_dispute_for_user dispute_id user_id =
     select_first dispute_t (\<lambda>d. d_id d = dispute_id \<and> party_to user_id d)"

definition get_agreement_disputes_for_user :: "id \<Rightarrow> id \<Rightarrow> dispute list handler" where
  "get_agreement_disputes_for_user agreement_id user_id =
     bnd (select dispute_t (\<lambda>d. d_agreement_id d = agreement_id)) (\<lambda>ds.
     bnd (select participant_t (\<lambda>p. p_user_id p = user_id)) (\<lambda>ps.
     return (newest_first [d. d \<leftarrow> ds, p \<leftarrow> ps, p_agreement_id p = d_agreement_id d])))"

definition list_disputes_for_user :: "id \<Rightarrow> nat \<Rightarrow> nat \<Rightarrow> dispute list handler" where
  "list_disputes_for_user user_id skip limit =
     bnd (select dispute_t (party_to user_id)) (\<lambda>ds.
     return (take limit (drop skip (newest_first ds))))"

definition count_disputes_for_user :: "id \<Rightarrow> nat handler" where
  "count_disputes_for_user user_id =
     bnd (select dispute_t (party_to user_id)) (\<lambda>ds. return (length ds))"

definition get_dispute_by_id :: "id \<Rightarrow> dispute option handler" where
  "get_dispute_by_id dispute_id = get_row dispute_t dispute_id"

definition dispute_matches ::
  "dispute_status option \<Rightarrow> dispute_category option \<Rightarrow> dispute \<Rightarrow> bool"
where
  "dispute_matches status category d \<longleftrightarrow>
     (case status of None \<Rightarrow> True | Some st \<Rightarrow> d_status d = st) \<and>
     (case category of None \<Rightarrow> True | Some ca \<Rightarrow> d_category d = ca)"

definition list_all_disputes ::
  "dispute_status option \<Rightarrow> dispute_category option \<Rightarrow> nat \<Rightarrow> nat \<Rightarrow> dispute list handler"
where
  "list_all_disputes status category skip limit =
     bnd (select dispute_t (dispute_matches status category)) (\<lambda>ds.
     return (take limit (drop skip (newest_first ds))))"

definition count_all_disputes ::
  "dispute_status option \<Rightarrow> dispute_category option \<Rightarrow> nat handler"
where
  "count_all_disputes status category =
     bnd (select dispute_t (dispute_matches status category)) (\<lambda>ds. return (length ds))"

definition get_active_for_agreement :: "id \<Rightarrow> dispute option handler" where
  "get_active_for_agreement agreement_id =
     select_first dispute_t (\<lambda>d. d_agreement_id d = agreement_id \<and> dispute_active d)"

definition get_evidence :: "id \<Rightarrow> asset list handler" where
  "get_evidence dispute_id = select asset_t (\<lambda>x. s_dispute_id x = Some dispute_id)"

definition save_dispute :: "dispute \<Rightarrow> bool \<Rightarrow> unit handler" where
  "save_dispute d do_commit = bnd (save_row dispute_t d) (\<lambda>_. commit_if do_commit)"

definition add_evidence_rows :: "id \<Rightarrow> id \<Rightarrow> asset_file_in list \<Rightarrow> bool \<Rightarrow> asset list handler" where
  "add_evidence_rows dispute_id participant_id files do_commit =
     bnd (map_m (\<lambda>f.
            bnd (new_asset_file f) (\<lambda>file.
            new_asset None (Some dispute_id) participant_id (f_id file))) files) (\<lambda>xs.
     bnd (commit_if do_commit) (\<lambda>_. return xs))"

definition set_agreement_status :: "agreement \<Rightarrow> agreement_status \<Rightarrow> bool \<Rightarrow> unit handler" where
  "set_agreement_status a status do_commit =
     bnd (save_row agreement_t (a\<lparr>a_status := status\<rparr>)) (\<lambda>_. commit_if do_commit)"

section \<open>Service\<close>

definition require_accepted_participant :: "id \<Rightarrow> id \<Rightarrow> participant handler" where
  "require_accepted_participant agreement_id user_id =
     bnd (get_participant_for_user agreement_id user_id) (\<lambda>p.
     case p of
       None \<Rightarrow> raise ForbiddenError
     | Some p \<Rightarrow> if p_status p \<noteq> ACCEPTED then raise ForbiddenError else return p)"

definition participant_user_ids :: "id \<Rightarrow> id list handler" where
  "participant_user_ids agreement_id =
     bnd (get_participants_for_agreement agreement_id) (\<lambda>ps. return (map p_user_id ps))"

record dispute_response =
  dr_dispute :: dispute
  dr_agreement_title :: string
  dr_agreement_amount :: money
  dr_raised_by :: "user_response option"
  dr_against_user :: "user_response option"
  dr_resolved_by :: "user_response option"
  dr_evidence :: "asset_response list"

definition linked_user :: "id option \<Rightarrow> user_response option handler" where
  "linked_user i =
     (case i of
        None \<Rightarrow> return None
      | Some i \<Rightarrow> bnd (get_row user_t i) (\<lambda>u. return (map_option user_response_of u)))"

definition to_dispute_response :: "bool \<Rightarrow> dispute \<Rightarrow> dispute_response handler" where
  "to_dispute_response with_evidence d =
     bnd (get_row agreement_t (d_agreement_id d)) (\<lambda>a.
     bnd (if with_evidence
          then bnd (get_evidence (d_id d)) (map_m (\<lambda>x. asset_response_of (x, True)))
          else return []) (\<lambda>evidence.
     bnd (linked_user (Some (d_raised_by_user_id d))) (\<lambda>raised_by.
     bnd (linked_user (Some (d_against_user_id d))) (\<lambda>against.
     bnd (linked_user (d_resolved_by_user_id d)) (\<lambda>resolved_by.
     return \<lparr>dr_dispute = d, dr_agreement_title = (case a of None \<Rightarrow> '''' | Some a \<Rightarrow> a_title a),
             dr_agreement_amount = (case a of None \<Rightarrow> 0 | Some a \<Rightarrow> a_amount a),
             dr_raised_by = raised_by, dr_against_user = against, dr_resolved_by = resolved_by,
             dr_evidence = evidence\<rparr>)))))"

record dispute_create =
  dc_category :: dispute_category
  dc_description :: string
  dc_files :: "asset_file_in list"

definition dispute_signature ::
  "(int \<Rightarrow> string \<Rightarrow> string) \<Rightarrow> id \<Rightarrow> id \<Rightarrow> signed_upload handler"
where
  "dispute_signature sign agreement_id user_id =
     bnd (require_accepted_participant agreement_id user_id) (\<lambda>_.
     create_upload_signature sign (''disputes/'' @ agreement_id))"

definition new_dispute :: "id \<Rightarrow> id \<Rightarrow> id \<Rightarrow> dispute_create \<Rightarrow> agreement_status \<Rightarrow> dispute handler" where
  "new_dispute agreement_id user_id against data status_before =
     bnd now (\<lambda>t.
     bnd uuid4 (\<lambda>u.
     return \<lparr>d_id = u, d_agreement_id = agreement_id, d_raised_by_user_id = user_id,
             d_against_user_id = against, d_category = dc_category data,
             d_description = dc_description data, d_status = OPEN,
             d_agreement_status_before = status_before, d_resolution_outcome = None,
             d_resolution_notes = None, d_resolved_by_user_id = None, d_resolved_at = None,
             d_created_at = t, d_updated_at = t\<rparr>))"

text \<open>The body of the \<^verbatim>\<open>try\<close> statement: the dispute, its evidence and the freeze, one transaction.\<close>

definition open_dispute ::
  "agreement \<Rightarrow> participant \<Rightarrow> id \<Rightarrow> dispute_create \<Rightarrow> dispute handler"
where
  "open_dispute a p against data =
     bnd (new_dispute (a_id a) (p_user_id p) against data (a_status a)) (\<lambda>d.
     bnd (insert_row dispute_t d) (\<lambda>_.
     bnd (if dc_files data = [] then return []
          else add_evidence_rows (d_id d) (p_id p) (dc_files data) False) (\<lambda>_.
     bnd (set_agreement_status a DISPUTED False) (\<lambda>_.
     bnd commit (\<lambda>_. refresh dispute_t d)))))"

definition raise_dispute :: "id \<Rightarrow> id \<Rightarrow> dispute_create \<Rightarrow> dispute_response handler" where
  "raise_dispute agreement_id user_id data =
     bnd (get_attached agreement_id) (\<lambda>a.
     case a of
       None \<Rightarrow> raise AgreementNotFoundError
     | Some a \<Rightarrow>
         bnd (require_accepted_participant agreement_id user_id) (\<lambda>p.
         bnd (get_active_for_agreement agreement_id) (\<lambda>active.
         if active \<noteq> None then raise DisputeAlreadyExistsError
         else if a_status a \<noteq> ACTIVE then raise BadRequestError
         else
           bnd (get_participants_for_agreement agreement_id) (\<lambda>ps.
           case find_first (\<lambda>p. p_user_id p \<noteq> user_id) ps of
             None \<Rightarrow> raise ParticipantNotFoundError
           | Some other \<Rightarrow>
               bnd (try_except (open_dispute a p (p_user_id other) data)
                      (\<lambda>err. bnd rollback (\<lambda>_.
                         if err = IntegrityError then raise DisputeAlreadyExistsError
                         else raise DisputeCreationError))) (\<lambda>d.
               bnd (invalidate_agreement_keys agreement_id [user_id, p_user_id other]) (\<lambda>_.
               to_dispute_response True d))))))"

definition add_evidence :: "id \<Rightarrow> id \<Rightarrow> asset_file_in list \<Rightarrow> asset_response list handler" where
  "add_evidence dispute_id user_id files =
     bnd (get_dispute_for_user dispute_id user_id) (\<lambda>d.
     case d of
       None \<Rightarrow> raise DisputeNotFoundError
     | Some d \<Rightarrow>
         if \<not> dispute_active d then raise DisputeNotOpenError
         else
           bnd (require_accepted_participant (d_agreement_id d) user_id) (\<lambda>p.
           bnd (try_except (add_evidence_rows (d_id d) (p_id p) files True)
                  (\<lambda>_. bnd rollback (\<lambda>_. raise DisputeCreationError))) (\<lambda>xs.
           map_m (\<lambda>x. asset_response_of (x, True)) xs)))"

definition get_dispute :: "id \<Rightarrow> id \<Rightarrow> dispute_response handler" where
  "get_dispute dispute_id user_id =
     bnd (get_dispute_for_user dispute_id user_id) (\<lambda>d.
     case d of None \<Rightarrow> raise DisputeNotFoundError | Some d \<Rightarrow> to_dispute_response True d)"

definition get_agreement_disputes :: "id \<Rightarrow> id \<Rightarrow> dispute_response list handler" where
  "get_agreement_disputes agreement_id user_id =
     bnd (require_accepted_participant agreement_id user_id) (\<lambda>_.
     bnd (get_agreement_disputes_for_user agreement_id user_id) (map_m (to_dispute_response False)))"

definition get_user_disputes :: "id \<Rightarrow> nat \<Rightarrow> nat \<Rightarrow> (dispute_response list \<times> nat) handler" where
  "get_user_disputes user_id skip limit =
     bnd (list_disputes_for_user user_id skip limit) (\<lambda>ds.
     bnd (map_m (to_dispute_response False) ds) (\<lambda>rs.
     bnd (count_disputes_for_user user_id) (\<lambda>n. return (rs, n))))"

definition admin_list_disputes ::
  "dispute_status option \<Rightarrow> dispute_category option \<Rightarrow> nat \<Rightarrow> nat \<Rightarrow>
   (dispute_response list \<times> nat) handler"
where
  "admin_list_disputes status category skip limit =
     bnd (list_all_disputes status category skip limit) (\<lambda>ds.
     bnd (map_m (to_dispute_response False) ds) (\<lambda>rs.
     bnd (count_all_disputes status category) (\<lambda>n. return (rs, n))))"

definition admin_get_dispute :: "id \<Rightarrow> dispute_response handler" where
  "admin_get_dispute dispute_id =
     bnd (get_dispute_by_id dispute_id) (\<lambda>d.
     case d of None \<Rightarrow> raise DisputeNotFoundError | Some d \<Rightarrow> to_dispute_response True d)"

definition admin_mark_under_review :: "id \<Rightarrow> id \<Rightarrow> dispute_response handler" where
  "admin_mark_under_review dispute_id admin_user_id =
     bnd (get_dispute_by_id dispute_id) (\<lambda>d.
     case d of
       None \<Rightarrow> raise DisputeNotFoundError
     | Some d \<Rightarrow>
         if d_status d \<noteq> OPEN then raise DisputeNotOpenError
         else
           bnd now (\<lambda>t.
           let d = d\<lparr>d_status := UNDER_REVIEW, d_updated_at := t\<rparr> in
           bnd (save_dispute d True) (\<lambda>_.
           bnd (refresh dispute_t d) (to_dispute_response True))))"

record dispute_resolve =
  rv_outcome :: dispute_resolution_outcome
  rv_resolution_notes :: string

definition validate_dispute_resolve :: "dispute_resolve \<Rightarrow> bool" where
  "validate_dispute_resolve r \<longleftrightarrow>
     rv_outcome r \<noteq> SPLIT \<and> 10 \<le> length (rv_resolution_notes r) \<and>
     length (rv_resolution_notes r) \<le> 2000"

definition resolved :: "id \<Rightarrow> dispute_resolve \<Rightarrow> time \<Rightarrow> dispute \<Rightarrow> dispute" where
  "resolved admin_user_id data t d =
     d\<lparr>d_status := RESOLVED, d_resolution_outcome := Some (rv_outcome data),
       d_resolution_notes := Some (rv_resolution_notes data),
       d_resolved_by_user_id := Some admin_user_id, d_resolved_at := Some t, d_updated_at := t\<rparr>"

text \<open>
  Assigning to the loaded dispute makes the session write it at its next flush, in the same
  transaction as the agreement's status; both are committed together below.
\<close>

definition admin_resolve_dispute :: "id \<Rightarrow> id \<Rightarrow> dispute_resolve \<Rightarrow> dispute_response handler" where
  "admin_resolve_dispute dispute_id admin_user_id data =
     bnd (get_dispute_by_id dispute_id) (\<lambda>d.
     case d of
       None \<Rightarrow> raise DisputeNotFoundError
     | Some d \<Rightarrow>
         if \<not> dispute_active d then raise DisputeNotOpenError
         else
           bnd now (\<lambda>t.
           let d' = resolved admin_user_id data t d in
           bnd (save_dispute d' False) (\<lambda>_.
           bnd (get_attached (d_agreement_id d)) (\<lambda>a.
           bnd (case a of
                  None \<Rightarrow> return ()
                | Some a \<Rightarrow>
                    when_m (a_status a = DISPUTED)
                      (set_agreement_status a (d_agreement_status_before d) False)) (\<lambda>_.
           bnd (try_except
                  (bnd (save_dispute d' False) (\<lambda>_.
                   bnd commit (\<lambda>_. refresh dispute_t d')))
                  (\<lambda>_. bnd rollback (\<lambda>_. raise DisputeCreationError))) (\<lambda>d'.
           bnd (participant_user_ids (d_agreement_id d)) (\<lambda>us.
           bnd (invalidate_agreement_keys (d_agreement_id d) us) (\<lambda>_.
           to_dispute_response True d'))))))))"

section \<open>Routes\<close>

definition send_dispute_ws_payload :: "id \<Rightarrow> dispute_response \<Rightarrow> string \<Rightarrow> unit handler" where
  "send_dispute_ws_payload user_id r event =
     push_ws user_id (WsDispute event (d_id (dr_dispute r)) (d_agreement_id (dr_dispute r)))"

definition dispute_parties :: "dispute_response \<Rightarrow> id list" where
  "dispute_parties r =
     map ur_id (case dr_raised_by r of None \<Rightarrow> [] | Some u \<Rightarrow> [u]) @
     map ur_id (case dr_against_user r of None \<Rightarrow> [] | Some u \<Rightarrow> [u])"

definition broadcast_dispute_change :: "dispute_response \<Rightarrow> string \<Rightarrow> unit handler" where
  "broadcast_dispute_change r event =
     (let recipients = filter (\<lambda>u. u \<noteq> '''') (dispute_parties r) in
      bnd (for_each (\<lambda>u. send_dispute_ws_payload u r event) recipients) (\<lambda>_.
      best_effort
        (bnd (get_agreement (d_agreement_id (dr_dispute r)) None) (\<lambda>a.
         for_each (\<lambda>u. send_agreement_ws_payload u a event) recipients))))"

fun category_value :: "dispute_category \<Rightarrow> string" where
  "category_value QUALITY_ISSUES = ''quality_issues''"
| "category_value MISSED_DEADLINE = ''missed_deadline''"
| "category_value INCOMPLETE_WORK = ''incomplete_work''"
| "category_value NON_RESPONSIVE = ''non_responsive''"
| "category_value OTHER = ''other''"

fun outcome_value :: "dispute_resolution_outcome \<Rightarrow> string" where
  "outcome_value FAVOUR_DEPOSITOR = ''favour_depositor''"
| "outcome_value FAVOUR_BENEFICIARY = ''favour_beneficiary''"
| "outcome_value SPLIT = ''split''"
| "outcome_value DISMISSED = ''dismissed''"

definition dispute_meta :: "dispute_response \<Rightarrow> metadata" where
  "dispute_meta r =
     [(''dispute_id'', JStr (d_id (dr_dispute r))),
      (''agreement_id'', JStr (d_agreement_id (dr_dispute r)))]"

definition get_dispute_upload_signature ::
  "(int \<Rightarrow> string \<Rightarrow> string) \<Rightarrow> user \<Rightarrow> id \<Rightarrow> signed_upload handler"
where
  "get_dispute_upload_signature sign current_user agreement_id =
     dispute_signature sign agreement_id (u_id current_user)"

definition raise_dispute_route ::
  "string \<Rightarrow> rat \<Rightarrow> user \<Rightarrow> id \<Rightarrow> dispute_create \<Rightarrow> dispute_response handler"
where
  "raise_dispute_route cloud_name max_bytes current_user agreement_id body =
     (case validate_asset_files cloud_name max_bytes 0 (dc_files body) of
        None \<Rightarrow> raise (HTTPException 422)
      | Some files \<Rightarrow>
          if length (dc_description body) < 20 \<or> 2000 < length (dc_description body)
          then raise (HTTPException 422)
          else
            bnd (raise_dispute agreement_id (u_id current_user) (body\<lparr>dc_files := files\<rparr>)) (\<lambda>r.
            bnd (case dr_against_user r of
                   None \<Rightarrow> return ()
                 | Some u \<Rightarrow>
                     notify (ur_id u) DISPUTE_RAISED
                       (dispute_meta r @
                        [(''category'', JStr (category_value (d_category (dr_dispute r))))])) (\<lambda>_.
            bnd (broadcast_dispute_change r ''raised'') (\<lambda>_. return r))))"

definition get_agreement_disputes_route :: "user \<Rightarrow> id \<Rightarrow> dispute_response list handler" where
  "get_agreement_disputes_route current_user agreement_id =
     get_agreement_disputes agreement_id (u_id current_user)"

text \<open>\<^verbatim>\<open>Query(0, ge=0)\<close> and \<^verbatim>\<open>Query(20, ge=1, le=100)\<close>\<close>

definition page_ok :: "int \<Rightarrow> int \<Rightarrow> bool" where
  "page_ok skip limit \<longleftrightarrow> 0 \<le> skip \<and> 1 \<le> limit \<and> limit \<le> 100"

definition get_my_disputes :: "user \<Rightarrow> int \<Rightarrow> int \<Rightarrow> (dispute_response list \<times> nat) handler" where
  "get_my_disputes current_user skip limit =
     (if \<not> page_ok skip limit then raise (HTTPException 422)
      else get_user_disputes (u_id current_user) (nat skip) (nat limit))"

definition get_dispute_route :: "user \<Rightarrow> id \<Rightarrow> dispute_response handler" where
  "get_dispute_route current_user dispute_id = get_dispute dispute_id (u_id current_user)"

definition add_dispute_evidence ::
  "string \<Rightarrow> rat \<Rightarrow> user \<Rightarrow> id \<Rightarrow> asset_file_in list \<Rightarrow> asset_response list handler"
where
  "add_dispute_evidence cloud_name max_bytes current_user dispute_id files =
     (case validate_asset_files cloud_name max_bytes 1 files of
        None \<Rightarrow> raise (HTTPException 422)
      | Some files \<Rightarrow>
          bnd (add_evidence dispute_id (u_id current_user) files) (\<lambda>xs.
          bnd (get_dispute dispute_id (u_id current_user)) (\<lambda>r.
          let other = (case dr_raised_by r of
                         Some u \<Rightarrow> if ur_id u = u_id current_user then dr_against_user r
                                   else dr_raised_by r
                       | None \<Rightarrow> dr_raised_by r) in
          bnd (case other of
                 None \<Rightarrow> return ()
               | Some u \<Rightarrow> notify (ur_id u) DISPUTE_EVIDENCE_ADDED (dispute_meta r)) (\<lambda>_.
          return xs))))"

definition admin_list_disputes_route ::
  "user \<Rightarrow> dispute_status option \<Rightarrow> dispute_category option \<Rightarrow> int \<Rightarrow> int \<Rightarrow>
   (dispute_response list \<times> nat) handler"
where
  "admin_list_disputes_route current_user status category skip limit =
     bnd (get_admin_user current_user) (\<lambda>_.
     if \<not> page_ok skip limit then raise (HTTPException 422)
     else admin_list_disputes status category (nat skip) (nat limit))"

definition admin_get_dispute_route :: "user \<Rightarrow> id \<Rightarrow> dispute_response handler" where
  "admin_get_dispute_route current_user dispute_id =
     bnd (get_admin_user current_user) (\<lambda>_. admin_get_dispute dispute_id)"

definition mark_under_review :: "user \<Rightarrow> id \<Rightarrow> dispute_response handler" where
  "mark_under_review current_user dispute_id =
     bnd (get_admin_user current_user) (\<lambda>current_user.
     bnd (admin_mark_under_review dispute_id (u_id current_user)) (\<lambda>r.
     bnd (for_each (\<lambda>u. notify u DISPUTE_UNDER_REVIEW (dispute_meta r)) (dispute_parties r)) (\<lambda>_.
     return r)))"

text \<open>The settlement of a resolved dispute; the flag is the message of a payout that failed.\<close>

definition settle_dispute :: "id \<Rightarrow> dispute_resolution_outcome \<Rightarrow> bool handler" where
  "settle_dispute agreement_id outcome =
     bnd (is_agreement_funded agreement_id) (\<lambda>funded.
     bnd (is_agreement_released agreement_id) (\<lambda>released.
     try_except
       (bnd (when_m (funded \<and> \<not> released)
               (if outcome = FAVOUR_BENEFICIARY then
                  bnd (perform_escrow_release agreement_id) (\<lambda>_.
                  broadcast_agreement_update agreement_id ''released'')
                else if outcome = FAVOUR_DEPOSITOR then
                  bnd (perform_escrow_refund agreement_id) (\<lambda>_.
                  broadcast_agreement_update agreement_id ''refunded'')
                else return ())) (\<lambda>_. return False))
       (\<lambda>_. return True)))"

definition resolve_dispute ::
  "user \<Rightarrow> id \<Rightarrow> dispute_resolve \<Rightarrow> (dispute_response \<times> bool) handler"
where
  "resolve_dispute current_user dispute_id resolution =
     bnd (get_admin_user current_user) (\<lambda>current_user.
     if \<not> validate_dispute_resolve resolution then raise (HTTPException 422)
     else
       bnd (admin_resolve_dispute dispute_id (u_id current_user) resolution) (\<lambda>r.
       bnd (settle_dispute (d_agreement_id (dr_dispute r)) (rv_outcome resolution)) (\<lambda>failed.
       bnd (for_each (\<lambda>u.
              notify u DISPUTE_RESOLVED
                (dispute_meta r @
                 [(''outcome'',
                   json_opt (map_option outcome_value (d_resolution_outcome (dr_dispute r))))]))
              (dispute_parties r)) (\<lambda>_.
       bnd (broadcast_dispute_change r ''resolved'') (\<lambda>_. return (r, failed))))))"

section \<open>What these operations keep\<close>

lemma disputes_reading [stays_intros]:
  "stays reading (get_dispute_for_user k u)" "stays reading (get_agreement_disputes_for_user i u)"
  "stays reading (list_disputes_for_user u sk li)" "stays reading (count_disputes_for_user u)"
  "stays reading (get_dispute_by_id k)" "stays reading (list_all_disputes st ca sk li)"
  "stays reading (count_all_disputes st ca)" "stays reading (get_active_for_agreement i)"
  "stays reading (get_evidence k)" "stays reading (require_accepted_participant i u)"
  "stays reading (participant_user_ids i)" "stays reading (linked_user iu)"
  "stays reading (new_dispute i u ag da stb)" "stays reading (dispute_signature sign i u)"
  "stays reading (send_dispute_ws_payload u r ev)"
  unfolding get_dispute_for_user_def get_agreement_disputes_for_user_def list_disputes_for_user_def
    count_disputes_for_user_def get_dispute_by_id_def list_all_disputes_def count_all_disputes_def
    get_active_for_agreement_def get_evidence_def require_accepted_participant_def
    participant_user_ids_def linked_user_def new_dispute_def dispute_signature_def
    send_dispute_ws_payload_def
  by (intro stays_intros)+

lemma dispute_answers_reading [stays_intros]:
  "stays reading (to_dispute_response b d)" "stays reading (get_dispute k u)"
  "stays reading (get_agreement_disputes i u)" "stays reading (get_user_disputes u sk li)"
  "stays reading (admin_list_disputes st ca sk li)" "stays reading (admin_get_dispute k)"
  "stays reading (broadcast_dispute_change r ev)"
proof -
  show r: "stays reading (to_dispute_response b d)" for b d
    unfolding to_dispute_response_def by (intro stays_intros)
  show "stays reading (get_dispute k u)" "stays reading (get_agreement_disputes i u)"
    "stays reading (get_user_disputes u sk li)" "stays reading (admin_list_disputes st ca sk li)"
    "stays reading (admin_get_dispute k)" "stays reading (broadcast_dispute_change ra ev)" for ra
    unfolding get_dispute_def get_agreement_disputes_def get_user_disputes_def
      admin_list_disputes_def admin_get_dispute_def broadcast_dispute_change_def Let_def
    by (intro stays_intros r)+
qed

lemma dispute_routes_reading [stays_intros]:
  "stays reading (get_dispute_upload_signature sign cu i)"
  "stays reading (get_agreement_disputes_route cu i)" "stays reading (get_my_disputes cu sk li)"
  "stays reading (get_dispute_route cu k)" "stays reading (admin_list_disputes_route cu st ca sk li)"
  "stays reading (admin_get_dispute_route cu k)"
  unfolding get_dispute_upload_signature_def get_agreement_disputes_route_def get_my_disputes_def
    get_dispute_route_def admin_list_disputes_route_def admin_get_dispute_route_def
  by (intro stays_intros)+

lemmas [keeps_intros] =
  disputes_reading [THEN reading_keeps] dispute_answers_reading [THEN reading_keeps]
  dispute_routes_reading [THEN reading_keeps]

lemma evidence_keeps [keeps_intros]:
  assumes "stable I asset_file_t" and "stable I asset_t"
  shows "keeps (both I) (add_evidence_rows k p fs b)" "keeps (both I) (add_evidence k u fs)"
proof -
  show e: "keeps (both I) (add_evidence_rows k p fs b)" for k p b
    unfolding add_evidence_rows_def new_asset_file_def new_asset_def Let_def
    by (intro keeps_intros assms)
  show "keeps (both I) (add_evidence k u fs)"
    unfolding add_evidence_def by (intro keeps_intros e)
qed

lemma evidence_route_keeps [keeps_intros]:
  assumes "stable I asset_file_t" and "stable I asset_t" and "stable I notification_t"
  shows "keeps (both I) (add_dispute_evidence cloud mb cu k fs)"
  unfolding add_dispute_evidence_def Let_def by (intro keeps_intros assms)

end
