(* ===== verification/EscrowSamples.thy ===== *)
theory EscrowSamples
  imports Samples
begin

text \<open>
  The concrete escrow of the witnesses: Alice deposits, Bob benefits, Carol administers.  The
  agreement \<open>ag\<close> over 40.00 is active and funded (the entry \<open>esc_lock_ag\<close> of \<open>money_db\<close>), with one
  condition that Alice has not decided yet.
\<close>

definition sample_user :: "id \<Rightarrow> string \<Rightarrow> bool \<Rightarrow> user" where
  "sample_user i email admin =
     \<lparr>u_id = i, u_email = email, u_phone_number = None, u_name = i, u_profile_picture_url = None,
      u_active = 1, u_is_admin = admin, u_created_at = 0\<rparr>"

definition alice :: user where
  "alice = sample_user ''ua'' ''a@x'' False"

definition bob :: user where
  "bob = sample_user ''ub'' ''b@x'' False"

definition carol :: user where
  "carol = sample_user ''uc'' ''c@x'' True"

definition sample_agreement :: agreement where
  "sample_agreement =
     \<lparr>a_id = ''ag'', a_user_id = ''ua'', a_title = ''Sale'', a_description = ''A sale'', a_amount = 40,
      a_status = ACTIVE, a_created_at = 3\<rparr>"

definition sample_participant :: "id \<Rightarrow> id \<Rightarrow> participant_role \<Rightarrow> participant" where
  "sample_participant i u role =
     \<lparr>p_id = i, p_agreement_id = ''ag'', p_user_id = u, p_role = role, p_status = ACCEPTED,
      p_joined_at = 3\<rparr>"

definition sample_condition :: condition where
  "sample_condition =
     \<lparr>c_id = ''co'', c_agreement_id = ''ag'', c_participant_id = ''pa'', c_invitation_id = None,
      c_title = ''Delivered'', c_description = ''Delivered'',
      c_required_from_participant_id = Some ''pb'', c_status = COND_PENDING,
      c_approved_at = None, c_rejected_reason = None, c_created_at = 3\<rparr>"

definition escrow_db :: db where
  "escrow_db =
     money_db\<lparr>users := [alice, bob, carol], agreements := [sample_agreement],
       participants := [sample_participant ''pa'' ''ua'' DEPOSITOR,
                        sample_participant ''pb'' ''ub'' BENEFICIARY],
       conditions := [sample_condition]\<rparr>"

definition escrow_session :: session where
  "escrow_session = sample_session escrow_db"

lemmas escrow_defs =
  sample_user_def alice_def bob_def carol_def sample_agreement_def sample_participant_def
  sample_condition_def escrow_db_def escrow_session_def

end
