(* ===== verification/ConditionRoutes.thy ===== *)
theory ConditionRoutes
  imports EscrowRoutes EscrowSamples
begin

text \<open>
  \<^verbatim>\<open>src/app/routers/condition.py\<close>: the routes of conditions, and the automatic release of the escrow
  when the last one is approved.
\<close>

section \<open>Shared steps\<close>

definition notify_agreement_participants ::
  "id \<Rightarrow> id \<Rightarrow> notification_type \<Rightarrow> metadata \<Rightarrow> unit handler"
where
  "notify_agreement_participants agreement_id acting_user_id ty meta =
     bnd (try_except (bnd (get_agreement agreement_id None) (\<lambda>a. return (Some a)))
                     (\<lambda>_. return None)) (\<lambda>a.
     case a of
       None \<Rightarrow> return ()
     | Some a \<Rightarrow> for_each (\<lambda>u. notify u ty meta) (filter (\<lambda>u. u \<noteq> acting_user_id) (party_ids a)))"

definition release_escrow_if_ready :: "id \<Rightarrow> unit handler" where
  "release_escrow_if_ready agreement_id =
     best_effort
       (bnd (is_agreement_funded agreement_id) (\<lambda>funded.
        if \<not> funded then return ()
        else
          bnd (is_agreement_released agreement_id) (\<lambda>released.
          if released then return ()
          else
            bnd (all_conditions_approved agreement_id) (\<lambda>approved.
            if \<not> approved then return ()
            else
              bnd (get_agreement agreement_id None) (\<lambda>a.
              if ar_status a = DISPUTED then return ()
              else
                bnd (perform_escrow_release agreement_id) (\<lambda>_.
                broadcast_agreement_update agreement_id ''released''))))))"

definition condition_meta :: "id \<Rightarrow> id \<Rightarrow> metadata" where
  "condition_meta agreement_id condition_id =
     [(''agreement_id'', JStr agreement_id), (''condition_id'', JStr condition_id)]"

section \<open>Routes\<close>

definition add_condition_route ::
  "(string \<Rightarrow> string option) \<Rightarrow> user \<Rightarrow> id \<Rightarrow> condition_create \<Rightarrow> condition_response handler"
where
  "add_condition_route email_addr current_user agreement_id body =
     (case validate_condition_create email_addr body of
        None \<Rightarrow> raise (HTTPException 422)
      | Some d \<Rightarrow>
          bnd (require_participant agreement_id (u_id current_user)) (\<lambda>_.
          bnd (add_condition agreement_id (u_id current_user) d) (\<lambda>r.
          bnd (notify_agreement_participants agreement_id (u_id current_user) CONDITION_ADDED
                 (condition_meta agreement_id (c_id (cr_condition r)))) (\<lambda>_.
          return r))))"

definition get_agreement_conditions_route :: "user \<Rightarrow> id \<Rightarrow> condition_response list handler" where
  "get_agreement_conditions_route current_user agreement_id =
     bnd (require_read_access agreement_id (u_id current_user) (u_email current_user)) (\<lambda>_.
     get_agreement_conditions agreement_id)"

definition get_condition_details :: "user \<Rightarrow> id \<Rightarrow> condition_response handler" where
  "get_condition_details current_user condition_id =
     bnd (get_agreement_id_for_condition condition_id) (\<lambda>agreement_id.
     bnd (require_read_access agreement_id (u_id current_user) (u_email current_user)) (\<lambda>_.
     get_condition condition_id))"

definition approve_condition_route :: "user \<Rightarrow> id \<Rightarrow> condition_response handler" where
  "approve_condition_route current_user condition_id =
     bnd (approve_condition condition_id (u_id current_user)) (\<lambda>r.
     let agreement_id = pr_agreement_id (cr_created_by r) in
     bnd (notify_agreement_participants agreement_id (u_id current_user) CONDITION_UPDATED
            (condition_meta agreement_id (c_id (cr_condition r)))) (\<lambda>_.
     bnd (release_escrow_if_ready agreement_id) (\<lambda>_. return r)))"

definition reject_condition_route :: "user \<Rightarrow> id \<Rightarrow> string \<Rightarrow> condition_response handler" where
  "reject_condition_route current_user condition_id rejected_reason =
     (if length rejected_reason < 3 \<or> 1000 < length rejected_reason
      then raise (HTTPException 422)
      else
        bnd (reject_condition condition_id (u_id current_user) rejected_reason) (\<lambda>r.
        let agreement_id = pr_agreement_id (cr_created_by r) in
        bnd (notify_agreement_participants agreement_id (u_id current_user) CONDITION_UPDATED
               (condition_meta agreement_id (c_id (cr_condition r)))) (\<lambda>_.
        return r)))"

section \<open>What the routes keep\<close>

lemma condition_routes_reading [stays_intros]:
  "stays reading (get_agreement_conditions_route cu i)" "stays reading (get_condition_details cu c)"
  unfolding get_agreement_conditions_route_def get_condition_details_def by (intro stays_intros)+

lemmas [keeps_intros] = condition_routes_reading [THEN reading_keeps]

lemma condition_notify_keeps [keeps_intros]:
  "stable I notification_t \<Longrightarrow> keeps (both I) (notify_agreement_participants i u ty me)"
  unfolding notify_agreement_participants_def by (intro keeps_intros)

lemma condition_routes_keep:
  assumes "stable I notification_t" and "stable I condition_t"
    and "\<And>i. keeps (both I) (release_escrow_if_ready i)"
  shows "keeps (both I) (add_condition_route addr cu i d)"
    "keeps (both I) (approve_condition_route cu c)" "keeps (both I) (reject_condition_route cu c re)"
  unfolding add_condition_route_def approve_condition_route_def reject_condition_route_def Let_def
  by (intro keeps_intros assms)+

section \<open>Who decides\<close>

lemma require_depositor_Inr:
  assumes "require_depositor c u s = (Inr p, t)"
  shows "t = s" "find_first (\<lambda>p. p_user_id p = u \<and> p_agreement_id p = c_agreement_id c)
      (participants (work s)) = Some p" "p_role p = DEPOSITOR"
    "\<exists>a. find_first (\<lambda>a. a_id a = c_agreement_id c) (agreements (work s)) = Some a \<and>
         a_status a = ACTIVE"
    "decidable_status (c_status c)"
  using assms
  by (auto simp: require_depositor_def get_condition_participant_def bnd_session_steps
      split: option.splits if_splits)

text \<open>The two decisions share their steps: the row as decided is saved, committed and answered.\<close>

definition decide :: "(time \<Rightarrow> condition \<Rightarrow> condition) \<Rightarrow> id \<Rightarrow> id \<Rightarrow> condition_response handler" where
  "decide f condition_id user_id =
     bnd (require_condition condition_id) (\<lambda>c.
     bnd (require_depositor c user_id) (\<lambda>_.
     bnd now (\<lambda>t.
     bnd (save_condition (f t c)) (\<lambda>c.
     bnd (invalidate_conditions (c_agreement_id c) (Some condition_id)) (\<lambda>_.
     condition_response_of c)))))"

lemma decide_eq:
  "approve_condition c u = decide (\<lambda>t k. k\<lparr>c_approved_at := Some t, c_rejected_reason := None,
                                         c_status := COND_APPROVED\<rparr>) c u"
  "reject_condition c u re = decide (\<lambda>t k. k\<lparr>c_rejected_reason := Some re, c_approved_at := None,
                                            c_status := COND_REJECTED\<rparr>) c u"
  by (simp_all add: decide_def approve_condition_def reject_condition_def now_def bnd_def
      reads_def fun_eq_iff)

lemma condition_response_of_Inr: "condition_response_of c s = (Inr r, t) \<Longrightarrow> cr_condition r = c"
  by (auto simp: condition_response_of_def bnd_def return_def split: prod.splits sum.splits)

lemma save_condition_Inr:
  assumes "save_condition k s = (Inr k', t)"
  shows "k' = k" "committed t = (work s)\<lparr>conditions := replace_by c_id k (conditions (work s))\<rparr>"
    "work t = committed t"
proof -
  from assms show c: "committed t = (work s)\<lparr>conditions := replace_by c_id k (conditions (work s))\<rparr>"
    "work t = committed t"
    by (auto simp: save_condition_def save_row_eq bnd_def run_refresh split: if_splits option.splits)
  from assms have "find_first (\<lambda>x. c_id x = c_id k) (replace_by c_id k (conditions (work s))) = Some k'"
    by (auto simp: save_condition_def save_row_eq bnd_def run_refresh split: if_splits option.splits)
  then show "k' = k"
    by (cases "c_id k \<in> c_id ` set (conditions (work s))")
      (auto simp: find_replace_same dest: find_first_SomeD)
qed

lemma run_require_condition:
  "require_condition c s =
     (case find_first (\<lambda>k. c_id k = c) (conditions (work s)) of
        None \<Rightarrow> (Inl ConditionNotFoundError, s) | Some k \<Rightarrow> (Inr k, s))"
  by (simp add: require_condition_def get_condition_by_id_def bnd_session_steps split: option.splits)

lemma decide_Inr:
  assumes run: "decide f c u s = (Inr r, t)" and f: "\<And>n k. c_id (f n k) = c_id k"
  shows "\<exists>k. find_first (\<lambda>k. c_id k = c) (conditions (work s)) = Some k \<and>
     (\<exists>p a. find_first (\<lambda>p. p_user_id p = u \<and> p_agreement_id p = c_agreement_id k)
         (participants (work s)) = Some p \<and> p_role p = DEPOSITOR \<and>
       find_first (\<lambda>a. a_id a = c_agreement_id k) (agreements (work s)) = Some a \<and>
         a_status a = ACTIVE) \<and>
     decidable_status (c_status k) \<and> cr_condition r = f (clock s) k \<and>
     committed t = (work s)\<lparr>conditions := replace_by c_id (f (clock s) k) (conditions (work s))\<rparr>"
proof -
  from run obtain k where k: "find_first (\<lambda>k. c_id k = c) (conditions (work s)) = Some k"
    by (auto simp: decide_def bnd_def [of "require_condition _"] run_require_condition
        split: option.splits)
  then have read: "require_condition c s = (Inr k, s)" by (simp add: run_require_condition)
  obtain q v where q: "require_depositor k u s = (q, v)" by fastforce
  from run q obtain p where "q = Inr p"
    by (cases q) (auto simp: decide_def bnd_Inr [of "require_condition c", OF read] bnd_def [of "require_depositor _ _"])
  note p = require_depositor_Inr [OF q [unfolded this]]
  from q p(1) \<open>q = Inr p\<close> have q': "require_depositor k u s = (Inr p, s)" by simp
  obtain m w where m: "save_condition (f (clock s) k) s = (m, w)" by fastforce
  from run m have "\<exists>k'. m = Inr k'"
    by (cases m) (auto simp: decide_def bnd_Inr [of "require_condition c", OF read] bnd_Inr [of "require_depositor k u", OF q'] bnd_session_steps
        bnd_def [of "save_condition _"])
  then obtain k' where "m = Inr k'" ..
  note m' = m [unfolded this] and saved = save_condition_Inr [OF m [unfolded this]]
  from run have rest: "bnd (invalidate_conditions (c_agreement_id k') (Some c))
      (\<lambda>_. condition_response_of k') w = (Inr r, t)"
    by (simp add: decide_def bnd_Inr [of "require_condition c", OF read] bnd_Inr [of "require_depositor k u", OF q'] bnd_session_steps bnd_Inr [of "save_condition (f (clock s) k)", OF m'])
  have "stays reading (bnd (invalidate_conditions (c_agreement_id k') (Some c))
      (\<lambda>_. condition_response_of k'))" by (intro stays_intros)
  from reading_run [OF this rest] have t: "committed t = committed w" by simp
  from rest have "cr_condition r = k'"
    by (auto simp: bnd_def split: prod.splits sum.splits dest: condition_response_of_Inr)
  with k p saved t show ?thesis by auto
qed

text \<open>C32: A condition is decided only by the depositor of its agreement, while the agreement is
  active and the condition is not approved yet; the decision rewrites that one row and nothing else
  of the database, and the answer is that row.\<close>

theorem only_depositor_decides:
  assumes "approve_condition c u s = (Inr r, t) \<or> reject_condition c u re s = (Inr r, t)"
  shows "\<exists>k p a. find_first (\<lambda>k. c_id k = c) (conditions (work s)) = Some k \<and>
     c_status k \<noteq> COND_APPROVED \<and>
     p \<in> set (participants (work s)) \<and> p_user_id p = u \<and> p_agreement_id p = c_agreement_id k \<and>
     p_role p = DEPOSITOR \<and>
     a \<in> set (agreements (work s)) \<and> a_id a = c_agreement_id k \<and> a_status a = ACTIVE \<and>
     c_status (cr_condition r) \<in> {COND_APPROVED, COND_REJECTED} \<and>
     cr_condition r \<in> {k\<lparr>c_approved_at := Some (clock s), c_rejected_reason := None, c_status := COND_APPROVED\<rparr>,
       k\<lparr>c_rejected_reason := Some re, c_approved_at := None, c_status := COND_REJECTED\<rparr>} \<and>
     committed t = (work s)\<lparr>conditions := replace_by c_id (cr_condition r) (conditions (work s))\<rparr>"
  using assms unfolding decide_eq
proof (elim disjE, goal_cases)
  case 1
  from decide_Inr [OF this] show ?case
    by (fastforce dest: find_first_SomeD simp: decidable_status_def)
next
  case 2
  from decide_Inr [OF this] show ?case
    by (fastforce dest: find_first_SomeD simp: decidable_status_def)
qed

theorem only_depositor_decides_witness:
  "\<exists>r t. approve_condition ''co'' ''ua'' escrow_session = (Inr r, t) \<and>
     c_status (cr_condition r) = COND_APPROVED"
proof -
  have "\<exists>r t. approve_condition ''co'' ''ua'' escrow_session = (Inr r, t)"
    by (simp add: approve_condition_def require_condition_def get_condition_by_id_def
        require_depositor_def get_condition_participant_def decidable_status_def
        save_condition_def invalidate_conditions_def condition_response_of_def
        linked_participant_def participant_response_of_def option_m_def bnd_assoc step
        escrow_defs sample_defs condition_constraints_def replace_by_def)
  then obtain r t where run: "approve_condition ''co'' ''ua'' escrow_session = (Inr r, t)" by blast
  from only_depositor_decides [OF disjI1, OF run] run show ?thesis
    by (auto simp: decide_eq dest: decide_Inr)
qed

end
