(* ===== verification/Webhook.thy ===== *)
theory Webhook
  imports WalletService Notifications
begin

text \<open>
  Paystack webhooks: \<^verbatim>\<open>src/app/repository/webhook_event_repository.py\<close> (claim an event on its dedupe
  key, then record what became of it), \<^verbatim>\<open>src/app/service/paystack_webhook_service.py\<close> (the handlers)
  and the webhook route of \<^verbatim>\<open>src/app/routers/wallet.py\<close>.

  Parameters: the transport of the payment client; \<open>sha256\<close> (the hex digest of the raw body);
  \<open>hmac\<close> (the hex HMAC-SHA512 of the body under a key); \<open>parse\<close>, the JSON parser applied to the raw
  body (\<open>None\<close> when it is not JSON).
\<close>

section \<open>Event repository\<close>

definition max_attempts :: nat where
  "max_attempts = 5"

definition claim ::
  "string \<Rightarrow> string \<Rightarrow> string option \<Rightarrow> string option \<Rightarrow> bool handler"
where
  "claim dedupe_key event_type provider_event_id reference =
     bnd now (\<lambda>t.
     bnd uuid4 (\<lambda>u.
     bnd (select_first webhook_event_t (\<lambda>e. e_dedupe_key e = dedupe_key)) (\<lambda>existing.
     bnd (case existing of
            None \<Rightarrow>
              bnd (insert_row webhook_event_t
                \<lparr>e_id = u, e_provider = ''paystack'', e_dedupe_key = dedupe_key,
                 e_event_type = event_type, e_provider_event_id = provider_event_id,
                 e_reference = reference, e_status = WH_RECEIVED, e_attempts = 1, e_error = None,
                 e_received_at = t, e_processed_at = None\<rparr>) (\<lambda>_. return True)
          | Some e \<Rightarrow>
              if e_status e = WH_FAILED \<and> e_attempts e < max_attempts then
                bnd (save_row webhook_event_t
                  (e\<lparr>e_status := WH_RECEIVED, e_attempts := e_attempts e + 1,
                     e_received_at := t\<rparr>)) (\<lambda>_. return True)
              else return False) (\<lambda>claimed.
     bnd commit (\<lambda>_. return claimed)))))"

definition get_event :: "string \<Rightarrow> webhook_event option handler" where
  "get_event dedupe_key = select_first webhook_event_t (\<lambda>e. e_dedupe_key e = dedupe_key)"

definition mark_event :: "string \<Rightarrow> webhook_event_status \<Rightarrow> unit handler" where
  "mark_event dedupe_key status =
     bnd (get_event dedupe_key) (\<lambda>found.
     case found of
       None \<Rightarrow> return ()
     | Some e \<Rightarrow>
         bnd now (\<lambda>t.
         bnd (save_row webhook_event_t (e\<lparr>e_status := status, e_processed_at := Some t\<rparr>)) (\<lambda>_.
         commit)))"

definition mark_failed :: "string \<Rightarrow> exn + string \<Rightarrow> unit handler" where
  "mark_failed dedupe_key error =
     bnd rollback (\<lambda>_.
     bnd (get_event dedupe_key) (\<lambda>found.
     case found of
       None \<Rightarrow> return ()
     | Some e \<Rightarrow>
         bnd now (\<lambda>t.
         bnd (save_row webhook_event_t
                (e\<lparr>e_status := WH_FAILED, e_error := Some error, e_processed_at := Some t\<rparr>)) (\<lambda>_.
         commit))))"

section \<open>Outcomes\<close>

record notification_intent =
  ni_user_id :: id
  ni_type :: notification_type
  ni_metadata :: "metadata option"

record webhook_outcome =
  wo_http_status :: nat
  wo_status :: string
  wo_event_type :: string
  wo_notifications :: "notification_intent list"
  wo_ws_events :: "(id \<times> ws_frame) list"

definition outcome :: "nat \<Rightarrow> string \<Rightarrow> string \<Rightarrow> webhook_outcome" where
  "outcome http_status status event_type =
     \<lparr>wo_http_status = http_status, wo_status = status, wo_event_type = event_type,
      wo_notifications = [], wo_ws_events = []\<rparr>"

definition wallet_balances :: "wallet option \<Rightarrow> (money \<times> money \<times> money) option" where
  "wallet_balances w =
     map_option (\<lambda>w. (w_available_balance w, w_escrow_balance w,
                      w_available_balance w + w_escrow_balance w)) w"

record webhook_payload =
  wp_event :: string
  wp_data :: provider_data

text \<open>\<^verbatim>\<open>str\<close> of an integer.\<close>

definition int_str :: "int \<Rightarrow> string" where
  "int_str i = (if i < 0 then ''-'' @ nat_str (nat (- i)) else nat_str (nat i))"

text \<open>Values that are false in a Python condition: missing, zero, empty.\<close>

definition truthy_id :: "provider_data \<Rightarrow> int option" where
  "truthy_id d = (case pd_id d of None \<Rightarrow> None | Some i \<Rightarrow> if i = 0 then None else Some i)"

definition truthy_reference :: "provider_data \<Rightarrow> string option" where
  "truthy_reference d =
     (case pd_reference d of None \<Rightarrow> None | Some r \<Rightarrow> if r = '''' then None else Some r)"

definition build_dedupe_key :: "(string \<Rightarrow> string) \<Rightarrow> string \<Rightarrow> provider_data \<Rightarrow> string \<Rightarrow> string" where
  "build_dedupe_key sha256 event_type d raw_body =
     (let identifier = (case truthy_id d of
            Some i \<Rightarrow> int_str i
          | None \<Rightarrow> (case truthy_reference d of Some r \<Rightarrow> r | None \<Rightarrow> sha256 raw_body))
      in take 200 (''paystack:'' @ event_type @ '':'' @ identifier))"

definition to_kobo_str :: "money \<Rightarrow> string" where
  "to_kobo_str amount = int_str (py_int (amount * 100))"

section \<open>charge.success\<close>

definition credited_amount :: "int \<Rightarrow> money" where
  "credited_amount paid_kobo = quantize2 (of_int paid_kobo / 100)"

definition amount_note :: "money \<Rightarrow> int \<Rightarrow> string option" where
  "amount_note expected paid_kobo =
     (let credited = credited_amount paid_kobo;
          detail = to_kobo_str expected @ '' kobo, received '' @ int_str paid_kobo @ '' kobo'' in
      if credited < expected then Some (''Underpaid: expected '' @ detail)
      else if expected < credited then Some (''Overpaid: expected '' @ detail)
      else None)"

definition or_else :: "string option \<Rightarrow> string option \<Rightarrow> string option" where
  "or_else a b = (case a of None \<Rightarrow> b | Some x \<Rightarrow> if x = '''' then b else Some x)"

definition opt_json :: "('a \<Rightarrow> json) \<Rightarrow> 'a option \<Rightarrow> json" where
  "opt_json f x = (case x of None \<Rightarrow> JNull | Some v \<Rightarrow> f v)"

definition charge_leg ::
  "provider_data \<Rightarrow> paystack_transaction \<Rightarrow> money \<Rightarrow> string option \<Rightarrow> ledger_leg"
where
  "charge_leg d p credited note =
     (leg (pt_user_id p) DEPOSIT credited)
       \<lparr>l_paystack_transaction_id := Some (pt_id p),
        l_description := Some ''Wallet funding'',
        l_metadata := Some [(''channel'', opt_json JStr (pd_channel d)),
                            (''paystack_id'', opt_json JInt (pd_id d)),
                            (''note'', opt_json JStr note)]\<rparr>"

definition credit_charge ::
  "provider_data \<Rightarrow> paystack_transaction \<Rightarrow> int \<Rightarrow> webhook_outcome handler"
where
  "credit_charge d p paid_kobo =
     (let credited = credited_amount paid_kobo;
          note = amount_note (pt_amount p) paid_kobo;
          p' = p\<lparr>pt_amount := credited, pt_status := TX_SUCCESS, pt_paystack_id := pd_id d,
                 pt_payment_channel := pd_channel d,
                 pt_gateway_response := or_else note (pd_gateway_response d)\<rparr> in
      bnd (save_paystack_transaction p' False) (\<lambda>_.
      bnd (apply_entry (charge_leg d p credited note) (''dep_'' @ pt_reference p)
             ENTRY_COMPLETED None) (\<lambda>result.
      return
        \<lparr>wo_http_status = 200, wo_status = ''processed'', wo_event_type = ''charge.success'',
         wo_notifications =
           [\<lparr>ni_user_id = pt_user_id p, ni_type = WALLET_CREDITED,
             ni_metadata = Some [(''reference'', JStr (pt_reference p)), (''amount'', JDec credited)]\<rparr>],
         wo_ws_events =
           [(pt_user_id p, WsWallet ''WALLET_CREDITED'' None credited
               (wallet_balances (Some (lr_wallet result))))]\<rparr>)))"

text \<open>\<open>verified\<close> runs a verify call: \<open>None\<close> when it raised a \<^verbatim>\<open>PaystackError\<close>.\<close>

definition verified :: "provider_data handler \<Rightarrow> provider_data option handler" where
  "verified m =
     try_except (bnd m (\<lambda>d. return (Some d)))
       (\<lambda>err. if is_paystack_error err then return None else raise err)"

definition status_is_success :: "provider_data \<Rightarrow> bool" where
  "status_is_success v \<longleftrightarrow> lower (case pd_status v of None \<Rightarrow> '''' | Some x \<Rightarrow> x) = ''success''"

definition handle_charge_success :: "transport \<Rightarrow> provider_data \<Rightarrow> webhook_outcome handler" where
  "handle_charge_success net d =
     (case truthy_reference d of
        None \<Rightarrow> return (outcome 200 ''ignored'' ''charge.success'')
      | Some reference \<Rightarrow>
     bnd (get_paystack_transaction reference) (\<lambda>found.
     case found of
       None \<Rightarrow> return (outcome 200 ''unknown_reference'' ''charge.success'')
     | Some p \<Rightarrow>
     if pt_status p \<noteq> TX_PENDING then return (outcome 200 ''already_processed'' ''charge.success'')
     else
     bnd (verified (verify_transaction net reference)) (\<lambda>v.
     case v of
       None \<Rightarrow> return (outcome 500 ''verify_failed'' ''charge.success'')
     | Some v \<Rightarrow>
     if \<not> status_is_success v then return (outcome 200 ''not_verified'' ''charge.success'')
     else if upper (case or_else (pd_currency v) (pd_currency d) of None \<Rightarrow> '''' | Some c \<Rightarrow> c) \<noteq> ''NGN''
     then return (outcome 200 ''unsupported_currency'' ''charge.success'')
     else
     (case pd_amount v of
        None \<Rightarrow> return (outcome 200 ''malformed'' ''charge.success'')
      | Some paid_kobo \<Rightarrow> credit_charge d p paid_kobo))))"

section \<open>transfer.*\<close>

definition handle_transfer_success :: "transport \<Rightarrow> provider_data \<Rightarrow> webhook_outcome handler" where
  "handle_transfer_success net d =
     (case truthy_reference d of
        None \<Rightarrow> return (outcome 200 ''ignored'' ''transfer.success'')
      | Some reference \<Rightarrow>
     bnd (get_paystack_transaction reference) (\<lambda>found.
     case found of
       None \<Rightarrow> return (outcome 200 ''unknown_reference'' ''transfer.success'')
     | Some p \<Rightarrow>
     if pt_status p \<noteq> TX_PENDING then return (outcome 200 ''already_processed'' ''transfer.success'')
     else
     bnd (verified (verify_transfer net reference)) (\<lambda>v.
     case v of
       None \<Rightarrow> return (outcome 500 ''verify_failed'' ''transfer.success'')
     | Some v \<Rightarrow>
     if \<not> status_is_success v then return (outcome 200 ''not_verified'' ''transfer.success'')
     else
     bnd now (\<lambda>t.
     bnd (save_paystack_transaction
            (p\<lparr>pt_status := TX_SUCCESS, pt_paystack_id := pd_id d,
               pt_transfer_code := pd_transfer_code d\<rparr>) False) (\<lambda>_.
     bnd (mark_entry_status (wd_ref reference) ENTRY_COMPLETED (Some t) True) (\<lambda>_.
     bnd (get_user_wallet (pt_user_id p)) (\<lambda>w.
     return
       \<lparr>wo_http_status = 200, wo_status = ''processed'', wo_event_type = ''transfer.success'',
        wo_notifications =
          [\<lparr>ni_user_id = pt_user_id p, ni_type = WITHDRAWAL_COMPLETED,
            ni_metadata = Some [(''reference'', JStr reference)]\<rparr>],
        wo_ws_events =
          [(pt_user_id p, WsWallet ''WITHDRAWAL_COMPLETED'' (Some reference) (pt_amount p)
              (wallet_balances w))]\<rparr>)))))))"

definition reversal_allowed :: "transaction_status \<Rightarrow> transaction_status set" where
  "reversal_allowed final_status =
     (if final_status = TX_REFUNDED then {TX_PENDING, TX_SUCCESS} else {TX_PENDING})"

definition reversal_reason :: "provider_data \<Rightarrow> string" where
  "reversal_reason d =
     (case or_else (pd_reason d) (pd_gateway_response d) of
        None \<Rightarrow> ''Transfer failed'' | Some r \<Rightarrow> default_message r ''Transfer failed'')"

definition bank_reversal_leg :: "provider_data \<Rightarrow> paystack_transaction \<Rightarrow> transaction \<Rightarrow> ledger_leg" where
  "bank_reversal_leg d p original =
     (leg (pt_user_id p) WITHDRAWAL_REVERSAL (t_amount original))
       \<lparr>l_paystack_transaction_id := Some (pt_id p),
        l_description := Some ''Withdrawal reversed by bank'',
        l_metadata := Some [(''reason'', JStr (take 255 (reversal_reason d))),
                            (''original_entry_id'', JStr (t_id original))]\<rparr>"

definition handle_transfer_reversal ::
  "provider_data \<Rightarrow> transaction_status \<Rightarrow> webhook_outcome handler"
where
  "handle_transfer_reversal d final_status =
     (case truthy_reference d of
        None \<Rightarrow> return (outcome 200 ''ignored'' ''transfer.reversal'')
      | Some reference \<Rightarrow>
     bnd (get_paystack_transaction reference) (\<lambda>found.
     case found of
       None \<Rightarrow> return (outcome 200 ''unknown_reference'' ''transfer.reversal'')
     | Some p \<Rightarrow>
     if pt_status p \<notin> reversal_allowed final_status
     then return (outcome 200 ''already_processed'' ''transfer.reversal'')
     else
     let reason = reversal_reason d;
         p' = p\<lparr>pt_status := final_status, pt_failure_reason := Some (take 255 reason)\<rparr> in
     bnd (get_entry_by_reference (wd_ref reference)) (\<lambda>original.
     case original of
       None \<Rightarrow>
         bnd (save_paystack_transaction p' True) (\<lambda>_.
         return (outcome 200 ''no_ledger_entry'' ''transfer.reversal''))
     | Some original \<Rightarrow>
     bnd (save_paystack_transaction p' False) (\<lambda>_.
     bnd (mark_entry_status (t_reference original) ENTRY_REVERSED None False) (\<lambda>_.
     bnd (apply_entry (bank_reversal_leg d p original) (wdrev_ref reference)
            ENTRY_COMPLETED None) (\<lambda>result.
     return
       \<lparr>wo_http_status = 200, wo_status = ''reversed'', wo_event_type = ''transfer.reversal'',
        wo_notifications =
          [\<lparr>ni_user_id = pt_user_id p, ni_type = WITHDRAWAL_FAILED,
            ni_metadata = Some [(''reference'', JStr reference), (''reason'', JStr (take 255 reason))]\<rparr>],
        wo_ws_events =
          [(pt_user_id p, WsWallet ''WITHDRAWAL_FAILED'' (Some reference) (t_amount original)
              (wallet_balances (Some (lr_wallet result))))]\<rparr>))))))"

section \<open>Dispatch\<close>

definition event_handler ::
  "transport \<Rightarrow> string \<Rightarrow> provider_data \<Rightarrow> webhook_outcome handler option"
where
  "event_handler net event_type d =
     (if event_type = ''charge.success'' then Some (handle_charge_success net d)
      else if event_type = ''transfer.success'' then Some (handle_transfer_success net d)
      else if event_type = ''transfer.failed'' then Some (handle_transfer_reversal d TX_FAILED)
      else if event_type = ''transfer.reversed'' then Some (handle_transfer_reversal d TX_REFUNDED)
      else None)"

text \<open>The two \<^verbatim>\<open>except\<close> clauses: a rejected event is acknowledged, a crash asks for redelivery.\<close>

definition failed_outcome :: "string \<Rightarrow> string \<Rightarrow> exn \<Rightarrow> webhook_outcome handler" where
  "failed_outcome dedupe_key event_type err =
     bnd (mark_failed dedupe_key (Inl err)) (\<lambda>_.
     return
       (case app_error err of
          Some (code, status_code) \<Rightarrow>
            outcome (if status_code < 500 then 200 else 500) ''failed'' event_type
        | None \<Rightarrow> outcome 500 ''error'' event_type))"

definition finish_event :: "string \<Rightarrow> webhook_outcome \<Rightarrow> webhook_outcome handler" where
  "finish_event dedupe_key out =
     bnd (if 500 \<le> wo_http_status out then mark_failed dedupe_key (Inr (wo_status out))
          else mark_event dedupe_key WH_PROCESSED) (\<lambda>_.
     return out)"

definition handle_event ::
  "transport \<Rightarrow> (string \<Rightarrow> string) \<Rightarrow> webhook_payload \<Rightarrow> string \<Rightarrow> webhook_outcome handler"
where
  "handle_event net sha256 payload raw_body =
     (let event_type = wp_event payload;
          d = wp_data payload;
          dedupe_key = build_dedupe_key sha256 event_type d raw_body in
      bnd (claim dedupe_key event_type (map_option int_str (truthy_id d)) (pd_reference d)) (\<lambda>claimed.
      if \<not> claimed then return (outcome 200 ''duplicate'' event_type)
      else
        (case event_handler net event_type d of
           None \<Rightarrow>
             bnd (mark_event dedupe_key WH_IGNORED) (\<lambda>_.
             return (outcome 200 ''ignored'' event_type))
         | Some h \<Rightarrow>
             bnd (try_except (bnd h (\<lambda>out. return (Inr out)))
                    (\<lambda>err. bnd (failed_outcome dedupe_key event_type err) (\<lambda>out. return (Inl out))))
               (\<lambda>result.
             case result of
               Inl out \<Rightarrow> return out
             | Inr out \<Rightarrow> finish_event dedupe_key out))))"

section \<open>Route\<close>

definition verify_paystack_signature ::
  "settings \<Rightarrow> (string \<Rightarrow> string \<Rightarrow> string) \<Rightarrow> string \<Rightarrow> string option \<Rightarrow> exn + bool"
where
  "verify_paystack_signature cfg hmac raw_body provided =
     (case provided of
        None \<Rightarrow> Inr False
      | Some sig \<Rightarrow>
          if sig = '''' then Inr False
          else (case paystack_webhook_secret cfg of
                  Inl e \<Rightarrow> Inl e
                | Inr secret \<Rightarrow> Inr (hmac secret raw_body = sig)))"

definition paystack_webhook ::
  "settings \<Rightarrow> transport \<Rightarrow> (string \<Rightarrow> string) \<Rightarrow> (string \<Rightarrow> string \<Rightarrow> string) \<Rightarrow>
   (string \<Rightarrow> webhook_payload option) \<Rightarrow> string \<Rightarrow> string option \<Rightarrow> (nat \<times> string) handler"
where
  "paystack_webhook cfg net sha256 hmac parse raw_body signature =
     (case verify_paystack_signature cfg hmac raw_body signature of
        Inl e \<Rightarrow> raise e
      | Inr valid \<Rightarrow>
          if \<not> valid then raise (HTTPException 401)
          else
            (case parse raw_body of
               None \<Rightarrow> return (200, ''ignored'')
             | Some payload \<Rightarrow>
                 bnd (handle_event net sha256 payload raw_body) (\<lambda>out.
                 bnd (for_each (\<lambda>n. best_effort
                        (bnd (create_notification (ni_user_id n) (ni_type n) (ni_metadata n))
                           (\<lambda>_. return ()))) (wo_notifications out)) (\<lambda>_.
                 bnd (for_each (\<lambda>(user_id, fr). best_effort (push_ws user_id fr))
                        (wo_ws_events out)) (\<lambda>_.
                 return (wo_http_status out, wo_status out))))))"

section \<open>What the webhook keeps\<close>

lemma event_repo_keeps [keeps_intros]:
  assumes "stable I webhook_event_t"
  shows "keeps (both I) (claim k ty pe ref)" "keeps (both I) (mark_event k st)"
    "keeps (both I) (mark_failed k err)" "keeps (both I) (failed_outcome k ty e)"
    "keeps (both I) (finish_event k out)"
proof -
  show "keeps (both I) (claim k ty pe ref)"
    unfolding claim_def by (intro keeps_intros assms)
  show mark: "keeps (both I) (mark_event k st)" for st
    unfolding mark_event_def get_event_def by (intro keeps_intros assms)
  show failed: "keeps (both I) (mark_failed k err)" for err
    unfolding mark_failed_def get_event_def by (intro keeps_intros assms)
  show "keeps (both I) (failed_outcome k ty e)"
    unfolding failed_outcome_def by (intro keeps_intros failed)
  show "keeps (both I) (finish_event k out)"
    unfolding finish_event_def by (intro keeps_intros mark failed)
qed

lemma handlers_keep [keeps_intros]:
  "keeps (both ledger_inv) (handle_charge_success net d)"
  "keeps (both ledger_inv) (handle_transfer_success net d)"
  "keeps (both ledger_inv) (handle_transfer_reversal d fs)"
  unfolding handle_charge_success_def credit_charge_def handle_transfer_success_def
    handle_transfer_reversal_def verified_def Let_def
  by (intro keeps_intros)+

lemma handle_event_keeps:
  assumes "stable I webhook_event_t"
    and "\<And>h. event_handler net (wp_event p) (wp_data p) = Some h \<Longrightarrow> keeps (both I) h"
  shows "keeps (both I) (handle_event net sha256 p raw)"
proof (cases "event_handler net (wp_event p) (wp_data p)")
  case None
  show ?thesis unfolding handle_event_def Let_def None option.case
    by (intro keeps_intros assms)
next
  case (Some h)
  show ?thesis unfolding handle_event_def Let_def Some option.case
    by (intro keeps_intros assms(1) assms(2) [OF Some])
qed

lemma webhook_ledger_keeps [keeps_intros]:
  "keeps (both ledger_inv) (handle_event net sha256 p raw)"
  by (rule handle_event_keeps)
    (auto simp: event_handler_def intro: keeps_intros split: if_splits)

lemma paystack_webhook_keeps:
  assumes "stable I notification_t" and "\<And>p. keeps (both I) (handle_event net sha256 p raw)"
  shows "keeps (both I) (paystack_webhook cfg net sha256 hmac parse raw sig)"
  unfolding paystack_webhook_def by (intro keeps_intros assms)

lemma handlers_table_frame [stays_intros]:
  assumes "apart T wallet_t" and "apart T transaction_t" and "apart T paystack_t"
  shows "stays (table_frame T) (handle_charge_success net d)"
    "stays (table_frame T) (handle_transfer_success net d)"
    "stays (table_frame T) (handle_transfer_reversal d fs)"
  unfolding handle_charge_success_def credit_charge_def handle_transfer_success_def
    handle_transfer_reversal_def verified_def Let_def
  by (intro stays_intros assms)+

lemma handlers_append_only [stays_intros]:
  "stays append_only (handle_charge_success net d)"
  "stays append_only (handle_transfer_success net d)"
  "stays append_only (handle_transfer_reversal d fs)"
  unfolding handle_charge_success_def credit_charge_def handle_transfer_success_def
    handle_transfer_reversal_def verified_def Let_def
  by (intro stays_intros)+

section \<open>Attempts are bounded\<close>

definition attempts_ok :: "db \<Rightarrow> bool" where
  "attempts_ok d \<longleftrightarrow>
     list_all (\<lambda>e. 1 \<le> e_attempts e \<and> e_attempts e \<le> max_attempts) (webhook_events d)"

lemma attempts_stable:
  "stable attempts_ok wallet_t" "stable attempts_ok transaction_t" "stable attempts_ok paystack_t"
  "stable attempts_ok notification_t"
  by (simp_all add: stable_def attempts_ok_def)

lemma claim_attempts: "keeps (both attempts_ok) (claim k ty pe ref)"
  unfolding keeps_def
proof (intro allI impI)
  fix s assume inv: "both attempts_ok s"
  then show "both attempts_ok (snd (claim k ty pe ref s))"
    by (auto simp: claim_def step both_def attempts_ok_def max_attempts_def list_all_iff
        dest!: set_replaceD find_first_SomeD split: option.split)
qed

lemma mark_attempts:
  "keeps (both attempts_ok) (mark_event k st)" "keeps (both attempts_ok) (mark_failed k err)"
  unfolding keeps_def
  by (auto simp: mark_event_def mark_failed_def get_event_def step both_def attempts_ok_def
      list_all_iff dest!: set_replaceD find_first_SomeD split: option.split)

lemma handlers_attempts:
  "event_handler net ty d = Some h \<Longrightarrow> keeps (both attempts_ok) h"
proof -
  note repo = repo_keeps_stable [OF attempts_stable(1,2)]
  have "keeps (both attempts_ok) (handle_charge_success net d)"
    "keeps (both attempts_ok) (handle_transfer_success net d)"
    "keeps (both attempts_ok) (handle_transfer_reversal d fs)" for fs
    unfolding handle_charge_success_def credit_charge_def handle_transfer_success_def
      handle_transfer_reversal_def verified_def Let_def
    by (intro keeps_intros repo attempts_stable)+
  then show "event_handler net ty d = Some h \<Longrightarrow> keeps (both attempts_ok) h"
    by (auto simp: event_handler_def split: if_splits)
qed

lemma handle_event_attempts: "keeps (both attempts_ok) (handle_event net sha256 p raw)"
proof -
  have fail: "keeps (both attempts_ok) (failed_outcome k ty e)"
    "keeps (both attempts_ok) (finish_event k out)" for k ty e out
    unfolding failed_outcome_def finish_event_def by (intro keeps_intros mark_attempts)+
  show ?thesis
  proof (cases "event_handler net (wp_event p) (wp_data p)")
    case None
    show ?thesis unfolding handle_event_def Let_def None option.case
      by (intro keeps_intros claim_attempts mark_attempts)
  next
    case (Some h)
    show ?thesis unfolding handle_event_def Let_def Some option.case
      by (intro keeps_intros claim_attempts mark_attempts fail handlers_attempts [OF Some])
  qed
qed

section \<open>An event through its life\<close>

text \<open>The event with this key is stored, committed, and has the status.\<close>

definition recorded :: "string \<Rightarrow> (webhook_event_status \<Rightarrow> bool) \<Rightarrow> session \<Rightarrow> bool" where
  "recorded k Q s \<longleftrightarrow>
     webhook_event_constraints (webhook_events (work s)) \<and>
     webhook_events (committed s) = webhook_events (work s) \<and>
     (\<exists>e. find_first (\<lambda>e. e_dedupe_key e = k) (webhook_events (work s)) = Some e \<and> Q (e_status e))"

lemma recorded_frame:
  assumes "recorded k Q s" and "stays (table_frame webhook_event_t) m" and "m s = (r, t)"
  shows "recorded k Q t"
  using table_frameD [OF assms(2,3)] assms(1) by (auto simp: recorded_def)

lemma find_event_replaced:
  assumes "webhook_event_constraints es" and "find_first (\<lambda>e. e_dedupe_key e = k) es = Some e"
    and "e_id e' = e_id e" and "e_dedupe_key e' = k"
  shows "find_first (\<lambda>e. e_dedupe_key e = k) (replace_by e_id e' es) = Some e'"
  using assms
proof (induction es)
  case (Cons x es)
  show ?case
  proof (cases "e_dedupe_key x = k")
    case True
    with Cons.prems have "x = e" by simp
    with Cons.prems show ?thesis by simp
  next
    case False
    with Cons.prems have f: "find_first (\<lambda>e. e_dedupe_key e = k) es = Some e" by simp
    with Cons.prems have "e_id x \<noteq> e_id e" 
      by (auto simp: webhook_event_constraints_def dest!: find_first_SomeD)
    with Cons f False show ?thesis by (simp add: webhook_event_constraints_def)
  qed
qed simp

lemma event_constraints_replaced:
  assumes "webhook_event_constraints es" and "find_first (\<lambda>e. e_dedupe_key e = k) es = Some e"
    and "e_id e' = e_id e" and "e_dedupe_key e' = k"
  shows "webhook_event_constraints (replace_by e_id e' es)"
proof -
  from find_first_SomeD [OF assms(2)] have "e \<in> set es" "e_dedupe_key e = k" by auto
  then have "map e_dedupe_key (replace_by e_id e' es) = map e_dedupe_key es"
    using assms by (intro map_replace_same_field [where x = e])
      (auto simp: webhook_event_constraints_def)
  with assms(1) show ?thesis by (simp add: webhook_event_constraints_def)
qed

lemma recorded_mark:
  assumes "recorded k Q s"
  shows "\<exists>t. mark_event k st s = (Inr (), t) \<and> recorded k (\<lambda>x. x = st) t \<and> committed t = work t"
proof -
  from assms obtain e where e:
    "find_first (\<lambda>e. e_dedupe_key e = k) (webhook_events (work s)) = Some e"
    and c: "webhook_event_constraints (webhook_events (work s))" by (auto simp: recorded_def)
  let ?e = "e\<lparr>e_status := st, e_processed_at := Some (clock s)\<rparr>"
  from e have k: "e_dedupe_key ?e = k" by (auto dest: find_first_SomeD)
  have "webhook_event_constraints (replace_by e_id ?e (webhook_events (work s)))"
    by (rule event_constraints_replaced [OF c e _ k]) simp
  moreover have "find_first (\<lambda>e. e_dedupe_key e = k) (replace_by e_id ?e (webhook_events (work s))) = Some ?e"
    by (rule find_event_replaced [OF c e _ k]) simp
  ultimately show ?thesis
    using e by (simp add: mark_event_def get_event_def step recorded_def)
qed

lemma claim_records:
  assumes "webhook_event_constraints (webhook_events (work s))"
    and "claim k ty pe ref s = (Inr True, t)"
  shows "recorded k (\<lambda>x. x = WH_RECEIVED) t"
proof (cases "find_first (\<lambda>e. e_dedupe_key e = k) (webhook_events (work s))")
  case None
  with assms(2) show ?thesis
    by (auto simp: claim_def step recorded_def find_first_append split: if_splits)
next
  case (Some e)
  let ?e = "e\<lparr>e_status := WH_RECEIVED, e_attempts := e_attempts e + 1, e_received_at := clock s\<rparr>"
  from Some have k: "e_dedupe_key ?e = k" by (auto dest: find_first_SomeD)
  have "find_first (\<lambda>e. e_dedupe_key e = k) (replace_by e_id ?e (webhook_events (work s))) = Some ?e"
    by (rule find_event_replaced [OF assms(1) Some _ k]) simp
  with Some assms(2) show ?thesis
    by (auto simp: claim_def step recorded_def split: if_splits)
qed

text \<open>An event that is not FAILED is never claimed again.\<close>

lemma claim_refused:
  assumes "recorded k (\<lambda>x. x \<noteq> WH_FAILED) s"
  shows "claim k ty pe ref s =
    (Inr False, s\<lparr>uuid_next := Suc (uuid_next s), committed := work s\<rparr>)"
  using assms by (auto simp: recorded_def claim_def step)

lemma duplicate_ignored:
  assumes "recorded (build_dedupe_key sha256 (wp_event p) (wp_data p) raw) (\<lambda>x. x \<noteq> WH_FAILED) s"
    and "committed s = work s"
  shows "handle_event net sha256 p raw s =
    (Inr (outcome 200 ''duplicate'' (wp_event p)), s\<lparr>uuid_next := Suc (uuid_next s)\<rparr>)"
proof -
  have "s\<lparr>uuid_next := n, committed := work s\<rparr> = s\<lparr>uuid_next := n\<rparr>" for n
    using assms(2) by simp
  with claim_refused [OF assms(1)] show ?thesis
    by (simp add: handle_event_def Let_def bnd_def [of "claim _ _ _ _"])
qed

lemma handler_table_frame:
  "event_handler net ty d = Some h \<Longrightarrow> stays (table_frame webhook_event_t) h"
  by (auto simp: event_handler_def apart_def intro!: handlers_table_frame split: if_splits)

section \<open>Properties\<close>

text \<open>However often an event is redelivered and however its handler fails, it is driven at most
  five times: the attempts column of every stored event stays between 1 and the limit.\<close>

theorem webhook_attempts_bounded:
  "keeps (both attempts_ok) (handle_event net sha256 p raw) \<and>
   keeps (both attempts_ok) (paystack_webhook cfg net sha256 hmac parse raw sig)"
  by (intro conjI handle_event_attempts paystack_webhook_keeps attempts_stable)

text \<open>C26: Redelivery is a no-op: once an event has been answered (processed, ignored, or recognised
  as a duplicate, that is with any outcome but a failure), the same delivery again is answered
  \<open>duplicate\<close> and changes nothing in the session but a drawn id: no request is sent, no entry
  written, no balance moved.\<close>

theorem redelivery_is_ignored:
  assumes "webhook_event_constraints (webhook_events (work s))"
    and "handle_event net sha256 p raw s = (Inr out, t)"
    and "wo_http_status out = 200" and "wo_status out \<noteq> ''failed''" and "wo_status out \<noteq> ''duplicate''"
  shows "handle_event net' sha256 p raw t =
    (Inr (outcome 200 ''duplicate'' (wp_event p)), t\<lparr>uuid_next := Suc (uuid_next t)\<rparr>)"
proof (rule duplicate_ignored)
  let ?k = "build_dedupe_key sha256 (wp_event p) (wp_data p) raw"
  let ?claim = "claim ?k (wp_event p) (map_option int_str (truthy_id (wp_data p))) (pd_reference (wp_data p))"
  obtain c u where cu: "?claim s = (c, u)" by fastforce
  have "c = Inr True"
  proof (cases c)
    case (Inl e)
    with assms(2) cu show ?thesis
      by (simp add: handle_event_def Let_def bnd_def [of "claim _ _ _ _"])
  next
    case (Inr b)
    with assms(2,5) cu show ?thesis
      by (cases b) (auto simp: handle_event_def Let_def bnd_def [of "claim _ _ _ _"] outcome_def)
  qed
  note claimed = cu [unfolded this]
  from claim_records [OF assms(1) claimed] have rec: "recorded ?k (\<lambda>x. x = WH_RECEIVED) u" .
  have "recorded ?k (\<lambda>x. x \<noteq> WH_FAILED) t \<and> committed t = work t"
  proof (cases "event_handler net (wp_event p) (wp_data p)")
    case None
    with assms(2) claimed have "bnd (mark_event ?k WH_IGNORED) (\<lambda>_. return (outcome 200 ''ignored'' (wp_event p))) u
        = (Inr out, t)"
      by (simp add: handle_event_def Let_def bnd_def [of "claim _ _ _ _"])
    with recorded_mark [OF rec, of WH_IGNORED] show ?thesis
      by (auto simp: recorded_def elim!: bnd_InrE)
  next
    case (Some h)
    obtain o' v where h: "h u = (o', v)" by fastforce
    from recorded_frame [OF rec handler_table_frame [OF Some] h] have
      rec': "recorded ?k (\<lambda>x. x = WH_RECEIVED) v" .
    have run: "(case o' of
        Inr out' \<Rightarrow> finish_event ?k out' v
      | Inl err \<Rightarrow> failed_outcome ?k (wp_event p) err v) = (Inr out, t)"
      using assms(2) claimed Some h
      by (auto simp: handle_event_def Let_def bnd_def run_try split: sum.splits prod.splits)
    show ?thesis
    proof (cases o')
      case (Inl err)
      with run assms(3,4) show ?thesis
        by (auto simp: failed_outcome_def outcome_def elim!: bnd_InrE split: option.splits if_splits)
    next
      case (Inr out')
      with run have "out' = out" by (auto simp: finish_event_def elim!: bnd_InrE)
      with Inr run assms(3) have "bnd (mark_event ?k WH_PROCESSED) (\<lambda>_. return out) v = (Inr out, t)"
        by (simp add: finish_event_def)
      with recorded_mark [OF rec', of WH_PROCESSED] show ?thesis
        by (auto simp: recorded_def elim!: bnd_InrE)
    qed
  qed
  then show "recorded ?k (\<lambda>x. x \<noteq> WH_FAILED) t" "committed t = work t" by simp_all
qed

text \<open>A card payment of 50.00 that Bob started, and the webhook that reports it.\<close>

definition charge_row :: paystack_transaction where
  "charge_row =
     \<lparr>pt_id = ''p1'', pt_user_id = ''ub'', pt_reference = ''ESC-1'', pt_paystack_id = None,
      pt_amount = 50, pt_currency = ''NGN'', pt_status = TX_PENDING,
      pt_transaction_type = PT_ESCROW_DEPOSIT, pt_transfer_code = None, pt_recipient_code = None,
      pt_bank_account_id = None, pt_failure_reason = None, pt_payment_channel = Some ''card'',
      pt_gateway_response = None, pt_created_at = 5\<rparr>"

definition charge_session :: session where
  "charge_session = sample_session (money_db\<lparr>paystack_transactions := [charge_row]\<rparr>)"

definition charge_data :: provider_data where
  "charge_data = no_data\<lparr>pd_id := Some 77, pd_reference := Some ''ESC-1'',
     pd_status := Some ''success'', pd_currency := Some ''NGN'', pd_amount := Some 4000\<rparr>"

definition charge_payload :: webhook_payload where
  "charge_payload = \<lparr>wp_event = ''charge.success'', wp_data = charge_data\<rparr>"

definition honest_net :: transport where
  "honest_net = (\<lambda>_ _. Response 200 (Some \<lparr>rb_status = True, rb_message = ''ok'',
     rb_data = Some (Fields charge_data)\<rparr>))"

definition unknown_payload :: webhook_payload where
  "unknown_payload = \<lparr>wp_event = ''invoice.create'', wp_data = charge_data\<rparr>"

theorem redelivery_is_ignored_witness:
  "\<exists>t. handle_event honest_net (\<lambda>_. ''h'') unknown_payload ''raw'' charge_session =
         (Inr (outcome 200 ''ignored'' ''invoice.create''), t) \<and>
     handle_event honest_net (\<lambda>_. ''h'') unknown_payload ''raw'' t =
         (Inr (outcome 200 ''duplicate'' ''invoice.create''), t\<lparr>uuid_next := Suc (uuid_next t)\<rparr>)"
proof -
  have c: "webhook_event_constraints (webhook_events (work charge_session))"
    by (simp add: charge_session_def sample_defs webhook_event_constraints_def)
  have "\<exists>t. handle_event honest_net (\<lambda>_. ''h'') unknown_payload ''raw'' charge_session =
         (Inr (outcome 200 ''ignored'' ''invoice.create''), t)"
    by (simp add: handle_event_def Let_def claim_def unknown_payload_def charge_session_def
        sample_defs step event_handler_def mark_event_def get_event_def
        webhook_event_constraints_def)
  then obtain t where t: "handle_event honest_net (\<lambda>_. ''h'') unknown_payload ''raw'' charge_session =
         (Inr (outcome 200 ''ignored'' ''invoice.create''), t)" ..
  have "handle_event honest_net (\<lambda>_. ''h'') unknown_payload ''raw'' t =
    (Inr (outcome 200 ''duplicate'' (wp_event unknown_payload)), t\<lparr>uuid_next := Suc (uuid_next t)\<rparr>)"
    by (rule redelivery_is_ignored [OF c t]) (simp_all add: outcome_def)
  with t show ?thesis by (auto simp: unknown_payload_def)
qed

section \<open>What a deposit credits\<close>

lemma credited_amount_exact: "credited_amount k = of_int k / 100"
  by (simp add: credited_amount_def)

lemma verified_Some:
  assumes "verified m s = (Inr (Some v), t)"
  shows "m s = (Inr v, t)"
  using assms
  by (auto simp: verified_def run_try bnd_def split: prod.splits sum.splits if_splits)

lemma charge_processed_cases:
  assumes run: "handle_charge_success net d s = (Inr out, t)" and out: "wo_status out = ''processed''"
  obtains reference p v k u where
    "truthy_reference d = Some reference"
    "find_first (\<lambda>p. pt_reference p = reference) (paystack_transactions (work s)) = Some p"
    "pt_status p = TX_PENDING" "verify_transaction net reference s = (Inr v, u)"
    "status_is_success v" "pd_amount v = Some k"
    "upper (case or_else (pd_currency v) (pd_currency d) of None \<Rightarrow> '''' | Some c \<Rightarrow> c) = ''NGN''"
    "credit_charge d p k u = (Inr out, t)"
proof -
  from run out obtain reference where ref: "truthy_reference d = Some reference"
    by (auto simp: handle_charge_success_def outcome_def split: option.splits)
  from run out ref obtain p where p:
    "find_first (\<lambda>p. pt_reference p = reference) (paystack_transactions (work s)) = Some p"
    "pt_status p = TX_PENDING"
    by (auto simp: handle_charge_success_def outcome_def get_paystack_transaction_def step
        split: option.splits if_splits)
  let ?rest = "\<lambda>v. case v of
       None \<Rightarrow> return (outcome 500 ''verify_failed'' ''charge.success'')
     | Some v \<Rightarrow>
     if \<not> status_is_success v then return (outcome 200 ''not_verified'' ''charge.success'')
     else if upper (case or_else (pd_currency v) (pd_currency d) of None \<Rightarrow> '''' | Some c \<Rightarrow> c) \<noteq> ''NGN''
     then return (outcome 200 ''unsupported_currency'' ''charge.success'')
     else
     (case pd_amount v of
        None \<Rightarrow> return (outcome 200 ''malformed'' ''charge.success'')
      | Some paid_kobo \<Rightarrow> credit_charge d p paid_kobo)"
  from run ref p have "bnd (verified (verify_transaction net reference)) ?rest s = (Inr out, t)"
    by (simp add: handle_charge_success_def get_paystack_transaction_def step)
  then obtain v u where v: "verified (verify_transaction net reference) s = (Inr v, u)"
    and rest: "?rest v u = (Inr out, t)" by (rule bnd_InrE)
  from rest out obtain w k where "v = Some w" "status_is_success w" "pd_amount w = Some k"
    "upper (case or_else (pd_currency w) (pd_currency d) of None \<Rightarrow> '''' | Some c \<Rightarrow> c) = ''NGN''"
    "credit_charge d p k u = (Inr out, t)"
    by (auto simp: outcome_def split: option.splits if_splits)
  with that ref p verified_Some v show ?thesis by blast
qed

text \<open>C27: A deposit is credited only on the provider's own word and exactly to the kobo: when the
  webhook of a charge is processed, the payment was recorded here as pending, a verify call for
  its reference succeeded and named a currency of naira and an amount, and the ledger holds one
  committed credit of exactly that amount, under the payment's reference, on the user who started
  the payment (never the amount of the webhook's body).\<close>

theorem charge_credits_verified_amount:
  assumes "ledger_inv (work s)" and "committed s = work s"
    and "find_first (\<lambda>t. t_reference t = ''dep_'' @ reference) (transactions (work s)) = None"
    and "truthy_reference d = Some reference"
    and "handle_charge_success net d s = (Inr out, t)" and "wo_status out = ''processed''"
  shows "\<exists>p v k e. find_first (\<lambda>p. pt_reference p = reference) (paystack_transactions (work s)) = Some p \<and>
     pt_status p = TX_PENDING \<and> fst (verify_transaction net reference s) = Inr v \<and>
     status_is_success v \<and> pd_amount v = Some k \<and>
     e \<in> set (transactions (committed t)) \<and> t_reference e = ''dep_'' @ reference \<and>
     t_type e = DEPOSIT \<and> t_user_id e = pt_user_id p \<and>
     t_available_delta e = of_int k / 100 \<and> t_escrow_delta e = 0 \<and> 0 < k"
proof -
  from charge_processed_cases [OF assms(5,6)] assms(4) obtain p v k u where
    p: "find_first (\<lambda>p. pt_reference p = reference) (paystack_transactions (work s)) = Some p"
    "pt_status p = TX_PENDING" and v: "verify_transaction net reference s = (Inr v, u)"
    "status_is_success v" "pd_amount v = Some k" and credit: "credit_charge d p k u = (Inr out, t)"
    by (metis option.inject)
  from p have ref: "pt_reference p = reference" by (auto dest: find_first_SomeD)
  note u = client_stays_run [OF client_stays(2) v(1)]
  let ?l = "charge_leg d p (credited_amount k) (amount_note (pt_amount p) k)"
  have l: "l_user_id ?l = pt_user_id p" "l_entry_type ?l = DEPOSIT" "l_amount ?l = credited_amount k"
    by (simp_all add: charge_leg_def leg_def)
  from credit obtain w res where
    save: "save_paystack_transaction
        (p\<lparr>pt_amount := credited_amount k, pt_status := TX_SUCCESS, pt_paystack_id := pd_id d,
           pt_payment_channel := pd_channel d,
           pt_gateway_response := or_else (amount_note (pt_amount p) k) (pd_gateway_response d)\<rparr>)
        False u = (Inr (), w)" and
    run: "apply_entry ?l (''dep_'' @ reference) ENTRY_COMPLETED None w = (Inr res, t)"
    unfolding credit_charge_def Let_def ref by (auto elim!: bnd_InrE)
  from save have w: "transactions (work w) = transactions (work u)"
    "wallets (work w) = wallets (work u)" "committed w = committed u"
    by (auto simp: save_paystack_transaction_def step run_commit_if split: if_splits)
  from w u assms(1-3) have "ledger_inv (work w)"
    "find_first (\<lambda>t. t_reference t = ''dep_'' @ reference) (transactions (work w)) = None"
    "find_first (\<lambda>t. t_reference t = ''dep_'' @ reference) (transactions (committed w)) = None"
    by (simp_all add: ledger_inv_def)
  from apply_entry_new [OF this(1) run this(2,3)] obtain x y z where
    e: "lr_entry res = ledger_entry x ?l (''dep_'' @ reference) ENTRY_COMPLETED None y z"
    "entry_error x ?l = None" "lr_entry res \<in> set (transactions (committed t))" by blast
  from entry_error_NoneD(1) [OF e(2)] l(3) have "0 < k" by (simp add: credited_amount_exact)
  with p v e l show ?thesis
    by (intro exI [of _ p] exI [of _ v] exI [of _ k] exI [of _ "lr_entry res"])
      (simp add: credited_amount_exact)
qed

lemma money_db_inv: "ledger_inv money_db"
  using money_ledger_inv by (simp add: money_session_def sample_session_def)

lemma honest_verify:
  "verify_transaction honest_net ref s =
     (Inr charge_data, s\<lparr>outbound := outbound s @ [HttpRequest ''GET'' (''/transaction/verify/'' @ ref) []]\<rparr>)"
  by (simp add: verify_transaction_def fields_run request_def numeral_2_eq_2 bnd_send honest_net_def)

definition charge_note :: "string option" where
  "charge_note = amount_note 50 4000"

definition charge_row_done :: paystack_transaction where
  "charge_row_done = charge_row\<lparr>pt_amount := 40, pt_status := TX_SUCCESS,
     pt_paystack_id := pd_id charge_data, pt_payment_channel := pd_channel charge_data,
     pt_gateway_response := or_else charge_note (pd_gateway_response charge_data)\<rparr>"

definition charge_ready :: session where
  "charge_ready = charge_session
     \<lparr>outbound := [HttpRequest ''GET'' ''/transaction/verify/ESC-1'' []],
      work := (work charge_session)\<lparr>paystack_transactions := [charge_row_done]\<rparr>\<rparr>"

lemma charge_credit_run:
  "\<exists>r t. apply_entry (charge_leg charge_data charge_row 40 charge_note) ''dep_ESC-1'' ENTRY_COMPLETED None
     charge_ready = (Inr r, t)"
proof -
  let ?l = "charge_leg charge_data charge_row 40 charge_note"
  let ?e = "ledger_entry wallet_bob ?l ''dep_ESC-1'' ENTRY_COMPLETED None
    (uuid_supply charge_ready (uuid_next charge_ready)) (clock charge_ready)"
  have inv: "ledger_inv (work charge_ready)"
    using money_db_inv by (simp add: charge_ready_def charge_session_def sample_session_def ledger_inv_def)
  have "apply_entry ?l ''dep_ESC-1'' ENTRY_COMPLETED None charge_ready =
    (Inr \<lparr>lr_entry = ?e, lr_wallet = moved wallet_bob ?e, lr_replayed = False\<rparr>,
      wallet_cache_cleared [l_user_id ?l] (locked_state wallet_bob ?e charge_ready))"
    by (rule apply_entry_fresh [OF inv])
      (simp_all add: charge_ready_def charge_session_def sample_defs money_defs charge_leg_def
        charge_row_def leg_def entry_error_def quantize2_def round_half_even_def Let_def
        transaction_fits_def wallet_fits_def numeric_12_2_def)
  then show ?thesis by blast
qed

theorem charge_credits_verified_amount_witness:
  "\<exists>out t. handle_charge_success honest_net charge_data charge_session = (Inr out, t) \<and>
     wo_status out = ''processed'' \<and>
     (\<exists>e \<in> set (transactions (committed t)). t_user_id e = ''ub'' \<and> t_available_delta e = 40)"
proof -
  let ?s = "charge_session"
  have inv: "ledger_inv (work ?s)" "committed ?s = work ?s"
    "find_first (\<lambda>t. t_reference t = ''dep_'' @ ''ESC-1'') (transactions (work ?s)) = None"
    "truthy_reference charge_data = Some ''ESC-1''"
    using money_db_inv
    by (simp_all add: charge_session_def sample_session_def ledger_inv_def money_db_def money_defs
        truthy_reference_def charge_data_def no_data_def empty_db_def)
  from charge_credit_run obtain r t where credit: "apply_entry (charge_leg charge_data charge_row 40 charge_note)
     ''dep_ESC-1'' ENTRY_COMPLETED None charge_ready = (Inr r, t)" by blast
  have rows: "paystack_transactions (work ?s) = [charge_row]" "pt_reference charge_row = ''ESC-1''"
    "pt_status charge_row = TX_PENDING" "pt_amount charge_row = 50" "pt_user_id charge_row = ''ub''"
    "outbound ?s = []"
    by (simp_all add: charge_session_def sample_session_def charge_row_def)
  have fields: "status_is_success charge_data" "pd_amount charge_data = Some 4000"
    "upper (case or_else (pd_currency charge_data) (pd_currency charge_data) of None \<Rightarrow> '''' | Some c \<Rightarrow> c) = ''NGN''"
    by code_simp+
  have save: "save_paystack_transaction charge_row_done False
      (?s\<lparr>outbound := [HttpRequest ''GET'' ''/transaction/verify/ESC-1'' []]\<rparr>) = (Inr (), charge_ready)"
    by (simp add: save_paystack_transaction_def step run_commit_if rows charge_ready_def
        charge_row_done_def charge_row_def numeric_12_2_def paystack_constraints_def)
  have forty: "credited_amount 4000 = 40" by (simp add: credited_amount_exact)
  have "\<exists>out. handle_charge_success honest_net charge_data ?s = (Inr out, t) \<and> wo_status out = ''processed''"
    using inv(4) rows fields credit
    by (simp add: handle_charge_success_def get_paystack_transaction_def step verified_def run_try
        honest_verify bnd_def [of "verify_transaction _ _"] bnd_def [of "try_except _ _"]
        credit_charge_def forty Let_def charge_note_def [symmetric] charge_row_done_def [symmetric]
        bnd_def [of "save_paystack_transaction _ _"] save bnd_def [of "apply_entry _ _ _ _"])
  then obtain out where run: "handle_charge_success honest_net charge_data ?s = (Inr out, t)"
    and out: "wo_status out = ''processed''" by blast
  from charge_credits_verified_amount [OF inv run out] rows fields honest_verify [of "''ESC-1''" ?s]
  have "\<exists>e \<in> set (transactions (committed t)). t_user_id e = ''ub'' \<and> t_available_delta e = 40" by auto
  with run out show ?thesis by blast
qed


definition live_settings :: settings where
  "live_settings = sample_settings\<lparr>paystack_live_mode := True, paystack_secret_key := Some ''sk_live''\<rparr>"


lemma py_int_of_int [simp]: "py_int (of_int n) = n"
  by (simp add: py_int_def flip: of_int_minus)

lemma to_kobo_eq: "to_kobo a = round_half_even (a * 100)"
  by (simp add: to_kobo_def quantize2_def)

text \<open>Naira and kobo convert without loss: what is charged in kobo is credited back as the same
  number of kobo, and an amount of whole kobo survives the round trip to the provider; the
  half-kobo rounding applies only to amounts no request may carry.\<close>

theorem kobo_round_trip:
  "to_kobo (credited_amount k) = k \<and> credited_amount (to_kobo a) = quantize2 a \<and>
   (validate_wallet_create cfg wc \<longrightarrow> of_int (to_kobo (wc_amount wc)) = wc_amount wc * 100) \<and>
   (validate_withdrawal_create wd \<longrightarrow> of_int (to_kobo (wd_amount wd)) = wd_amount wd * 100)"
proof -
  have exact: "of_int (round_half_even (x * 100)) = x * 100" if "x = quantize2 x" for x
    using that by (simp add: quantize2_def)
  show ?thesis
  proof (intro conjI impI)
    show "to_kobo (credited_amount k) = k" by (simp add: to_kobo_eq credited_amount_exact)
    show "credited_amount (to_kobo a) = quantize2 a"
      by (simp add: to_kobo_eq credited_amount_exact quantize2_def)
  next
    assume "validate_wallet_create cfg wc"
    then show "of_int (to_kobo (wc_amount wc)) = wc_amount wc * 100"
      unfolding to_kobo_eq validate_wallet_create_def by (intro exact) blast
  next
    assume "validate_withdrawal_create wd"
    then show "of_int (to_kobo (wd_amount wd)) = wd_amount wd * 100"
      unfolding to_kobo_eq validate_withdrawal_create_def by (intro exact) blast
  qed
qed

theorem kobo_round_trip_witness:
  "of_int (to_kobo (wd_amount payout_30)) = wd_amount payout_30 * 100"
proof -
  have "validate_withdrawal_create payout_30"
    by (simp add: validate_withdrawal_create_def payout_30_def quantize2_def round_half_even_def Let_def)
  with kobo_round_trip show ?thesis by blast
qed

lemma mark_entry_status_references:
  assumes "mark_entry_status ref st pat False s = (Inr x, t)"
  shows "map t_reference (transactions (work t)) = map t_reference (transactions (work s))"
    "committed t = committed s"
proof -
  have replace: "map t_reference (replace_by t_id e ts) = map t_reference ts"
    if "transaction_constraints (replace_by t_id e ts)" "y \<in> set ts" "t_id e = t_id y"
      "t_reference e = t_reference y" for e y :: transaction and ts
    using that by (intro map_replace_same_field [where x = y]) (simp_all add: transaction_constraints_def)
  from assms show "map t_reference (transactions (work t)) = map t_reference (transactions (work s))"
    "committed t = committed s"
    by (auto simp: mark_entry_status_def get_entry_by_reference_def step Let_def
        dest!: find_first_SomeD intro!: replace split: option.splits if_splits)
qed

lemma reversal_cases:
  assumes run: "handle_transfer_reversal d fs s = (Inr out, t)" and out: "wo_status out = ''reversed''"
  obtains reference p original u res where
    "truthy_reference d = Some reference"
    "find_first (\<lambda>p. pt_reference p = reference) (paystack_transactions (work s)) = Some p"
    "pt_status p \<in> reversal_allowed fs"
    "find_first (\<lambda>t. t_reference t = wd_ref reference) (transactions (work s)) = Some original"
    "map t_reference (transactions (work u)) = map t_reference (transactions (work s))"
    "committed u = committed s" "both ledger_inv s \<Longrightarrow> both ledger_inv u"
    "apply_entry (bank_reversal_leg d p original) (wdrev_ref reference) ENTRY_COMPLETED None u = (Inr res, t)"
proof -
  from run out obtain reference where ref: "truthy_reference d = Some reference"
    by (auto simp: handle_transfer_reversal_def outcome_def split: option.splits)
  from run out ref obtain p where p:
    "find_first (\<lambda>p. pt_reference p = reference) (paystack_transactions (work s)) = Some p"
    "pt_status p \<in> reversal_allowed fs"
    by (auto simp: handle_transfer_reversal_def outcome_def get_paystack_transaction_def step
        split: option.splits if_splits)
  let ?p = "p\<lparr>pt_status := fs, pt_failure_reason := Some (take 255 (reversal_reason d))\<rparr>"
  from run out ref p obtain original where o:
    "find_first (\<lambda>t. t_reference t = wd_ref reference) (transactions (work s)) = Some original"
    by (auto simp: handle_transfer_reversal_def outcome_def get_paystack_transaction_def
        get_entry_by_reference_def step Let_def save_paystack_transaction_def
        split: option.splits if_splits)
  from run ref p o obtain v w x res where
    v: "save_paystack_transaction ?p False s = (Inr (), v)" and
    w: "mark_entry_status (t_reference original) ENTRY_REVERSED None False v = (Inr x, w)" and
    res: "apply_entry (bank_reversal_leg d p original) (wdrev_ref reference) ENTRY_COMPLETED None w = (Inr res, t)"
    by (auto simp: handle_transfer_reversal_def get_paystack_transaction_def
        get_entry_by_reference_def bnd_session_steps Let_def elim!: bnd_InrE)
  from v have "transactions (work v) = transactions (work s)" "committed v = committed s"
    by (auto simp: save_paystack_transaction_def step run_commit_if split: if_splits)
  with mark_entry_status_references [OF w] have
    "map t_reference (transactions (work w)) = map t_reference (transactions (work s))"
    "committed w = committed s" by simp_all
  moreover have "both ledger_inv s \<Longrightarrow> both ledger_inv w"
    using keeps_run [OF paystack_rows_keep(2) [OF ledger_stable(9)] v]
      keeps_run [OF mark_entry_status_keeps w] by blast
  ultimately show ?thesis by (rule that [OF ref p o _ _ _ res])
qed

text \<open>C31: A bank reversal returns a withdrawal only if there was one: when the webhook of a failed or
  reversed transfer is answered \<open>reversed\<close>, the ledger held the debit of that transfer, and the
  credit it wrote, to the payment's user, is of exactly the debited amount.\<close>

theorem bank_reversal_needs_debit:
  assumes "both ledger_inv s" and "committed s = work s"
    and "truthy_reference d = Some reference"
    and "find_first (\<lambda>t. t_reference t = wdrev_ref reference) (transactions (work s)) = None"
    and "handle_transfer_reversal d fs s = (Inr out, t)" and "wo_status out = ''reversed''"
  shows "\<exists>p original e.
     find_first (\<lambda>p. pt_reference p = reference) (paystack_transactions (work s)) = Some p \<and>
     find_first (\<lambda>t. t_reference t = wd_ref reference) (transactions (work s)) = Some original \<and>
     e \<in> set (transactions (committed t)) \<and> t_reference e = wdrev_ref reference \<and>
     t_type e = WITHDRAWAL_REVERSAL \<and> t_user_id e = pt_user_id p \<and>
     t_available_delta e = t_amount original \<and> t_escrow_delta e = 0"
proof -
  from reversal_cases [OF assms(5,6)] assms(3) obtain p original u res where
    p: "find_first (\<lambda>p. pt_reference p = reference) (paystack_transactions (work s)) = Some p" and
    o: "find_first (\<lambda>t. t_reference t = wd_ref reference) (transactions (work s)) = Some original" and
    u: "map t_reference (transactions (work u)) = map t_reference (transactions (work s))"
    "committed u = committed s" "both ledger_inv s \<Longrightarrow> both ledger_inv u" and
    run: "apply_entry (bank_reversal_leg d p original) (wdrev_ref reference) ENTRY_COMPLETED None u = (Inr res, t)"
    by (metis option.inject)
  have none: "find_first (\<lambda>t. t_reference t = k) ts = None \<longleftrightarrow> k \<notin> set (map t_reference ts)" for k ts
    by (auto simp: find_first_None_iff)
  from assms(4) u have n: "find_first (\<lambda>t. t_reference t = wdrev_ref reference) (transactions (work u)) = None"
    "find_first (\<lambda>t. t_reference t = wdrev_ref reference) (transactions (committed u)) = None"
    using assms(2) by (simp_all only: none not_False_eq_True)
  from u(3) [OF assms(1)] have "ledger_inv (work u)" by (simp add: both_def)
  from apply_entry_new [OF this run n] obtain x y z where
    e: "lr_entry res = ledger_entry x (bank_reversal_leg d p original) (wdrev_ref reference) ENTRY_COMPLETED None y z"
    "lr_entry res \<in> set (transactions (committed t))" by blast
  then show ?thesis
    by (intro exI [of _ p] exI [of _ original] exI [of _ "lr_entry res"])
      (simp add: p o bank_reversal_leg_def leg_def)
qed

text \<open>Bob's withdrawal of 4.00 that the bank sent back.\<close>

definition sent_row :: paystack_transaction where
  "sent_row = charge_row\<lparr>pt_reference := ''WD-1'', pt_amount := 4, pt_transaction_type := PT_WITHDRAWAL\<rparr>"

definition sent_entry :: transaction where
  "sent_entry = ledger_entry wallet_bob (leg ''ub'' WITHDRAWAL 4) ''wd_WD-1'' ENTRY_PENDING None ''t4'' 6"

definition sent_db :: db where
  "sent_db = money_db
     \<lparr>transactions := [entry_1, entry_2, entry_3, sent_entry],
      wallets := [wallet_alice, moved wallet_bob sent_entry],
      paystack_transactions := [sent_row]\<rparr>"

definition bounced_data :: provider_data where
  "bounced_data = no_data\<lparr>pd_reference := Some ''WD-1'', pd_reason := Some ''closed account''\<rparr>"

definition bounced_db :: db where
  "bounced_db = sent_db
     \<lparr>paystack_transactions := [sent_row\<lparr>pt_status := TX_FAILED,
        pt_failure_reason := Some ''closed account''\<rparr>],
      transactions := [entry_1, entry_2, entry_3, sent_entry\<lparr>t_status := ENTRY_REVERSED\<rparr>]\<rparr>"

lemma sent_inv: "ledger_inv sent_db" "ledger_inv bounced_db"
  by (simp_all add: ledger_inv_def sent_db_def bounced_db_def money_db_def empty_db_def money_defs
      sent_entry_def wallet_constraints_def transaction_constraints_def balance_ok_def entry_wf_def
      snapshots_ok_def leg_def quantize2_def round_half_even_def Let_def)

lemma bounced_credit_run:
  "\<exists>r t. apply_entry (bank_reversal_leg bounced_data sent_row sent_entry) ''wdrev_WD-1'' ENTRY_COMPLETED None
     ((sample_session sent_db)\<lparr>work := bounced_db\<rparr>) = (Inr r, t)"
proof -
  let ?s = "(sample_session sent_db)\<lparr>work := bounced_db\<rparr>"
  let ?l = "bank_reversal_leg bounced_data sent_row sent_entry" and ?w = "moved wallet_bob sent_entry"
  let ?e = "ledger_entry ?w ?l ''wdrev_WD-1'' ENTRY_COMPLETED None
    (uuid_supply ?s (uuid_next ?s)) (clock ?s)"
  have inv: "ledger_inv (work ?s)" using sent_inv by simp
  have "apply_entry ?l ''wdrev_WD-1'' ENTRY_COMPLETED None ?s =
    (Inr \<lparr>lr_entry = ?e, lr_wallet = moved ?w ?e, lr_replayed = False\<rparr>,
      wallet_cache_cleared [l_user_id ?l] (locked_state ?w ?e ?s))"
    by (rule apply_entry_fresh [OF inv])
      (simp_all add: bounced_db_def sent_db_def money_db_def sample_session_def sample_uuid_def
        money_defs sent_entry_def sent_row_def charge_row_def bank_reversal_leg_def leg_def
        entry_error_def quantize2_def round_half_even_def Let_def transaction_fits_def
        wallet_fits_def numeric_12_2_def)
  then show ?thesis by blast
qed

lemma bounced_run:
  "\<exists>out t. handle_transfer_reversal bounced_data TX_FAILED (sample_session sent_db) = (Inr out, t) \<and>
     wo_status out = ''reversed''"
proof -
  from bounced_credit_run obtain r t where credit:
    "apply_entry (bank_reversal_leg bounced_data sent_row sent_entry) ''wdrev_WD-1'' ENTRY_COMPLETED None
       ((sample_session sent_db)\<lparr>work := bounced_db\<rparr>) = (Inr r, t)" by blast
  have ref: "truthy_reference bounced_data = Some ''WD-1''" "reversal_reason bounced_data = ''closed account''"
    by code_simp+
  have f: "pt_reference sent_row = ''WD-1''" "pt_status sent_row = TX_PENDING"
    "t_reference sent_entry = ''wd_WD-1''" "t_reference entry_1 = ''dep_1''"
    "t_reference entry_2 = ''esc_lock_ag''" "t_reference entry_3 = ''dep_2''"
    "wd_ref ''WD-1'' = ''wd_WD-1''" "wdrev_ref ''WD-1'' = ''wdrev_WD-1''"
    "paystack_transactions sent_db = [sent_row]"
    "transactions sent_db = [entry_1, entry_2, entry_3, sent_entry]"
    by (simp_all add: sent_row_def charge_row_def sent_entry_def money_defs wd_ref_def wdrev_ref_def
        sent_db_def)
  let ?v = "(sample_session sent_db)\<lparr>work := sent_db\<lparr>paystack_transactions :=
    [sent_row\<lparr>pt_status := TX_FAILED, pt_failure_reason := Some ''closed account''\<rparr>]\<rparr>\<rparr>"
  have save: "save_paystack_transaction
      (sent_row\<lparr>pt_status := TX_FAILED, pt_failure_reason := Some ''closed account''\<rparr>) False
      (sample_session sent_db) = (Inr (), ?v)"
    by (simp add: save_paystack_transaction_def step run_commit_if sample_session_def f
        sent_row_def charge_row_def numeric_12_2_def paystack_constraints_def)
  have mark: "mark_entry_status ''wd_WD-1'' ENTRY_REVERSED None False ?v =
    (Inr (Some (sent_entry\<lparr>t_status := ENTRY_REVERSED\<rparr>)), (sample_session sent_db)\<lparr>work := bounced_db\<rparr>)"
    by (simp add: mark_entry_status_def get_entry_by_reference_def step Let_def sample_session_def
        f bounced_db_def sent_entry_def money_defs transaction_constraints_def transaction_fits_def
        numeric_12_2_def leg_def)
  show ?thesis
    using credit ref f save mark
    by (simp add: handle_transfer_reversal_def get_paystack_transaction_def get_entry_by_reference_def
        bnd_session_steps Let_def reversal_allowed_def sample_session_def [of sent_db]
        bnd_def [of "save_paystack_transaction _ _"] bnd_def [of "mark_entry_status _ _ _ _"]
        bnd_def [of "apply_entry _ _ _ _"])
qed

theorem bank_reversal_needs_debit_witness:
  "\<exists>out t. handle_transfer_reversal bounced_data TX_FAILED (sample_session sent_db) = (Inr out, t) \<and>
     (\<exists>e \<in> set (transactions (committed t)). t_reference e = ''wdrev_WD-1'' \<and> t_available_delta e = 4)"
proof -
  from bounced_run obtain out t where
    run: "handle_transfer_reversal bounced_data TX_FAILED (sample_session sent_db) = (Inr out, t)"
    and out: "wo_status out = ''reversed''" by blast
  have s: "both ledger_inv (sample_session sent_db)"
    "committed (sample_session sent_db) = work (sample_session sent_db)"
    "truthy_reference bounced_data = Some ''WD-1''"
    "find_first (\<lambda>t. t_reference t = wdrev_ref ''WD-1'') (transactions (work (sample_session sent_db))) = None"
    "find_first (\<lambda>t. t_reference t = wd_ref ''WD-1'') (transactions (work (sample_session sent_db))) = Some sent_entry"
    "t_amount sent_entry = 4" "wdrev_ref ''WD-1'' = ''wdrev_WD-1''"
    using sent_inv
    by (simp_all add: both_def sample_session_def bounced_data_def no_data_def truthy_reference_def
        sent_db_def money_defs sent_entry_def wd_ref_def wdrev_ref_def leg_def)
  from bank_reversal_needs_debit [OF s(1-4) run out] s(5-7) run show ?thesis by auto
qed

end
