(* ===== verification/Triples.thy ===== *)
theory Triples
  imports Users
begin

text \<open>
  A small calculus for handlers that pass through states of the transaction that are more, or less,
  than an invariant: \<open>leads P m Q\<close> says that \<open>m\<close> started in \<open>P\<close> leaves \<open>Q\<close>, whether it returns or
  raises, and \<open>during I J\<close> that the committed database satisfies \<open>I\<close> while the open transaction
  satisfies \<open>J\<close>.  A handler that has read a row knows it until the row's table is written
  (\<open>leads_get\<close>); one that has flushed a change and not committed it is \<open>during I J\<close> until it
  commits (then \<open>J\<close> must give \<open>I\<close>) or rolls back.
\<close>

definition leads :: "('s \<Rightarrow> bool) \<Rightarrow> ('s, 'e, 'a) prog \<Rightarrow> ('s \<Rightarrow> bool) \<Rightarrow> bool" where
  "leads P m Q \<longleftrightarrow> (\<forall>s. P s \<longrightarrow> Q (snd (m s)))"

definition during :: "(db \<Rightarrow> bool) \<Rightarrow> (db \<Rightarrow> bool) \<Rightarrow> session \<Rightarrow> bool" where
  "during I J s \<longleftrightarrow> I (committed s) \<and> J (work s)"

lemma during_both: "during I I = both I"
  by (rule ext) (simp add: during_def both_def)

lemma leads_self: "leads P m P = keeps P m"
  by (simp add: leads_def keeps_def)

lemma leads_pre: "leads P m Q \<Longrightarrow> (\<And>s. P' s \<Longrightarrow> P s) \<Longrightarrow> leads P' m Q"
  by (simp add: leads_def)

lemma leads_keeps: "keeps P m \<Longrightarrow> (\<And>s. P s \<Longrightarrow> Q s) \<Longrightarrow> leads P m Q"
  by (simp add: leads_def keeps_def)

lemma leads_then:
  assumes "keeps P m" and "\<And>s. P s \<Longrightarrow> Q s" and "\<And>x. leads P (f x) Q"
  shows "leads P (bnd m f) Q"
  unfolding leads_def
proof (intro allI impI)
  fix s assume "P s"
  with assms(1) have "P (snd (m s))" by (rule keepsD)
  with assms(2,3) show "Q (snd (bnd m f s))"
    by (auto simp: bnd_def leads_def split: prod.splits sum.splits)
qed

lemma leads_done:
  assumes "leads P m Q" and "\<And>x. keeps Q (f x)"
  shows "leads P (bnd m f) Q"
  unfolding leads_def
proof (intro allI impI)
  fix s assume "P s"
  with assms(1) have "Q (snd (m s))" by (simp add: leads_def)
  with assms(2) show "Q (snd (bnd m f s))"
    by (auto simp: bnd_def keeps_def split: prod.splits sum.splits)
qed

lemma leads_step:
  assumes "leads P m R" and "\<And>s. R s \<Longrightarrow> Q s" and "\<And>x. leads R (f x) Q"
  shows "leads P (bnd m f) Q"
  unfolding leads_def
proof (intro allI impI)
  fix s assume "P s"
  with assms(1) have "R (snd (m s))" by (simp add: leads_def)
  with assms(2,3) show "Q (snd (bnd m f s))"
    by (auto simp: bnd_def leads_def split: prod.splits sum.splits)
qed

text \<open>A step that establishes \<open>R\<close> when it returns, and \<open>Q\<close> when it raises.\<close>

definition leads_or ::
  "('s \<Rightarrow> bool) \<Rightarrow> ('s, 'e, 'a) prog \<Rightarrow> ('s \<Rightarrow> bool) \<Rightarrow> ('s \<Rightarrow> bool) \<Rightarrow> bool"
where
  "leads_or P m R Q \<longleftrightarrow>
     (\<forall>s. P s \<longrightarrow> (case m s of (Inl e, t) \<Rightarrow> Q t | (Inr x, t) \<Rightarrow> R t))"

lemma leads_bind:
  assumes "leads_or P m R Q" and "\<And>x. leads R (f x) Q"
  shows "leads P (bnd m f) Q"
  using assms unfolding leads_def leads_or_def bnd_def
  by (fastforce split: prod.splits sum.splits)

lemma leads_or_leads: "leads_or P m R Q \<Longrightarrow> (\<And>s. R s \<Longrightarrow> Q s) \<Longrightarrow> leads P m Q"
  unfolding leads_def leads_or_def by (fastforce split: prod.splits sum.splits)

lemma leads_orI:
  "(\<And>s e t. P s \<Longrightarrow> m s = (Inl e, t) \<Longrightarrow> Q t) \<Longrightarrow>
   (\<And>s x t. P s \<Longrightarrow> m s = (Inr x, t) \<Longrightarrow> R t) \<Longrightarrow> leads_or P m R Q"
  unfolding leads_or_def by (auto split: prod.splits sum.splits)

lemma leads_orD:
  "leads_or P m R Q \<Longrightarrow> P s \<Longrightarrow> m s = (Inl e, t) \<Longrightarrow> Q t"
  "leads_or P m R Q \<Longrightarrow> P s \<Longrightarrow> m s = (Inr x, t) \<Longrightarrow> R t"
  unfolding leads_or_def by (drule spec, drule (1) mp, simp)+

lemma leads_or_cases:
  assumes "\<And>s e u. P s \<Longrightarrow> m s = (Inl e, u) \<Longrightarrow> Q u"
    and "\<And>s y u. P s \<Longrightarrow> m s = (Inr y, u) \<Longrightarrow> leads_or (\<lambda>v. v = u) (f y) R Q"
  shows "leads_or P (bnd m f) R Q"
  unfolding leads_or_def
proof (intro allI impI)
  fix s assume P: "P s"
  obtain q u where m: "m s = (q, u)" by fastforce
  show "case bnd m f s of (Inl e, t) \<Rightarrow> Q t | (Inr x, t) \<Rightarrow> R t"
  proof (cases q)
    case (Inl e)
    with assms(1) [OF P] m show ?thesis by (simp add: bnd_def)
  next
    case (Inr y)
    with assms(2) [OF P] m show ?thesis by (simp add: bnd_def leads_or_def)
  qed
qed

lemma leads_or_then:
  assumes "keeps P m" and "\<And>s. P s \<Longrightarrow> Q s" and "\<And>x. leads_or P (f x) R Q"
  shows "leads_or P (bnd m f) R Q"
proof (rule leads_or_cases)
  fix s e u assume "P s" "m s = (Inl e, u)"
  with keepsD [OF assms(1)] have "P u" by fastforce
  then show "Q u" by (rule assms(2))
next
  fix s y u assume "P s" "m s = (Inr y, u)"
  with keepsD [OF assms(1)] have "P u" by fastforce
  with assms(3) show "leads_or (\<lambda>v. v = u) (f y) R Q" by (simp add: leads_or_def)
qed

lemma leads_or_done:
  assumes "leads_or P m R Q" and "\<And>x. keeps R (f x)" and "\<And>s. R s \<Longrightarrow> Q s"
  shows "leads_or P (bnd m f) R Q"
proof (rule leads_or_cases)
  fix s y u assume "P s" "m s = (Inr y, u)"
  with assms(1) have "R u" by (rule leads_orD)
  with keepsD [OF assms(2)] have "R (snd (f y u))" by blast
  with assms(3) show "leads_or (\<lambda>v. v = u) (f y) R Q"
    by (auto simp: leads_or_def split: prod.splits sum.splits)
qed (rule leads_orD [OF assms(1)])

lemma leads_or_bind:
  assumes "leads_or P m R Q" and "\<And>x. leads_or R (f x) S Q"
  shows "leads_or P (bnd m f) S Q"
proof (rule leads_or_cases)
  fix s y u assume "P s" "m s = (Inr y, u)"
  with assms(1) have "R u" by (rule leads_orD)
  with assms(2) show "leads_or (\<lambda>v. v = u) (f y) S Q" by (simp add: leads_or_def)
qed (rule leads_orD [OF assms(1)])

lemma leads_or_keeps: "keeps P m \<Longrightarrow> (\<And>s. P s \<Longrightarrow> Q s) \<Longrightarrow> leads_or P m P Q"
  by (rule leads_orI) (auto dest: keepsD)

lemma leads_try_or:
  assumes "leads_or P m Q R" and "\<And>e. leads R (h e) Q"
  shows "leads P (try_except m h) Q"
  unfolding leads_def
proof (intro allI impI)
  fix s assume P: "P s"
  obtain q u where m: "m s = (q, u)" by fastforce
  show "Q (snd (try_except m h s))"
    using leads_orD [OF assms(1) P] assms(2) m
    by (cases q) (auto simp: try_except_def leads_def)
qed

lemma leads_or_get:
  "(\<And>r. leads_or (\<lambda>s. P s \<and> find_first (\<lambda>x. pkey T x = k) (rows T (work s)) = r) (f r) R Q) \<Longrightarrow>
   leads_or P (bnd (get_row T k) f) R Q"
  by (simp add: leads_or_def bnd_def)

lemma leads_or_now: "(\<And>t. leads_or P (f t) R Q) \<Longrightarrow> leads_or P (bnd now f) R Q"
  by (simp add: leads_or_def now_def bnd_def)

lemma leads_or_pre: "leads_or P m R Q \<Longrightarrow> (\<And>s. P' s \<Longrightarrow> P s) \<Longrightarrow> leads_or P' m R Q"
  by (simp add: leads_or_def)

lemma leads_or_of: "leads P m R \<Longrightarrow> (\<And>s. R s \<Longrightarrow> Q s) \<Longrightarrow> leads_or P m R Q"
  by (rule leads_orI) (auto simp: leads_def)

lemma leads_or_return: "(\<And>s. P s \<Longrightarrow> R s) \<Longrightarrow> leads_or P (return x) R Q"
  by (simp add: leads_or_def)

lemma leads_or_raise: "(\<And>s. P s \<Longrightarrow> Q s) \<Longrightarrow> leads_or P (raise e) R Q"
  by (simp add: leads_or_def)

lemma leads_or_if:
  "(b \<Longrightarrow> leads_or P m R Q) \<Longrightarrow> (\<not> b \<Longrightarrow> leads_or P n R Q) \<Longrightarrow>
   leads_or P (if b then m else n) R Q"
  by simp

lemma leads_raise: "(\<And>s. P s \<Longrightarrow> Q s) \<Longrightarrow> leads P (raise e) Q"
  by (simp add: leads_def)

lemma leads_return: "(\<And>s. P s \<Longrightarrow> Q s) \<Longrightarrow> leads P (return x) Q"
  by (simp add: leads_def)

lemma leads_if:
  "(b \<Longrightarrow> leads P m Q) \<Longrightarrow> (\<not> b \<Longrightarrow> leads P n Q) \<Longrightarrow> leads P (if b then m else n) Q"
  by simp

lemma leads_when:
  "(\<And>s. P s \<Longrightarrow> Q s) \<Longrightarrow> (b \<Longrightarrow> leads P m Q) \<Longrightarrow> leads P (when_m b m) Q"
  by (simp add: when_m_def leads_def)

lemma leads_option:
  "(x = None \<Longrightarrow> leads P m Q) \<Longrightarrow> (\<And>y. x = Some y \<Longrightarrow> leads P (f y) Q) \<Longrightarrow>
   leads P (case x of None \<Rightarrow> m | Some y \<Rightarrow> f y) Q"
  by (cases x) auto

text \<open>Reading: what was read is known to the rest.\<close>

lemma leads_reading:
  assumes "stays reading m"
    and "\<And>s. P s \<Longrightarrow> Q (snd (m s))"
    and "\<And>s x t. P s \<Longrightarrow> m s = (Inr x, t) \<Longrightarrow> Q (snd (f x t))"
  shows "leads P (bnd m f) Q"
  unfolding leads_def
proof (intro allI impI)
  fix s assume P: "P s"
  show "Q (snd (bnd m f s))"
    using assms(2) [OF P] assms(3) [OF P]
    by (cases "m s"; cases "fst (m s)") (auto simp: bnd_def)
qed

lemma leads_get:
  assumes "\<And>r. leads (\<lambda>s. P s \<and> find_first (\<lambda>x. pkey T x = k) (rows T (work s)) = r) (f r) Q"
  shows "leads P (bnd (get_row T k) f) Q"
  using assms by (simp add: leads_def bnd_def)

lemma leads_select_first:
  assumes "\<And>r. leads (\<lambda>s. P s \<and> find_first p (rows T (work s)) = r) (f r) Q"
  shows "leads P (bnd (select_first T p) f) Q"
  using assms by (simp add: leads_def bnd_def)

text \<open>Leaving the transaction.\<close>

lemma leads_try:
  assumes "keeps P m" and "\<And>s. P s \<Longrightarrow> Q s" and "\<And>e. leads P (h e) Q"
  shows "leads P (try_except m h) Q"
  unfolding leads_def
proof (intro allI impI)
  fix s assume "P s"
  with assms(1) have "P (snd (m s))" by (rule keepsD)
  with assms(2,3) show "Q (snd (try_except m h s))"
    by (auto simp: try_except_def leads_def split: prod.splits sum.splits)
qed

lemma leads_try_body:
  assumes "leads P m R" and "\<And>s. R s \<Longrightarrow> Q s" and "\<And>e. leads R (h e) Q"
  shows "leads P (try_except m h) Q"
  unfolding leads_def
proof (intro allI impI)
  fix s assume "P s"
  with assms(1) have "R (snd (m s))" by (simp add: leads_def)
  with assms(2,3) show "Q (snd (try_except m h s))"
    by (auto simp: try_except_def leads_def split: prod.splits sum.splits)
qed

lemma leads_rollback:
  assumes "keeps (both I) m"
  shows "leads (during I J) (bnd rollback (\<lambda>_. m)) (both I)"
  using assms by (auto simp: leads_def keeps_def during_def both_def bnd_def)

lemma leads_commit:
  assumes "\<And>d. J d \<Longrightarrow> I d"
  shows "leads (during I J) commit (both I)"
  using assms by (auto simp: leads_def during_def both_def)

section \<open>What keeps an open transaction\<close>

named_theorems during_intros \<open>rules that keep what an open transaction knows\<close>

lemmas during_control [during_intros] =
  keeps_return keeps_raise keeps_bnd keeps_if keeps_when keeps_let keeps_option keeps_prod
  keeps_sum keeps_list keeps_for_each keeps_map_m keeps_option_m

lemma during_reading: "stays reading m \<Longrightarrow> keeps (during I J) m"
  by (simp add: stays_def reading_def keeps_def during_def)

lemma during_writes [during_intros]:
  "stable J T \<Longrightarrow> keeps (during I J) (insert_row T r)"
  "stable J T \<Longrightarrow> keeps (during I J) (save_row T r)"
  "stable J T \<Longrightarrow> keeps (during I J) (update_rows T p f)"
  "stable J T \<Longrightarrow> keeps (during I J) (delete_rows T p)"
  by (auto simp: keeps_def during_def insert_row_eq save_row_eq update_rows_eq delete_rows_eq
      Let_def intro: stableD)

lemma during_commit [during_intros]:
  "(\<And>d. J d \<Longrightarrow> I d) \<Longrightarrow> keeps (during I J) commit"
  by (simp add: keeps_def during_def)

lemmas reading_session_during [during_intros] = reading_session [THEN during_reading]

lemma stable_conj:
  "stable I T \<Longrightarrow> stable J T \<Longrightarrow> stable (\<lambda>d. I d \<and> J d) T"
  by (simp add: stable_def)

lemma stable_apart:
  "apart U T \<Longrightarrow> stable (\<lambda>d. p (rows U d)) T"
  by (simp add: stable_def apart_def)

end
