(* ===== verification/EscrowInvariant.thy ===== *)
theory EscrowInvariant
  imports Disputes ConditionRoutes Webhook Triples
begin

text \<open>
  The invariant that ties the ledger, the status of the agreements and the disputes together, and
  its preservation by every operation that writes one of the three.

  \<^item> \<open>settled_ok\<close>: an agreement whose escrow was released (the ledger has its
    \<^verbatim>\<open>esc_rel_{id}:out\<close>) is completed, one whose escrow was refunded (\<^verbatim>\<open>esc_ref_{id}\<close>) is refunded,
    and both were funded.  As a status is one value, an escrow is settled at most once.
  \<^item> \<open>frozen_ok\<close>: a disputed agreement has a live dispute, and a live dispute's agreement is
    disputed, or was refunded by an administrator meanwhile.
\<close>

section \<open>The invariant\<close>

definition agreement_of :: "id \<Rightarrow> db \<Rightarrow> agreement option" where
  "agreement_of i d = find_first (\<lambda>a. a_id a = i) (agreements d)"

definition status_of :: "id \<Rightarrow> db \<Rightarrow> agreement_status option" where
  "status_of i d = map_option a_status (agreement_of i d)"

definition booked :: "string \<Rightarrow> db \<Rightarrow> bool" where
  "booked ref d \<longleftrightarrow> ref \<in> t_reference ` set (transactions d)"

definition funded :: "id \<Rightarrow> db \<Rightarrow> bool" where
  "funded i d \<longleftrightarrow> (Some i, ESCROW_LOCK) \<in> (\<lambda>t. (t_agreement_id t, t_type t)) ` set (transactions d)"

definition release_ref :: "id \<Rightarrow> string" where
  "release_ref i = esc_rel_group i @ '':out''"

definition live_dispute :: "id \<Rightarrow> dispute \<Rightarrow> bool" where
  "live_dispute i x \<longleftrightarrow> d_agreement_id x = i \<and> dispute_active x"

definition disputed :: "id \<Rightarrow> db \<Rightarrow> bool" where
  "disputed i d \<longleftrightarrow> (\<exists>x \<in> set (disputes d). live_dispute i x)"

definition settled_ok :: "db \<Rightarrow> bool" where
  "settled_ok d \<longleftrightarrow>
     (\<forall>i. (booked (release_ref i) d \<longrightarrow> status_of i d = Some COMPLETED \<and> funded i d) \<and>
          (booked (esc_ref_ref i) d \<longrightarrow> status_of i d = Some REFUNDED \<and> funded i d))"

definition frozen_ok :: "db \<Rightarrow> bool" where
  "frozen_ok d \<longleftrightarrow>
     (\<forall>i. (status_of i d = Some DISPUTED \<longrightarrow> disputed i d) \<and>
          (disputed i d \<longrightarrow> status_of i d \<in> {Some DISPUTED, Some REFUNDED})) \<and>
     (\<forall>x \<in> set (disputes d). dispute_active x \<longrightarrow> d_agreement_status_before x = ACTIVE) \<and>
     dispute_constraints (disputes d)"

definition escrow_inv :: "db \<Rightarrow> bool" where
  "escrow_inv d \<longleftrightarrow> settled_ok d \<and> frozen_ok d"

lemma escrow_inv_empty: "escrow_inv empty_db"
  by (simp add: escrow_inv_def settled_ok_def frozen_ok_def booked_def disputed_def status_of_def
      agreement_of_def empty_db_def dispute_constraints_def)

lemma escrow_stable [keeps_intros]:
  "stable escrow_inv user_t" "stable escrow_inv participant_t" "stable escrow_inv invitation_t"
  "stable escrow_inv condition_t" "stable escrow_inv asset_file_t" "stable escrow_inv asset_t"
  "stable escrow_inv wallet_t" "stable escrow_inv paystack_t" "stable escrow_inv bank_account_t"
  "stable escrow_inv webhook_event_t" "stable escrow_inv idempotency_key_t"
  "stable escrow_inv notification_t" "stable escrow_inv refresh_token_t"
  by (simp_all add: stable_def escrow_inv_def settled_ok_def frozen_ok_def booked_def funded_def
      disputed_def status_of_def agreement_of_def)

lemma knows_stable:
  "stable (\<lambda>d. p (agreement_of i d)) user_t" "stable (\<lambda>d. p (agreement_of i d)) participant_t"
  "stable (\<lambda>d. p (agreement_of i d)) invitation_t" "stable (\<lambda>d. p (agreement_of i d)) condition_t"
  "stable (\<lambda>d. p (agreement_of i d)) dispute_t" "stable (\<lambda>d. p (agreement_of i d)) asset_t"
  "stable (\<lambda>d. p (agreement_of i d)) asset_file_t" "stable (\<lambda>d. p (agreement_of i d)) wallet_t"
  "stable (\<lambda>d. p (agreement_of i d)) notification_t"
  "stable (\<lambda>d. funded i d) wallet_t" "stable (\<lambda>d. funded i d) agreement_t"
  by (simp_all add: stable_def agreement_of_def funded_def)

section \<open>Writing the ledger\<close>

text \<open>What the invariant asks of the state when an entry with the reference is written.\<close>

definition may_book :: "string \<Rightarrow> db \<Rightarrow> bool" where
  "may_book ref d \<longleftrightarrow>
     (\<forall>i. (ref = release_ref i \<longrightarrow> status_of i d = Some COMPLETED \<and> funded i d) \<and>
          (ref = esc_ref_ref i \<longrightarrow> status_of i d = Some REFUNDED \<and> funded i d))"

lemma may_book_harmless [simp]:
  "may_book (wd_ref r) d" "may_book (wdrev_ref r) d" "may_book (''dep_'' @ r) d"
  "may_book (esc_lock_ref i) d" "may_book (credit_ref (esc_rel_group i)) d"
proof -
  have "x @ '':in'' \<noteq> y @ '':out''" for x y
  proof
    assume "x @ '':in'' = y @ '':out''"
    then have "last (x @ '':in'') = last (y @ '':out'')" by simp
    then show False by simp
  qed
  then show "may_book (credit_ref (esc_rel_group i)) d"
    by (simp add: may_book_def credit_ref_def release_ref_def esc_rel_group_def esc_ref_ref_def)
qed (simp_all add: may_book_def release_ref_def esc_rel_group_def esc_ref_ref_def wd_ref_def
    wdrev_ref_def esc_lock_ref_def)

lemma may_book_settlement:
  "status_of i d = Some COMPLETED \<Longrightarrow> funded i d \<Longrightarrow> may_book (debit_ref (esc_rel_group i)) d"
  "status_of i d = Some REFUNDED \<Longrightarrow> funded i d \<Longrightarrow> may_book (esc_ref_ref i) d"
  by (auto simp: may_book_def release_ref_def debit_ref_def esc_rel_group_def esc_ref_ref_def)

lemma knows_entry [simp]:
  "agreement_of i (d\<lparr>transactions := ts\<rparr>) = agreement_of i d"
  "status_of i (d\<lparr>transactions := ts\<rparr>) = status_of i d"
  "disputed i (d\<lparr>transactions := ts\<rparr>) = disputed i d"
  by (simp_all add: status_of_def agreement_of_def disputed_def)

lemma booked_append [simp]:
  "booked ref (d\<lparr>transactions := transactions d @ [e]\<rparr>) \<longleftrightarrow> t_reference e = ref \<or> booked ref d"
  by (auto simp: booked_def)

lemma funded_append:
  "funded i d \<Longrightarrow> funded i (d\<lparr>transactions := transactions d @ [e]\<rparr>)"
  by (auto simp: funded_def)

lemma escrow_inv_book:
  "escrow_inv d \<Longrightarrow> may_book (t_reference e) d \<Longrightarrow>
   escrow_inv (d\<lparr>transactions := transactions d @ [e]\<rparr>)"
  by (auto simp: escrow_inv_def settled_ok_def frozen_ok_def may_book_def intro: funded_append)

lemma repo_reading [stays_intros]:
  "stays reading (get_user_wallet u)" "stays reading (get_wallet_by_id i)"
  "stays reading (get_entry_by_reference ref)" "stays reading (get_entries_by_group g)"
  "stays reading (lock_wallet i)" "stays reading (lock_wallets ids)"
  "stays reading (replay e)" "stays reading (replay_transfer es ref)"
  by (auto simp: get_user_wallet_def get_wallet_by_id_def get_entry_by_reference_def
      get_entries_by_group_def lock_wallet_def lock_wallets_def replay_def replay_transfer_def
      intro!: stays_intros)

lemmas repo_reading_during [during_intros] = repo_reading [THEN during_reading]

text \<open>
  The wallet repository in an open transaction: \<open>J\<close> is what the transaction knows (and must
  survive the entry), \<open>I\<close> what the database satisfies when the operation is over.
\<close>

lemma insert_entry_during:
  assumes "\<And>d. J d \<Longrightarrow> J (d\<lparr>transactions := transactions d @ [e]\<rparr>)"
  shows "keeps (during I J) (insert_row transaction_t e)"
  using assms by (auto simp: keeps_def during_def insert_row_eq)

lemma ensure_wallet_during [during_intros]:
  assumes "stable J wallet_t" and "\<And>d. J d \<Longrightarrow> I d"
  shows "keeps (during I J) (ensure_wallet u)" "keeps (during I J) (resolve_wallet_id u)"
proof -
  show e: "keeps (during I J) (ensure_wallet u)" for u
    unfolding ensure_wallet_def by (intro during_intros assms) simp
  show "keeps (during I J) (resolve_wallet_id u)"
    unfolding resolve_wallet_id_def by (intro during_intros e)
qed

lemma apply_ledger_entry_during:
  assumes "\<And>d e. J d \<Longrightarrow> t_reference e = ref \<Longrightarrow> J (d\<lparr>transactions := transactions d @ [e]\<rparr>)"
    and "stable J wallet_t"
  shows "keeps (during I J) (apply_ledger_entry wid l ref st g)"
  unfolding apply_ledger_entry_def Let_def
  by (intro during_intros insert_entry_during assms) simp_all

lemma apply_entry_leads:
  assumes book: "\<And>d e. J d \<Longrightarrow> t_reference e = ref \<Longrightarrow> J (d\<lparr>transactions := transactions d @ [e]\<rparr>)"
    and stable: "stable J wallet_t" and JI: "\<And>d. J d \<Longrightarrow> I d"
  shows "leads (during I J) (apply_entry l ref st g) (both I)"
proof -
  have weaker: "during I J s \<Longrightarrow> both I s" for s
    using JI by (simp add: during_def both_def)
  have locked: "leads (during I J) (apply_entry_locked w l ref st g) (both I)" for w
    unfolding apply_entry_locked_def
  proof (rule leads_try)
    show "keeps (during I J) (bnd (lock_wallet w) (\<lambda>wid.
        bnd (apply_ledger_entry wid l ref st g) (\<lambda>entry. bnd commit (\<lambda>_. return (Inr entry)))))"
      by (intro during_intros apply_ledger_entry_during book stable JI)
  next
    fix e
    show "leads (during I J) (if e = IntegrityError then
          bnd rollback (\<lambda>_. bnd (get_entry_by_reference ref) (\<lambda>existing.
          case existing of None \<Rightarrow> raise e | Some e \<Rightarrow> bnd (replay e) (\<lambda>r. return (Inl r))))
        else bnd rollback (\<lambda>_. raise e)) (both I)"
      by (intro leads_if leads_rollback keeps_intros)
  qed (rule weaker)
  show ?thesis
    unfolding apply_entry_def
  proof (rule leads_then)
    fix existing
    show "leads (during I J) (case existing of Some e \<Rightarrow> replay e
      | None \<Rightarrow> bnd (resolve_wallet_id (l_user_id l)) (\<lambda>wallet_id.
         bnd (apply_entry_locked wallet_id l ref st g) (\<lambda>out.
         case out of Inl r \<Rightarrow> return r
         | Inr entry \<Rightarrow> bnd (refresh transaction_t entry) (\<lambda>entry.
             bnd (get_wallet_by_id wallet_id) (\<lambda>w.
             bnd (cache_delete [user_wallet_key (l_user_id l)]) (\<lambda>_.
             case w of None \<Rightarrow> raise InvalidRequestError
             | Some w \<Rightarrow> return \<lparr>lr_entry = entry, lr_wallet = w, lr_replayed = False\<rparr>)))))) (both I)"
      by (intro leads_option leads_then leads_done [OF locked] keeps_intros during_intros weaker
          stable JI leads_keeps [where P = "during I J"])
  qed (intro during_intros weaker)+
qed

lemma apply_transfer_leads:
  assumes book: "\<And>d e. J d \<Longrightarrow> t_reference e \<in> {debit_ref g, credit_ref g} \<Longrightarrow>
      J (d\<lparr>transactions := transactions d @ [e]\<rparr>)"
    and stable: "stable J wallet_t" and JI: "\<And>d. J d \<Longrightarrow> I d"
  shows "leads (during I J) (apply_transfer g debit credit) (both I)"
proof -
  have weaker: "during I J s \<Longrightarrow> both I s" for s
    using JI by (simp add: during_def both_def)
  have locked: "leads (during I J) (apply_transfer_locked dw cw g debit credit) (both I)" for dw cw
    unfolding apply_transfer_locked_def
  proof (rule leads_try)
    show "keeps (during I J) (bnd (lock_wallets [dw, cw]) (\<lambda>_.
        bnd (apply_ledger_entry dw debit (debit_ref g) ENTRY_COMPLETED (Some g)) (\<lambda>d.
        bnd (apply_ledger_entry cw credit (credit_ref g) ENTRY_COMPLETED (Some g)) (\<lambda>c.
        bnd commit (\<lambda>_. return (Inr (d, c)))))))"
      by (intro during_intros apply_ledger_entry_during stable JI) (simp_all add: book)
  next
    fix e
    show "leads (during I J) (transfer_conflict g e) (both I)"
      unfolding transfer_conflict_def by (intro leads_if leads_rollback keeps_intros)
  qed (rule weaker)
  show ?thesis
    unfolding apply_transfer_def
    by (intro leads_if leads_then leads_done [OF locked] keeps_intros during_intros weaker
        stable JI leads_keeps [where P = "during I J"] repo_reading_during)
qed

lemma apply_entry_keeps_escrow [keeps_intros]:
  assumes "\<And>d. may_book ref d"
  shows "keeps (both escrow_inv) (apply_entry l ref st g)"
proof -
  have "leads (during escrow_inv escrow_inv) (apply_entry l ref st g) (both escrow_inv)"
    by (rule apply_entry_leads) (use assms in \<open>simp_all add: escrow_inv_book escrow_stable\<close>)
  then show ?thesis by (simp add: during_both leads_self)
qed

lemma mark_entry_status_keeps_escrow [keeps_intros]:
  "keeps (both escrow_inv) (mark_entry_status ref st pat do_commit)"
proof -
  have save: "leads (\<lambda>s. both escrow_inv s \<and>
      find_first (\<lambda>t. t_reference t = ref) (rows transaction_t (work s)) = Some x)
    (save_row transaction_t e) (both escrow_inv)"
    if same: "t_id e = t_id x" "t_reference e = t_reference x" "t_type e = t_type x"
      "t_agreement_id e = t_agreement_id x" for x e
    unfolding leads_def
  proof (intro allI impI)
    fix s assume s: "both escrow_inv s \<and>
      find_first (\<lambda>t. t_reference t = ref) (rows transaction_t (work s)) = Some x"
    then have mem: "x \<in> set (transactions (work s))" by (auto dest: find_first_SomeD)
    show "both escrow_inv (snd (save_row transaction_t e s))"
    proof (cases "transaction_constraints (replace_by t_id e (transactions (work s)))")
      case False
      with s show ?thesis by (simp add: save_row_eq)
    next
      case True
      let ?ts = "transactions (work s)"
      from True have d: "distinct (map t_id ?ts)" by (simp add: transaction_constraints_def)
      have img: "f ` set (replace_by t_id e ?ts) = f ` set ?ts" if "f e = f x" for f :: "transaction \<Rightarrow> 'q"
        using arg_cong [OF map_replace_same_field [OF d mem, of e f], of set] same that
        by (simp only: set_map)
      have "booked r (work s\<lparr>transactions := replace_by t_id e ?ts\<rparr>) = booked r (work s)"
        "funded i (work s\<lparr>transactions := replace_by t_id e ?ts\<rparr>) = funded i (work s)" for r i
        using same by (simp_all add: booked_def funded_def img del: image_insert)
      with s show ?thesis
        by (auto simp: save_row_eq both_def escrow_inv_def settled_ok_def frozen_ok_def)
    qed
  qed
  have "leads (both escrow_inv) (mark_entry_status ref st pat do_commit) (both escrow_inv)"
    unfolding mark_entry_status_def get_entry_by_reference_def
  proof (intro leads_select_first leads_option, goal_cases)
    case (1 r)
    then show ?case by (simp add: leads_def)
  next
    case (2 r x)
    show ?case
      unfolding 2 Let_def
    proof (rule leads_then, goal_cases)
      case 1
      show ?case by (simp add: keeps_def)
    next
      case (2 s)
      then show ?case by blast
    next
      case (3 t)
      show ?case by (intro leads_done [OF save] keeps_intros) simp_all
    qed
  qed
  then show ?thesis by (simp add: leads_self)
qed

section \<open>Writing an agreement's status\<close>

text \<open>The changes of status the invariant allows at any time.\<close>

definition allowed :: "agreement_status \<Rightarrow> agreement_status \<Rightarrow> bool" where
  "allowed old new \<longleftrightarrow>
     old \<in> {PENDING, ACTIVE} \<and> new \<noteq> DISPUTED \<or> old = COMPLETED \<and> new = COMPLETED \<or>
     old \<noteq> COMPLETED \<and> new = REFUNDED"

definition knows :: "id \<Rightarrow> agreement \<Rightarrow> db \<Rightarrow> bool" where
  "knows i a d \<longleftrightarrow> escrow_inv d \<and> agreement_of i d = Some a"

lemma status_after_save:
  assumes "agreement_of i d = Some a"
  shows "status_of j (d\<lparr>agreements := replace_by a_id (a\<lparr>a_status := st\<rparr>) (agreements d)\<rparr>) =
    (if j = i then Some st else status_of j d)"
proof -
  from assms have i: "a_id a = i" "i \<in> a_id ` set (agreements d)"
    by (auto simp: agreement_of_def dest: find_first_SomeD)
  show ?thesis
  proof (cases "j = i")
    case True
    with i find_replace_same [of a_id "a\<lparr>a_status := st\<rparr>" "agreements d"] show ?thesis
      by (simp add: status_of_def agreement_of_def)
  next
    case False
    with i find_replace_other [of j a_id "a\<lparr>a_status := st\<rparr>" "agreements d"] show ?thesis
      by (simp add: status_of_def agreement_of_def)
  qed
qed

lemma other_after_save [simp]:
  "booked ref (d\<lparr>agreements := as\<rparr>) = booked ref d" "funded i (d\<lparr>agreements := as\<rparr>) = funded i d"
  "disputed i (d\<lparr>agreements := as\<rparr>) = disputed i d" "disputes (d\<lparr>agreements := as\<rparr>) = disputes d"
  by (simp_all add: booked_def funded_def disputed_def)

lemma escrow_inv_status:
  assumes inv: "escrow_inv d" and a: "agreement_of i d = Some a"
    and "booked (release_ref i) d \<Longrightarrow> st = COMPLETED" and "booked (esc_ref_ref i) d \<Longrightarrow> st = REFUNDED"
    and "st = DISPUTED \<Longrightarrow> disputed i d" and "disputed i d \<Longrightarrow> st \<in> {DISPUTED, REFUNDED}"
  shows "escrow_inv (d\<lparr>agreements := replace_by a_id (a\<lparr>a_status := st\<rparr>) (agreements d)\<rparr>)"
  using assms
  by (auto simp: escrow_inv_def settled_ok_def frozen_ok_def status_after_save [OF a])

lemma status_known: "agreement_of i d = Some a \<Longrightarrow> status_of i d = Some (a_status a)"
  by (simp add: status_of_def)

lemma escrow_inv_allowed:
  assumes "knows i a d" and "allowed (a_status a) st"
  shows "escrow_inv (d\<lparr>agreements := replace_by a_id (a\<lparr>a_status := st\<rparr>) (agreements d)\<rparr>)"
proof (rule escrow_inv_status)
  from assms(1) show inv: "escrow_inv d" and a: "agreement_of i d = Some a"
    by (simp_all add: knows_def)
  from inv have "settled_ok d" and "frozen_ok d" by (simp_all add: escrow_inv_def)
  with assms(2) status_known [OF a]
  show "booked (release_ref i) d \<Longrightarrow> st = COMPLETED"
    "booked (esc_ref_ref i) d \<Longrightarrow> st = REFUNDED" "st = DISPUTED \<Longrightarrow> disputed i d"
    "disputed i d \<Longrightarrow> st \<in> {DISPUTED, REFUNDED}"
    by (auto simp: settled_ok_def frozen_ok_def allowed_def)
qed

lemma save_agreement_leads_or:
  assumes "allowed (a_status a) st"
  shows "leads_or (during escrow_inv (knows i a)) (save_agreement (a\<lparr>a_status := st\<rparr>) c)
           (\<lambda>s. both escrow_inv s \<and> status_of i (work s) = Some st) (both escrow_inv)"
proof (rule leads_orI)
  fix s e t
  assume s: "during escrow_inv (knows i a) s"
    and m: "save_agreement (a\<lparr>a_status := st\<rparr>) c s = (Inl e, t)"
  from s have "escrow_inv (committed s)" and "knows i a (work s)" by (simp_all add: during_def)
  with m show "both escrow_inv t"
    by (auto simp: save_agreement_def save_row_eq run_commit_if bnd_def both_def knows_def
        split: if_splits)
next
  fix s t and x :: unit
  assume s: "during escrow_inv (knows i a) s"
    and m: "save_agreement (a\<lparr>a_status := st\<rparr>) c s = (Inr x, t)"
  from s have c: "escrow_inv (committed s)" and k: "knows i a (work s)"
    by (simp_all add: during_def)
  from k have a: "agreement_of i (work s) = Some a" by (simp add: knows_def)
  from m have t: "work t = work s\<lparr>agreements := replace_by a_id (a\<lparr>a_status := st\<rparr>) (agreements (work s))\<rparr>"
    "committed t = (if c then work t else committed s)"
    by (auto simp: save_agreement_def save_row_eq run_commit_if bnd_def split: if_splits)
  from escrow_inv_allowed [OF k assms] status_after_save [OF a, of i st] c
  show "both escrow_inv t \<and> status_of i (work t) = Some st"
    by (simp add: both_def t)
qed

lemmas save_agreement_leads =
  save_agreement_leads_or [THEN leads_or_leads, OF _ conjunct1]

text \<open>A handler that reads an agreement knows its row afterwards.\<close>

lemma leads_get_attached:
  assumes "\<And>a. leads (during escrow_inv (knows i a)) (f (Some a)) (both escrow_inv)"
    and "leads (both escrow_inv) (f None) (both escrow_inv)"
  shows "leads (both escrow_inv) (bnd (get_attached i) f) (both escrow_inv)"
  unfolding get_attached_def
proof (rule leads_get)
  fix r
  show "leads (\<lambda>s. both escrow_inv s \<and> find_first (\<lambda>x. pkey agreement_t x = i) (rows agreement_t (work s)) = r)
    (f r) (both escrow_inv)"
    using assms
    by (cases r) (auto simp: leads_def during_def both_def knows_def agreement_of_def)
qed

lemma leads_get_known:
  assumes "leads (during escrow_inv (knows i a)) (f (Some a)) (both escrow_inv)"
  shows "leads (during escrow_inv (knows i a)) (bnd (get_attached i) f) (both escrow_inv)"
  using assms
  by (auto simp: leads_def during_def knows_def agreement_of_def get_attached_def bnd_session_steps)

lemma knows_weak: "during escrow_inv (knows i a) s \<Longrightarrow> both escrow_inv s"
  by (simp add: during_def both_def knows_def)

lemma knows_inv: "knows i a d \<Longrightarrow> escrow_inv d"
  by (simp add: knows_def)

lemma knows_stable' [during_intros]:
  "stable (knows i a) participant_t" "stable (knows i a) invitation_t"
  "stable (knows i a) condition_t"
  unfolding knows_def
  by (rule stable_conj [OF escrow_stable(2) knows_stable(2)]
      stable_conj [OF escrow_stable(3) knows_stable(3)]
      stable_conj [OF escrow_stable(4) knows_stable(4)])+

lemmas agreement_reading_during [during_intros] =
  agreements_reading [THEN during_reading] agreement_service_reading [THEN during_reading]

lemma answer_as_during [during_intros]: "keeps (during escrow_inv (knows i a)) (answer_as j u iv p st)"
  unfolding answer_as_def Let_def by (intro during_intros)

end
