(* ===== verification/EscrowOperations.thy ===== *)
theory EscrowOperations
  imports EscrowInvariant
begin

text \<open>
  Every operation of the agreement, dispute and money services keeps the invariant of
  \<^verbatim>\<open>EscrowInvariant\<close>, in the committed database and in the open transaction.
\<close>

section \<open>Forming and ending an agreement\<close>

lemma leads_terminal: "keeps (during I J) m \<Longrightarrow> (\<And>d. J d \<Longrightarrow> I d) \<Longrightarrow> leads (during I J) m (both I)"
  by (rule leads_keeps) (auto simp: during_def both_def)

lemma leads_before:
  "keeps (during I J) m \<Longrightarrow> (\<And>d. J d \<Longrightarrow> I d) \<Longrightarrow> (\<And>x. leads (during I J) (f x) (both I)) \<Longrightarrow>
   leads (during I J) (bnd m f) (both I)"
  by (rule leads_then) (auto simp: during_def both_def)

lemmas knows_before = leads_before [where I = escrow_inv and J = "knows i a" for i a, OF _ knows_inv]
lemmas knows_end = leads_terminal [where I = escrow_inv and J = "knows i a" for i a, OF _ knows_inv]

lemma knows_raise: "leads (during escrow_inv (knows i a)) (raise e) (both escrow_inv)"
  by (rule leads_raise) (rule knows_weak)

lemma keeps_get_attached:
  assumes "\<And>a. a_id a = i \<Longrightarrow> leads (during escrow_inv (knows i a)) (f a) (both escrow_inv)"
    and "keeps (both escrow_inv) m"
  shows "keeps (both escrow_inv) (bnd (get_attached i) (\<lambda>x. case x of None \<Rightarrow> m | Some a \<Rightarrow> f a))"
proof -
  have "leads (during escrow_inv (knows i a)) (f a) (both escrow_inv)" for a
  proof (cases "a_id a = i")
    case False
    then show ?thesis
      by (auto simp: leads_def during_def knows_def agreement_of_def dest: find_first_SomeD)
  qed (rule assms)
  then show ?thesis
    using leads_get_attached [of i "\<lambda>x. case x of None \<Rightarrow> m | Some a \<Rightarrow> f a"] assms(2)
    by (simp add: leads_self)
qed

lemma leads_get_same:
  "leads (during escrow_inv (knows i a)) (f a) (both escrow_inv) \<Longrightarrow>
   leads (during escrow_inv (knows i a))
     (bnd (get_attached i) (\<lambda>x. case x of None \<Rightarrow> m | Some a \<Rightarrow> f a)) (both escrow_inv)"
  by (rule leads_get_known) simp

lemma cancel_keeps_escrow [keeps_intros]: "keeps (both escrow_inv) (cancel_agreement i u)"
proof -
  have save: "leads (during escrow_inv (knows i a)) (bnd (save_agreement (a\<lparr>a_status := CANCELLED\<rparr>) True)
      (\<lambda>_. bnd (invalidate_agreement_cache i) (\<lambda>_. get_agreement i (Some u)))) (both escrow_inv)"
    if "\<not> (a_status a \<noteq> PENDING \<and> a_status a \<noteq> ACTIVE)" for a
    by (intro leads_done [OF save_agreement_leads] keeps_intros) (use that in \<open>auto simp: allowed_def\<close>)
  show ?thesis
    unfolding cancel_agreement_def
    by (intro keeps_get_attached knows_before leads_if save knows_raise knows_end during_intros
        keeps_raise)
qed

lemma accept_keeps_escrow [keeps_intros]: "keeps (both escrow_inv) (accept_agreement i u em)"
proof -
  have save: "leads (during escrow_inv (knows i a))
      (bnd (save_agreement (a\<lparr>a_status := if b then ACTIVE else PENDING\<rparr>) True)
         (\<lambda>_. bnd (invalidate_agreement_keys i ks)
         (\<lambda>_. bnd (update_agreement_conditions_with_invitation i v q)
         (\<lambda>_. get_agreement i (Some u))))) (both escrow_inv)"
    if "\<not> a_status a \<noteq> PENDING" for a b ks q v
    by (intro leads_done [OF save_agreement_leads] keeps_intros)
      (use that in \<open>auto simp: allowed_def escrow_stable\<close>)
  show ?thesis
    unfolding accept_agreement_def Let_def
    by (intro keeps_get_attached keeps_intros leads_if knows_raise leads_get_same save
        knows_before during_intros knows_inv)
qed

lemma reject_keeps_escrow [keeps_intros]: "keeps (both escrow_inv) (reject_agreement i u em)"
proof -
  have save: "leads (during escrow_inv (knows i a))
      (bnd (save_agreement (a\<lparr>a_status := CANCELLED\<rparr>) True)
         (\<lambda>_. bnd (invalidate_agreement_keys i ks) (\<lambda>_. get_agreement i (Some u)))) (both escrow_inv)"
    if "\<not> a_status a \<notin> {PENDING, ACTIVE}" for a ks
    by (intro leads_done [OF save_agreement_leads] keeps_intros)
      (use that in \<open>auto simp: allowed_def escrow_stable\<close>)
  show ?thesis
    unfolding reject_agreement_def Let_def
    by (intro keeps_get_attached keeps_intros leads_if knows_raise leads_get_same leads_option save
        knows_before knows_end during_intros knows_inv)
qed

lemma insert_agreement_keeps_escrow:
  assumes "a_status a \<noteq> DISPUTED"
  shows "keeps (both escrow_inv) (insert_row agreement_t a)"
proof -
  have "escrow_inv (d\<lparr>agreements := agreements d @ [a]\<rparr>)"
    if inv: "escrow_inv d" and c: "agreement_constraints (agreements d @ [a])" for d
  proof -
    let ?d = "d\<lparr>agreements := agreements d @ [a]\<rparr>"
    from c have "find_first (\<lambda>x. a_id x = a_id a) (agreements d) = None"
      by (force simp: agreement_constraints_def find_first_None_iff image_iff)
    then have none: "status_of (a_id a) d = None" by (simp add: status_of_def agreement_of_def)
    have st: "status_of j ?d = (if j = a_id a then Some (a_status a) else status_of j d)" for j
      using none by (auto simp: status_of_def agreement_of_def find_first_append split: option.splits)
    have set: "settled_ok ?d"
      using inv none by (auto simp: escrow_inv_def settled_ok_def st)
    have fro: "frozen_ok ?d"
      using inv none assms by (auto simp: escrow_inv_def frozen_ok_def st)
    from set fro show ?thesis by (simp add: escrow_inv_def)
  qed
  then show ?thesis by (auto simp: keeps_def both_def insert_row_eq)
qed

lemma create_keeps_escrow [keeps_intros]: "keeps (both escrow_inv) (create_agreement web u em d)"
  unfolding create_agreement_def create_agreement_rows_def add_creator_def new_condition_def
    invite_other_def Let_def
  by (intro insert_agreement_keeps_escrow keeps_intros) simp_all

section \<open>Money that is not escrow leaving\<close>

lemma wallet_keeps_escrow [keeps_intros]:
  "keeps (both escrow_inv) (ensure_wallet u)"
  "keeps (both escrow_inv) (get_balance u)"
  "keeps (both escrow_inv) (get_wallet_state_for_ws u)"
  "keeps (both escrow_inv) (request_wallet_fund cfg net u em wc)"
  "keeps (both escrow_inv) (lock_escrow u am ag pa cp de)"
  "keeps (both escrow_inv) (reverse_withdrawal ref u am re)"
proof -
  show e: "keeps (both escrow_inv) (ensure_wallet u)" for u
    unfolding ensure_wallet_def by (intro keeps_intros)
  show "keeps (both escrow_inv) (get_balance u)" "keeps (both escrow_inv) (get_wallet_state_for_ws u)"
    "keeps (both escrow_inv) (request_wallet_fund cfg net u em wc)"
    "keeps (both escrow_inv) (lock_escrow u am ag pa cp de)"
    "keeps (both escrow_inv) (reverse_withdrawal ref u am re)"
    unfolding get_balance_def get_wallet_state_for_ws_def request_wallet_fund_def
      generate_fund_reference_def lock_escrow_def reverse_withdrawal_def
      create_paystack_transaction_def save_paystack_transaction_def Let_def
    by (intro keeps_intros e may_book_harmless)+
qed

lemma withdrawal_keeps_escrow [keeps_intros]:
  "keeps (both escrow_inv) (request_withdrawal cfg net u wd)"
  "keeps (both escrow_inv) (reconcile_pending_withdrawal net p)"
  "keeps (both escrow_inv) (get_withdrawal net u ref)"
  "keeps (both escrow_inv) (fund_wallet cfg net sweep digest cu key wc)"
  "keeps (both escrow_inv) (withdraw cfg net sweep digest cu key wd)"
proof -
  show r: "keeps (both escrow_inv) (request_withdrawal cfg net u wd)" for u
    unfolding request_withdrawal_def resolve_bank_account_def generate_withdrawal_reference_def
      send_withdrawal_def create_paystack_transaction_def save_paystack_transaction_def Let_def
    by (intro keeps_intros may_book_harmless)
  show g: "keeps (both escrow_inv) (reconcile_pending_withdrawal net p)" for p
    unfolding reconcile_pending_withdrawal_def save_paystack_transaction_def Let_def
    by (intro keeps_intros)
  show "keeps (both escrow_inv) (get_withdrawal net u ref)"
    unfolding get_withdrawal_def by (intro keeps_intros g)
  show "keeps (both escrow_inv) (fund_wallet cfg net sweep digest cu key wc)"
    "keeps (both escrow_inv) (withdraw cfg net sweep digest cu key wd)"
    unfolding fund_wallet_def withdraw_def required_key_def by (intro keeps_intros r)+
qed

lemma webhook_keeps_escrow [keeps_intros]:
  "keeps (both escrow_inv) (paystack_webhook cfg net sha256 hmac parse raw sig)"
proof -
  have h: "keeps (both escrow_inv) (handle_charge_success net d)"
    "keeps (both escrow_inv) (handle_transfer_success net d)"
    "keeps (both escrow_inv) (handle_transfer_reversal d fs)" for d fs
    unfolding handle_charge_success_def credit_charge_def handle_transfer_success_def
      handle_transfer_reversal_def verified_def save_paystack_transaction_def Let_def
    by (intro keeps_intros may_book_harmless)+
  have "keeps (both escrow_inv) (handle_event net sha256 p raw)" for p
    by (rule handle_event_keeps)
      (auto simp: event_handler_def escrow_stable h split: if_splits)
  then show ?thesis by (intro paystack_webhook_keeps escrow_stable)
qed

section \<open>Settling the escrow\<close>

text \<open>After \<open>prepare_release\<close> the open transaction has the agreement completed, still funded.\<close>

definition settling :: "id \<Rightarrow> agreement_status \<Rightarrow> db \<Rightarrow> bool" where
  "settling i st d \<longleftrightarrow> escrow_inv d \<and> status_of i d = Some st \<and> funded i d"

lemma settling_inv: "settling i st d \<Longrightarrow> escrow_inv d"
  by (simp add: settling_def)

lemma settling_stable: "stable (settling i st) wallet_t" "stable (settling i st) notification_t"
  by (simp_all add: stable_def settling_def escrow_inv_def settled_ok_def frozen_ok_def booked_def
      funded_def disputed_def status_of_def agreement_of_def)

lemma settling_book:
  "settling i COMPLETED d \<Longrightarrow> t_reference e \<in> {debit_ref (esc_rel_group i), credit_ref (esc_rel_group i)} \<Longrightarrow>
   settling i COMPLETED (d\<lparr>transactions := transactions d @ [e]\<rparr>)"
  "settling i REFUNDED d \<Longrightarrow> t_reference e = esc_ref_ref i \<Longrightarrow>
   settling i REFUNDED (d\<lparr>transactions := transactions d @ [e]\<rparr>)"
  by (auto simp: settling_def may_book_settlement intro!: escrow_inv_book funded_append)

lemma release_leads:
  "leads (during escrow_inv (settling i COMPLETED)) (release_escrow i du bu am de) (both escrow_inv)"
  unfolding release_escrow_def Let_def
  by (intro apply_transfer_leads settling_book settling_stable settling_inv)

lemma refund_leads:
  "leads (during escrow_inv (settling i REFUNDED)) (refund_escrow i du am de) (both escrow_inv)"
  unfolding refund_escrow_def
  by (intro apply_entry_leads settling_book settling_stable settling_inv)

text \<open>What a handler knows once it has seen that the agreement is funded.\<close>

definition holding :: "id \<Rightarrow> db \<Rightarrow> bool" where
  "holding i d \<longleftrightarrow> escrow_inv d \<and> funded i d"

lemma holding_inv: "holding i d \<Longrightarrow> escrow_inv d"
  by (simp add: holding_def)

lemma holding_weak: "during escrow_inv (holding i) s \<Longrightarrow> both escrow_inv s"
  by (simp add: during_def both_def holding_def)

lemma settling_weak: "during escrow_inv (settling i st) s \<Longrightarrow> both escrow_inv s"
  by (simp add: during_def both_def settling_def)

lemma save_settling:
  assumes "allowed (a_status a) st"
  shows "leads_or (during escrow_inv (\<lambda>d. holding i d \<and> agreement_of i d = Some a))
    (save_agreement (a\<lparr>a_status := st\<rparr>) False) (during escrow_inv (settling i st)) (both escrow_inv)"
proof (rule leads_orI)
  fix s e t
  assume "during escrow_inv (\<lambda>d. holding i d \<and> agreement_of i d = Some a) s"
    and "save_agreement (a\<lparr>a_status := st\<rparr>) False s = (Inl e, t)"
  then show "both escrow_inv t"
    by (auto simp: save_agreement_def save_row_eq run_commit_if bnd_def both_def during_def
        holding_def split: if_splits)
next
  fix s t and x :: unit
  assume s: "during escrow_inv (\<lambda>d. holding i d \<and> agreement_of i d = Some a) s"
    and m: "save_agreement (a\<lparr>a_status := st\<rparr>) False s = (Inr x, t)"
  from s have c: "escrow_inv (committed s)" and k: "knows i a (work s)" and f: "funded i (work s)"
    by (simp_all add: during_def holding_def knows_def)
  from k have a: "agreement_of i (work s) = Some a" by (simp add: knows_def)
  from m have t: "work t = work s\<lparr>agreements := replace_by a_id (a\<lparr>a_status := st\<rparr>) (agreements (work s))\<rparr>"
    "committed t = committed s"
    by (auto simp: save_agreement_def save_row_eq run_commit_if bnd_def split: if_splits)
  from escrow_inv_allowed [OF k assms] status_after_save [OF a, of i st] c f
  show "during escrow_inv (settling i st) t"
    by (simp add: during_def settling_def t)
qed

lemma leads_or_get_attached:
  assumes "\<And>a. leads_or (during escrow_inv (\<lambda>d. holding i d \<and> agreement_of i d = Some a)) (f a) R (both escrow_inv)"
  shows "leads_or (during escrow_inv (holding i))
    (bnd (get_attached i) (\<lambda>x. case x of None \<Rightarrow> raise e | Some a \<Rightarrow> f a)) R (both escrow_inv)"
proof (rule leads_orI)
  fix s er t
  assume "during escrow_inv (holding i) s"
    "bnd (get_attached i) (\<lambda>x. case x of None \<Rightarrow> raise e | Some a \<Rightarrow> f a) s = (Inl er, t)"
  then show "both escrow_inv t"
    using assms
    by (fastforce simp: get_attached_def bnd_session_steps during_def both_def holding_def
        agreement_of_def leads_or_def split: option.splits)
next
  fix s x t
  assume "during escrow_inv (holding i) s"
    "bnd (get_attached i) (\<lambda>x. case x of None \<Rightarrow> raise e | Some a \<Rightarrow> f a) s = (Inr x, t)"
  then show "R t"
    using assms
    by (fastforce simp: get_attached_def bnd_session_steps during_def
        agreement_of_def leads_or_def split: option.splits)
qed

lemma prepare_leads:
  "leads_or (during escrow_inv (holding i)) (prepare_release i)
     (during escrow_inv (settling i COMPLETED)) (both escrow_inv)"
  "leads_or (during escrow_inv (holding i)) (prepare_refund i)
     (during escrow_inv (settling i REFUNDED)) (both escrow_inv)"
proof -
  have weak: "during escrow_inv (\<lambda>d. holding i d \<and> agreement_of i d = Some a) s \<Longrightarrow> both escrow_inv s"
    for a s by (simp add: during_def both_def holding_def)
  have all: "(x = DISPUTED \<longrightarrow> False) \<Longrightarrow> x \<notin> {CANCELLED, REFUNDED} \<Longrightarrow> allowed x COMPLETED"
    "x \<noteq> COMPLETED \<Longrightarrow> allowed x REFUNDED" for x
    by (cases x; simp add: allowed_def)+
  show "leads_or (during escrow_inv (holding i)) (prepare_release i)
     (during escrow_inv (settling i COMPLETED)) (both escrow_inv)"
    unfolding prepare_release_def
    by (intro leads_or_then leads_or_get_attached leads_or_if leads_or_done leads_or_raise
        save_settling all settling_weak holding_weak weak during_intros) auto
  show "leads_or (during escrow_inv (holding i)) (prepare_refund i)
     (during escrow_inv (settling i REFUNDED)) (both escrow_inv)"
    unfolding prepare_refund_def
    by (intro leads_or_then leads_or_get_attached leads_or_if leads_or_done leads_or_raise
        save_settling all settling_weak holding_weak weak during_intros) auto
qed

lemma perform_leads:
  "leads (during escrow_inv (holding i)) (perform_escrow_release i) (both escrow_inv)"
  "leads (during escrow_inv (holding i)) (perform_escrow_refund i) (both escrow_inv)"
  unfolding perform_escrow_release_def perform_escrow_refund_def
  by (intro leads_bind [OF prepare_leads(1)] leads_bind [OF prepare_leads(2)]
      leads_done [OF release_leads] leads_done [OF refund_leads] keeps_intros)+

lemma run_is_funded: "is_agreement_funded i s = (Inr (funded i (work s)), s)"
  unfolding is_agreement_funded_def agreement_has_entry_of_type_def bnd_session_steps funded_def
  by (auto simp: find_first_None_iff image_iff eq_commute [of "Some i"] eq_commute [of ESCROW_LOCK]
      simp del: not_None_eq)

lemma run_is_released: "is_agreement_released i s = (Inr (booked (release_ref i) (work s)), s)"
proof -
  have ref: "''esc_rel_'' @ i @ '':out'' = release_ref i"
    by (simp add: release_ref_def esc_rel_group_def)
  show ?thesis
    unfolding is_agreement_released_def exists_reference_def bnd_session_steps booked_def ref
    by (auto simp: find_first_None_iff image_iff eq_commute [of "release_ref i"]
        simp del: not_None_eq)
qed

lemma keeps_when_funded:
  assumes "leads (during escrow_inv (holding i)) (f True) (both escrow_inv)"
    and "keeps (both escrow_inv) (f False)"
  shows "keeps (both escrow_inv) (bnd (is_agreement_funded i) f)"
  unfolding keeps_def
proof (intro allI impI)
  fix s assume "both escrow_inv s"
  with assms show "both escrow_inv (snd (bnd (is_agreement_funded i) f s))"
    by (cases "funded i (work s)")
      (auto simp: bnd_def run_is_funded leads_def keeps_def during_def both_def holding_def)
qed

lemma holding_before:
  "keeps (during escrow_inv (holding i)) m \<Longrightarrow>
   (\<And>x. leads (during escrow_inv (holding i)) (f x) (both escrow_inv)) \<Longrightarrow>
   leads (during escrow_inv (holding i)) (bnd m f) (both escrow_inv)"
  by (rule leads_before) (auto simp: holding_def)

lemma holding_raise: "leads (during escrow_inv (holding i)) (raise e) (both escrow_inv)"
  by (rule leads_raise) (rule holding_weak)

lemma holding_return: "leads (during escrow_inv (holding i)) (return x) (both escrow_inv)"
  by (rule leads_return) (rule holding_weak)

lemmas condition_reading_during [during_intros] = condition_service_reading [THEN during_reading]

lemma escrow_operations_keep [keeps_intros]:
  "keeps (both escrow_inv) (fund_operation cu i)"
  "keeps (both escrow_inv) (release_operation cu i)"
  "keeps (both escrow_inv) (refund_operation i)"
proof -
  show "keeps (both escrow_inv) (fund_operation cu i)"
    unfolding fund_operation_def by (intro keeps_intros)
  show "keeps (both escrow_inv) (release_operation cu i)"
    unfolding release_operation_def
    by (intro keeps_when_funded holding_before holding_raise leads_if during_intros
        leads_done [OF perform_leads(1)] keeps_intros) simp_all
  show "keeps (both escrow_inv) (refund_operation i)"
    unfolding refund_operation_def
    by (intro keeps_when_funded holding_before holding_raise leads_if during_intros
        leads_done [OF perform_leads(2)] keeps_intros) simp_all
qed

lemma release_if_ready_keeps [keeps_intros]: "keeps (both escrow_inv) (release_escrow_if_ready i)"
proof -
  have "leads (during escrow_inv (holding i)) (if \<not> True then return () else
      bnd (is_agreement_released i) (\<lambda>released. if released then return () else
      bnd (all_conditions_approved i) (\<lambda>approved. if \<not> approved then return () else
      bnd (get_agreement i None) (\<lambda>a. if ar_status a = DISPUTED then return () else
      bnd (perform_escrow_release i) (\<lambda>_. broadcast_agreement_update i ''released''))))) (both escrow_inv)"
    by (intro holding_before holding_return leads_if during_intros
        leads_done [OF perform_leads(1)] keeps_intros)
  then show ?thesis
    unfolding release_escrow_if_ready_def
    by (intro both_best_effort keeps_when_funded) (simp_all add: keeps_return)
qed

lemma settle_keeps [keeps_intros]: "keeps (both escrow_inv) (settle_dispute i out)"
proof -
  let ?pay = "\<lambda>b. if out = FAVOUR_BENEFICIARY then
      bnd (perform_escrow_release i) (\<lambda>_. broadcast_agreement_update i ''released'')
    else if out = FAVOUR_DEPOSITOR then
      bnd (perform_escrow_refund i) (\<lambda>_. broadcast_agreement_update i ''refunded'')
    else return ()"
  have pay: "leads (during escrow_inv (holding i)) (?pay b) (both escrow_inv)" for b :: unit
    by (intro leads_if leads_done [OF perform_leads(1)] leads_done [OF perform_leads(2)]
        holding_return keeps_intros)
  have whole: "leads (during escrow_inv (holding i)) (bnd (when_m (True \<and> \<not> released) (?pay ()))
      (\<lambda>_. return False)) (both escrow_inv)" for released
    by (intro leads_done leads_when pay holding_weak keeps_intros) simp
  have held: "leads (during escrow_inv (holding i)) (bnd (is_agreement_released i) (\<lambda>released.
      try_except (bnd (when_m (True \<and> \<not> released) (?pay ())) (\<lambda>_. return False))
        (\<lambda>_. return True))) (both escrow_inv)"
    by (intro holding_before leads_try_body [OF whole] during_intros leads_return)
  have free: "keeps (both escrow_inv) (bnd (is_agreement_released i) (\<lambda>released.
      try_except (bnd (when_m (False \<and> \<not> released) (?pay ())) (\<lambda>_. return False))
        (\<lambda>_. return True)))"
    unfolding when_m_def simp_thms if_False by (intro keeps_intros)
  show ?thesis
    unfolding settle_dispute_def by (rule keeps_when_funded) (rule held, rule free)
qed

text \<open>The routes that move the escrow, with their idempotency keys.\<close>

lemma escrow_routes_keep [keeps_intros]:
  "keeps (both escrow_inv) (fund_agreement cfg sweep digest cu key i)"
  "keeps (both escrow_inv) (release_agreement_escrow cfg sweep digest cu key i)"
  "keeps (both escrow_inv) (refund_agreement_escrow cfg sweep digest cu key i)"
  "keeps (both escrow_inv) (create_agreement_route cfg web addr cu body)"
  "keeps (both escrow_inv) (accept_agreement_route cfg sweep digest cu key i)"
  "keeps (both escrow_inv) (reject_agreement_route cfg sweep digest cu key i)"
  "keeps (both escrow_inv) (cancel_agreement_route cu i)"
  "keeps (both escrow_inv) (add_condition_route addr' cu i d)"
  "keeps (both escrow_inv) (approve_condition_route cu c)"
  "keeps (both escrow_inv) (reject_condition_route cu c re)"
  unfolding fund_agreement_def release_agreement_escrow_def refund_agreement_escrow_def
    required_key_def
  by (intro agreement_routes_keep condition_routes_keep keeps_intros)+

end
