(* ===== verification/DisputeOperations.thy ===== *)
theory DisputeOperations
  imports EscrowOperations
begin

text \<open>
  Raising, reviewing and resolving a dispute against the invariant of \<^verbatim>\<open>EscrowInvariant\<close>.  Between its
  writes a dispute operation leaves the open transaction in a state the invariant forbids (a live
  dispute on an agreement that is not frozen yet, or a frozen one with none); what it promises is that
  such a state is never committed.
\<close>

section \<open>Freezing\<close>

text \<open>The dispute is stored, the agreement not frozen yet: freezing it restores the invariant.\<close>

definition freezing :: "id \<Rightarrow> agreement \<Rightarrow> db \<Rightarrow> bool" where
  "freezing i a d \<longleftrightarrow> agreement_of i d = Some a \<and>
     escrow_inv (d\<lparr>agreements := replace_by a_id (a\<lparr>a_status := DISPUTED\<rparr>) (agreements d)\<rparr>)"

definition anything :: "db \<Rightarrow> bool" where
  "anything d = True"

lemma anything_rollback:
  "keeps (both escrow_inv) m \<Longrightarrow>
   leads (during escrow_inv anything) (bnd rollback (\<lambda>_. m)) (both escrow_inv)"
  by (rule leads_rollback)

lemma during_anything: "during escrow_inv J s \<Longrightarrow> during escrow_inv anything s"
  "both escrow_inv s \<Longrightarrow> during escrow_inv anything s"
  by (simp_all add: during_def anything_def both_def)

lemma freezing_stable:
  "stable (freezing i a) asset_file_t" "stable (freezing i a) asset_t"
  by (simp_all add: stable_def freezing_def escrow_inv_def settled_ok_def frozen_ok_def booked_def
      funded_def disputed_def status_of_def agreement_of_def)

lemma freezing_insert:
  assumes k: "knows i a d" and act: "a_status a = ACTIVE"
    and x: "d_agreement_id x = i" "dispute_active x" "d_agreement_status_before x = ACTIVE"
    and c: "dispute_constraints (disputes d @ [x])"
  shows "freezing i a (d\<lparr>disputes := disputes d @ [x]\<rparr>)"
proof -
  let ?d = "d\<lparr>disputes := disputes d @ [x]\<rparr>"
  from k have inv: "escrow_inv d" and a: "agreement_of i d = Some a" by (simp_all add: knows_def)
  from a have a': "agreement_of i ?d = Some a" by (simp add: agreement_of_def)
  have dis: "disputed j ?d \<longleftrightarrow> j = i \<or> disputed j d" for j
    using x by (auto simp: disputed_def live_dispute_def)
  have same: "booked r ?d = booked r d" "funded j ?d = funded j d" "status_of j ?d = status_of j d" for r j
    by (simp_all add: booked_def funded_def status_of_def agreement_of_def)
  from inv have "settled_ok d" "frozen_ok d" by (simp_all add: escrow_inv_def)
  with a act x(3) c have "escrow_inv (?d\<lparr>agreements :=
      replace_by a_id (a\<lparr>a_status := DISPUTED\<rparr>) (agreements ?d)\<rparr>)"
    unfolding escrow_inv_def settled_ok_def frozen_ok_def status_after_save [OF a']
    by (auto simp: dis same status_known [OF a])
  with a' show ?thesis by (simp add: freezing_def)
qed

lemma insert_dispute_leads:
  assumes "a_status a = ACTIVE" and "d_agreement_id x = i" "dispute_active x"
    "d_agreement_status_before x = ACTIVE"
  shows "leads_or (during escrow_inv (knows i a)) (insert_row dispute_t x)
    (during escrow_inv (freezing i a)) (during escrow_inv anything)"
  using freezing_insert [OF _ assms]
  by (auto simp: leads_or_def insert_row_eq during_def anything_def)

lemma freeze_leads:
  "leads_or (during escrow_inv (freezing i a)) (set_agreement_status a DISPUTED False)
     (both escrow_inv) (during escrow_inv anything)"
  by (auto simp: leads_or_def set_agreement_status_def save_row_eq run_commit_if bnd_def during_def
      both_def anything_def freezing_def)

lemma evidence_during [during_intros]:
  assumes "stable J asset_file_t" and "stable J asset_t"
  shows "keeps (during I J) (add_evidence_rows k p fs False)"
  unfolding add_evidence_rows_def new_asset_file_def new_asset_def commit_if_def when_m_def if_False
    Let_def
  by (intro during_intros assms)

lemma open_dispute_leads:
  assumes "a_id a = i" and "a_status a = ACTIVE"
  shows "leads_or (during escrow_inv (knows i a)) (open_dispute a p other data)
    (both escrow_inv) (during escrow_inv anything)"
proof -
  have freeze: "leads_or (during escrow_inv (freezing i a))
      (bnd (set_agreement_status a DISPUTED False) (\<lambda>_. bnd commit (\<lambda>_. refresh dispute_t x)))
      (both escrow_inv) (during escrow_inv anything)" for x
    by (intro leads_or_bind [OF freeze_leads] leads_or_keeps keeps_intros during_anything)
  have rest: "leads_or (during escrow_inv (freezing i a))
      (bnd (if dc_files data = [] then return [] else add_evidence_rows k q (dc_files data) False)
        (\<lambda>_. bnd (set_agreement_status a DISPUTED False) (\<lambda>_. bnd commit (\<lambda>_. refresh dispute_t x))))
      (both escrow_inv) (during escrow_inv anything)" for k q x
    by (intro leads_or_then [OF _ _ freeze] during_intros freezing_stable during_anything)
  have store: "leads_or (during escrow_inv (knows i a)) (bnd (insert_row dispute_t x)
      (\<lambda>_. bnd (if dc_files data = [] then return [] else add_evidence_rows (d_id x) (p_id p) (dc_files data) False)
        (\<lambda>_. bnd (set_agreement_status a DISPUTED False) (\<lambda>_. bnd commit (\<lambda>_. refresh dispute_t x)))))
      (both escrow_inv) (during escrow_inv anything)"
    if "d_agreement_id x = i" "dispute_active x" "d_agreement_status_before x = ACTIVE" for x
    by (intro leads_or_bind [OF insert_dispute_leads rest] that assms)
  show ?thesis
    unfolding open_dispute_def new_dispute_def bnd_assoc bnd_return
    by (intro leads_or_then [where m = now] leads_or_then [where m = uuid4] store during_intros
        during_anything) (simp_all add: assms dispute_active_def)
qed

lemma during_disputes [during_intros]:
  "keeps (during I J) (require_accepted_participant i u)"
  "keeps (during I J) (get_active_for_agreement i)"
  by (intro disputes_reading [THEN during_reading])+

lemma raise_dispute_keeps [keeps_intros]: "keeps (both escrow_inv) (raise_dispute i u data)"
proof -
  have undo: "leads (during escrow_inv anything) (bnd rollback (\<lambda>_. if e = IntegrityError
      then raise DisputeAlreadyExistsError else raise DisputeCreationError)) (both escrow_inv)" for e
    by (intro anything_rollback keeps_intros)
  have opened: "leads (during escrow_inv (knows i a)) (bnd (try_except (open_dispute a p q data)
      (\<lambda>err. bnd rollback (\<lambda>_. if err = IntegrityError then raise DisputeAlreadyExistsError
         else raise DisputeCreationError))) (\<lambda>d. bnd (invalidate_agreement_keys i [u, q])
      (\<lambda>_. to_dispute_response True d))) (both escrow_inv)"
    if "a_id a = i" "\<not> a_status a \<noteq> ACTIVE" for a p q
    using that by (intro leads_done [OF leads_try_or [OF open_dispute_leads undo]] keeps_intros) simp_all
  show ?thesis
    unfolding raise_dispute_def
    by (intro keeps_get_attached keeps_raise knows_before leads_if leads_option opened knows_raise
        during_intros)
qed

lemma raise_route_keeps [keeps_intros]:
  "keeps (both escrow_inv) (raise_dispute_route cloud mb cu i body)"
  unfolding raise_dispute_route_def by (intro keeps_intros)

section \<open>Reviewing\<close>

text \<open>What the invariant reads of the disputes.\<close>

definition live_rows :: "dispute list \<Rightarrow> (id \<times> bool \<times> agreement_status) set" where
  "live_rows ds = (\<lambda>x. (d_agreement_id x, dispute_active x, d_agreement_status_before x)) ` set ds"

lemma disputed_live_rows: "disputed i d \<longleftrightarrow> (\<exists>b. (i, True, b) \<in> live_rows (disputes d))"
  by (force simp: disputed_def live_dispute_def live_rows_def)

lemma before_live_rows:
  "(\<forall>x \<in> set ds. dispute_active x \<longrightarrow> d_agreement_status_before x = ACTIVE) \<longleftrightarrow>
   (\<forall>i b. (i, True, b) \<in> live_rows ds \<longrightarrow> b = ACTIVE)"
  by (force simp: live_rows_def)

lemma known_after_disputes [simp]:
  "agreement_of i (d\<lparr>disputes := ds\<rparr>) = agreement_of i d"
  "status_of i (d\<lparr>disputes := ds\<rparr>) = status_of i d"
  "booked ref (d\<lparr>disputes := ds\<rparr>) = booked ref d" "funded i (d\<lparr>disputes := ds\<rparr>) = funded i d"
  by (simp_all add: status_of_def agreement_of_def booked_def funded_def)

lemma escrow_inv_same_live:
  assumes "escrow_inv d" and "live_rows ds = live_rows (disputes d)" and "dispute_constraints ds"
  shows "escrow_inv (d\<lparr>disputes := ds\<rparr>)"
  using assms by (simp add: escrow_inv_def settled_ok_def frozen_ok_def disputed_live_rows before_live_rows)

lemma save_live_dispute:
  assumes "d_id x' = d_id x" "d_agreement_id x' = d_agreement_id x" "dispute_active x' = dispute_active x"
    "d_agreement_status_before x' = d_agreement_status_before x"
  shows "leads (\<lambda>s. both escrow_inv s \<and> find_first (\<lambda>y. d_id y = k) (disputes (work s)) = Some x)
    (save_dispute x' c) (both escrow_inv)"
  unfolding leads_def
proof (intro allI impI)
  fix s assume s: "both escrow_inv s \<and> find_first (\<lambda>y. d_id y = k) (disputes (work s)) = Some x"
  let ?ds = "replace_by d_id x' (disputes (work s))"
  show "both escrow_inv (snd (save_dispute x' c s))"
  proof (cases "dispute_constraints ?ds")
    case False
    with s show ?thesis by (simp add: save_dispute_def save_row_eq bnd_def)
  next
    case True
    then have "distinct (map d_id (disputes (work s)))" by (simp add: dispute_constraints_def)
    moreover from s have "x \<in> set (disputes (work s))" by (auto dest: find_first_SomeD)
    ultimately have "live_rows ?ds = live_rows (disputes (work s))"
      using arg_cong [OF map_replace_same_field [of d_id "disputes (work s)" x x'
        "\<lambda>x. (d_agreement_id x, dispute_active x, d_agreement_status_before x)"], of set] assms
      by (simp add: live_rows_def)
    with s True have "escrow_inv (work s\<lparr>disputes := ?ds\<rparr>)"
      by (simp add: escrow_inv_same_live both_def)
    with s True show ?thesis
      by (simp add: save_dispute_def save_row_eq bnd_def run_commit_if both_def)
  qed
qed

lemma under_review_keeps [keeps_intros]:
  "keeps (both escrow_inv) (admin_mark_under_review k u)"
  "keeps (both escrow_inv) (mark_under_review cu k)"
proof -
  show r: "keeps (both escrow_inv) (admin_mark_under_review k u)" for k u
    unfolding admin_mark_under_review_def get_dispute_by_id_def leads_self [symmetric]
  proof (rule leads_get)
    fix r
    let ?P = "\<lambda>s. both escrow_inv s \<and> find_first (\<lambda>x. pkey dispute_t x = k) (rows dispute_t (work s)) = r"
    show "leads ?P (case r of None \<Rightarrow> raise DisputeNotFoundError | Some d \<Rightarrow>
        if d_status d \<noteq> OPEN then raise DisputeNotOpenError
        else bnd now (\<lambda>t. let d = d\<lparr>d_status := UNDER_REVIEW, d_updated_at := t\<rparr>
          in bnd (save_dispute d True) (\<lambda>_. bnd (refresh dispute_t d) (to_dispute_response True))))
        (both escrow_inv)"
    proof (intro leads_option leads_if, goal_cases)
      case (3 x)
      have "leads ?P (bnd (save_dispute (x\<lparr>d_status := UNDER_REVIEW, d_updated_at := t\<rparr>) True)
          (\<lambda>_. bnd (refresh dispute_t (x\<lparr>d_status := UNDER_REVIEW, d_updated_at := t\<rparr>))
            (to_dispute_response True))) (both escrow_inv)" for t
        by (intro leads_done keeps_intros, rule save_live_dispute [of _ x k, THEN leads_pre])
          (use 3 in \<open>auto simp: dispute_active_def\<close>)
      then show ?case unfolding Let_def by (simp add: leads_def bnd_session_steps)
    qed (simp_all add: leads_def)
  qed
  show "keeps (both escrow_inv) (mark_under_review cu k)"
    unfolding mark_under_review_def by (intro keeps_intros r)
qed

section \<open>Resolving\<close>

text \<open>
  The dispute \<open>x\<close> is stored as resolved; its agreement may still be frozen (\<open>thawing\<close>) or not
  (\<open>thawed\<close>).
\<close>

definition stored_dispute :: "dispute \<Rightarrow> db \<Rightarrow> bool" where
  "stored_dispute x d \<longleftrightarrow> x \<in> set (disputes d)"

definition thawing :: "dispute \<Rightarrow> db \<Rightarrow> bool" where
  "thawing x d \<longleftrightarrow> stored_dispute x d \<and> settled_ok d \<and> dispute_constraints (disputes d) \<and>
     (\<forall>y \<in> set (disputes d). dispute_active y \<longrightarrow> d_agreement_status_before y = ACTIVE) \<and>
     \<not> disputed (d_agreement_id x) d \<and>
     (\<forall>j. j \<noteq> d_agreement_id x \<longrightarrow>
       (status_of j d = Some DISPUTED \<longrightarrow> disputed j d) \<and>
       (disputed j d \<longrightarrow> status_of j d \<in> {Some DISPUTED, Some REFUNDED}))"

definition thawed :: "dispute \<Rightarrow> db \<Rightarrow> bool" where
  "thawed x d \<longleftrightarrow> stored_dispute x d \<and> escrow_inv d"

lemma thawing_thawed:
  assumes "thawing x d" and "status_of (d_agreement_id x) d \<noteq> Some DISPUTED"
  shows "thawed x d"
proof -
  have "(status_of i d = Some DISPUTED \<longrightarrow> disputed i d) \<and>
      (disputed i d \<longrightarrow> status_of i d \<in> {Some DISPUTED, Some REFUNDED})" for i
    using assms by (cases "i = d_agreement_id x") (simp_all add: thawing_def)
  with assms show ?thesis
    unfolding thawing_def thawed_def escrow_inv_def frozen_ok_def by blast
qed

lemma thawed_inv: "thawed x d \<Longrightarrow> escrow_inv d"
  by (simp add: thawed_def)

lemma thawing_status:
  assumes t: "thawing x d" and a: "agreement_of (d_agreement_id x) d = Some a"
    and dis: "a_status a = DISPUTED"
  shows "thawed x (d\<lparr>agreements := replace_by a_id (a\<lparr>a_status := ACTIVE\<rparr>) (agreements d)\<rparr>)"
  using t dis
  by (auto simp: thawing_def thawed_def stored_dispute_def escrow_inv_def frozen_ok_def
      settled_ok_def status_after_save [OF a] status_known [OF a])

lemma thaw_leads:
  assumes "a_status a = DISPUTED"
  shows "leads_or (during escrow_inv (\<lambda>d. thawing x d \<and> agreement_of (d_agreement_id x) d = Some a))
    (set_agreement_status a ACTIVE False) (during escrow_inv (thawed x)) (during escrow_inv anything)"
  using thawing_status [OF _ _ assms]
  by (auto simp: leads_or_def set_agreement_status_def save_row_eq run_commit_if bnd_def during_def
      anything_def)

lemma resolving_stored:
  assumes inv: "escrow_inv d" and x: "find_first (\<lambda>y. d_id y = k) (disputes d) = Some x"
    and act: "dispute_active x"
    and x': "d_id x' = d_id x" "d_agreement_id x' = d_agreement_id x" "\<not> dispute_active x'"
    and c: "dispute_constraints (replace_by d_id x' (disputes d))"
  shows "thawing x' (d\<lparr>disputes := replace_by d_id x' (disputes d)\<rparr>)" (is "thawing x' ?d")
proof -
  from x have mem: "x \<in> set (disputes d)" by (auto dest: find_first_SomeD)
  from inv have set: "settled_ok d" and fro: "frozen_ok d" by (simp_all add: escrow_inv_def)
  then have con: "dispute_constraints (disputes d)" by (simp add: frozen_ok_def)
  then have one: "inj_on d_agreement_id {y \<in> set (disputes d). dispute_active y}"
    by (simp add: dispute_constraints_def distinct_map)
  from con have "distinct (map d_id (disputes d))" by (simp add: dispute_constraints_def)
  then have mem': "set (replace_by d_id x' (disputes d)) = insert x' (set (disputes d) - {x})"
    using mem x'(1) by (rule set_replace_by)
  have gone: "\<not> disputed (d_agreement_id x') ?d"
    using one mem act x' unfolding disputed_def live_dispute_def
    by (auto simp: mem' dest: inj_onD)
  have others: "disputed j ?d = disputed j d" if "j \<noteq> d_agreement_id x'" for j
    using that x' unfolding disputed_def live_dispute_def by (auto simp: mem')
  have settled: "settled_ok ?d" using set by (simp add: settled_ok_def)
  from fro x'(3) have "\<forall>y \<in> set (disputes ?d). dispute_active y \<longrightarrow> d_agreement_status_before y = ACTIVE"
    by (auto simp: mem' frozen_ok_def)
  with settled c gone fro others show ?thesis
    unfolding thawing_def stored_dispute_def by (auto simp: mem' frozen_ok_def)
qed

lemma replace_by_self: "distinct (map key xs) \<Longrightarrow> r \<in> set xs \<Longrightarrow> replace_by key r xs = xs"
  by (auto simp: replace_by_def distinct_map intro!: map_idI dest: inj_onD)

lemma resave_during:
  "keeps (during escrow_inv (thawed x)) (save_dispute x False)"
proof -
  have "replace_by d_id x (disputes d) = disputes d \<and> d\<lparr>disputes := disputes d\<rparr> = d" if "thawed x d" for d
    using that
    by (auto simp: thawed_def stored_dispute_def escrow_inv_def frozen_ok_def dispute_constraints_def
        intro!: replace_by_self)
  then show ?thesis
    by (auto simp: keeps_def during_def save_dispute_def save_row_eq bnd_def run_commit_if)
qed

lemma resolve_saves:
  assumes "d_id x' = d_id x" "d_agreement_id x' = d_agreement_id x" "\<not> dispute_active x'" "dispute_active x"
  shows "leads_or (\<lambda>s. both escrow_inv s \<and> find_first (\<lambda>y. d_id y = k) (disputes (work s)) = Some x)
    (save_dispute x' False) (during escrow_inv (thawing x')) (during escrow_inv anything)"
  using resolving_stored [OF _ _ assms(4) assms(1,2,3)]
  by (auto simp: leads_or_def save_dispute_def save_row_eq run_commit_if bnd_def both_def during_def
      anything_def)

lemma thaw_agreement:
  assumes "b = ACTIVE"
  shows "leads_or (during escrow_inv (thawing x))
    (bnd (get_attached (d_agreement_id x)) (\<lambda>a. case a of None \<Rightarrow> return ()
       | Some a \<Rightarrow> when_m (a_status a = DISPUTED) (set_agreement_status a b False)))
    (during escrow_inv (thawed x)) (during escrow_inv anything)"
  unfolding get_attached_def
proof (rule leads_or_get)
  fix r
  let ?P = "\<lambda>s. during escrow_inv (thawing x) s \<and>
    find_first (\<lambda>y. pkey agreement_t y = d_agreement_id x) (rows agreement_t (work s)) = r"
  have idle: "leads_or ?P (return ()) (during escrow_inv (thawed x)) (during escrow_inv anything)"
    if "\<And>a. r = Some a \<Longrightarrow> a_status a \<noteq> DISPUTED"
    by (rule leads_or_return)
      (use that in \<open>auto simp: during_def status_of_def agreement_of_def intro!: thawing_thawed\<close>)
  show "leads_or ?P (case r of None \<Rightarrow> return ()
       | Some a \<Rightarrow> when_m (a_status a = DISPUTED) (set_agreement_status a b False))
    (during escrow_inv (thawed x)) (during escrow_inv anything)"
  proof (cases "\<exists>a. r = Some a \<and> a_status a = DISPUTED")
    case True
    then obtain a where a: "r = Some a" "a_status a = DISPUTED" by blast
    show ?thesis
      unfolding a(1) assms option.case when_m_def
      using a(2) by (auto intro!: thaw_leads [THEN leads_or_pre] simp: during_def agreement_of_def)
  next
    case False
    then show ?thesis using idle by (cases r) (auto simp: when_m_def)
  qed
qed

lemma admin_resolve_leads:
  "leads_or (both escrow_inv) (admin_resolve_dispute k u data) (both escrow_inv)
     (during escrow_inv anything)"
  unfolding admin_resolve_dispute_def get_dispute_by_id_def
proof (rule leads_or_get)
  fix r
  let ?P = "\<lambda>s. both escrow_inv s \<and>
    find_first (\<lambda>x. pkey dispute_t x = k) (rows dispute_t (work s)) = r"
  show "leads_or ?P (case r of None \<Rightarrow> raise DisputeNotFoundError | Some d \<Rightarrow>
      if \<not> dispute_active d then raise DisputeNotOpenError
      else bnd now (\<lambda>t. let d' = resolved u data t d in bnd (save_dispute d' False) (\<lambda>_.
        bnd (get_attached (d_agreement_id d)) (\<lambda>a.
        bnd (case a of None \<Rightarrow> return () | Some a \<Rightarrow> when_m (a_status a = DISPUTED)
          (set_agreement_status a (d_agreement_status_before d) False)) (\<lambda>_.
        bnd (try_except (bnd (save_dispute d' False) (\<lambda>_. bnd commit (\<lambda>_. refresh dispute_t d')))
          (\<lambda>_. bnd rollback (\<lambda>_. raise DisputeCreationError))) (\<lambda>d'.
        bnd (participant_user_ids (d_agreement_id d)) (\<lambda>us.
        bnd (invalidate_agreement_keys (d_agreement_id d) us) (\<lambda>_. to_dispute_response True d'))))))))
    (both escrow_inv) (during escrow_inv anything)"
  proof (cases "\<exists>x. r = Some x \<and> dispute_active x \<and> d_agreement_status_before x = ACTIVE")
    case True
    then obtain x where x: "r = Some x" "dispute_active x" "d_agreement_status_before x = ACTIVE" by blast
    have fields: "d_id (resolved u data t x) = d_id x"
      "d_agreement_id (resolved u data t x) = d_agreement_id x"
      "\<not> dispute_active (resolved u data t x)" for t
      by (simp_all add: resolved_def dispute_active_def)
    have close: "leads (during escrow_inv (thawed y))
        (try_except (bnd (save_dispute y False) (\<lambda>_. bnd commit (\<lambda>_. refresh dispute_t y)))
          (\<lambda>_. bnd rollback (\<lambda>_. raise DisputeCreationError))) (both escrow_inv)" for y
      by (intro leads_try leads_rollback keeps_raise during_intros resave_during thawed_inv)
        (auto simp: during_def both_def thawed_def)
    have finish: "leads_or (during escrow_inv (thawed y))
        (bnd (try_except (bnd (save_dispute y False) (\<lambda>_. bnd commit (\<lambda>_. refresh dispute_t y)))
          (\<lambda>_. bnd rollback (\<lambda>_. raise DisputeCreationError))) (\<lambda>d'.
        bnd (participant_user_ids i) (\<lambda>us.
        bnd (invalidate_agreement_keys i us) (\<lambda>_. to_dispute_response True d'))))
      (both escrow_inv) (during escrow_inv anything)" for y i
      by (intro leads_or_bind [OF leads_or_of [OF close]] leads_or_keeps keeps_intros during_anything)
    have thaw: "leads_or (during escrow_inv (thawing (resolved u data t x)))
        (bnd (get_attached (d_agreement_id x)) (\<lambda>a. case a of None \<Rightarrow> return ()
           | Some a \<Rightarrow> when_m (a_status a = DISPUTED)
               (set_agreement_status a (d_agreement_status_before x) False)))
        (during escrow_inv (thawed (resolved u data t x))) (during escrow_inv anything)" for t
      using thaw_agreement [OF x(3), of "resolved u data t x"] by (simp only: fields)
    have save: "leads_or ?P (save_dispute (resolved u data t x) False)
        (during escrow_inv (thawing (resolved u data t x))) (during escrow_inv anything)" for t
      using resolve_saves [OF fields x(2), of k] x(1) by simp
    show ?thesis
      using x(2) unfolding x(1) option.case Let_def bnd_assoc [symmetric, of "get_attached _"]
      by (simp only: not_True_eq_False if_False)
        (intro leads_or_now leads_or_bind [OF save [unfolded x(1)]] leads_or_bind [OF thaw] finish)
  next
    case False
    then show ?thesis
      by (cases r) (auto simp: leads_or_def both_def during_def anything_def escrow_inv_def frozen_ok_def
          dest!: find_first_SomeD)
  qed
qed

lemma resolve_route_leads:
  "leads (both escrow_inv) (resolve_dispute cu k rv) (during escrow_inv anything)"
  unfolding resolve_dispute_def
  by (intro leads_then [where m = "get_admin_user cu"] leads_if leads_raise during_anything
      leads_bind [OF admin_resolve_leads] leads_keeps keeps_intros)

end
