(* ===== verification/BankAccounts.thy ===== *)
theory BankAccounts
  imports BankAccountRepo LedgerFrames Samples
begin

text \<open>
  \<^verbatim>\<open>src/app/service/bank_account_service.py\<close>, \<^verbatim>\<open>src/app/routers/bank_account.py\<close> and
  \<^verbatim>\<open>src/app/schemas/bank_account_schema.py\<close>: payout accounts.  The holder's name and the recipient
  code come from the provider.  A bank of the provider's list is its name and code.
\<close>

section \<open>Bodies\<close>

record account_resolve =
  rs_account_number :: string
  rs_bank_code :: string

record bank_account_create =
  bc_account_number :: string
  bc_bank_code :: string
  bc_make_default :: bool

definition account_fields_ok :: "string \<Rightarrow> string \<Rightarrow> bool" where
  "account_fields_ok account_number bank_code \<longleftrightarrow>
     10 \<le> length account_number \<and> length account_number \<le> 20 \<and>
     1 \<le> length bank_code \<and> length bank_code \<le> 10"

record bank_account_response =
  br_id :: id
  br_account_number :: string
  br_account_name :: string
  br_bank_code :: string
  br_bank_name :: string
  br_currency :: string
  br_is_default :: bool
  br_created_at :: time

definition bank_account_response_of :: "bank_account \<Rightarrow> bank_account_response" where
  "bank_account_response_of b =
     \<lparr>br_id = b_id b, br_account_number = b_account_number b, br_account_name = b_account_name b,
      br_bank_code = b_bank_code b, br_bank_name = b_bank_name b, br_currency = b_currency b,
      br_is_default = b_is_default b, br_created_at = b_created_at b\<rparr>"

record resolved_account =
  ra_account_number :: string
  ra_account_name :: string
  ra_bank_code :: string
  ra_bank_name :: string

section \<open>Service\<close>

text \<open>\<^verbatim>\<open>data["key"]\<close>\<close>

definition require_key :: "'a option \<Rightarrow> 'a handler" where
  "require_key x = (case x of None \<Rightarrow> raise KeyError | Some v \<Rightarrow> return v)"

definition list_banks_service :: "transport \<Rightarrow> string \<Rightarrow> (string \<times> string) list handler" where
  "list_banks_service net currency =
     bnd (get_cached_banks currency) (\<lambda>cached.
     case cached of
       Some banks \<Rightarrow> return banks
     | None \<Rightarrow>
         bnd (list_banks net currency) (\<lambda>banks.
         bnd (cache_banks currency banks) (\<lambda>_. return banks)))"

definition bank_name :: "transport \<Rightarrow> string \<Rightarrow> string handler" where
  "bank_name net bank_code =
     bnd (list_banks_service net ''NGN'') (\<lambda>banks.
     case find_first (\<lambda>(name, code). code = bank_code) banks of
       None \<Rightarrow> raise BadRequestError
     | Some (name, _) \<Rightarrow> return name)"

definition resolve_account :: "transport \<Rightarrow> account_resolve \<Rightarrow> resolved_account handler" where
  "resolve_account net payload =
     bnd (resolve_account_number net (rs_account_number payload) (rs_bank_code payload)) (\<lambda>data.
     bnd (require_key (pd_account_number data)) (\<lambda>number.
     bnd (require_key (pd_account_name data)) (\<lambda>holder.
     bnd (bank_name net (rs_bank_code payload)) (\<lambda>bank.
     return \<lparr>ra_account_number = number, ra_account_name = holder,
             ra_bank_code = rs_bank_code payload, ra_bank_name = bank\<rparr>))))"

definition get_user_bank_accounts :: "id \<Rightarrow> bank_account_response list handler" where
  "get_user_bank_accounts user_id =
     bnd (list_for_user user_id) (\<lambda>bs. return (map bank_account_response_of bs))"

definition new_bank_account ::
  "id \<Rightarrow> bank_account_create \<Rightarrow> string \<Rightarrow> string \<Rightarrow> string \<Rightarrow> bank_account handler"
where
  "new_bank_account user_id payload bank holder recipient =
     bnd now (\<lambda>t.
     bnd uuid4 (\<lambda>u.
     return \<lparr>b_id = u, b_user_id = user_id, b_account_number = bc_account_number payload,
             b_bank_code = bc_bank_code payload, b_bank_name = bank, b_account_name = holder,
             b_recipient_code = recipient, b_currency = ''NGN'', b_is_default = False,
             b_is_active = True, b_created_at = t, b_updated_at = t\<rparr>))"

definition add_bank_account ::
  "transport \<Rightarrow> id \<Rightarrow> bank_account_create \<Rightarrow> bank_account_response handler"
where
  "add_bank_account net user_id payload =
     bnd (find_active_duplicate user_id (bc_bank_code payload) (bc_account_number payload)) (\<lambda>duplicate.
     if duplicate \<noteq> None then raise DuplicateBankAccountError
     else
       bnd (bank_name net (bc_bank_code payload)) (\<lambda>bank.
       bnd (resolve_account_number net (bc_account_number payload) (bc_bank_code payload)) (\<lambda>data.
       bnd (require_key (pd_account_name data)) (\<lambda>holder.
       bnd (create_transfer_recipient net holder (bc_account_number payload)
              (bc_bank_code payload) ''NGN'') (\<lambda>recipient.
       bnd (require_key (pd_recipient_code recipient)) (\<lambda>code.
       bnd (new_bank_account user_id payload bank holder code) (\<lambda>account.
       bnd (if bc_make_default payload then return True
            else bnd (get_default_for_user user_id) (\<lambda>d. return (d = None))) (\<lambda>make_default.
       bnd (add_account account (\<not> make_default)) (\<lambda>account.
       bnd (if make_default then set_default account else return account) (\<lambda>account.
       return (bank_account_response_of account)))))))))))"

definition set_default_bank_account :: "id \<Rightarrow> id \<Rightarrow> bank_account_response handler" where
  "set_default_bank_account bank_account_id user_id =
     bnd (get_for_user bank_account_id user_id) (\<lambda>account.
     case account of
       None \<Rightarrow> raise BankAccountNotFoundError
     | Some b \<Rightarrow> bnd (set_default b) (\<lambda>b. return (bank_account_response_of b)))"

definition remove_bank_account :: "id \<Rightarrow> id \<Rightarrow> unit handler" where
  "remove_bank_account bank_account_id user_id =
     bnd (get_for_user bank_account_id user_id) (\<lambda>account.
     case account of
       None \<Rightarrow> raise BankAccountNotFoundError
     | Some b \<Rightarrow>
         bnd (has_pending_withdrawal (b_id b)) (\<lambda>busy.
         if busy then raise BadRequestError
         else bnd (deactivate b) (\<lambda>_. return ())))"

section \<open>Routes\<close>

definition list_banks_route :: "transport \<Rightarrow> user \<Rightarrow> (string \<times> string) list handler" where
  "list_banks_route net current_user = list_banks_service net ''NGN''"

definition resolve_account_route ::
  "transport \<Rightarrow> user \<Rightarrow> account_resolve \<Rightarrow> resolved_account handler"
where
  "resolve_account_route net current_user payload =
     (if account_fields_ok (rs_account_number payload) (rs_bank_code payload)
      then resolve_account net payload else raise (HTTPException 422))"

definition get_bank_accounts_route :: "user \<Rightarrow> bank_account_response list handler" where
  "get_bank_accounts_route current_user = get_user_bank_accounts (u_id current_user)"

definition add_bank_account_route ::
  "transport \<Rightarrow> user \<Rightarrow> bank_account_create \<Rightarrow> bank_account_response handler"
where
  "add_bank_account_route net current_user payload =
     (if account_fields_ok (bc_account_number payload) (bc_bank_code payload)
      then add_bank_account net (u_id current_user) payload else raise (HTTPException 422))"

definition set_default_bank_account_route :: "user \<Rightarrow> id \<Rightarrow> bank_account_response handler" where
  "set_default_bank_account_route current_user bank_account_id =
     set_default_bank_account bank_account_id (u_id current_user)"

definition remove_bank_account_route :: "user \<Rightarrow> id \<Rightarrow> unit handler" where
  "remove_bank_account_route current_user bank_account_id =
     remove_bank_account bank_account_id (u_id current_user)"

section \<open>What the service keeps\<close>

lemma bank_account_service_keeps [keeps_intros]:
  assumes "stable I bank_account_t"
  shows "keeps (both I) (add_bank_account_route net cu p)"
    "keeps (both I) (set_default_bank_account_route cu i)"
    "keeps (both I) (remove_bank_account_route cu i)" "keeps (both I) (list_banks_route net cu)"
    "keeps (both I) (resolve_account_route net cu r)" "keeps (both I) (get_bank_accounts_route cu)"
proof -
  have b: "keeps (both I) (list_banks_service net c)" "keeps (both I) (bank_name net bc)" for c bc
    unfolding bank_name_def list_banks_service_def by (intro keeps_intros)+
  show "keeps (both I) (list_banks_route net cu)" "keeps (both I) (resolve_account_route net cu r)"
    "keeps (both I) (get_bank_accounts_route cu)" "keeps (both I) (add_bank_account_route net cu p)"
    "keeps (both I) (set_default_bank_account_route cu i)"
    "keeps (both I) (remove_bank_account_route cu i)"
    unfolding list_banks_route_def resolve_account_route_def resolve_account_def
      get_bank_accounts_route_def get_user_bank_accounts_def add_bank_account_route_def
      add_bank_account_def new_bank_account_def set_default_bank_account_route_def
      set_default_bank_account_def remove_bank_account_route_def remove_bank_account_def
      require_key_def
    by (intro keeps_intros b assms)+
qed

section \<open>The default account\<close>

lemma distinct_map_filter_inj:
  "distinct (map key xs) \<Longrightarrow> distinct (map f (filter P xs)) \<longleftrightarrow> inj_on f {x \<in> set xs. P x}"
  by (simp add: distinct_map)

lemma bank_account_constraints_iff:
  "bank_account_constraints bs \<longleftrightarrow>
     distinct (map b_id bs) \<and> inj_on b_recipient_code (set bs) \<and>
     inj_on (\<lambda>b. (b_user_id b, b_bank_code b, b_account_number b)) {b \<in> set bs. b_is_active b} \<and>
     inj_on b_user_id {b \<in> set bs. b_is_default b \<and> b_is_active b}"
  unfolding bank_account_constraints_def
  by (cases "distinct (map b_id bs)")
    (simp_all add: distinct_map_filter_inj, simp add: distinct_map)

text \<open>Two rows that differ in the default flag and the time of the change only.\<close>

definition flag_change :: "bank_account \<Rightarrow> bank_account \<Rightarrow> bool" where
  "flag_change b x \<longleftrightarrow> (\<exists>d t. x = b\<lparr>b_is_default := d, b_updated_at := t\<rparr>)"

lemma constraints_flag_change:
  assumes c: "bank_account_constraints bs" and b: "b \<in> set bs" and x: "flag_change b x"
    and one: "b_is_default x \<Longrightarrow>
      \<forall>y \<in> set bs. b_user_id y = b_user_id b \<and> b_is_default y \<and> b_is_active y \<longrightarrow> y = b"
  shows "bank_account_constraints (replace_by b_id x bs)"
proof -
  from x have same: "b_id x = b_id b" "b_recipient_code x = b_recipient_code b"
    "b_user_id x = b_user_id b" "b_bank_code x = b_bank_code b"
    "b_account_number x = b_account_number b" "b_is_active x = b_is_active b"
    by (auto simp: flag_change_def)
  from c have ids: "distinct (map b_id bs)" by (simp add: bank_account_constraints_def)
  have set: "set (replace_by b_id x bs) = insert x (set bs - {b})"
    by (rule set_replace_by [OF ids b same(1)])
  from c [unfolded bank_account_constraints_iff] have inj: "inj_on b_recipient_code (set bs)"
    "inj_on (\<lambda>b. (b_user_id b, b_bank_code b, b_account_number b)) {b \<in> set bs. b_is_active b}"
    "inj_on b_user_id {b \<in> set bs. b_is_default b \<and> b_is_active b}" by simp_all
  have 1: "inj_on b_recipient_code (insert x (set bs - {b}))"
    using inj(1) b same(2) by (auto simp: inj_on_def)
  have 2: "inj_on (\<lambda>b. (b_user_id b, b_bank_code b, b_account_number b))
      {y \<in> insert x (set bs - {b}). b_is_active y}"
    using inj(2) b same by (auto simp: inj_on_def)
  have 3: "inj_on b_user_id {y \<in> insert x (set bs - {b}). b_is_default y \<and> b_is_active y}"
    using inj(3) b same one by (auto simp: inj_on_def)
  from 1 2 3 ids show ?thesis by (simp add: bank_account_constraints_iff set)
qed

text \<open>The rows after \<open>set_default\<close>: the old default is cleared before the new one is set.\<close>

definition cleared_default :: "time \<Rightarrow> bank_account \<Rightarrow> bank_account list \<Rightarrow> bank_account list" where
  "cleared_default t b bs =
     (case find_first (\<lambda>c. b_user_id c = b_user_id b \<and> b_is_default c \<and> b_is_active c) bs of
        None \<Rightarrow> bs
      | Some c \<Rightarrow>
          if b_id c \<noteq> b_id b then replace_by b_id (c\<lparr>b_is_default := False, b_updated_at := t\<rparr>) bs
          else bs)"

definition as_default :: "time \<Rightarrow> bank_account \<Rightarrow> bank_account" where
  "as_default t b = b\<lparr>b_is_default := True, b_updated_at := t\<rparr>"

lemma cleared_default_facts:
  assumes c: "bank_account_constraints bs" and b: "b \<in> set bs"
  shows "bank_account_constraints (cleared_default t b bs)" "b \<in> set (cleared_default t b bs)"
    "\<forall>y \<in> set (cleared_default t b bs).
       b_user_id y = b_user_id b \<and> b_is_default y \<and> b_is_active y \<longrightarrow> y = b"
    "map (\<lambda>y. y\<lparr>b_is_default := False, b_updated_at := 0\<rparr>) (cleared_default t b bs) =
     map (\<lambda>y. y\<lparr>b_is_default := False, b_updated_at := 0\<rparr>) bs"
proof -
  let ?p = "\<lambda>c. b_user_id c = b_user_id b \<and> b_is_default c \<and> b_is_active c"
  from c have ids: "distinct (map b_id bs)" by (simp add: bank_account_constraints_def)
  from c have inj: "inj_on b_user_id {y \<in> set bs. b_is_default y \<and> b_is_active y}"
    by (simp add: bank_account_constraints_iff)
  have "bank_account_constraints (cleared_default t b bs) \<and> b \<in> set (cleared_default t b bs) \<and>
    (\<forall>y \<in> set (cleared_default t b bs). ?p y \<longrightarrow> y = b) \<and>
    map (\<lambda>y. y\<lparr>b_is_default := False, b_updated_at := 0\<rparr>) (cleared_default t b bs) =
    map (\<lambda>y. y\<lparr>b_is_default := False, b_updated_at := 0\<rparr>) bs"
  proof (cases "find_first ?p bs")
    case None
    then have "cleared_default t b bs = bs" by (simp add: cleared_default_def)
    with None c b show ?thesis by (auto simp: find_first_None_iff)
  next
    case (Some x)
    then have x: "x \<in> set bs" "?p x" by (auto dest: find_first_SomeD)
    have only: "y = x" if "y \<in> set bs" "?p y" for y
      using inj_onD [OF inj, of y x] that x by simp
    show ?thesis
    proof (cases "b_id x = b_id b")
      case True
      with ids x(1) b have "x = b" by (auto simp: distinct_map dest: inj_onD)
      moreover from Some True have "cleared_default t b bs = bs" by (simp add: cleared_default_def)
      ultimately show ?thesis using c b only by auto
    next
      case False
      let ?x = "x\<lparr>b_is_default := False, b_updated_at := t\<rparr>"
      from Some False have eq: "cleared_default t b bs = replace_by b_id ?x bs"
        by (simp add: cleared_default_def)
      have set: "set (replace_by b_id ?x bs) = insert ?x (set bs - {x})"
        by (rule set_replace_by [OF ids x(1)]) simp
      have "bank_account_constraints (replace_by b_id ?x bs)"
        by (rule constraints_flag_change [OF c x(1)]) (auto simp: flag_change_def)
      moreover have "b \<in> set (replace_by b_id ?x bs)" using b False by (auto simp: set)
      moreover have "\<forall>y \<in> set (replace_by b_id ?x bs). ?p y \<longrightarrow> y = b" using only by (auto simp: set)
      moreover have "map (\<lambda>y. y\<lparr>b_is_default := False, b_updated_at := 0\<rparr>) (replace_by b_id ?x bs) =
          map (\<lambda>y. y\<lparr>b_is_default := False, b_updated_at := 0\<rparr>) bs"
        by (rule map_replace_same_field [OF ids x(1)]) simp_all
      ultimately show ?thesis by (simp add: eq)
    qed
  qed
  then show "bank_account_constraints (cleared_default t b bs)" "b \<in> set (cleared_default t b bs)"
    "\<forall>y \<in> set (cleared_default t b bs). ?p y \<longrightarrow> y = b"
    "map (\<lambda>y. y\<lparr>b_is_default := False, b_updated_at := 0\<rparr>) (cleared_default t b bs) =
     map (\<lambda>y. y\<lparr>b_is_default := False, b_updated_at := 0\<rparr>) bs" by simp_all
qed

lemma as_default_facts:
  assumes c: "bank_account_constraints bs" and b: "b \<in> set bs" and act: "b_is_active b"
    and only: "\<forall>y \<in> set bs. b_user_id y = b_user_id b \<and> b_is_default y \<and> b_is_active y \<longrightarrow> y = b"
  shows "bank_account_constraints (replace_by b_id (as_default t b) bs)"
    "find_first (\<lambda>y. b_id y = b_id b) (replace_by b_id (as_default t b) bs) = Some (as_default t b)"
    "\<forall>y \<in> set (replace_by b_id (as_default t b) bs).
       b_user_id y = b_user_id b \<and> b_is_default y \<and> b_is_active y \<longleftrightarrow> b_id y = b_id b"
    "map (\<lambda>y. y\<lparr>b_is_default := False, b_updated_at := 0\<rparr>) (replace_by b_id (as_default t b) bs) =
     map (\<lambda>y. y\<lparr>b_is_default := False, b_updated_at := 0\<rparr>) bs"
proof -
  from c have ids: "distinct (map b_id bs)" by (simp add: bank_account_constraints_def)
  have same: "b_id (as_default t b) = b_id b" by (simp add: as_default_def)
  have set: "set (replace_by b_id (as_default t b) bs) = insert (as_default t b) (set bs - {b})"
    by (rule set_replace_by [OF ids b same])
  show "bank_account_constraints (replace_by b_id (as_default t b) bs)"
    by (rule constraints_flag_change [OF c b _ only]) (auto simp: flag_change_def as_default_def)
  show "find_first (\<lambda>y. b_id y = b_id b) (replace_by b_id (as_default t b) bs) = Some (as_default t b)"
    using find_replace_same [of b_id "as_default t b" bs] b by (simp add: same)
  show "\<forall>y \<in> set (replace_by b_id (as_default t b) bs).
       b_user_id y = b_user_id b \<and> b_is_default y \<and> b_is_active y \<longleftrightarrow> b_id y = b_id b"
    using only act ids b unfolding set
    by (auto simp: as_default_def distinct_map dest: inj_onD)
  show "map (\<lambda>y. y\<lparr>b_is_default := False, b_updated_at := 0\<rparr>) (replace_by b_id (as_default t b) bs) =
     map (\<lambda>y. y\<lparr>b_is_default := False, b_updated_at := 0\<rparr>) bs"
    by (rule map_replace_same_field [OF ids b]) (simp_all add: same, simp add: as_default_def)
qed

lemma set_default_run:
  assumes c: "bank_account_constraints (bank_accounts (work s))"
    and b: "b \<in> set (bank_accounts (work s))" and act: "b_is_active b"
  shows "\<exists>t. set_default b s = (Inr (as_default (clock s) b), t) \<and> work t = committed t \<and>
    bank_accounts (committed t) = replace_by b_id (as_default (clock s) b)
      (cleared_default (clock s) b (bank_accounts (work s)))"
proof -
  let ?bs = "bank_accounts (work s)" and ?t = "clock s"
  note one = cleared_default_facts [OF c b, of ?t]
  note two = as_default_facts [OF one(1,2) act one(3), of ?t]
  let ?p = "\<lambda>c. b_user_id c = b_user_id b \<and> b_is_default c \<and> b_is_active c"
  show ?thesis
  proof (cases "find_first ?p ?bs")
    case None
    then have "cleared_default ?t b ?bs = ?bs" by (simp add: cleared_default_def)
    with None two show ?thesis
      by (simp add: set_default_def get_default_for_user_def step as_default_def run_refresh)
  next
    case (Some x)
    show ?thesis
    proof (cases "b_id x = b_id b")
      case True
      with Some have "cleared_default ?t b ?bs = ?bs" by (simp add: cleared_default_def)
      with Some True two show ?thesis
        by (simp add: set_default_def get_default_for_user_def step as_default_def run_refresh)
    next
      case False
      with Some have "cleared_default ?t b ?bs = replace_by b_id (x\<lparr>b_is_default := False, b_updated_at := ?t\<rparr>) ?bs"
        by (simp add: cleared_default_def)
      with Some False one(1) two show ?thesis
        by (simp add: set_default_def get_default_for_user_def step as_default_def run_refresh)
    qed
  qed
qed

text \<open>Making an account the default always succeeds for an active account of the user: the
  old default is cleared first, so the unique index on default accounts is never violated.
  Afterwards exactly that account is the user's default, nothing but the default flag (and the time
  of the change) differs in any account, and the change is committed.\<close>

theorem set_default_moves_default:
  assumes "bank_account_constraints (bank_accounts (work s))"
    and "find_first (\<lambda>b. b_id b = i \<and> b_user_id b = u \<and> b_is_active b) (bank_accounts (work s)) = Some b"
  shows "\<exists>t. set_default_bank_account i u s =
      (Inr (bank_account_response_of (b\<lparr>b_is_default := True, b_updated_at := clock s\<rparr>)), t) \<and>
    (\<forall>x \<in> set (bank_accounts (committed t)).
       b_user_id x = u \<and> b_is_default x \<and> b_is_active x \<longleftrightarrow> b_id x = i) \<and>
    map (\<lambda>x. x\<lparr>b_is_default := False, b_updated_at := 0\<rparr>) (bank_accounts (committed t)) =
    map (\<lambda>x. x\<lparr>b_is_default := False, b_updated_at := 0\<rparr>) (bank_accounts (work s)) \<and>
    bank_account_constraints (bank_accounts (committed t))"
proof -
  from assms(2) have b: "b \<in> set (bank_accounts (work s))" "b_id b = i" "b_user_id b = u" "b_is_active b"
    by (auto dest: find_first_SomeD)
  note one = cleared_default_facts [OF assms(1) b(1), of "clock s"]
  note two = as_default_facts [OF one(1,2) b(4) one(3), of "clock s"]
  from set_default_run [OF assms(1) b(1,4)] obtain t where
    "set_default b s = (Inr (as_default (clock s) b), t)"
    "bank_accounts (committed t) = replace_by b_id (as_default (clock s) b)
      (cleared_default (clock s) b (bank_accounts (work s)))" by blast
  with assms(2) b one two show ?thesis
    by (simp add: set_default_bank_account_def get_for_user_def step bnd_Inr [of "set_default b"]
        as_default_def)
qed

definition sample_bank_account :: "id \<Rightarrow> bool \<Rightarrow> bank_account" where
  "sample_bank_account i d =
     \<lparr>b_id = i, b_user_id = ''ua'', b_account_number = i, b_bank_code = ''058'', b_bank_name = ''Bank'',
      b_account_name = ''Alice'', b_recipient_code = i, b_currency = ''NGN'', b_is_default = d,
      b_is_active = True, b_created_at = 1, b_updated_at = 1\<rparr>"

theorem set_default_moves_default_witness:
  "\<exists>t. set_default_bank_account ''b2'' ''ua''
      (sample_session (empty_db\<lparr>bank_accounts := [sample_bank_account ''b1'' True, sample_bank_account ''b2'' False]\<rparr>)) =
      (Inr (bank_account_response_of (as_default 1000 (sample_bank_account ''b2'' False))), t) \<and>
    (\<forall>x \<in> set (bank_accounts (committed t)).
       b_user_id x = ''ua'' \<and> b_is_default x \<and> b_is_active x \<longleftrightarrow> b_id x = ''b2'')"
proof -
  let ?s = "sample_session (empty_db\<lparr>bank_accounts := [sample_bank_account ''b1'' True, sample_bank_account ''b2'' False]\<rparr>)"
  have c: "bank_account_constraints (bank_accounts (work ?s))"
    by (simp add: sample_defs sample_bank_account_def bank_account_constraints_def)
  have f: "find_first (\<lambda>b. b_id b = ''b2'' \<and> b_user_id b = ''ua'' \<and> b_is_active b) (bank_accounts (work ?s)) =
      Some (sample_bank_account ''b2'' False)"
    by (simp add: sample_defs sample_bank_account_def)
  have "clock ?s = 1000" by (simp add: sample_defs)
  with set_default_moves_default [OF c f] show ?thesis by (auto simp: as_default_def)
qed

end
