(* ===== verification/HistoryReads.thy ===== *)
theory HistoryReads
  imports AgreementRepo EscrowSamples "HOL-Library.Multiset"
begin

text \<open>
  \<^verbatim>\<open>src/app/repository/transaction_repository.py\<close>, \<^verbatim>\<open>src/app/service/transaction_service.py\<close>,
  \<^verbatim>\<open>src/app/routers/transaction.py\<close> (the user's financial history) and the dashboard counts of
  \<^verbatim>\<open>src/app/repository/stats_repository.py\<close>.  Of a row the columns are kept as they are stored; a
  response is the row.
\<close>

section \<open>ILIKE\<close>

text \<open>
  SQL \<^verbatim>\<open>LIKE\<close>: \<^verbatim>\<open>%\<close> stands for any text, \<^verbatim>\<open>_\<close> for one character, a backslash quotes the next
  character.  The code inserts the user's text into the pattern unquoted.
\<close>

fun like :: "string \<Rightarrow> string \<Rightarrow> bool" where
  "like [] s \<longleftrightarrow> s = []"
| "like (c # p) [] \<longleftrightarrow> c = CHR ''%'' \<and> like p []"
| "like (c # p) (x # s) \<longleftrightarrow>
     (if c = CHR ''%'' then like p (x # s) \<or> like (c # p) s
      else if c = CHR ''_'' then like p s
      else if c = CHR 0x5C then (case p of [] \<Rightarrow> False | d # q \<Rightarrow> d = x \<and> like q s)
      else c = x \<and> like p s)"

definition ilike :: "string \<Rightarrow> string \<Rightarrow> bool" where
  "ilike s pattern \<longleftrightarrow> like (lower pattern) (lower s)"

section \<open>Repository\<close>

record history_filters =
  hf_types :: "ledger_entry_type list"
  hf_direction :: "ledger_direction option"
  hf_status :: "ledger_entry_status option"
  hf_agreement_id :: "id option"
  hf_date_from :: "time option"
  hf_date_to :: "time option"
  hf_min_amount :: "money option"
  hf_max_amount :: "money option"
  hf_search :: string

definition no_filters :: history_filters where
  "no_filters =
     \<lparr>hf_types = [], hf_direction = None, hf_status = None, hf_agreement_id = None,
      hf_date_from = None, hf_date_to = None, hf_min_amount = None, hf_max_amount = None,
      hf_search = []\<rparr>"

text \<open>\<^verbatim>\<open>if x is not None: where(...)\<close>\<close>

definition when_given :: "'a option \<Rightarrow> ('a \<Rightarrow> bool) \<Rightarrow> bool" where
  "when_given x p \<longleftrightarrow> (case x of None \<Rightarrow> True | Some v \<Rightarrow> p v)"

definition search_matches :: "string \<Rightarrow> transaction \<Rightarrow> bool" where
  "search_matches search t \<longleftrightarrow>
     (let pattern = ''%'' @ search @ ''%'' in
      (case t_description t of None \<Rightarrow> False | Some d \<Rightarrow> ilike d pattern) \<or>
      ilike (t_reference t) pattern)"

definition filtered :: "id \<Rightarrow> history_filters \<Rightarrow> transaction \<Rightarrow> bool" where
  "filtered user_id f t \<longleftrightarrow>
     t_user_id t = user_id \<and>
     (hf_types f = [] \<or> t_type t \<in> set (hf_types f)) \<and>
     when_given (hf_direction f) (\<lambda>d. t_direction t = d) \<and>
     when_given (hf_status f) (\<lambda>st. t_status t = st) \<and>
     when_given (hf_agreement_id f) (\<lambda>a. t_agreement_id t = Some a) \<and>
     when_given (hf_date_from f) (\<lambda>x. x \<le> t_created_at t) \<and>
     when_given (hf_date_to f) (\<lambda>x. t_created_at t \<le> x) \<and>
     when_given (hf_min_amount f) (\<lambda>x. x \<le> t_amount t) \<and>
     when_given (hf_max_amount f) (\<lambda>x. t_amount t \<le> x) \<and>
     (hf_search f = [] \<or> search_matches (hf_search f) t)"

text \<open>\<^verbatim>\<open>ORDER BY created_at DESC, id DESC\<close>\<close>

definition history_order :: "transaction list \<Rightarrow> transaction list" where
  "history_order ts = rev (sort_key t_created_at (sort_key t_id ts))"

definition list_transactions :: "id \<Rightarrow> nat \<Rightarrow> nat \<Rightarrow> history_filters \<Rightarrow> transaction list handler" where
  "list_transactions user_id skip limit f =
     bnd (select transaction_t (filtered user_id f)) (\<lambda>ts.
     return (take limit (drop skip (history_order ts))))"

definition count_transactions :: "id \<Rightarrow> history_filters \<Rightarrow> nat handler" where
  "count_transactions user_id f =
     bnd (select transaction_t (filtered user_id f)) (\<lambda>ts. return (length ts))"

record history_summary =
  hs_total_credit :: money
  hs_total_debit :: money
  hs_credit_count :: nat
  hs_debit_count :: nat

text \<open>One \<^verbatim>\<open>GROUP BY direction\<close>; a direction without rows keeps the initial zero.\<close>

definition summary_for_user :: "id \<Rightarrow> history_filters \<Rightarrow> history_summary handler" where
  "summary_for_user user_id f =
     bnd (select transaction_t (filtered user_id f)) (\<lambda>ts.
     let credits = filter (\<lambda>t. t_direction t = CREDIT) ts;
         debits = filter (\<lambda>t. t_direction t = DEBIT) ts
     in return \<lparr>hs_total_credit = sum_list (map t_amount credits),
                hs_total_debit = sum_list (map t_amount debits),
                hs_credit_count = length credits, hs_debit_count = length debits\<rparr>)"

definition get_transaction_by_id_for_user :: "id \<Rightarrow> id \<Rightarrow> transaction option handler" where
  "get_transaction_by_id_for_user transaction_id user_id =
     select_first transaction_t (\<lambda>t. t_id t = transaction_id \<and> t_user_id t = user_id)"

section \<open>Service and routes\<close>

record history_page =
  hp_transactions :: "transaction list"
  hp_total :: nat
  hp_skip :: nat
  hp_limit :: nat
  hp_summary :: history_summary

definition get_user_transactions :: "id \<Rightarrow> nat \<Rightarrow> nat \<Rightarrow> history_filters \<Rightarrow> history_page handler" where
  "get_user_transactions user_id skip limit f =
     bnd (list_transactions user_id skip limit f) (\<lambda>entries.
     bnd (count_transactions user_id f) (\<lambda>total.
     bnd (summary_for_user user_id f) (\<lambda>summary.
     return \<lparr>hp_transactions = entries, hp_total = total, hp_skip = skip, hp_limit = limit,
             hp_summary = summary\<rparr>)))"

definition get_transaction :: "id \<Rightarrow> id \<Rightarrow> transaction handler" where
  "get_transaction transaction_id user_id =
     bnd (get_transaction_by_id_for_user transaction_id user_id) (\<lambda>entry.
     case entry of None \<Rightarrow> raise TransactionNotFoundError | Some t \<Rightarrow> return t)"

definition get_summary :: "id \<Rightarrow> history_summary handler" where
  "get_summary user_id = summary_for_user user_id no_filters"

definition get_transactions_route ::
  "user \<Rightarrow> int \<Rightarrow> int \<Rightarrow> history_filters \<Rightarrow> history_page handler"
where
  "get_transactions_route current_user skip limit f =
     (if skip < 0 \<or> limit < 1 \<or> 100 < limit then raise (HTTPException 422)
      else get_user_transactions (u_id current_user) (nat skip) (nat limit) f)"

definition get_transaction_summary_route :: "user \<Rightarrow> history_summary handler" where
  "get_transaction_summary_route current_user = get_summary (u_id current_user)"

definition get_transaction_route :: "user \<Rightarrow> id \<Rightarrow> transaction handler" where
  "get_transaction_route current_user transaction_id =
     get_transaction transaction_id (u_id current_user)"

section \<open>Dashboard\<close>

record agreement_statistics =
  as_active :: nat
  as_completed :: nat
  as_total :: nat

definition get_user_stats :: "id \<Rightarrow> agreement_statistics handler" where
  "get_user_stats user_id =
     bnd (select agreement_t (\<lambda>_. True)) (\<lambda>as.
     bnd (select participant_t (\<lambda>_. True)) (\<lambda>ps.
     let mine = joined_agreements user_id as ps in
     return \<lparr>as_active = length (filter (\<lambda>a. a_status a \<in> {ACTIVE, DISPUTED}) mine),
             as_completed = length (filter (\<lambda>a. a_status a = COMPLETED) mine),
             as_total = length mine\<rparr>))"

definition get_user_agreement_stats_route :: "user \<Rightarrow> agreement_statistics handler" where
  "get_user_agreement_stats_route current_user = get_user_stats (u_id current_user)"

lemma history_reading [stays_intros]:
  "stays reading (get_transactions_route cu sk li f)" "stays reading (get_transaction_summary_route cu)"
  "stays reading (get_transaction_route cu i)" "stays reading (get_user_agreement_stats_route cu)"
  unfolding get_transactions_route_def get_user_transactions_def list_transactions_def
    count_transactions_def summary_for_user_def get_transaction_summary_route_def get_summary_def
    get_transaction_route_def get_transaction_def get_transaction_by_id_for_user_def
    get_user_agreement_stats_route_def get_user_stats_def Let_def
  by (intro stays_intros)+

section \<open>Searching\<close>

definition plain_char :: "char \<Rightarrow> bool" where
  "plain_char c \<longleftrightarrow> c \<noteq> CHR ''%'' \<and> c \<noteq> CHR ''_'' \<and> c \<noteq> CHR 0x5C"

lemma like_percent_end: "like ''%'' s"
  by (induction s) simp_all

lemma like_plain_prefix:
  "list_all plain_char p \<Longrightarrow> like (p @ ''%'') s \<longleftrightarrow> prefix p s"
proof (induction p arbitrary: s)
  case Nil
  show ?case by (cases s) (simp_all add: like_percent_end)
next
  case (Cons c p)
  then show ?case by (cases s) (auto simp: plain_char_def)
qed

lemma like_plain_contains:
  "list_all plain_char p \<Longrightarrow> like (''%'' @ p @ ''%'') s \<longleftrightarrow> contains p s"
  by (induction s) (simp_all add: like_plain_prefix like_plain_prefix [of p "[]", simplified])

lemma lower_append: "lower (a @ b) = lower a @ lower b"
  by (simp add: lower_def)

lemma lower_pattern: "lower (''%'' @ a @ ''%'') = ''%'' @ lower a @ ''%''"
proof -
  have "lower ''%'' = ''%''" by code_simp
  then show ?thesis by (simp only: lower_append)
qed

text \<open>For a search text without SQL wildcards (\<^verbatim>\<open>%\<close>, \<^verbatim>\<open>_\<close>, backslash) the pattern match is the
  plain one: an entry is listed exactly when the text occurs, letter case aside, in its description
  or its reference.\<close>

theorem search_is_substring:
  assumes "list_all plain_char (lower text)"
  shows "search_matches text t \<longleftrightarrow>
     (\<exists>d. t_description t = Some d \<and> contains (lower text) (lower d)) \<or>
     contains (lower text) (lower (t_reference t))"
  using like_plain_contains [OF assms]
  by (simp only: search_matches_def ilike_def Let_def lower_pattern) (simp split: option.split)

theorem search_is_substring_witness: "search_matches ''ESC'' entry_2"
proof -
  have "list_all plain_char (lower ''ESC'')" "contains (lower ''ESC'') (lower ''esc_lock_ag'')"
    by code_simp+
  moreover have "t_reference entry_2 = ''esc_lock_ag''"
    by (simp add: money_defs ledger_entry_def Let_def split_beta)
  ultimately show ?thesis by (metis search_is_substring)
qed

section \<open>Order and pages\<close>

definition newer :: "transaction \<Rightarrow> transaction \<Rightarrow> bool" where
  "newer a b \<longleftrightarrow>
     t_created_at b < t_created_at a \<or> t_created_at a = t_created_at b \<and> t_id b \<le> t_id a"

lemma set_insort [simp]: "set (insort_key k x ys) = insert x (set ys)"
  by (induction ys) auto

lemma insort_keeps_order:
  "sorted_wrt (\<lambda>a b. newer b a) ys \<Longrightarrow> \<forall>y\<in>set ys. t_id x \<le> t_id y \<Longrightarrow>
   sorted_wrt (\<lambda>a b. newer b a) (insort_key t_created_at x ys)"
  by (induction ys) (auto simp: newer_def)

lemma sort_keeps_order:
  "sorted (map t_id ys) \<Longrightarrow> sorted_wrt (\<lambda>a b. newer b a) (sort_key t_created_at ys)"
  by (induction ys) (auto intro!: insort_keeps_order)

lemma history_order_newest_first: "sorted_wrt newer (history_order ts)"
  unfolding history_order_def sorted_wrt_rev by (rule sort_keeps_order) simp

lemma history_order_mset [simp]: "mset (history_order ts) = mset ts"
  by (simp add: history_order_def)

lemma length_history_order [simp]: "length (history_order ts) = length ts"
  by (simp add: history_order_def)

lemma pages_take: "concat (map (\<lambda>i. take k (drop (i * k) xs)) [0..<n]) = take (n * k) xs"
proof (induction n)
  case (Suc n)
  have "take (n * k) xs @ take k (drop (n * k) xs) = take (Suc n * k) xs"
    by (simp add: take_add [symmetric] add.commute)
  with Suc show ?case by simp
qed simp

text \<open>The pages of the history partition it: page after page, nothing is shown twice and nothing
  is skipped, newest first, and the reported total is the number of entries there are.\<close>

theorem history_pages_partition:
  assumes "length whole \<le> n * limit" and "whole = history_order (filter (filtered u f) (transactions (work s)))"
  shows "\<exists>page. (\<forall>i. list_transactions u (i * limit) limit f s = (Inr (page i), s)) \<and>
     concat (map page [0..<n]) = whole \<and>
     count_transactions u f s = (Inr (length whole), s) \<and>
     mset whole = mset (filter (filtered u f) (transactions (work s))) \<and> sorted_wrt newer whole"
proof (intro exI conjI allI)
  let ?page = "\<lambda>i. take limit (drop (i * limit) whole)"
  show "list_transactions u (i * limit) limit f s = (Inr (?page i), s)" for i
    using assms(2) by (simp add: list_transactions_def select_def step)
  show "concat (map ?page [0..<n]) = whole" using assms(1) by (simp add: pages_take)
  show "count_transactions u f s = (Inr (length whole), s)"
    using assms(2) by (simp add: count_transactions_def select_def step)
qed (simp_all add: assms(2) history_order_newest_first)

theorem history_pages_partition_witness:
  "\<exists>page. list_transactions ''ua'' 0 1 no_filters money_session = (Inr (page (0 :: nat)), money_session) \<and>
     list_transactions ''ua'' 1 1 no_filters money_session = (Inr (page 1), money_session) \<and>
     page 0 @ page 1 = [entry_2, entry_1]"
proof -
  have h: "[entry_2, entry_1] =
      history_order (filter (filtered ''ua'' no_filters) (transactions (work money_session)))"
    by (simp add: history_order_def filtered_def no_filters_def when_given_def money_defs sample_defs
        ledger_entry_def leg_def moved_def new_wallet_def Let_def)
  from history_pages_partition [OF _ h, of 2 1]
  obtain page where p: "\<And>i. list_transactions ''ua'' (i * 1) 1 no_filters money_session =
      (Inr (page i), money_session)" and "concat (map page [0..<2]) = [entry_2, entry_1]"
    by auto
  then have "page 0 @ page 1 = [entry_2, entry_1]" by (simp add: upt_rec)
  with p [of 0] p [of 1] show ?thesis by auto
qed

section \<open>The summary and the balance\<close>

definition released_by :: "id \<Rightarrow> db \<Rightarrow> money" where
  "released_by user_id d =
     sum_list (map t_amount
       (filter (\<lambda>t. t_user_id t = user_id \<and> t_type t = ESCROW_RELEASE_OUT) (transactions d)))"

lemma summary_of_entries:
  "list_all entry_wf ts \<Longrightarrow> (\<And>t. t \<in> set ts \<Longrightarrow> t_user_id t = u \<longleftrightarrow> t_wallet_id t = k) \<Longrightarrow>
   sum_list (map t_amount (filter (\<lambda>t. t_direction t = CREDIT) (filter (\<lambda>t. t_user_id t = u) ts))) -
   sum_list (map t_amount (filter (\<lambda>t. t_direction t = DEBIT) (filter (\<lambda>t. t_user_id t = u) ts))) =
   ledger_sum t_available_delta k ts -
   sum_list (map t_amount (filter (\<lambda>t. t_user_id t = u \<and> t_type t = ESCROW_RELEASE_OUT) ts))"
proof (induction ts)
  case (Cons t ts)
  have IH: "sum_list (map t_amount (filter (\<lambda>t. t_direction t = CREDIT) (filter (\<lambda>t. t_user_id t = u) ts))) =
     sum_list (map t_amount (filter (\<lambda>t. t_direction t = DEBIT) (filter (\<lambda>t. t_user_id t = u) ts))) +
     ledger_sum t_available_delta k ts -
     sum_list (map t_amount (filter (\<lambda>t. t_user_id t = u \<and> t_type t = ESCROW_RELEASE_OUT) ts))"
    using Cons by simp
  from Cons.prems have "entry_wf t" and "t_user_id t = u \<longleftrightarrow> t_wallet_id t = k" by auto
  then show ?case
    using IH by (cases "t_type t") (simp_all add: entry_wf_def algebra_simps)
qed simp

text \<open>What the history screen sums up, money in less money out, is the available balance of the
  wallet less everything the user's escrows have paid out: an escrow counts as money out when it is
  locked and a second time when it is released.\<close>

theorem summary_counts_release_twice:
  assumes "ledger_inv (work s)" and "w \<in> set (wallets (work s))"
    and "\<forall>t\<in>set (transactions (work s)). t_user_id t = w_user_id w \<longleftrightarrow> t_wallet_id t = w_id w"
  shows "\<exists>sm. get_summary (w_user_id w) s = (Inr sm, s) \<and>
     hs_total_credit sm - hs_total_debit sm =
       w_available_balance w - released_by (w_user_id w) (work s)"
proof -
  let ?ts = "transactions (work s)"
  have f: "filtered (w_user_id w) no_filters = (\<lambda>t. t_user_id t = w_user_id w)"
    by (simp add: filtered_def no_filters_def when_given_def fun_eq_iff)
  from assms(1,2) have "w_available_balance w = ledger_sum t_available_delta (w_id w) ?ts"
    by (auto simp: ledger_inv_def list_all_iff balance_ok_def)
  moreover have "list_all entry_wf ?ts" using assms(1) by (simp add: ledger_inv_def)
  ultimately show ?thesis
    using summary_of_entries [of ?ts "w_user_id w" "w_id w"] assms(3)
    by (simp add: get_summary_def summary_for_user_def select_def f Let_def released_by_def step)
qed

theorem summary_counts_release_twice_witness:
  "\<exists>sm. get_summary ''ua'' money_session = (Inr sm, money_session) \<and>
     hs_total_credit sm - hs_total_debit sm = 100"
proof -
  have inv: "ledger_inv (work money_session)" using money_ledger_inv by (simp add: sample_defs)
  have w: "wallet_alice \<in> set (wallets (work money_session))" by (simp add: sample_defs)
  have own: "\<forall>t\<in>set (transactions (work money_session)).
      t_user_id t = w_user_id wallet_alice \<longleftrightarrow> t_wallet_id t = w_id wallet_alice"
    by (simp add: sample_defs money_defs ledger_entry_def leg_def moved_def new_wallet_def Let_def)
  have "w_user_id wallet_alice = ''ua''" "w_available_balance wallet_alice = 100"
    "released_by ''ua'' (work money_session) = 0"
    by (simp_all add: released_by_def sample_defs money_defs ledger_entry_def leg_def moved_def
        new_wallet_def Let_def)
  with summary_counts_release_twice [OF inv w own] show ?thesis by simp
qed

end
