(* ===== verification/Auth.thy ===== *)
theory Auth
  imports Validators AgreementRepo Idempotency Notifications EscrowSamples Triples
begin

text \<open>
  \<^verbatim>\<open>src/app/service/token_service.py\<close>, \<^verbatim>\<open>src/app/repository/refresh_token_repository.py\<close>,
  \<^verbatim>\<open>src/app/service/auth_service.py\<close> and \<^verbatim>\<open>src/app/routers/auth.py\<close>: bearer tokens, their rotation and
  revocation, sign-in through Firebase.

  Two libraries are parameters.  \<open>jwt\<close> signs claims into an opaque token and reads a token back at a
  given time (\<open>None\<close>: bad signature, expired or a required claim missing); the law the theorems use
  is \<open>jwt_law\<close>.  \<open>firebase\<close> verifies an ID token (\<open>None\<close>: one of the listed errors) and looks a user
  up (an exception of the library passes through).
\<close>

section \<open>Libraries\<close>

datatype token_type = ACCESS | REFRESH

record claims =
  cl_sub :: string
  cl_type :: token_type
  cl_iat :: time
  cl_exp :: time
  cl_jti :: string

record 'tok jwt =
  jwt_encode :: "claims \<Rightarrow> 'tok"
  jwt_decode :: "time \<Rightarrow> 'tok \<Rightarrow> claims option"

text \<open>PyJWT: what was signed with the key is read back until it expires, and not afterwards.\<close>

definition jwt_law :: "'tok jwt \<Rightarrow> bool" where
  "jwt_law J \<longleftrightarrow>
     (\<forall>t c. jwt_decode J t (jwt_encode J c) = (if t < cl_exp c then Some c else None))"

record firebase_user =
  fu_email :: "string option"
  fu_display_name :: "string option"
  fu_photo_url :: "string option"

record firebase =
  fb_verify :: "string \<Rightarrow> id option"
  fb_user :: "id \<Rightarrow> exn + firebase_user"

section \<open>Tokens\<close>

definition token_lifetime :: "settings \<Rightarrow> token_type \<Rightarrow> time" where
  "token_lifetime cfg ty =
     (case ty of ACCESS \<Rightarrow> access_token_expiration_minutes cfg * 60
      | REFRESH \<Rightarrow> refresh_token_expiration_days cfg * 86400)"

definition create_token ::
  "settings \<Rightarrow> 'tok jwt \<Rightarrow> id \<Rightarrow> token_type \<Rightarrow> string option \<Rightarrow> 'tok handler"
where
  "create_token cfg J user_id ty jti =
     bnd now (\<lambda>t.
     bnd (case jti of None \<Rightarrow> uuid4 | Some j \<Rightarrow> if j = '''' then uuid4 else return j) (\<lambda>j.
     return (jwt_encode J \<lparr>cl_sub = user_id, cl_type = ty, cl_iat = t,
                           cl_exp = t + token_lifetime cfg ty, cl_jti = j\<rparr>)))"

definition verify_token :: "'tok jwt \<Rightarrow> 'tok \<Rightarrow> token_type \<Rightarrow> claims handler" where
  "verify_token J token expected_type =
     bnd now (\<lambda>t.
     case jwt_decode J t token of
       None \<Rightarrow> raise (HTTPException 401)
     | Some c \<Rightarrow>
         if cl_type c \<noteq> expected_type \<or> cl_sub c = '''' then raise (HTTPException 401)
         else return c)"

definition load_user :: "id \<Rightarrow> user handler" where
  "load_user user_id =
     bnd (get_row user_t user_id) (\<lambda>u.
     case u of
       None \<Rightarrow> raise (HTTPException 401)
     | Some u \<Rightarrow> if u_active u = 0 then raise (HTTPException 401) else return u)"

definition get_current_user :: "'tok jwt \<Rightarrow> 'tok \<Rightarrow> user handler" where
  "get_current_user J token = bnd (verify_token J token ACCESS) (\<lambda>c. load_user (cl_sub c))"

definition get_active_user :: "'tok jwt \<Rightarrow> 'tok \<Rightarrow> user handler" where
  "get_active_user J token = bnd (verify_token J token ACCESS) (\<lambda>c. load_user (cl_sub c))"

text \<open>The web-socket variant; \<open>None\<close> closes the connection.  The empty token is no token.\<close>

definition get_user_id_from_ws :: "'tok jwt \<Rightarrow> 'tok option \<Rightarrow> id option handler" where
  "get_user_id_from_ws J token =
     (case token of
        None \<Rightarrow> return None
      | Some tok \<Rightarrow>
          try_except
            (bnd (verify_token J tok ACCESS) (\<lambda>c. bnd (load_user (cl_sub c)) (\<lambda>u. return (Some (u_id u)))))
            (\<lambda>e. case e of HTTPException n \<Rightarrow> return None | _ \<Rightarrow> raise e))"

section \<open>Refresh token repository\<close>

definition create_refresh_row :: "string \<Rightarrow> id \<Rightarrow> time \<Rightarrow> unit handler" where
  "create_refresh_row jti user_id expires_at =
     bnd now (\<lambda>t.
     insert_row refresh_token_t
       \<lparr>r_jti = jti, r_user_id = user_id, r_issued_at = t, r_expires_at = expires_at,
        r_revoked_at = None, r_replaced_by_jti = None\<rparr>)"

definition get_refresh_row :: "string \<Rightarrow> refresh_token option handler" where
  "get_refresh_row jti = get_row refresh_token_t jti"

definition revoke_row :: "refresh_token \<Rightarrow> string option \<Rightarrow> unit handler" where
  "revoke_row row replaced_by =
     bnd now (\<lambda>t.
     save_row refresh_token_t (row\<lparr>r_revoked_at := Some t, r_replaced_by_jti := replaced_by\<rparr>))"

definition live_token_of :: "id \<Rightarrow> refresh_token \<Rightarrow> bool" where
  "live_token_of user_id r \<longleftrightarrow> r_user_id r = user_id \<and> r_revoked_at r = None"

definition revoke_all_for_user :: "id \<Rightarrow> nat handler" where
  "revoke_all_for_user user_id =
     bnd now (\<lambda>t.
     bnd (select refresh_token_t (live_token_of user_id)) (\<lambda>rs.
     bnd (update_rows refresh_token_t (live_token_of user_id) (\<lambda>r. r\<lparr>r_revoked_at := Some t\<rparr>)) (\<lambda>_.
     return (length rs))))"

definition purge_expired :: "nat handler" where
  "purge_expired =
     bnd now (\<lambda>t.
     bnd (select refresh_token_t (\<lambda>r. r_expires_at r < t)) (\<lambda>rs.
     bnd (delete_rows refresh_token_t (\<lambda>r. r_expires_at r < t)) (\<lambda>_. return (length rs))))"

section \<open>Authentication service\<close>

record 'tok login_response =
  lg_access_token :: 'tok
  lg_refresh_token :: 'tok
  lg_is_signed_up :: bool
  lg_user :: user_response

definition issue_token_pair :: "settings \<Rightarrow> 'tok jwt \<Rightarrow> id \<Rightarrow> ('tok \<times> 'tok) handler" where
  "issue_token_pair cfg J user_id =
     bnd uuid4 (\<lambda>jti.
     bnd now (\<lambda>t.
     bnd (create_refresh_row jti user_id (t + token_lifetime cfg REFRESH)) (\<lambda>_.
     bnd (create_token cfg J user_id ACCESS None) (\<lambda>access.
     bnd (create_token cfg J user_id REFRESH (Some jti)) (\<lambda>renew.
     bnd commit (\<lambda>_. return (access, renew)))))))"

definition raise_sum :: "exn + 'a \<Rightarrow> 'a handler" where
  "raise_sum x = (case x of Inl e \<Rightarrow> raise e | Inr v \<Rightarrow> return v)"

text \<open>A Firebase account without an e-mail address violates \<^verbatim>\<open>NOT NULL\<close>.\<close>

definition create_firebase_user :: "firebase \<Rightarrow> id \<Rightarrow> user handler" where
  "create_firebase_user F user_id =
     bnd (raise_sum (fb_user F user_id)) (\<lambda>fu.
     case fu_email fu of
       None \<Rightarrow> raise IntegrityError
     | Some email \<Rightarrow>
         bnd now (\<lambda>t.
         create_user
           \<lparr>u_id = user_id, u_email = email, u_phone_number = None,
            u_name = (case fu_display_name fu of None \<Rightarrow> '''' | Some n \<Rightarrow> n),
            u_profile_picture_url = fu_photo_url fu, u_active = 1, u_is_admin = False,
            u_created_at = t\<rparr>))"

record user_create_request =
  ucr_user_id :: "id option"
  ucr_phone_number :: string
  ucr_name :: string

definition validate_user_create :: "user_create_request \<Rightarrow> user_create_request option" where
  "validate_user_create req =
     (case (validate_phone (ucr_phone_number req), validate_name (ucr_name req)) of
        (Some p, Some n) \<Rightarrow> Some (req\<lparr>ucr_phone_number := p, ucr_name := n\<rparr>)
      | _ \<Rightarrow> None)"

definition register_user :: "user \<Rightarrow> user_create_request \<Rightarrow> user_response handler" where
  "register_user current_user req =
     (if (case ucr_user_id req of None \<Rightarrow> False | Some i \<Rightarrow> i \<noteq> '''' \<and> i \<noteq> u_id current_user)
      then raise ForbiddenError
      else
        bnd (register_profile (u_id current_user) (ucr_phone_number req) (ucr_name req)) (\<lambda>u.
        case u of None \<Rightarrow> raise UserNotFoundError | Some u \<Rightarrow> return (user_response_of u)))"

definition notify_pending_invitations :: "user \<Rightarrow> unit handler" where
  "notify_pending_invitations u =
     bnd (get_invitations_by_email (u_email u)) (\<lambda>is.
     for_each (\<lambda>i. best_effort
       (bnd (create_notification (u_id u) INVITATION_RECEIVED
               (Some [(''agreement_id'', JStr (i_agreement_id i))])) (\<lambda>_. return ()))) is)"

definition verify_id_token ::
  "settings \<Rightarrow> 'tok jwt \<Rightarrow> firebase \<Rightarrow> string \<Rightarrow> 'tok login_response handler"
where
  "verify_id_token cfg J F id_token =
     (case fb_verify F id_token of
        None \<Rightarrow> raise UnauthorizedError
      | Some user_id \<Rightarrow>
          bnd (raise_sum (fb_user F user_id)) (\<lambda>fu.
          bnd (option_m get_by_email (fu_email fu)) (\<lambda>found.
          bnd (case found of
                 Some (Some u) \<Rightarrow> if u_active u = 0 then raise UnauthorizedError else return u
               | _ \<Rightarrow>
                   bnd (create_firebase_user F user_id) (\<lambda>u.
                   bnd (notify_pending_invitations u) (\<lambda>_. return u))) (\<lambda>u.
          bnd (issue_token_pair cfg J (u_id u)) (\<lambda>(access, renew).
          return \<lparr>lg_access_token = access, lg_refresh_token = renew,
                  lg_is_signed_up = (case found of Some (Some u) \<Rightarrow> True | _ \<Rightarrow> False),
                  lg_user = user_response_of u\<rparr>)))))"

definition refresh_token :: "settings \<Rightarrow> 'tok jwt \<Rightarrow> 'tok \<Rightarrow> 'tok login_response handler" where
  "refresh_token cfg J token =
     bnd (verify_token J token REFRESH) (\<lambda>payload.
     let user_id = cl_sub payload in
     bnd (get_refresh_row (cl_jti payload)) (\<lambda>row.
     case row of
       None \<Rightarrow> raise UnauthorizedError
     | Some row \<Rightarrow>
         if r_user_id row \<noteq> user_id then raise UnauthorizedError
         else if r_revoked_at row \<noteq> None then
           bnd (revoke_all_for_user user_id) (\<lambda>_.
           bnd commit (\<lambda>_. raise UnauthorizedError))
         else
           bnd now (\<lambda>t.
           if r_expires_at row < t then raise UnauthorizedError
           else
             bnd (get_user_by_id user_id) (\<lambda>user.
             case user of
               None \<Rightarrow> raise UnauthorizedError
             | Some user \<Rightarrow>
                 if u_active user = 0 then raise UnauthorizedError
                 else
                   bnd uuid4 (\<lambda>new_jti.
                   bnd (revoke_row row (Some new_jti)) (\<lambda>_.
                   bnd now (\<lambda>t.
                   bnd (create_refresh_row new_jti user_id (t + token_lifetime cfg REFRESH)) (\<lambda>_.
                   bnd (create_token cfg J user_id ACCESS None) (\<lambda>access.
                   bnd (create_token cfg J user_id REFRESH (Some new_jti)) (\<lambda>new_refresh.
                   bnd commit (\<lambda>_.
                   return \<lparr>lg_access_token = access, lg_refresh_token = new_refresh,
                           lg_is_signed_up = True, lg_user = user_response_of user\<rparr>)))))))))))"

definition logout :: "'tok jwt \<Rightarrow> 'tok \<Rightarrow> unit handler" where
  "logout J token =
     bnd (try_except (bnd (verify_token J token REFRESH) (\<lambda>c. return (Some c))) (\<lambda>_. return None)) (\<lambda>payload.
     case payload of
       None \<Rightarrow> return ()
     | Some c \<Rightarrow>
         bnd (get_refresh_row (cl_jti c)) (\<lambda>row.
         case row of
           None \<Rightarrow> return ()
         | Some row \<Rightarrow>
             if r_revoked_at row \<noteq> None then return ()
             else bnd (revoke_row row None) (\<lambda>_. commit)))"

section \<open>Routes\<close>

definition register_user_route :: "user \<Rightarrow> user_create_request \<Rightarrow> user_response handler" where
  "register_user_route current_user body =
     (case validate_user_create body of
        None \<Rightarrow> raise (HTTPException 422)
      | Some d \<Rightarrow> register_user current_user d)"

definition login_route ::
  "settings \<Rightarrow> 'tok jwt \<Rightarrow> firebase \<Rightarrow> string \<Rightarrow> 'tok login_response handler"
where
  "login_route cfg J F id_token =
     (if id_token = '''' then raise (HTTPException 422) else verify_id_token cfg J F id_token)"

definition invite_register_route ::
  "settings \<Rightarrow> 'tok jwt \<Rightarrow> firebase \<Rightarrow> string \<Rightarrow> string \<Rightarrow> 'tok login_response handler"
where
  "invite_register_route cfg J F id_token invitation_token =
     (if id_token = '''' \<or> invitation_token = '''' \<or> 128 < length invitation_token
      then raise (HTTPException 422)
      else bnd (validate_token invitation_token) (\<lambda>_. verify_id_token cfg J F id_token))"

definition refresh_token_route ::
  "settings \<Rightarrow> 'tok jwt \<Rightarrow> 'tok \<Rightarrow> 'tok login_response handler"
where
  "refresh_token_route cfg J token = refresh_token cfg J token"

definition logout_route :: "'tok jwt \<Rightarrow> 'tok \<Rightarrow> unit handler" where
  "logout_route J token = logout J token"

section \<open>What the service keeps\<close>

lemma keeps_cached_user [keeps_intros]:
  "(\<And>x. keeps P (f x)) \<Longrightarrow> keeps P m \<Longrightarrow>
   keeps P (case c of Some (CUser x) \<Rightarrow> f x | _ \<Rightarrow> m)"
  by (auto split: option.splits cached.splits)

lemma tokens_keep [keeps_intros]:
  "keeps (both I) (create_token cfg J u ty j)" "keeps (both I) (verify_token J tok ty)"
  "keeps (both I) (load_user u)" "keeps (both I) (get_current_user J tok)"
  "keeps (both I) (get_active_user J tok)" "keeps (both I) (get_refresh_row jt)"
  "keeps (both I) (raise_sum x)"
proof -
  show c: "keeps (both I) (create_token cfg J u ty j)"
    unfolding create_token_def by (intro keeps_intros)
  show v: "keeps (both I) (verify_token J tok ty)" for ty
    unfolding verify_token_def by (intro keeps_intros)
  show l: "keeps (both I) (load_user u)" for u
    unfolding load_user_def by (intro keeps_intros)
  show "keeps (both I) (get_current_user J tok)" "keeps (both I) (get_active_user J tok)"
    "keeps (both I) (get_refresh_row jt)" "keeps (both I) (raise_sum x)"
    unfolding get_current_user_def get_active_user_def get_refresh_row_def raise_sum_def
    by (intro keeps_intros v l)+
qed

lemma auth_keeps [keeps_intros]:
  assumes "stable I user_t" and "stable I refresh_token_t" and "stable I notification_t"
  shows "keeps (both I) (register_user_route cu d)" "keeps (both I) (login_route cfg J F idt)"
    "keeps (both I) (invite_register_route cfg J F idt ivt)"
    "keeps (both I) (refresh_token_route cfg J tok)" "keeps (both I) (logout_route J tok)"
proof -
  have v: "keeps (both I) (verify_id_token cfg J F idt)"
    unfolding verify_id_token_def create_firebase_user_def create_user_def
      notify_pending_invitations_def issue_token_pair_def create_refresh_row_def
      get_by_email_def get_invitations_by_email_def
    by (intro keeps_intros assms)
  show "keeps (both I) (register_user_route cu d)"
    unfolding register_user_route_def register_user_def register_profile_def get_attached_user_def Let_def
    by (intro keeps_intros assms)
  show "keeps (both I) (login_route cfg J F idt)" "keeps (both I) (invite_register_route cfg J F idt ivt)"
    unfolding login_route_def invite_register_route_def by (intro keeps_intros v)+
  show "keeps (both I) (refresh_token_route cfg J tok)"
    unfolding refresh_token_route_def refresh_token_def revoke_all_for_user_def revoke_row_def
      create_refresh_row_def get_user_by_id_def Let_def
    by (intro keeps_intros assms)
  show "keeps (both I) (logout_route J tok)"
    unfolding logout_route_def logout_def revoke_row_def by (intro keeps_intros assms)
qed

section \<open>Rotation\<close>

lemma run_get_user_by_id:
  obtains x v where "get_user_by_id u s = (Inr x, v)" "work v = work s" "committed v = committed s"
    "clock v = clock s" "uuid_supply v = uuid_supply s" "uuid_next v = uuid_next s"
proof -
  obtain q v where q: "get_user_by_id u s = (q, v)" by fastforce
  then have "\<exists>x. q = Inr x" "work v = work s" "committed v = committed s" "clock v = clock s"
    "uuid_supply v = uuid_supply s" "uuid_next v = uuid_next s"
    by (auto simp: get_user_by_id_def step split: option.splits cached.splits)
  with q that show thesis by blast
qed

text \<open>The rows after a rotation: the presented one revoked, its successor appended.\<close>

definition rotated :: "settings \<Rightarrow> refresh_token \<Rightarrow> string \<Rightarrow> time \<Rightarrow> refresh_token list \<Rightarrow> refresh_token list" where
  "rotated cfg row new_jti t rs =
     replace_by r_jti (row\<lparr>r_revoked_at := Some t, r_replaced_by_jti := Some new_jti\<rparr>) rs @
     [\<lparr>r_jti = new_jti, r_user_id = r_user_id row, r_issued_at = t,
       r_expires_at = t + token_lifetime cfg REFRESH, r_revoked_at = None, r_replaced_by_jti = None\<rparr>]"

lemma refresh_token_Inr:
  assumes run: "refresh_token cfg J tok s = (Inr r, t)" and fresh: "uuid_supply s (uuid_next s) \<noteq> []"
  defines "new_jti \<equiv> uuid_supply s (uuid_next s)"
  shows "\<exists>c row. jwt_decode J (clock s) tok = Some c \<and> cl_type c = REFRESH \<and> cl_sub c \<noteq> [] \<and>
     find_first (\<lambda>x. r_jti x = cl_jti c) (refresh_tokens (work s)) = Some row \<and>
     r_user_id row = cl_sub c \<and> r_revoked_at row = None \<and> clock s \<le> r_expires_at row \<and>
     refresh_token_constraints (rotated cfg row new_jti (clock s) (refresh_tokens (work s))) \<and>
     work t = (work s)\<lparr>refresh_tokens := rotated cfg row new_jti (clock s) (refresh_tokens (work s))\<rparr> \<and>
     committed t = work t \<and> clock t = clock s \<and>
     lg_refresh_token r = jwt_encode J \<lparr>cl_sub = cl_sub c, cl_type = REFRESH, cl_iat = clock s,
       cl_exp = clock s + token_lifetime cfg REFRESH, cl_jti = new_jti\<rparr>"
proof -
  from run obtain c where c: "jwt_decode J (clock s) tok = Some c" "cl_type c = REFRESH" "cl_sub c \<noteq> []"
    by (auto simp: refresh_token_def verify_token_def step split: option.splits if_splits)
  with run obtain row where row: "find_first (\<lambda>x. r_jti x = cl_jti c) (refresh_tokens (work s)) = Some row"
    "r_user_id row = cl_sub c" "r_revoked_at row = None" "clock s \<le> r_expires_at row"
    by (auto simp: refresh_token_def verify_token_def get_refresh_row_def revoke_all_for_user_def
        step Let_def split: option.splits if_splits)
  obtain x v where u: "get_user_by_id (cl_sub c) s = (Inr x, v)" and v: "work v = work s"
    "committed v = committed s" "clock v = clock s" "uuid_supply v = uuid_supply s"
    "uuid_next v = uuid_next s" by (rule run_get_user_by_id)
  from run c row u v fresh show ?thesis
    by (cases x)
      (auto simp: refresh_token_def verify_token_def get_refresh_row_def step Let_def
        bnd_Inr [of "get_user_by_id (cl_sub c)", OF u] revoke_row_def create_refresh_row_def
        create_token_def rotated_def new_jti_def split: if_splits)
qed

definition family_revoked :: "id \<Rightarrow> time \<Rightarrow> db \<Rightarrow> db" where
  "family_revoked user_id t d =
     d\<lparr>refresh_tokens := map (\<lambda>r. if live_token_of user_id r then r\<lparr>r_revoked_at := Some t\<rparr> else r)
                          (refresh_tokens d)\<rparr>"

lemma refresh_token_reuse:
  assumes "jwt_decode J (clock s) tok = Some c" "cl_type c = REFRESH" "cl_sub c \<noteq> []"
    and "find_first (\<lambda>x. r_jti x = cl_jti c) (refresh_tokens (work s)) = Some row"
    and "r_user_id row = cl_sub c" "r_revoked_at row \<noteq> None"
    and con: "refresh_token_constraints (refresh_tokens (work s))"
  shows "refresh_token cfg J tok s =
    (Inl UnauthorizedError, s\<lparr>work := family_revoked (cl_sub c) (clock s) (work s),
                             committed := family_revoked (cl_sub c) (clock s) (work s)\<rparr>)"
proof -
  have "map (r_jti \<circ> (\<lambda>r. if live_token_of (cl_sub c) r then r\<lparr>r_revoked_at := Some (clock s)\<rparr> else r))
      (refresh_tokens (work s)) = map r_jti (refresh_tokens (work s))"
    by (rule map_cong) auto
  with con have "refresh_token_constraints (map (\<lambda>r. if live_token_of (cl_sub c) r
      then r\<lparr>r_revoked_at := Some (clock s)\<rparr> else r) (refresh_tokens (work s)))"
    by (simp only: refresh_token_constraints_def map_map)
  with assms show ?thesis
    by (auto simp: refresh_token_def verify_token_def get_refresh_row_def revoke_all_for_user_def
        step Let_def family_revoked_def)
qed

lemma filter_replace_hidden:
  "\<not> P r \<Longrightarrow> (\<And>x. x \<in> set rs \<Longrightarrow> key x = key r \<Longrightarrow> \<not> P x) \<Longrightarrow>
   filter P (replace_by key r rs) = filter P rs"
  by (induction rs) (simp_all add: replace_by_def)

lemma filter_map_hidden:
  "(\<And>x. Q x \<Longrightarrow> \<not> P x \<and> \<not> P (f x)) \<Longrightarrow>
   filter P (map (\<lambda>x. if Q x then f x else x) rs) = filter P rs"
  by (induction rs) auto

text \<open>C33: A refresh token works once.  The call that accepts it revokes it and commits its
  successor; presenting it again is refused and signs the user out everywhere, the successor
  included, while no other user's token changes.\<close>

theorem refresh_token_works_once:
  assumes run: "refresh_token cfg J tok s = (Inr r, t)" and fresh: "uuid_supply s (uuid_next s) \<noteq> []"
  shows "\<exists>c u. jwt_decode J (clock s) tok = Some c \<and>
    (\<exists>x \<in> set (refresh_tokens (committed t)).
       live_token_of (cl_sub c) x \<and> r_jti x = uuid_supply s (uuid_next s)) \<and>
    refresh_token cfg J tok t = (Inl UnauthorizedError, u) \<and>
    (\<forall>x \<in> set (refresh_tokens (committed u)). \<not> live_token_of (cl_sub c) x) \<and>
    filter (\<lambda>x. r_user_id x \<noteq> cl_sub c) (refresh_tokens (committed u)) =
    filter (\<lambda>x. r_user_id x \<noteq> cl_sub c) (refresh_tokens (work s))"
proof -
  define new_jti where "new_jti = uuid_supply s (uuid_next s)"
  let ?rs = "refresh_tokens (work s)"
  from refresh_token_Inr [OF run fresh, folded new_jti_def] obtain c row where
    c: "jwt_decode J (clock s) tok = Some c" "cl_type c = REFRESH" "cl_sub c \<noteq> []" and
    row: "find_first (\<lambda>x. r_jti x = cl_jti c) ?rs = Some row" "r_user_id row = cl_sub c" and
    con: "refresh_token_constraints (rotated cfg row new_jti (clock s) ?rs)" and
    t: "work t = (work s)\<lparr>refresh_tokens := rotated cfg row new_jti (clock s) ?rs\<rparr>"
      "committed t = work t" "clock t = clock s" by blast
  from row have mem: "r_jti row = cl_jti c" "row \<in> set ?rs" by (auto dest: find_first_SomeD)
  let ?row = "row\<lparr>r_revoked_at := Some (clock s), r_replaced_by_jti := Some new_jti\<rparr>"
  from mem have "cl_jti c \<in> r_jti ` set ?rs" by (metis image_eqI)
  then have "find_first (\<lambda>x. r_jti x = cl_jti c) (replace_by r_jti ?row ?rs) = Some ?row"
    using find_replace_same [of r_jti ?row ?rs] mem by simp
  then have found: "find_first (\<lambda>x. r_jti x = cl_jti c) (refresh_tokens (work t)) = Some ?row"
    by (simp add: t rotated_def find_first_append)
  have again: "refresh_token cfg J tok t =
      (Inl UnauthorizedError, t\<lparr>work := family_revoked (cl_sub c) (clock t) (work t),
                                committed := family_revoked (cl_sub c) (clock t) (work t)\<rparr>)"
    by (rule refresh_token_reuse [OF _ c(2,3) found]) (use c con row t in simp_all)
  have others: "filter (\<lambda>x. r_user_id x \<noteq> cl_sub c) (replace_by r_jti ?row ?rs) =
      filter (\<lambda>x. r_user_id x \<noteq> cl_sub c) ?rs"
  proof -
    from con have "distinct (map r_jti ?rs)"
      by (simp add: refresh_token_constraints_def rotated_def)
    then have inj: "inj_on r_jti (set ?rs)" by (simp add: distinct_map)
    have "r_jti x = r_jti row \<Longrightarrow> x \<in> set ?rs \<Longrightarrow> r_user_id x = cl_sub c" for x
      using inj_onD [OF inj, of x row] mem row by simp
    then show ?thesis
      using row by (intro filter_replace_hidden) simp_all
  qed
  show ?thesis
  proof (intro exI conjI)
    show "jwt_decode J (clock s) tok = Some c" by (rule c)
    show "\<exists>x \<in> set (refresh_tokens (committed t)).
        live_token_of (cl_sub c) x \<and> r_jti x = uuid_supply s (uuid_next s)"
      using row by (simp add: t rotated_def live_token_of_def new_jti_def)
    show "refresh_token cfg J tok t =
      (Inl UnauthorizedError, t\<lparr>work := family_revoked (cl_sub c) (clock t) (work t),
                                committed := family_revoked (cl_sub c) (clock t) (work t)\<rparr>)"
      by (rule again)
    show "\<forall>x \<in> set (refresh_tokens (committed (t\<lparr>work := family_revoked (cl_sub c) (clock t) (work t),
        committed := family_revoked (cl_sub c) (clock t) (work t)\<rparr>))). \<not> live_token_of (cl_sub c) x"
      by (auto simp: family_revoked_def live_token_of_def)
    show "filter (\<lambda>x. r_user_id x \<noteq> cl_sub c) (refresh_tokens (committed
        (t\<lparr>work := family_revoked (cl_sub c) (clock t) (work t),
           committed := family_revoked (cl_sub c) (clock t) (work t)\<rparr>))) =
      filter (\<lambda>x. r_user_id x \<noteq> cl_sub c) ?rs"
      unfolding others [symmetric]
      by (simp add: family_revoked_def t rotated_def row live_token_of_def)
        (rule filter_map_hidden, simp)
  qed
qed

definition sample_jwt :: "claims jwt" where
  "sample_jwt = \<lparr>jwt_encode = (\<lambda>c. c), jwt_decode = (\<lambda>t c. if t < cl_exp c then Some c else None)\<rparr>"

definition sample_token :: claims where
  "sample_token =
     \<lparr>cl_sub = ''ua'', cl_type = REFRESH, cl_iat = 0, cl_exp = 5000, cl_jti = ''j''\<rparr>"

definition signed_in :: session where
  "signed_in = sample_session (escrow_db\<lparr>refresh_tokens :=
     [\<lparr>r_jti = ''j'', r_user_id = ''ua'', r_issued_at = 0, r_expires_at = 5000, r_revoked_at = None,
       r_replaced_by_jti = None\<rparr>]\<rparr>)"

theorem refresh_token_works_once_witness:
  "\<exists>r t u. refresh_token sample_settings sample_jwt sample_token signed_in = (Inr r, t) \<and>
     refresh_token sample_settings sample_jwt sample_token t = (Inl UnauthorizedError, u)"
proof -
  have "\<exists>r t. refresh_token sample_settings sample_jwt sample_token signed_in = (Inr r, t)"
    by (simp add: refresh_token_def verify_token_def get_refresh_row_def step Let_def sample_jwt_def
        sample_token_def signed_in_def sample_defs escrow_defs get_user_by_id_def revoke_row_def
        create_refresh_row_def create_token_def refresh_token_constraints_def replace_by_def)
  then obtain r t where run: "refresh_token sample_settings sample_jwt sample_token signed_in = (Inr r, t)"
    by blast
  have "uuid_supply signed_in (uuid_next signed_in) \<noteq> []"
    by (simp add: signed_in_def sample_defs)
  from refresh_token_works_once [OF run this] run show ?thesis by blast
qed

text \<open>What sign-in issues authenticates: until it expires, the access token names the active
  user it was issued to, and afterwards it is refused; a refresh token never authenticates a
  request, and an access token never refreshes a session.\<close>

theorem issued_tokens_round_trip:
  assumes "jwt_law J" and "issue_token_pair cfg J user_id s = (Inr (access, renew), t)"
    and "user_id \<noteq> []" and "uuid_supply s (uuid_next s) \<noteq> []"
    and "find_first (\<lambda>u. u_id u = user_id) (users (work w)) = Some u" and "u_active u \<noteq> 0"
  shows "get_current_user J access w =
      (if clock w < clock s + access_token_expiration_minutes cfg * 60 then (Inr u, w)
       else (Inl (HTTPException 401), w)) \<and>
    get_current_user J renew w = (Inl (HTTPException 401), w) \<and>
    refresh_token cfg J access w = (Inl (HTTPException 401), w)"
proof -
  from assms(2,4) have a: "access = jwt_encode J \<lparr>cl_sub = user_id, cl_type = ACCESS, cl_iat = clock s,
      cl_exp = clock s + token_lifetime cfg ACCESS, cl_jti = uuid_supply s (Suc (uuid_next s))\<rparr>"
    and r: "renew = jwt_encode J \<lparr>cl_sub = user_id, cl_type = REFRESH, cl_iat = clock s,
      cl_exp = clock s + token_lifetime cfg REFRESH, cl_jti = uuid_supply s (uuid_next s)\<rparr>"
    by (auto simp: issue_token_pair_def create_refresh_row_def create_token_def step split: if_splits)
  show ?thesis
    using assms(1,3,5,6)
    by (simp add: a r jwt_law_def get_current_user_def refresh_token_def verify_token_def load_user_def
        step token_lifetime_def)
qed

theorem issued_tokens_round_trip_witness:
  "\<exists>access renew t. issue_token_pair sample_settings sample_jwt ''ua'' escrow_session = (Inr (access, renew), t) \<and>
     get_current_user sample_jwt access escrow_session = (Inr alice, escrow_session) \<and>
     get_current_user sample_jwt renew escrow_session = (Inl (HTTPException 401), escrow_session)"
proof -
  have "\<exists>p t. issue_token_pair sample_settings sample_jwt ''ua'' escrow_session = (Inr p, t)"
    by (simp add: issue_token_pair_def create_refresh_row_def create_token_def step sample_defs escrow_defs
        refresh_token_constraints_def)
  then obtain a r t where run: "issue_token_pair sample_settings sample_jwt ''ua'' escrow_session = (Inr (a, r), t)"
    by fast
  have "jwt_law sample_jwt" by (simp add: jwt_law_def sample_jwt_def)
  moreover have "find_first (\<lambda>u. u_id u = ''ua'') (users (work escrow_session)) = Some alice"
    "u_active alice \<noteq> 0" "uuid_supply escrow_session (uuid_next escrow_session) \<noteq> []"
    by (simp_all add: sample_defs escrow_defs)
  moreover have "clock escrow_session < clock escrow_session + access_token_expiration_minutes sample_settings * 60"
    by (simp add: sample_settings_def)
  ultimately show ?thesis
    using issued_tokens_round_trip [OF _ run, of escrow_session alice] run by auto
qed

end
