(* ===== verification/PublicPages.thy ===== *)
theory PublicPages
  imports Auth Disputes
begin

text \<open>
  The edge of the service: the public invitation pages (\<^verbatim>\<open>src/app/routers/invitation.py\<close>), the
  invitation e-mail (\<^verbatim>\<open>src/app/service/email_service.py\<close>), the key of the rate limiter
  (\<^verbatim>\<open>src/app/rate_limiting.py\<close>), the answers to failed requests (\<^verbatim>\<open>src/app/main.py\<close>), the
  developer routes (\<^verbatim>\<open>src/app/routers/dev.py\<close>), the database URL (\<^verbatim>\<open>src/app/database.py\<close>), the
  checks of the configuration (\<^verbatim>\<open>src/app/config.py\<close>) and the routes that only pass their arguments
  on.  Of the Jinja template only the values handed to it are modelled.
\<close>

section \<open>Invitation links\<close>

definition deep_link_for :: "string \<Rightarrow> string" where
  "deep_link_for token = ''adehun://open/invite?token='' @ token"

definition android_intent_for :: "string \<Rightarrow> string \<Rightarrow> string" where
  "android_intent_for package token =
     ''intent://open/invite?token='' @ token @ ''#Intent;scheme=adehun;package='' @ package @ '';end''"

text \<open>\<^verbatim>\<open>str.partition("@")\<close>: what is before the first at-sign and what is after it.\<close>

definition partition_at :: "string \<Rightarrow> string \<times> string" where
  "partition_at s =
     (takeWhile (\<lambda>c. c \<noteq> CHR ''@'') s, drop 1 (dropWhile (\<lambda>c. c \<noteq> CHR ''@'') s))"

definition mask_email :: "string \<Rightarrow> string" where
  "mask_email email =
     (case partition_at email of (local, domain) \<Rightarrow>
        if domain = [] then ''***'' else take 1 local @ ''***@'' @ domain)"

record invitation_lookup =
  il_agreement_id :: id
  il_agreement_title :: string
  il_inviter_name :: string
  il_role :: participant_role
  il_status :: invitation_row_status
  il_expires_at :: time
  il_email_hint :: string

definition title_of :: "agreement option \<Rightarrow> string" where
  "title_of a = (case a of None \<Rightarrow> '''' | Some a \<Rightarrow> a_title a)"

definition name_of :: "user option \<Rightarrow> string" where
  "name_of u = (case u of None \<Rightarrow> ''Someone'' | Some u \<Rightarrow> u_name u)"

definition lookup_invitation :: "string \<Rightarrow> invitation_lookup handler" where
  "lookup_invitation token =
     (if 128 < length token then raise InvitationNotFoundError
      else
        bnd now (\<lambda>t.
        bnd (find_invitation_by_token token) (\<lambda>found.
        case found of
          None \<Rightarrow> raise InvitationNotFoundError
        | Some i \<Rightarrow>
            if \<not> invitation_live t i then raise InvitationNotFoundError
            else
              bnd (get_row agreement_t (i_agreement_id i)) (\<lambda>a.
              bnd (get_row user_t (i_invited_by i)) (\<lambda>u.
              return \<lparr>il_agreement_id = i_agreement_id i, il_agreement_title = title_of a,
                      il_inviter_name = name_of u, il_role = i_role i,
                      il_status = (case i_status i of None \<Rightarrow> INV_PENDING | Some st \<Rightarrow> st),
                      il_expires_at = i_expires_at i,
                      il_email_hint = mask_email (i_email i)\<rparr>)))))"

record invitation_page =
  ip_status :: nat
  ip_live :: bool
  ip_agreement_title :: string
  ip_inviter_name :: string
  ip_role :: "participant_role option"
  ip_deep_link :: string
  ip_android_intent :: string

definition invite_page :: "string \<Rightarrow> string \<Rightarrow> invitation_page handler" where
  "invite_page package token =
     (if token = '''' \<or> 128 < length token then raise (HTTPException 422)
      else
        bnd now (\<lambda>t.
        bnd (find_invitation_by_token token) (\<lambda>found.
        let live = (case found of None \<Rightarrow> False | Some i \<Rightarrow> invitation_live t i) in
        bnd (option_m (\<lambda>i. get_row agreement_t (i_agreement_id i)) found) (\<lambda>a.
        bnd (option_m (\<lambda>i. get_row user_t (i_invited_by i)) found) (\<lambda>u.
        return \<lparr>ip_status = (if live then 200 else 404), ip_live = live,
                ip_agreement_title = title_of (Option.bind a id),
                ip_inviter_name = name_of (Option.bind u id),
                ip_role = map_option i_role found,
                ip_deep_link = (if live then deep_link_for token else ''''),
                ip_android_intent = (if live then android_intent_for package token else '''')\<rparr>)))))"

section \<open>The invitation e-mail\<close>

text \<open>\<^verbatim>\<open>html.escape(s, quote=True)\<close>\<close>

definition escape_char :: "char \<Rightarrow> string" where
  "escape_char c =
     (if c = CHR ''&'' then ''&amp;'' else if c = CHR ''<'' then ''&lt;''
      else if c = CHR ''>'' then ''&gt;'' else if c = CHR 0x22 then ''&quot;''
      else if c = CHR 0x27 then ''&#x27;'' else [c])"

definition html_escape :: "string \<Rightarrow> string" where
  "html_escape s = concat (map escape_char s)"

definition or_text :: "string \<Rightarrow> string \<Rightarrow> string" where
  "or_text s fallback = (if s = [] then fallback else s)"

definition safe_inviter :: "string \<Rightarrow> string" where
  "safe_inviter inviter_name = html_escape (or_text inviter_name ''Someone'')"

definition invitation_subject :: "string \<Rightarrow> string" where
  "invitation_subject inviter_name =
     safe_inviter inviter_name @ '' invited you to an escrow on Adehun''"

definition invitation_body :: "string \<Rightarrow> string \<Rightarrow> string \<Rightarrow> string" where
  "invitation_body invitation_link inviter_name agreement_title =
     (let safe_link = html_escape invitation_link;
          safe_title = html_escape (or_text agreement_title ''an escrow agreement'')
      in ''<p>'' @ safe_inviter inviter_name @ '' has invited you to <strong>'' @ safe_title @
         ''</strong> on Adehun.</p>'' @
         ''<p><a href='' @ [CHR 0x22] @ safe_link @ [CHR 0x22] @ ''>Open the invitation</a></p>'' @
         ''<p>If the button does not work, copy this link into your browser:<br>'' @
         safe_link @ ''</p>'' @ ''<p>This invitation expires in 7 days.</p>'')"

section \<open>Rate limiting\<close>

definition client_ip :: "bool \<Rightarrow> string option \<Rightarrow> string \<Rightarrow> string" where
  "client_ip trust_proxy_headers forwarded peer =
     (case forwarded of
        Some f \<Rightarrow>
          if trust_proxy_headers \<and> f \<noteq> '''' then strip (takeWhile (\<lambda>c. c \<noteq> CHR '','') f) else peer
      | None \<Rightarrow> peer)"

section \<open>Answers to failed requests\<close>

definition http_status_error_codes :: "(nat \<times> string) list" where
  "http_status_error_codes =
     [(400, ''BAD_REQUEST''), (401, ''UNAUTHORIZED''), (403, ''FORBIDDEN''), (404, ''NOT_FOUND''),
      (405, ''METHOD_NOT_ALLOWED''), (409, ''CONFLICT''), (410, ''GONE''),
      (415, ''UNSUPPORTED_MEDIA_TYPE''), (422, ''VALIDATION_ERROR''), (429, ''TOO_MANY_REQUESTS''),
      (500, ''INTERNAL_SERVER_ERROR''), (502, ''BAD_GATEWAY''), (503, ''SERVICE_UNAVAILABLE''),
      (504, ''GATEWAY_TIMEOUT'')]"

record error_reply =
  er_status :: nat
  er_success :: bool
  er_code :: string

definition error_response :: "string \<Rightarrow> nat \<Rightarrow> error_reply" where
  "error_response code status = \<lparr>er_status = status, er_success = False, er_code = code\<rparr>"

definition http_exception_handler :: "nat \<Rightarrow> error_reply" where
  "http_exception_handler status =
     error_response
       (case map_of http_status_error_codes status of None \<Rightarrow> ''HTTP_ERROR'' | Some c \<Rightarrow> c) status"

definition global_exception_handler :: error_reply where
  "global_exception_handler = error_response ''INTERNAL_SERVER_ERROR'' 500"

text \<open>Which handler an exception reaches; a failed validation is \<open>HTTPException 422\<close> here, with the
  same answer.\<close>

definition reply_to :: "exn \<Rightarrow> error_reply" where
  "reply_to e =
     (case app_error e of
        Some (code, status) \<Rightarrow> error_response code status
      | None \<Rightarrow>
          (case e of HTTPException n \<Rightarrow> http_exception_handler n | _ \<Rightarrow> global_exception_handler))"

section \<open>Configuration\<close>

definition validate_secret_key :: "string \<Rightarrow> string option" where
  "validate_secret_key value =
     (let v = strip value in
      if length v < 32 \<or> lower v \<in> {''secret'', ''changeme'', ''change-me'', ''password''} then None
      else Some v)"

fun split_comma :: "string \<Rightarrow> string \<Rightarrow> string list" where
  "split_comma w [] = [w]"
| "split_comma w (c # s) = (if c = CHR '','' then w # split_comma [] s else split_comma (w @ [c]) s)"

definition split_csv :: "string \<Rightarrow> string list" where
  "split_csv value = map strip (filter (\<lambda>item. strip item \<noteq> []) (split_comma [] value))"

text \<open>\<^verbatim>\<open>urllib.parse.quote_plus\<close>: letters, digits and \<^verbatim>\<open>_.-~\<close> stay, a space becomes a plus sign, any
  other byte of the text in UTF-8 its code; a string here is that sequence of bytes.\<close>

definition hex_digit :: "nat \<Rightarrow> char" where
  "hex_digit n = (if n < 10 then char_of (48 + n) else char_of (55 + n))"

definition quote_char :: "char \<Rightarrow> string" where
  "quote_char c =
     (let n = of_char c :: nat in
      if alphabetic c \<or> is_digit c \<or> c \<in> set ''_.-~'' then [c]
      else if c = CHR '' '' then ''+''
      else [CHR ''%'', hex_digit (n div 16), hex_digit (n mod 16)])"

definition quote_plus :: "string \<Rightarrow> string" where
  "quote_plus s = concat (map quote_char s)"

definition build_database_url ::
  "string \<Rightarrow> string \<Rightarrow> string \<Rightarrow> string \<Rightarrow> string \<Rightarrow> string"
where
  "build_database_url username password host port name =
     (let credentials = quote_plus username @ '':'' @ quote_plus password in
      if prefix ''/'' host
      then ''postgresql://'' @ credentials @ ''@/'' @ name @ ''?host='' @ quote_plus host @ ''&port='' @ port
      else ''postgresql://'' @ credentials @ ''@'' @ host @ '':'' @ port @ ''/'' @ name)"

section \<open>Developer routes\<close>

definition dev_login :: "settings \<Rightarrow> 'tok jwt \<Rightarrow> string \<Rightarrow> 'tok handler" where
  "dev_login cfg J username =
     bnd (select_first user_t (\<lambda>u. u_email u = username)) (\<lambda>found.
     case found of
       None \<Rightarrow> raise UserNotFoundError
     | Some u \<Rightarrow>
         if u_active u = 0 then raise BadRequestError
         else create_token cfg J (u_id u) ACCESS None)"

definition dev_promote_admin :: "string \<Rightarrow> user handler" where
  "dev_promote_admin email =
     bnd (select_first user_t (\<lambda>u. u_email u = email)) (\<lambda>found.
     case found of
       None \<Rightarrow> raise UserNotFoundError
     | Some u \<Rightarrow>
         bnd (save_row user_t (u\<lparr>u_is_admin := True\<rparr>)) (\<lambda>_.
         bnd commit (\<lambda>_.
         refresh user_t (u\<lparr>u_is_admin := True\<rparr>))))"

section \<open>Routes that pass their arguments on\<close>

definition get_wallet :: "user \<Rightarrow> balance_response handler" where
  "get_wallet current_user = get_balance (u_id current_user)"

definition get_withdrawal_route :: "transport \<Rightarrow> user \<Rightarrow> string \<Rightarrow> withdrawal_response handler" where
  "get_withdrawal_route net current_user reference = get_withdrawal net (u_id current_user) reference"

definition get_unread_count_route :: "user \<Rightarrow> nat handler" where
  "get_unread_count_route current_user = get_unread_count (u_id current_user)"

definition mark_notifications_read :: "user \<Rightarrow> id list \<Rightarrow> nat handler" where
  "mark_notifications_read current_user notification_ids =
     mark_as_read notification_ids (u_id current_user)"

definition mark_all_notifications_read :: "user \<Rightarrow> nat handler" where
  "mark_all_notifications_read current_user = mark_all_as_read (u_id current_user)"

definition get_current_user_route :: "user \<Rightarrow> user_response handler" where
  "get_current_user_route current_user = get_user_service (u_id current_user)"

definition get_profile_upload_signature ::
  "(int \<Rightarrow> string \<Rightarrow> string) \<Rightarrow> user \<Rightarrow> signed_upload handler"
where
  "get_profile_upload_signature sign current_user =
     create_upload_signature sign (''profiles/'' @ u_id current_user)"

definition approve_asset_route :: "user \<Rightarrow> id \<Rightarrow> id \<Rightarrow> asset_response handler" where
  "approve_asset_route current_user condition_id asset_id =
     approve_asset condition_id asset_id (u_id current_user)"

definition reject_asset_route :: "user \<Rightarrow> id \<Rightarrow> id \<Rightarrow> asset_response handler" where
  "reject_asset_route current_user condition_id asset_id =
     reject_asset condition_id asset_id (u_id current_user)"

section \<open>What the pages give away\<close>

lemma partition_at_cons:
  "CHR ''@'' \<notin> set l \<Longrightarrow> partition_at (l @ ''@'' @ d) = (l, d)"
  unfolding partition_at_def by (induction l) auto

text \<open>The hint on the public invitation page depends on the first character and the domain of the
  invited address only; the rest of the address is not given away.\<close>

theorem email_hint_hides_address:
  assumes "CHR ''@'' \<notin> set l" and "CHR ''@'' \<notin> set k" and "take 1 l = take 1 k"
  shows "mask_email (l @ ''@'' @ d) = mask_email (k @ ''@'' @ d)"
  by (simp only: mask_email_def partition_at_cons [OF assms(1)] partition_at_cons [OF assms(2)]
      prod.case assms(3))

theorem email_hint_hides_address_witness:
  "mask_email ''tola@x.ng'' = mask_email ''temmy@x.ng'' \<and> mask_email ''tola@x.ng'' = ''t***@x.ng''"
proof
  show "mask_email ''tola@x.ng'' = mask_email ''temmy@x.ng''"
    using email_hint_hides_address [of "''tola''" "''temmy''" "''x.ng''"] by simp
qed code_simp

definition markup :: "char \<Rightarrow> bool" where
  "markup c \<longleftrightarrow> c \<in> {CHR ''<'', CHR ''>'', CHR 0x22, CHR 0x27}"

lemma escape_no_markup: "filter markup (html_escape s) = []"
  by (induction s) (simp_all add: html_escape_def escape_char_def markup_def)

lemma escape_char_decodes:
  "escape_char c @ html_escape s = escape_char d @ html_escape r \<Longrightarrow> c = d"
  by (auto simp: escape_char_def split: if_splits)

lemma escape_injective: "html_escape s = html_escape r \<longleftrightarrow> s = r"
proof (induction s arbitrary: r)
  case Nil
  then show ?case
    by (cases r) (simp_all add: html_escape_def escape_char_def)
next
  case (Cons c s)
  show ?case
  proof (cases r)
    case Nil
    then show ?thesis by (simp add: html_escape_def escape_char_def)
  next
    case r: (Cons d q)
    have u: "html_escape (c # s) = escape_char c @ html_escape s" for c s
      by (simp add: html_escape_def)
    show ?thesis
    proof
      assume e: "html_escape (c # s) = html_escape r"
      then have "c = d" using escape_char_decodes [of c s d q] by (simp add: r u)
      with e Cons show "c # s = r" by (simp add: r u)
    qed simp
  qed
qed

text \<open>C39: Whatever names, titles and links are put into the invitation e-mail, its markup is that of
  the template: no tag and no quote comes from a user, and no two texts are shown alike.\<close>

theorem invitation_mail_markup:
  "filter markup (invitation_body link inviter title) = filter markup (invitation_body [] [] []) \<and>
   filter markup (invitation_subject inviter) = [] \<and>
   (safe_inviter inviter = safe_inviter other \<longleftrightarrow>
      or_text inviter ''Someone'' = or_text other ''Someone'')"
proof (intro conjI)
  have q: "filter markup (safe_inviter n) = []" for n
    by (simp add: safe_inviter_def escape_no_markup)
  show "filter markup (invitation_body link inviter title) = filter markup (invitation_body [] [] [])"
    by (simp only: invitation_body_def Let_def filter_append q escape_no_markup append_Nil)
  show "filter markup (invitation_subject inviter) = []"
    by (simp add: invitation_subject_def q markup_def)
  show "safe_inviter inviter = safe_inviter other \<longleftrightarrow>
      or_text inviter ''Someone'' = or_text other ''Someone''"
    by (simp only: safe_inviter_def escape_injective)
qed

lemma app_error_status: "app_error e = Some (c, n) \<Longrightarrow> 400 \<le> n \<and> n < 600"
  by (cases e) (auto simp: app_error_def)

text \<open>Every failed request is answered with an error envelope and an error status; an exception
  the application does not define is a plain 500 that says nothing about it.\<close>

theorem failures_are_reported:
  assumes "\<forall>n. e = HTTPException n \<longrightarrow> 400 \<le> n \<and> n < 600"
  shows "\<not> er_success (reply_to e) \<and> 400 \<le> er_status (reply_to e) \<and> er_status (reply_to e) < 600 \<and>
     (app_error e = None \<and> (\<forall>n. e \<noteq> HTTPException n) \<longrightarrow>
        er_status (reply_to e) = 500 \<and> er_code (reply_to e) = ''INTERNAL_SERVER_ERROR'')"
proof (cases "app_error e")
  case None
  then show ?thesis using assms
    by (cases e) (auto simp: reply_to_def http_exception_handler_def global_exception_handler_def
        error_response_def)
next
  case (Some x)
  then show ?thesis using app_error_status [of e "fst x" "snd x"]
    by (cases x) (simp add: reply_to_def error_response_def)
qed

theorem failures_are_reported_witness:
  "er_code (reply_to (HTTPException 422)) = ''VALIDATION_ERROR'' \<and>
   \<not> er_success (reply_to (HTTPException 422)) \<and> er_status (reply_to IntegrityError) = 500"
proof (intro conjI)
  show "er_code (reply_to (HTTPException 422)) = ''VALIDATION_ERROR''"
    by (simp add: reply_to_def http_exception_handler_def error_response_def app_error_def
        http_status_error_codes_def)
  show "\<not> er_success (reply_to (HTTPException 422))"
    using failures_are_reported [of "HTTPException 422"] by simp
  have "app_error IntegrityError = None" by (simp add: app_error_def)
  then show "er_status (reply_to IntegrityError) = 500"
    using failures_are_reported [of IntegrityError] by simp
qed

text \<open>The client chooses the bucket it is counted in: the first hop is whatever it sent.\<close>

lemma client_chooses_its_bucket:
  "CHR '','' \<notin> set spoofed \<Longrightarrow> spoofed \<noteq> '''' \<Longrightarrow>
   client_ip True (Some (spoofed @ '','' @ real_hops)) peer = strip spoofed"
proof -
  assume "CHR '','' \<notin> set spoofed" "spoofed \<noteq> ''''"
  moreover from this(1) have "takeWhile (\<lambda>c. c \<noteq> CHR '','') (spoofed @ '','' @ real_hops) = spoofed"
    by (induction spoofed) auto
  ultimately show ?thesis by (simp add: client_ip_def)
qed

text \<open>Credentials cannot move the host: they end at the first at-sign.\<close>

definition unreserved :: "char \<Rightarrow> bool" where
  "unreserved c \<longleftrightarrow> c \<noteq> CHR ''@'' \<and> c \<noteq> CHR '':'' \<and> c \<noteq> CHR ''/''"

lemma hex_digit_unreserved: "n < 16 \<Longrightarrow> unreserved (hex_digit n)"
proof -
  have "\<forall>n\<in>set [0..<16]. unreserved (hex_digit n)" by code_simp
  then show "n < 16 \<Longrightarrow> ?thesis" by simp
qed

lemma kept_unreserved:
  "alphabetic c \<or> is_digit c \<or> c \<in> set ''_.-~'' \<Longrightarrow> unreserved c"
proof -
  have "\<not> (alphabetic d \<or> is_digit d \<or> d \<in> set ''_.-~'')" if "d \<in> set ''@:/''" for d
  proof -
    have "list_all (\<lambda>d. \<not> (alphabetic d \<or> is_digit d \<or> d \<in> set ''_.-~'')) ''@:/''" by code_simp
    then show ?thesis using that unfolding list_all_iff by blast
  qed
  then show "alphabetic c \<or> is_digit c \<or> c \<in> set ''_.-~'' \<Longrightarrow> ?thesis"
    unfolding unreserved_def by (metis list.set_intros)
qed

lemma quote_char_unreserved: "list_all unreserved (quote_char c)"
proof -
  have "(of_char c :: nat) div 16 < 16" by (rule less_mult_imp_div_less) simp
  moreover have "(of_char c :: nat) mod 16 < 16" by simp
  moreover have "unreserved (CHR ''%'')" "unreserved (CHR ''+'')" by (simp_all add: unreserved_def)
  ultimately show ?thesis
    using kept_unreserved [of c] hex_digit_unreserved
    by (simp add: quote_char_def Let_def del: list.set)
qed

lemma quote_plus_unreserved: "list_all unreserved (quote_plus s)"
  by (induction s) (simp_all add: quote_plus_def quote_char_unreserved)

lemma database_url_credentials:
  "takeWhile (\<lambda>c. c \<noteq> CHR ''@'') (build_database_url u p h port n) =
   ''postgresql://'' @ quote_plus u @ '':'' @ quote_plus p"
proof -
  let ?c = "''postgresql://'' @ quote_plus u @ '':'' @ quote_plus p"
  have "\<forall>c\<in>set ?c. c \<noteq> CHR ''@''"
    using quote_plus_unreserved [of u] quote_plus_unreserved [of p]
    by (auto simp: list_all_iff unreserved_def)
  then have t: "takeWhile (\<lambda>c. c \<noteq> CHR ''@'') (?c @ ''@'' @ r) = ?c" for r
    by (subst takeWhile_append2) auto
  show ?thesis
    using t [of "''/'' @ n @ ''?host='' @ quote_plus h @ ''&port='' @ port"] t [of "h @ '':'' @ port @ ''/'' @ n"]
    by (simp add: build_database_url_def Let_def)
qed

end
