(* ===== verification/RouteFrames.thy ===== *)
theory RouteFrames
  imports DisputeOperations BankAccounts HistoryReads PublicPages
begin

text \<open>
  The ledger's past under every route: no handler of the application changes or removes a committed
  entry (\<open>append_only\<close>), and the invariants that no write outside the ledger can break are kept by
  every one of them.
\<close>

section \<open>The past of the ledger\<close>

lemma ledger_apart [stays_intros]:
  "apart transaction_t user_t" "apart transaction_t agreement_t" "apart transaction_t participant_t"
  "apart transaction_t invitation_t" "apart transaction_t condition_t" "apart transaction_t dispute_t"
  "apart transaction_t asset_file_t" "apart transaction_t asset_t" "apart transaction_t wallet_t"
  "apart transaction_t paystack_t" "apart transaction_t bank_account_t"
  "apart transaction_t webhook_event_t" "apart transaction_t idempotency_key_t"
  "apart transaction_t notification_t" "apart transaction_t refresh_token_t"
  by (simp_all add: apart_def)

lemma notifications_append_only [stays_intros]:
  "stays append_only (notify u ty me)" "stays append_only (mark_as_read ids u)"
  "stays append_only (mark_all_as_read u)" "stays append_only (get_notifications cu sk li)"
  "stays append_only (notify_agreement_participants i u ty me)"
  unfolding notify_def mark_as_read_def mark_all_as_read_def get_notifications_def get_user_notifications_def get_by_user_def
    get_unread_count_def get_total_count_def notify_agreement_participants_def Let_def
  by (intro stays_intros)+

lemma agreement_rows_append_only [stays_intros]:
  "stays append_only (save_agreement a c)"
  "stays append_only (invite_participant tok by ro ag em)"
  "stays append_only (update_agreement_conditions_with_invitation i iv p)"
  unfolding save_agreement_def invite_participant_def
    update_agreement_conditions_with_invitation_def Let_def
  by (intro stays_intros)+

lemma agreement_service_append_only [stays_intros]:
  "stays append_only (prepare_release a)" "stays append_only (prepare_refund a)"
  "stays append_only (create_agreement web u em d)" "stays append_only (accept_agreement a u em)"
  "stays append_only (reject_agreement a u em)" "stays append_only (cancel_agreement a u)"
  "stays append_only (get_all_user_agreements u)"
  unfolding prepare_release_def prepare_refund_def create_agreement_def
    create_agreement_rows_def add_creator_def new_condition_def invite_other_def
    accept_agreement_def reject_agreement_def answer_as_def cancel_agreement_def
    get_all_user_agreements_def get_user_agreements_def merge_agreement_def Let_def
  by (intro stays_intros)+

lemma escrow_movements_append_only [stays_intros]:
  "stays append_only (perform_escrow_refund i)" "stays append_only (perform_escrow_release i)"
  "stays append_only (fund_operation cu i)" "stays append_only (release_escrow_if_ready i)"
  "stays append_only (settle_dispute i oc)"
  "stays append_only (release_operation cu i)" "stays append_only (refund_operation i)"
proof -
  show r: "stays append_only (perform_escrow_refund i)" "stays append_only (perform_escrow_release i)" for i
    unfolding perform_escrow_refund_def perform_escrow_release_def by (intro stays_intros)+
  show "stays append_only (fund_operation cu i)"
    unfolding fund_operation_def by (intro stays_intros)
  show "stays append_only (release_operation cu i)" "stays append_only (refund_operation i)"
    unfolding release_operation_def refund_operation_def by (intro stays_intros r)+
  show "stays append_only (release_escrow_if_ready i)" "stays append_only (settle_dispute i oc)"
    unfolding release_escrow_if_ready_def settle_dispute_def Let_def by (intro stays_intros r)+
qed

lemma stays_begun [stays_intros]:
  "(\<And>r. stays R (f r)) \<Longrightarrow> (\<And>i. stays R (g i)) \<Longrightarrow>
   stays R (case b of Replay r \<Rightarrow> f r | Proceed i \<Rightarrow> g i)"
  by (cases b) auto

lemma idempotency_append_only [stays_intros]:
  "stays append_only (begin_request cfg sweep digest u key ep p)"
  "stays append_only (bind_reference ri r)" "stays append_only (complete ri resp)"
  "stays append_only (release_if_abandoned ri)"
  unfolding begin_request_def bind_reference_def complete_def release_if_abandoned_def reserve_def
    sweep_expired_def get_key_def complete_key_def bind_key_reference_def release_key_def Let_def
  by (intro stays_intros)+

lemma with_idempotency_append_only [stays_intros]:
  "stays append_only operation \<Longrightarrow>
   stays append_only (with_idempotency cfg sweep digest u key ep p operation)"
  unfolding with_idempotency_def by (intro stays_intros)

lemma money_routes_append_only [stays_intros]:
  "stays append_only (fund_wallet cfg net sweep digest cu key wc)"
  "stays append_only (withdraw cfg net sweep digest cu key wd)"
  "stays append_only (get_wallet cu)" "stays append_only (get_withdrawal_route net cu ref)"
  "stays append_only (fund_agreement cfg sweep digest cu key i)"
  "stays append_only (release_agreement_escrow cfg sweep digest cu key i)"
  "stays append_only (get_admin_user cu)"
  "stays append_only (refund_agreement_escrow cfg sweep digest cu key i)"
  unfolding fund_wallet_def withdraw_def get_wallet_def get_withdrawal_route_def fund_agreement_def
    release_agreement_escrow_def refund_agreement_escrow_def required_key_def get_admin_user_def
  by (intro stays_intros)+

lemma agreement_routes_append_only [stays_intros]:
  "stays append_only (create_agreement_route cfg web addr cu body)"
  "stays append_only (accept_agreement_route cfg sweep digest cu key i)"
  "stays append_only (reject_agreement_route cfg sweep digest cu key i)"
  "stays append_only (cancel_agreement_route cu i)"
  "stays append_only (get_all_user_agreements_route cu)"
  unfolding create_agreement_route_def accept_agreement_route_def reject_agreement_route_def
    cancel_agreement_route_def accept_operation_def reject_operation_def
    get_all_user_agreements_route_def Let_def
  by (intro stays_intros)+

lemma condition_routes_append_only [stays_intros]:
  "stays append_only (add_condition_route addr cu i d)"
  "stays append_only (approve_condition_route cu c)"
  "stays append_only (reject_condition_route cu c re)"
  unfolding add_condition_route_def approve_condition_route_def reject_condition_route_def
    add_condition_def approve_condition_def reject_condition_def save_condition_def Let_def
  by (intro stays_intros)+

lemma asset_routes_append_only [stays_intros]:
  "stays append_only (new_asset_file f)" "stays append_only (new_asset cd d p fi)"
  "stays append_only (add_asset_to_condition_route cl mb cu c fs)"
  "stays append_only (approve_asset_route cu c i)" "stays append_only (reject_asset_route cu c i)"
  unfolding new_asset_file_def new_asset_def add_asset_to_condition_route_def add_asset_to_condition_def
    approve_asset_route_def reject_asset_route_def approve_asset_def reject_asset_def
    decide_asset_def save_asset_def except_other_than_def Let_def
  by (intro stays_intros)+

lemmas dispute_reading_append_only [stays_intros] =
  disputes_reading [THEN reading_append_only] dispute_answers_reading [THEN reading_append_only]

lemma dispute_routes_append_only [stays_intros]:
  "stays append_only (raise_dispute_route cloud mb cu i body)"
  "stays append_only (add_dispute_evidence cloud mb cu k fs)"
  "stays append_only (mark_under_review cu k)" "stays append_only (resolve_dispute cu k rv)"
proof -
  show "stays append_only (raise_dispute_route cloud mb cu i body)"
    unfolding raise_dispute_route_def raise_dispute_def open_dispute_def new_dispute_def
      add_evidence_rows_def save_dispute_def set_agreement_status_def except_other_than_def Let_def
    by (intro stays_intros)
  show "stays append_only (add_dispute_evidence cloud mb cu k fs)"
    unfolding add_dispute_evidence_def add_evidence_def add_evidence_rows_def Let_def
    by (intro stays_intros)
  show "stays append_only (mark_under_review cu k)" "stays append_only (resolve_dispute cu k rv)"
    unfolding mark_under_review_def admin_mark_under_review_def resolve_dispute_def
      admin_resolve_dispute_def save_dispute_def set_agreement_status_def Let_def
    by (intro stays_intros)+
qed

lemma stays_cached_banks [stays_intros]:
  "(\<And>xs. stays R (f xs)) \<Longrightarrow> stays R m \<Longrightarrow>
   stays R (case c of Some (CBanks xs) \<Rightarrow> f xs | _ \<Rightarrow> m)"
  "(\<And>xs. stays R (f xs)) \<Longrightarrow> stays R m \<Longrightarrow> stays R (case k of CBanks xs \<Rightarrow> f xs | _ \<Rightarrow> m)"
  by (auto split: option.splits cached.splits)

lemma bank_accounts_reading [stays_intros]:
  "stays reading (get_cached_banks c)" "stays reading (cache_banks c bs)"
  "stays reading (list_for_user u)" "stays reading (get_for_user i u)"
  "stays reading (get_default_for_user u)" "stays reading (find_active_duplicate u bc an)"
  "stays reading (has_pending_withdrawal i)" "stays reading (get_bank_accounts_route cu)"
  unfolding get_cached_banks_def cache_banks_def list_for_user_def get_for_user_def
    get_default_for_user_def find_active_duplicate_def has_pending_withdrawal_def
    get_bank_accounts_route_def get_user_bank_accounts_def
  by (intro stays_intros)+

lemmas bank_reading_append_only [stays_intros] = bank_accounts_reading [THEN reading_append_only]

lemma bank_accounts_append_only [stays_intros]:
  "stays append_only (add_account b c)" "stays append_only (set_default b)"
  "stays append_only (deactivate b)" "stays append_only (list_banks_route net cu)"
  "stays append_only (resolve_account_route net cu r)"
  unfolding add_account_def set_default_def deactivate_def list_banks_route_def list_banks_service_def
    resolve_account_route_def resolve_account_def bank_name_def require_key_def Let_def
  by (intro stays_intros)+

lemma account_routes_append_only [stays_intros]:
  "stays append_only (update_user_route cu u req)"
  "stays append_only (mark_notifications_read cu ns)"
  "stays append_only (mark_all_notifications_read cu)"
  "stays append_only (add_bank_account_route net cu p)"
  "stays append_only (set_default_bank_account_route cu i)"
  "stays append_only (remove_bank_account_route cu i)" "stays append_only (dev_promote_admin em)"
  unfolding update_user_route_def update_user_service_def update_user_row_def
    mark_notifications_read_def mark_all_notifications_read_def add_bank_account_route_def
    add_bank_account_def new_bank_account_def bank_name_def list_banks_service_def require_key_def
    set_default_bank_account_route_def set_default_bank_account_def remove_bank_account_route_def
    remove_bank_account_def dev_promote_admin_def Let_def
  by (intro stays_intros)+

lemma stays_cached_user [stays_intros]:
  "(\<And>x. stays R (f x)) \<Longrightarrow> stays R m \<Longrightarrow>
   stays R (case c of Some (CUser x) \<Rightarrow> f x | _ \<Rightarrow> m)"
  by (auto split: option.splits cached.splits)

lemma tokens_reading [stays_intros]:
  "stays reading (create_token cfg J u ty j)" "stays reading (verify_token J tok ty)"
  "stays reading (load_user u)" "stays reading (get_current_user J tok)"
  "stays reading (get_active_user J tok)" "stays reading (get_refresh_row jt)"
  "stays reading (raise_sum x)" "stays reading (dev_login cfg J em)"
proof -
  show c: "stays reading (create_token cfg J u ty j)" for u ty j
    unfolding create_token_def by (intro stays_intros)
  show v: "stays reading (verify_token J tok ty)" for ty
    unfolding verify_token_def by (intro stays_intros)
  show l: "stays reading (load_user u)" for u
    unfolding load_user_def by (intro stays_intros)
  show "stays reading (get_current_user J tok)" "stays reading (get_active_user J tok)"
    "stays reading (get_refresh_row jt)" "stays reading (raise_sum x)" "stays reading (dev_login cfg J em)"
    unfolding get_current_user_def get_active_user_def get_refresh_row_def raise_sum_def dev_login_def
    by (intro stays_intros v l c)+
qed

lemmas tokens_append_only [stays_intros] = tokens_reading [THEN reading_append_only]

lemma auth_append_only [stays_intros]:
  "stays append_only (register_user_route cu d)" "stays append_only (verify_id_token cfg J F idt)"
  "stays append_only (login_route cfg J F idt)"
  "stays append_only (invite_register_route cfg J F idt ivt)"
  "stays append_only (refresh_token_route cfg J rtok)" "stays append_only (logout_route J rtok)"
proof -
  show v: "stays append_only (verify_id_token cfg J F idt)"
    unfolding verify_id_token_def create_firebase_user_def create_user_def
      notify_pending_invitations_def issue_token_pair_def create_refresh_row_def
    by (intro stays_intros)
  show "stays append_only (register_user_route cu d)"
    unfolding register_user_route_def register_user_def register_profile_def Let_def
    by (intro stays_intros)
  show "stays append_only (login_route cfg J F idt)"
    "stays append_only (invite_register_route cfg J F idt ivt)"
    unfolding login_route_def invite_register_route_def by (intro stays_intros v)+
  show "stays append_only (refresh_token_route cfg J rtok)" "stays append_only (logout_route J rtok)"
    unfolding refresh_token_route_def refresh_token_def revoke_all_for_user_def revoke_row_def
      create_refresh_row_def logout_route_def logout_def Let_def
    by (intro stays_intros)+
qed

lemma webhook_append_only [stays_intros]:
  "stays append_only (handle_event net sha256 p raw)"
  "stays append_only (paystack_webhook cfg net sha256 hmac parse raw sig)"
proof -
  have e: "stays append_only (claim k ty pe ref)" "stays append_only (mark_event k st)"
    "stays append_only (mark_failed k err)" "stays append_only (failed_outcome k ty er)"
    "stays append_only (finish_event k oc)" for k ty pe ref st err er oc
    unfolding claim_def mark_event_def mark_failed_def failed_outcome_def finish_event_def
      get_event_def Let_def by (intro stays_intros)+
  have h: "stays append_only m" if "event_handler net ty d = Some m" for ty d m
    using that by (auto simp: event_handler_def intro: handlers_append_only split: if_splits)
  show handle: "stays append_only (handle_event net sha256 p raw)" for p
  proof (cases "event_handler net (wp_event p) (wp_data p)")
    case None
    show ?thesis unfolding handle_event_def Let_def None option.case by (intro stays_intros e)
  next
    case (Some m)
    show ?thesis unfolding handle_event_def Let_def Some option.case
      by (intro stays_intros e h [OF Some])
  qed
  show "stays append_only (paystack_webhook cfg net sha256 hmac parse raw sig)"
    unfolding paystack_webhook_def by (intro stays_intros handle)
qed

lemma pages_reading [stays_intros]:
  "stays reading (lookup_invitation tk)" "stays reading (invite_page pk tk)"
  "stays reading (get_unread_count_route cu)" "stays reading (get_notifications cu sk li)"
  "stays reading (get_current_user_route cu)" "stays reading (get_profile_upload_signature sign cu)"
  unfolding lookup_invitation_def invite_page_def get_unread_count_route_def get_notifications_def get_user_notifications_def
    get_by_user_def get_unread_count_def get_total_count_def get_current_user_route_def
    get_profile_upload_signature_def option_m_def Let_def
  by (intro stays_intros)+

end
