(* ===== verification/Api.thy ===== *)
theory Api
  imports RouteFrames
begin

text \<open>
  The routes of the service as one interface (\<^verbatim>\<open>src/app/main.py\<close> includes the routers,
  \<^verbatim>\<open>src/app/dependencies.py\<close> composes each route with the user it needs), and what every request
  keeps.  A locale states what an invariant of the database must offer so that all routes keep it;
  it is interpreted for the constraints of the schema and for the soundness of the ledger.
\<close>

section \<open>Requests\<close>

text \<open>
  A request runs its route for the user of its bearer token, all in one session; the answer itself
  plays no part here.  Every parameter is free: the provider may answer anything (\<open>net\<close>), a token may
  be anything, a body may hold anything.
\<close>

definition answered :: "'a handler \<Rightarrow> unit handler" where
  "answered m = bnd m (\<lambda>_. return ())"

definition as_user :: "string jwt \<Rightarrow> string \<Rightarrow> (user \<Rightarrow> 'a handler) \<Rightarrow> unit handler" where
  "as_user J tok route = answered (bnd (get_active_user J tok) route)"

definition wallet_websocket :: "string jwt \<Rightarrow> string option \<Rightarrow> ws_frame option handler" where
  "wallet_websocket J tok =
     bnd (get_user_id_from_ws J tok) (\<lambda>user.
     case user of
       None \<Rightarrow> return None
     | Some u \<Rightarrow> bnd (get_wallet_state_for_ws u) (\<lambda>frame. return (Some frame)))"

text \<open>
  A connection of the agreement socket: each message asks for an agreement (\<open>None\<close>: without an id) and
  is answered with it or with an error frame (\<open>None\<close>).
\<close>

definition agreement_message :: "id \<Rightarrow> string \<Rightarrow> id option \<Rightarrow> agreement_response option handler" where
  "agreement_message user_id user_email asked =
     (case asked of
        None \<Rightarrow> return None
      | Some i \<Rightarrow>
          if i = '''' then return None
          else
            try_except
              (bnd (require_read_access i user_id user_email) (\<lambda>_.
               bnd (get_agreement i (Some user_id)) (\<lambda>a. return (Some a))))
              (\<lambda>_. return None))"

definition agreement_websocket ::
  "string jwt \<Rightarrow> string option \<Rightarrow> id option list \<Rightarrow> agreement_response option list handler"
where
  "agreement_websocket J tok messages =
     bnd (get_user_id_from_ws J tok) (\<lambda>user.
     case user of
       None \<Rightarrow> return []
     | Some u \<Rightarrow>
         bnd (get_row user_t u) (\<lambda>row.
         map_m (agreement_message u (case row of None \<Rightarrow> '''' | Some x \<Rightarrow> u_email x)) messages))"

inductive reading_request :: "unit handler \<Rightarrow> bool" where
  read_history: "reading_request (as_user J tok (\<lambda>cu. get_transactions_route cu sk li f))"
| read_summary: "reading_request (as_user J tok get_transaction_summary_route)"
| read_entry: "reading_request (as_user J tok (\<lambda>cu. get_transaction_route cu i))"
| read_stats: "reading_request (as_user J tok get_user_agreement_stats_route)"
| read_agreement: "reading_request (as_user J tok (\<lambda>cu. get_agreement_route cu i))"
| read_invited: "reading_request (as_user J tok get_invited_agreements_route)"
| read_invitation: "reading_request (as_user J tok (\<lambda>cu. get_agreement_invitation_route cu i))"
| read_conditions: "reading_request (as_user J tok (\<lambda>cu. get_agreement_conditions_route cu i))"
| read_condition: "reading_request (as_user J tok (\<lambda>cu. get_condition_details cu i))"
| read_agreement_files: "reading_request (as_user J tok (\<lambda>cu. get_assets_for_agreement_route cu i))"
| read_condition_files: "reading_request (as_user J tok (\<lambda>cu. get_assets_for_condition_route cu i))"
| sign_condition_file: "reading_request (as_user J tok (\<lambda>cu. get_upload_signature_route sign cu i))"
| sign_dispute_file: "reading_request (as_user J tok (\<lambda>cu. get_dispute_upload_signature sign cu i))"
| sign_profile: "reading_request (as_user J tok (\<lambda>cu. get_profile_upload_signature sign cu))"
| read_disputes: "reading_request (as_user J tok (\<lambda>cu. get_agreement_disputes_route cu i))"
| read_my_disputes: "reading_request (as_user J tok (\<lambda>cu. get_my_disputes cu sk li'))"
| read_dispute: "reading_request (as_user J tok (\<lambda>cu. get_dispute_route cu i))"
| read_all_disputes: "reading_request (as_user J tok (\<lambda>cu. admin_list_disputes_route cu st ca sk li'))"
| read_any_dispute: "reading_request (as_user J tok (\<lambda>cu. admin_get_dispute_route cu i))"
| read_notifications: "reading_request (as_user J tok (\<lambda>cu. get_notifications cu sk li'))"
| read_unread: "reading_request (as_user J tok get_unread_count_route)"
| read_profile: "reading_request (as_user J tok get_current_user_route)"
| read_accounts: "reading_request (as_user J tok get_bank_accounts_route)"
| read_invite: "reading_request (answered (lookup_invitation tk))"
| read_invite_page: "reading_request (answered (invite_page pk tk))"
| watch_agreements: "reading_request (answered (agreement_websocket J wtok asked))"
| dev_sign_in: "reading_request (answered (dev_login cfg (J :: string jwt) em))"

inductive account_request :: "unit handler \<Rightarrow> bool" where
  register: "account_request (answered (bnd (get_current_user (J :: string jwt) tok) (\<lambda>cu. register_user_route cu d)))"
| sign_in: "account_request (answered (login_route cfg (J :: string jwt) F idt))"
| sign_in_invited: "account_request (answered (invite_register_route cfg (J :: string jwt) F idt ivt))"
| rotate_token: "account_request (answered (refresh_token_route cfg (J :: string jwt) rtok))"
| sign_out: "account_request (answered (logout_route (J :: string jwt) rtok))"
| update_profile: "account_request (as_user J tok (\<lambda>cu. update_user_route cu u req))"
| mark_some_read: "account_request (as_user J tok (\<lambda>cu. mark_notifications_read cu ns))"
| mark_all_read: "account_request (as_user J tok mark_all_notifications_read)"
| list_banks: "account_request (as_user J tok (list_banks_route net))"
| resolve_bank: "account_request (as_user J tok (\<lambda>cu. resolve_account_route net cu r))"
| add_bank: "account_request (as_user J tok (\<lambda>cu. add_bank_account_route net cu p))"
| default_bank: "account_request (as_user J tok (\<lambda>cu. set_default_bank_account_route cu i))"
| remove_bank: "account_request (as_user J tok (\<lambda>cu. remove_bank_account_route cu i))"
| hand_in: "account_request (as_user J tok (\<lambda>cu. add_asset_to_condition_route cl mb cu c fs))"
| approve_file: "account_request (as_user J tok (\<lambda>cu. approve_asset_route cu c i))"
| reject_file: "account_request (as_user J tok (\<lambda>cu. reject_asset_route cu c i))"
| add_evidence: "account_request (as_user J tok (\<lambda>cu. add_dispute_evidence cl mb cu k fs))"
| dev_promote: "account_request (answered (dev_promote_admin em))"

inductive money_request :: "unit handler \<Rightarrow> bool" where
  see_wallet: "money_request (as_user J tok get_wallet)"
| watch_wallet: "money_request (answered (wallet_websocket J wtok))"
| see_withdrawal: "money_request (as_user J tok (\<lambda>cu. get_withdrawal_route net cu ref))"
| add_funds: "money_request (as_user J tok (\<lambda>cu. fund_wallet cfg net sweep digest cu key wc))"
| pay_out: "money_request (as_user J tok (\<lambda>cu. withdraw cfg net sweep digest cu key wd))"
| provider_event:
    "money_request (answered (paystack_webhook cfg net sha256 hmac parse raw sig))"

inductive escrow_request :: "unit handler \<Rightarrow> bool" where
  create: "escrow_request (as_user J tok (\<lambda>cu. create_agreement_route cfg web addr cu body))"
| accept: "escrow_request (as_user J tok (\<lambda>cu. accept_agreement_route cfg sweep digest cu key i))"
| decline: "escrow_request (as_user J tok (\<lambda>cu. reject_agreement_route cfg sweep digest cu key i))"
| cancel: "escrow_request (as_user J tok (\<lambda>cu. cancel_agreement_route cu i))"
| lock: "escrow_request (as_user J tok (\<lambda>cu. fund_agreement cfg sweep digest cu key i))"
| release: "escrow_request (as_user J tok (\<lambda>cu. release_agreement_escrow cfg sweep digest cu key i))"
| refund: "escrow_request (as_user J tok (\<lambda>cu. refund_agreement_escrow cfg sweep digest cu key i))"
| add_condition: "escrow_request (as_user J tok (\<lambda>cu. add_condition_route addr cu i d))"
| approve: "escrow_request (as_user J tok (\<lambda>cu. approve_condition_route cu c))"
| reject: "escrow_request (as_user J tok (\<lambda>cu. reject_condition_route cu c re))"
| raise_dispute: "escrow_request (as_user J tok (\<lambda>cu. raise_dispute_route cl mb cu i rq))"
| review: "escrow_request (as_user J tok (\<lambda>cu. mark_under_review cu k))"

inductive request :: "unit handler \<Rightarrow> bool" where
  reading: "reading_request m \<Longrightarrow> request m"
| account: "account_request m \<Longrightarrow> request m"
| money: "money_request m \<Longrightarrow> request m"
| escrow: "escrow_request m \<Longrightarrow> request m"
| settle: "request (as_user J tok (\<lambda>cu. resolve_dispute cu k rv))"
| list_mine: "request (as_user J tok get_all_user_agreements_route)"

lemma user_id_from_ws_reading [stays_intros]: "stays reading (get_user_id_from_ws J wtok)"
  unfolding get_user_id_from_ws_def by (intro stays_intros) (auto intro: stays_intros split: exn.split)

lemma agreement_message_reading [stays_intros]: "stays reading (agreement_message u em a)"
  unfolding agreement_message_def by (intro stays_intros)

lemma agreement_messages_reading [stays_intros]:
  "stays reading (map_m (agreement_message u em) as)"
  by (induction as) (simp_all only: map_m.simps, (intro stays_intros, assumption?)+)

lemma agreement_websocket_reading [stays_intros]: "stays reading (agreement_websocket J wtok asked)"
  unfolding agreement_websocket_def by (intro stays_intros)

lemma as_user_stays:
  assumes "frame R" and "stays R (get_active_user J tok)" and "\<And>cu. stays R (route cu)"
  shows "stays R (as_user J tok route)"
  using assms by (simp add: as_user_def answered_def frame.stays_bnd frame.stays_return)

lemma answered_stays:
  assumes "frame R" and "stays R m"
  shows "stays R (answered m)"
  using assms by (simp add: answered_def frame.stays_bnd frame.stays_return)

lemma as_user_keeps: "(\<And>cu. keeps (both I) (route cu)) \<Longrightarrow> keeps (both I) (as_user J tok route)"
  unfolding as_user_def answered_def by (intro keeps_intros)

lemma answered_keeps: "keeps (both I) m \<Longrightarrow> keeps (both I) (answered m)"
  unfolding answered_def by (intro keeps_intros)

lemma reading_request_reads: "reading_request m \<Longrightarrow> stays reading m"
  by (induction rule: reading_request.induct)
    (intro as_user_stays answered_stays reading.frame_axioms stays_intros)+

section \<open>Invariants every route keeps\<close>

locale kept =
  fixes I :: "db \<Rightarrow> bool"
  assumes user_stable: "stable I user_t"
    and participant_stable: "stable I participant_t"
    and invitation_stable: "stable I invitation_t"
    and condition_stable: "stable I condition_t"
    and asset_file_stable: "stable I asset_file_t"
    and asset_stable: "stable I asset_t"
    and paystack_stable: "stable I paystack_t"
    and bank_account_stable: "stable I bank_account_t"
    and webhook_event_stable: "stable I webhook_event_t"
    and idempotency_key_stable: "stable I idempotency_key_t"
    and notification_stable: "stable I notification_t"
    and refresh_token_stable: "stable I refresh_token_t"
begin

lemmas harmless =
  user_stable participant_stable invitation_stable condition_stable asset_file_stable asset_stable
  paystack_stable bank_account_stable webhook_event_stable idempotency_key_stable
  notification_stable refresh_token_stable

lemma accounts_keep:
  "keeps (both I) (register_user_route cu d)" "keeps (both I) (login_route cfg J F idt)"
  "keeps (both I) (invite_register_route cfg J F idt ivt)"
  "keeps (both I) (refresh_token_route cfg J tok)" "keeps (both I) (logout_route J tok)"
  "keeps (both I) (update_user_route cu u req)" "keeps (both I) (dev_promote_admin em)"
  "keeps (both I) (mark_notifications_read cu ns)" "keeps (both I) (mark_all_notifications_read cu)"
  unfolding dev_promote_admin_def mark_notifications_read_def mark_all_notifications_read_def
  by (intro keeps_intros harmless)+

lemma payout_accounts_keep:
  "keeps (both I) (list_banks_route net cu)" "keeps (both I) (resolve_account_route net cu r)"
  "keeps (both I) (get_bank_accounts_route cu)" "keeps (both I) (add_bank_account_route net cu p)"
  "keeps (both I) (set_default_bank_account_route cu i)"
  "keeps (both I) (remove_bank_account_route cu i)"
  by (intro keeps_intros harmless)+

lemma files_keep:
  "keeps (both I) (add_asset_to_condition_route cl mb cu c fs)"
  "keeps (both I) (approve_asset_route cu c i)" "keeps (both I) (reject_asset_route cu c i)"
  "keeps (both I) (add_dispute_evidence cl mb cu k fs)"
  unfolding approve_asset_route_def reject_asset_route_def by (intro keeps_intros harmless)+

lemma account_request_keeps: "account_request m \<Longrightarrow> keeps (both I) m"
  by (induction rule: account_request.induct)
    (intro as_user_keeps answered_keeps accounts_keep payout_accounts_keep files_keep keeps_intros)+

end

locale kept_everywhere = kept +
  assumes agreement_stable: "stable I agreement_t"
    and dispute_stable: "stable I dispute_t"
    and ensure_wallet_kept: "keeps (both I) (ensure_wallet u)"
    and apply_entry_kept: "keeps (both I) (apply_entry l ref st g)"
    and apply_transfer_kept: "keeps (both I) (apply_transfer gi debit credit)"
    and mark_entry_status_kept: "keeps (both I) (mark_entry_status ref st2 pat do_commit)"
begin

lemmas ledger_kept = ensure_wallet_kept apply_entry_kept apply_transfer_kept mark_entry_status_kept

lemma escrow_legs_keep:
  "keeps (both I) (lock_escrow u am ag pa cp de)" "keeps (both I) (release_escrow ag du bu am de)"
  "keeps (both I) (refund_escrow ag du am de)"
  unfolding lock_escrow_def release_escrow_def refund_escrow_def Let_def
  by (intro keeps_intros ledger_kept)+

lemma payouts_keep:
  "keeps (both I) (request_withdrawal cfg net u wd)"
  "keeps (both I) (get_withdrawal net u ref)"
  "keeps (both I) (request_wallet_fund cfg net u em wc)"
proof -
  have reverse: "keeps (both I) (reverse_withdrawal ref u am re)" for ref u am re
    unfolding reverse_withdrawal_def by (intro keeps_intros harmless ledger_kept)
  have send: "keeps (both I) (send_withdrawal net u wd ac ref p res)" for u ac ref p res
    unfolding send_withdrawal_def Let_def by (intro keeps_intros harmless reverse ledger_kept)
  show "keeps (both I) (request_withdrawal cfg net u wd)"
    unfolding request_withdrawal_def resolve_bank_account_def generate_withdrawal_reference_def
    by (intro keeps_intros harmless send ledger_kept)
  show "keeps (both I) (get_withdrawal net u ref)"
    unfolding get_withdrawal_def reconcile_pending_withdrawal_def Let_def
    by (intro keeps_intros harmless reverse ledger_kept)
  show "keeps (both I) (request_wallet_fund cfg net u em wc)"
    unfolding request_wallet_fund_def generate_fund_reference_def Let_def
    by (intro keeps_intros harmless ledger_kept)
qed

lemma wallet_keep:
  "keeps (both I) (fund_wallet cfg net sweep digest cu key wc)"
  "keeps (both I) (withdraw cfg net sweep digest cu key wd)"
  "keeps (both I) (get_wallet cu)" "keeps (both I) (get_withdrawal_route net cu ref)"
  unfolding fund_wallet_def withdraw_def required_key_def get_wallet_def get_balance_def
    get_withdrawal_route_def
  by (intro keeps_intros harmless payouts_keep ledger_kept)+

lemma webhook_keep: "keeps (both I) (paystack_webhook cfg net sha256 hmac parse raw sig)"
proof -
  have "keeps (both I) h" if "event_handler net ty d = Some h" for ty d h
  proof -
    have "keeps (both I) (handle_charge_success net d)" "keeps (both I) (handle_transfer_success net d)"
      "keeps (both I) (handle_transfer_reversal d fs)" for fs
      unfolding handle_charge_success_def credit_charge_def handle_transfer_success_def
        handle_transfer_reversal_def verified_def Let_def
      by (intro keeps_intros harmless ledger_kept)+
    then show ?thesis using that by (auto simp: event_handler_def split: if_splits)
  qed
  then show ?thesis
    by (intro paystack_webhook_keeps handle_event_keeps harmless)
qed

lemma movements_keep:
  "keeps (both I) (perform_escrow_release i)" "keeps (both I) (perform_escrow_refund i)"
  "keeps (both I) (release_escrow_if_ready i)" "keeps (both I) (settle_dispute i oc)"
  "keeps (both I) (fund_agreement cfg sweep digest cu key i)"
  "keeps (both I) (release_agreement_escrow cfg sweep digest cu key i)"
  "keeps (both I) (refund_agreement_escrow cfg sweep digest cu key i)"
proof -
  have p: "keeps (both I) (perform_escrow_release i)" "keeps (both I) (perform_escrow_refund i)" for i
    unfolding perform_escrow_release_def perform_escrow_refund_def
    by (intro keeps_intros harmless agreement_stable escrow_legs_keep)+
  show "keeps (both I) (perform_escrow_release i)" "keeps (both I) (perform_escrow_refund i)"
    by (rule p)+
  show "keeps (both I) (release_escrow_if_ready i)" "keeps (both I) (settle_dispute i oc)"
    unfolding release_escrow_if_ready_def settle_dispute_def Let_def
    by (intro keeps_intros harmless p)+
  show "keeps (both I) (fund_agreement cfg sweep digest cu key i)"
    "keeps (both I) (release_agreement_escrow cfg sweep digest cu key i)"
    "keeps (both I) (refund_agreement_escrow cfg sweep digest cu key i)"
    unfolding fund_agreement_def release_agreement_escrow_def refund_agreement_escrow_def
      fund_operation_def release_operation_def refund_operation_def required_key_def
    by (intro keeps_intros harmless p escrow_legs_keep)+
qed

lemma agreements_keep:
  "keeps (both I) (create_agreement_route cfg web addr cu body)"
  "keeps (both I) (accept_agreement_route cfg sweep digest cu key i)"
  "keeps (both I) (reject_agreement_route cfg sweep digest cu key i)"
  "keeps (both I) (cancel_agreement_route cu i)"
  "keeps (both I) (get_all_user_agreements_route cu)"
  "keeps (both I) (add_condition_route addr' cu i d)"
  "keeps (both I) (approve_condition_route cu c)" "keeps (both I) (reject_condition_route cu c re)"
  unfolding get_all_user_agreements_route_def
  by (intro agreement_routes_keep condition_routes_keep agreement_service_keeps harmless
      agreement_stable movements_keep)+

lemma disputes_keep:
  "keeps (both I) (raise_dispute_route cloud mb cu i body)"
  "keeps (both I) (mark_under_review cu k)" "keeps (both I) (resolve_dispute cu k rv)"
proof -
  show "keeps (both I) (raise_dispute_route cloud mb cu i body)"
    unfolding raise_dispute_route_def raise_dispute_def open_dispute_def new_dispute_def
      add_evidence_rows_def new_asset_file_def new_asset_def save_dispute_def
      set_agreement_status_def except_other_than_def Let_def
    by (intro keeps_intros harmless agreement_stable dispute_stable)
  show "keeps (both I) (mark_under_review cu k)" "keeps (both I) (resolve_dispute cu k rv)"
    unfolding mark_under_review_def admin_mark_under_review_def resolve_dispute_def
      admin_resolve_dispute_def save_dispute_def set_agreement_status_def Let_def
    by (intro keeps_intros harmless agreement_stable dispute_stable movements_keep)+
qed

lemma watch_keeps: "keeps (both I) (wallet_websocket J wtok)"
proof -
  have "keeps (both I) (get_wallet_state_for_ws u)" for u
    unfolding get_wallet_state_for_ws_def by (intro keeps_intros ledger_kept)
  then show ?thesis
    unfolding wallet_websocket_def
    by (intro keeps_intros user_id_from_ws_reading [THEN reading_keeps])
qed

lemma request_keeps: "request m \<Longrightarrow> keeps (both I) m"
proof (induction rule: request.induct)
  case (reading m)
  then show ?case by (intro reading_keeps reading_request_reads)
next
  case (account m)
  then show ?case by (rule account_request_keeps)
next
  case (money m)
  then show ?case
    by (induction rule: money_request.induct)
      (intro as_user_keeps answered_keeps wallet_keep webhook_keep watch_keeps)+
next
  case (escrow m)
  then show ?case
    by (induction rule: escrow_request.induct)
      (intro as_user_keeps agreements_keep movements_keep disputes_keep)+
qed (intro as_user_keeps agreements_keep disputes_keep)+

end

interpretation schema: kept_everywhere db_ok
  by unfold_locales (intro keeps_intros repo_keeps_stable)+

interpretation books: kept_everywhere ledger_inv
  by unfold_locales (intro keeps_intros)+

interpretation escrow: kept escrow_inv
  by unfold_locales (intro keeps_intros)+

section \<open>What every request does to the ledger and the escrows\<close>

lemma watch_append_only [stays_intros]: "stays append_only (wallet_websocket J wtok)"
  unfolding wallet_websocket_def get_wallet_state_for_ws_def
  by (intro stays_intros user_id_from_ws_reading [THEN reading_append_only])

lemma account_request_append_only: "account_request m \<Longrightarrow> stays append_only m"
  by (induction rule: account_request.induct)
    (intro as_user_stays answered_stays append_only.frame_axioms stays_intros)+

lemma request_append_only: "request m \<Longrightarrow> stays append_only m"
proof (induction rule: request.induct)
  case (reading m)
  then show ?case by (intro reading_append_only reading_request_reads)
next
  case (account m)
  then show ?case by (rule account_request_append_only)
next
  case (money m)
  then show ?case
    by (induction rule: money_request.induct)
      (intro as_user_stays answered_stays append_only.frame_axioms stays_intros)+
next
  case (escrow m)
  then show ?case
    by (induction rule: escrow_request.induct)
      (intro as_user_stays answered_stays append_only.frame_axioms stays_intros)+
qed (intro as_user_stays answered_stays append_only.frame_axioms stays_intros)+

end
