(* ===== verification/Realtime.thy ===== *)
theory Realtime
  imports Main
begin

text \<open>
  \<^verbatim>\<open>src/app/realtime/manager.py\<close>: the registry of open wallet sockets.  A socket is a value of the type
  \<open>'w\<close>; the parameter \<open>pick\<close> is \<^verbatim>\<open>next(iter(sockets))\<close>, some element of a non-empty set; \<open>dead\<close> says
  which sockets fail to send.  \<^verbatim>\<open>connect\<close> awaits the closing of its victim between taking it out and
  adding the new socket, so it is two steps with other events possible in between.
\<close>

type_synonym ('u, 'w) registry = "'u \<Rightarrow> 'w set option"

definition max_sockets_per_user :: nat where
  "max_sockets_per_user = 5"

definition pick_law :: "('w set \<Rightarrow> 'w) \<Rightarrow> bool" where
  "pick_law pick \<longleftrightarrow> (\<forall>S. finite S \<and> S \<noteq> {} \<longrightarrow> pick S \<in> S)"

definition sockets_of :: "'u \<Rightarrow> ('u, 'w) registry \<Rightarrow> 'w set" where
  "sockets_of u m = (case m u of None \<Rightarrow> {} | Some S \<Rightarrow> S)"

text \<open>Up to the first \<^verbatim>\<open>await\<close> after the lookup: the registry and the victim that is being closed.\<close>

definition connect_begin ::
  "('w set \<Rightarrow> 'w) \<Rightarrow> 'u \<Rightarrow> ('u, 'w) registry \<Rightarrow> ('u, 'w) registry \<times> 'w option"
where
  "connect_begin pick u m =
     (let S = sockets_of u m in
      if max_sockets_per_user \<le> card S then (m(u \<mapsto> S - {pick S}), Some (pick S))
      else (m(u \<mapsto> S), None))"

definition connect_end :: "'u \<Rightarrow> 'w \<Rightarrow> ('u, 'w) registry \<Rightarrow> ('u, 'w) registry" where
  "connect_end u w m = m(u \<mapsto> insert w (sockets_of u m))"

definition connect :: "('w set \<Rightarrow> 'w) \<Rightarrow> 'u \<Rightarrow> 'w \<Rightarrow> ('u, 'w) registry \<Rightarrow> ('u, 'w) registry" where
  "connect pick u w m = connect_end u w (fst (connect_begin pick u m))"

definition disconnect :: "'u \<Rightarrow> 'w \<Rightarrow> ('u, 'w) registry \<Rightarrow> ('u, 'w) registry" where
  "disconnect u w m =
     (case m u of
        None \<Rightarrow> m
      | Some S \<Rightarrow>
          if S = {} then m
          else if S - {w} = {} then m(u := None)
          else m(u \<mapsto> S - {w}))"

fun prune :: "('w \<Rightarrow> bool) \<Rightarrow> 'u \<Rightarrow> 'w list \<Rightarrow> ('u, 'w) registry \<Rightarrow> ('u, 'w) registry" where
  "prune dead u [] m = m"
| "prune dead u (w # ws) m = prune dead u ws (if dead w then disconnect u w m else m)"

text \<open>\<^verbatim>\<open>list(sockets)\<close> is a list of the set's elements; it returns who got the message.\<close>

definition send_to_user ::
  "('w \<Rightarrow> bool) \<Rightarrow> ('w set \<Rightarrow> 'w list) \<Rightarrow> 'u \<Rightarrow> ('u, 'w) registry \<Rightarrow> 'w list \<times> ('u, 'w) registry"
where
  "send_to_user dead listed u m =
     (let ws = listed (sockets_of u m) in (filter (\<lambda>w. \<not> dead w) ws, prune dead u ws m))"

section \<open>Events\<close>

text \<open>
  What the process does with the registry while no \<^verbatim>\<open>connect\<close> is interrupted, from the empty one.
\<close>

inductive served :: "('w set \<Rightarrow> 'w) \<Rightarrow> ('u, 'w) registry \<Rightarrow> bool" for pick where
  start: "served pick (\<lambda>_. None)"
| connected: "served pick m \<Longrightarrow> served pick (connect pick u w m)"
| disconnected: "served pick m \<Longrightarrow> served pick (disconnect u w m)"
| pushed: "served pick m \<Longrightarrow> served pick (snd (send_to_user dead listed u m))"

definition capped :: "('u, 'w) registry \<Rightarrow> bool" where
  "capped m \<longleftrightarrow> (\<forall>u. finite (sockets_of u m) \<and> card (sockets_of u m) \<le> max_sockets_per_user)"

lemma sockets_of_upd [simp]: "sockets_of u (m(v \<mapsto> S)) = (if u = v then S else sockets_of u m)"
  "sockets_of u (m(v := None)) = (if u = v then {} else sockets_of u m)"
  by (simp_all add: sockets_of_def)

lemma sockets_of_disconnect:
  "sockets_of v (disconnect u w m) = (if v = u then sockets_of u m - {w} else sockets_of v m)"
  by (auto simp: disconnect_def sockets_of_def split: option.split)

lemma capped_disconnect: "capped m \<Longrightarrow> capped (disconnect u w m)"
  unfolding capped_def sockets_of_disconnect
  by (auto intro: order_trans [OF card_Diff1_le])

lemma capped_prune: "capped m \<Longrightarrow> capped (prune dead u ws m)"
  by (induction ws arbitrary: m) (simp_all add: capped_disconnect)

lemma capped_connect:
  assumes "pick_law pick" and "capped m"
  shows "capped (connect pick u w m)"
proof -
  let ?S = "sockets_of u m"
  from assms(2) have f: "finite ?S" and c: "card ?S \<le> max_sockets_per_user"
    by (auto simp: capped_def)
  have "card (insert w (?S - {pick ?S})) \<le> max_sockets_per_user"
    if "max_sockets_per_user \<le> card ?S"
  proof -
    from that have "?S \<noteq> {}" by (auto simp: max_sockets_per_user_def)
    with assms(1) f have "pick ?S \<in> ?S" by (simp add: pick_law_def)
    then have "card (?S - {pick ?S}) < card ?S" by (rule card_Diff1_less [OF f])
    then show ?thesis using c f by (simp add: card_insert_if)
  qed
  moreover have "card (insert w ?S) \<le> max_sockets_per_user"
    if "\<not> max_sockets_per_user \<le> card ?S"
    using that f by (simp add: card_insert_if)
  ultimately show ?thesis using assms(2) f
    by (auto simp: capped_def connect_def connect_end_def connect_begin_def Let_def)
qed

text \<open>As long as no connection is interrupted while it closes its victim, no user ever has more
  than five open sockets in the registry, whichever socket is closed.\<close>

theorem sockets_capped:
  assumes "pick_law pick" and "served pick m"
  shows "finite (sockets_of u m) \<and> card (sockets_of u m) \<le> max_sockets_per_user"
proof -
  from assms(2) have "capped m"
  proof induction
    case start
    show ?case by (simp add: capped_def sockets_of_def)
  next
    case connected
    with assms(1) show ?case by (blast intro: capped_connect)
  qed (simp_all add: capped_disconnect capped_prune send_to_user_def Let_def)
  then show ?thesis by (simp add: capped_def)
qed

theorem sockets_capped_witness:
  "\<exists>m. served Min m \<and> sockets_of ''ua'' m = {1 :: nat, 2} \<and>
     card (sockets_of ''ua'' m) \<le> max_sockets_per_user"
proof -
  let ?pick = "Min :: nat set \<Rightarrow> nat"
  let ?m = "connect ?pick ''ua'' 2 (connect ?pick ''ua'' 1 (\<lambda>_. None))"
  have p: "pick_law ?pick" by (simp add: pick_law_def)
  have s: "served ?pick ?m" by (intro served.intros)
  have "sockets_of ''ua'' ?m = {1, 2}"
    by (auto simp: connect_def connect_end_def connect_begin_def max_sockets_per_user_def
        sockets_of_def Let_def)
  with s sockets_capped [OF p s, of "''ua''"] show ?thesis by blast
qed

text \<open>
  With two connections of one user interleaved the cap does not hold: while the first closes its
  victim the second finds four sockets, closes none, and both add theirs.
\<close>

lemma interleaved_connects_exceed_cap:
  assumes "pick_law pick"
  shows "\<exists>m1 m2. connect_begin pick u [u \<mapsto> {1..5 :: nat}] = m1 \<and> connect_begin pick u (fst m1) = m2 \<and>
     card (sockets_of u (connect_end u 6 (connect_end u 7 (fst m2)))) = 6"
proof -
  let ?S = "{1..5 :: nat}"
  have p: "pick ?S \<in> ?S" using assms unfolding pick_law_def by (rule allE [of _ ?S]) simp
  have c: "card (?S - {pick ?S}) = 4" using p by simp
  have "connect_begin pick u [u \<mapsto> ?S] = ([u \<mapsto> ?S - {pick ?S}], Some (pick ?S))"
    by (simp add: connect_begin_def Let_def max_sockets_per_user_def sockets_of_def)
  moreover have "connect_begin pick u [u \<mapsto> ?S - {pick ?S}] = ([u \<mapsto> ?S - {pick ?S}], None)"
    using c by (simp add: connect_begin_def Let_def max_sockets_per_user_def sockets_of_def)
  moreover have "card (insert 6 (insert 7 (?S - {pick ?S}))) = 6"
    using c by (simp add: card_insert_if)
  ultimately show ?thesis by (simp add: connect_end_def)
qed

end
