(* ===== verification/System.thy ===== *)
theory System
  imports Api Realtime
begin

text \<open>
  The running service: any number of requests, one after the other, each in a session of its own
  (\<^verbatim>\<open>get_session\<close>: closed, so rolled back, at its end), with time passing and cache entries expiring
  in between.  An invariant of the database that every request keeps holds in every reachable state;
  a relation between two states that every request keeps holds between any two of them in order.
\<close>

section \<open>Reachable states\<close>

inductive step :: "session \<Rightarrow> session \<Rightarrow> bool" where
  serve: "request m \<Longrightarrow> step s (snd (with_session m s))"
| time_passes: "0 \<le> dt \<Longrightarrow> step s (s\<lparr>clock := clock s + dt\<rparr>)"
| expire: "step s (snd (evict k s))"

inductive run :: "session \<Rightarrow> session \<Rightarrow> bool" where
  here: "run s s"
| further: "run s t \<Longrightarrow> step t u \<Longrightarrow> run s u"

text \<open>The service starts on an empty database; the cache may hold anything.\<close>

definition fresh :: "session \<Rightarrow> bool" where
  "fresh s \<longleftrightarrow> committed s = empty_db"

definition reachable :: "session \<Rightarrow> bool" where
  "reachable t \<longleftrightarrow> (\<exists>s. fresh s \<and> run s t)"

inductive_cases stepE: "step s t"

section \<open>Invariants of the committed database\<close>

lemma run_with_session:
  "\<exists>u. snd (with_session m s) = snd (rollback u) \<and> u = snd (m (snd (rollback s)))"
  by (simp add: with_session_def bnd_def try_except_def split: prod.split sum.split)

lemma with_session_committed:
  "committed (snd (with_session m s)) = committed (snd (m (s\<lparr>work := committed s\<rparr>)))"
  "work (snd (with_session m s)) = committed (snd (with_session m s))"
  by (simp_all add: with_session_def bnd_def try_except_def split: prod.split sum.split)

locale served =
  fixes I :: "db \<Rightarrow> bool"
  assumes at_start: "I empty_db"
    and request_leads: "request m \<Longrightarrow> leads (both I) m (during I anything)"
begin

lemma step_invariant: "step s t \<Longrightarrow> I (committed s) \<Longrightarrow> I (committed t)"
proof (induction rule: step.induct)
  case (serve m s)
  have "both I (s\<lparr>work := committed s\<rparr>)" using serve.prems by (simp add: both_def)
  then have "during I anything (snd (m (s\<lparr>work := committed s\<rparr>)))"
    using request_leads [OF serve.hyps] by (simp add: leads_def)
  then show ?case by (simp add: with_session_committed during_def)
qed (simp_all add: evict_def)

lemma run_invariant: "run s t \<Longrightarrow> I (committed s) \<Longrightarrow> I (committed t)"
  by (induction rule: run.induct) (simp_all add: step_invariant)

lemma reachable_invariant: "reachable s \<Longrightarrow> I (committed s)"
  using at_start by (auto simp: reachable_def fresh_def intro: run_invariant)

end


text \<open>
  Listing the agreements merges cached rows into the session, so what the open transaction holds
  may be anything; but nothing of it is committed.
\<close>

definition uncommitted :: "session \<Rightarrow> session \<Rightarrow> bool" where
  "uncommitted s t \<longleftrightarrow> committed t = committed s"

interpretation uncommitted: frame uncommitted
  by unfold_locales (auto simp: uncommitted_def)

lemmas [stays_intros] = uncommitted.stays_rules

lemma reading_uncommitted: "stays reading m \<Longrightarrow> stays uncommitted m"
  by (simp add: stays_def reading_def uncommitted_def)

lemma merge_uncommitted [stays_intros]: "stays uncommitted (merge_agreement a)"
  by (auto simp: stays_def uncommitted_def merge_agreement_def get_attached_def step insert_row_eq
      save_row_eq split: option.split)

lemma list_mine_uncommitted: "stays uncommitted (as_user J tok get_all_user_agreements_route)"
proof -
  note reads = reading_session [THEN reading_uncommitted] agreements_reading [THEN reading_uncommitted]
    agreement_service_reading [THEN reading_uncommitted]
  have "stays uncommitted (get_all_user_agreements_route cu)" for cu
    unfolding get_all_user_agreements_route_def get_all_user_agreements_def get_user_agreements_def Let_def
    by (intro stays_intros reads)
  then show ?thesis
    by (intro as_user_stays uncommitted.frame_axioms tokens_reading [THEN reading_uncommitted])
qed

lemma money_request_keeps_escrow: "money_request m \<Longrightarrow> keeps (both escrow_inv) m"
proof (induction rule: money_request.induct)
  case (see_wallet J tok)
  show ?case by (intro as_user_keeps) (unfold get_wallet_def, intro keeps_intros)
next
  case (watch_wallet J wtok)
  show ?case
    unfolding wallet_websocket_def
    by (intro answered_keeps keeps_intros user_id_from_ws_reading [THEN reading_keeps])
next
  case (see_withdrawal J tok net ref)
  show ?case unfolding get_withdrawal_route_def by (intro as_user_keeps keeps_intros)
qed (intro as_user_keeps answered_keeps keeps_intros)+

lemma request_leads_escrow: "request m \<Longrightarrow> leads (both escrow_inv) m (during escrow_inv anything)"
proof (induction rule: request.induct)
  case (reading m)
  then show ?case by (intro leads_keeps reading_keeps reading_request_reads during_anything)
next
  case (account m)
  then show ?case by (intro leads_keeps escrow.account_request_keeps during_anything)
next
  case (money m)
  then show ?case by (intro leads_keeps money_request_keeps_escrow during_anything)
next
  case (escrow m)
  then have "keeps (both escrow_inv) m"
    by (induction rule: escrow_request.induct) (intro as_user_keeps escrow_routes_keep keeps_intros)+
  then show ?case by (intro leads_keeps during_anything)
next
  case (settle J tok k rv)
  show ?case
    unfolding as_user_def answered_def bnd_assoc
    by (intro leads_then [where m = "get_active_user J tok"] leads_done [OF resolve_route_leads]
        during_anything during_intros keeps_intros)
next
  case (list_mine J tok)
  show ?case
    using list_mine_uncommitted [of J tok]
    by (auto simp: leads_def stays_def uncommitted_def during_def both_def anything_def)
qed

lemma keeps_leads: "keeps (both I) m \<Longrightarrow> leads (both I) m (during I anything)"
  by (rule leads_keeps) (simp_all add: during_def both_def anything_def)

lemma db_ok_empty: "db_ok empty_db"
  by (simp add: db_ok_def empty_db_def constraint_defs)

interpretation schema: served db_ok
  by unfold_locales (intro db_ok_empty keeps_leads schema.request_keeps; assumption?)+

interpretation books: served ledger_inv
  by unfold_locales (intro ledger_inv_empty keeps_leads books.request_keeps; assumption?)+

interpretation escrow: served escrow_inv
  by unfold_locales (intro escrow_inv_empty request_leads_escrow; assumption?)+

text \<open>Everything at once: the schema, the books and the escrows.\<close>

definition sound :: "db \<Rightarrow> bool" where
  "sound d \<longleftrightarrow> db_ok d \<and> ledger_inv d \<and> escrow_inv d"

lemma sound_empty: "sound empty_db"
  by (simp add: sound_def db_ok_empty ledger_inv_empty escrow_inv_empty)

lemma sound_run: "run s t \<Longrightarrow> sound (committed s) \<Longrightarrow> sound (committed t)"
  by (simp add: sound_def schema.run_invariant books.run_invariant escrow.run_invariant)

lemma step_past:
  assumes "step s t"
  shows "prefix (past (committed s)) (past (committed t))"
  using assms
proof (cases rule: step.cases)
  case (serve m)
  then have "append_only (s\<lparr>work := committed s\<rparr>) (snd (m (s\<lparr>work := committed s\<rparr>)))"
    using request_append_only [of m] by (simp add: stays_def)
  then show ?thesis by (simp add: serve append_only_def with_session_committed)
qed (simp_all add: evict_def)

lemma run_past: "run s t \<Longrightarrow> prefix (past (committed s)) (past (committed t))"
  by (induction rule: run.induct) (auto dest!: step_past intro: prefix_order.order_trans)

lemma booked_past: "booked ref d \<longleftrightarrow> ref \<in> t_reference ` set (past d)"
  by (simp add: booked_def past_def core_def image_image)

lemma booked_run: "run s t \<Longrightarrow> booked ref (committed s) \<Longrightarrow> booked ref (committed t)"
  using set_mono_prefix [OF run_past] by (auto simp: booked_past)

section \<open>A settled escrow\<close>

text \<open>The escrow of \<open>escrow_db\<close> after its release: Alice's 40.00 are Bob's.\<close>

definition released_out :: transaction where
  "released_out = ledger_entry wallet_alice
     ((leg ''ua'' ESCROW_RELEASE_OUT 40)\<lparr>l_agreement_id := Some ''ag''\<rparr>) ''esc_rel_ag:out''
     ENTRY_COMPLETED (Some ''esc_rel_ag'') ''t4'' 6"

definition released_in :: transaction where
  "released_in = ledger_entry wallet_bob
     ((leg ''ub'' ESCROW_RELEASE_IN 40)\<lparr>l_agreement_id := Some ''ag''\<rparr>) ''esc_rel_ag:in''
     ENTRY_COMPLETED (Some ''esc_rel_ag'') ''t5'' 6"

definition released_db :: db where
  "released_db =
     escrow_db\<lparr>wallets := [moved wallet_alice released_out, moved wallet_bob released_in],
       transactions := [entry_1, entry_2, entry_3, released_out, released_in],
       agreements := [sample_agreement\<lparr>a_status := COMPLETED\<rparr>],
       conditions := [sample_condition\<lparr>c_status := COND_APPROVED\<rparr>]\<rparr>"

lemma released_sound: "sound released_db"
  unfolding sound_def
proof (intro conjI)
  show "db_ok released_db"
    by (simp add: db_ok_def constraint_defs released_db_def released_out_def released_in_def
        escrow_defs sample_defs money_defs leg_def)
  show "ledger_inv released_db"
    by (simp add: ledger_inv_def released_db_def released_out_def released_in_def escrow_defs
        sample_defs money_defs wallet_constraints_def transaction_constraints_def balance_ok_def
        entry_wf_def snapshots_ok_def leg_def quantize2_def round_half_even_def Let_def)
  have out: "release_ref i = ''esc_rel_ag:out'' \<longleftrightarrow> i = ''ag''" for i
  proof -
    have "release_ref i = ''esc_rel_ag:out'' \<longleftrightarrow> i @ '':out'' = ''ag'' @ '':out''"
      by (simp add: release_ref_def esc_rel_group_def)
    then show ?thesis by (simp only: append_same_eq)
  qed
  have "last (release_ref i) \<noteq> last ''esc_rel_ag:in''" for i by (simp add: release_ref_def)
  then have into: "release_ref i \<noteq> ''esc_rel_ag:in''" for i by metis
  have refs: "booked ref released_db \<longleftrightarrow>
      ref \<in> {''dep_1'', ''esc_lock_ag'', ''dep_2'', ''esc_rel_ag:out'', ''esc_rel_ag:in''}" for ref
    by (auto simp: booked_def released_db_def released_out_def released_in_def money_defs)
  have rel: "booked (release_ref i) released_db \<longleftrightarrow> i = ''ag''" for i
    using out [of i] into [of i] by (auto simp: refs) (simp_all add: release_ref_def esc_rel_group_def)
  have ref: "\<not> booked (esc_ref_ref i) released_db" for i
    by (simp add: refs esc_ref_ref_def)
  have st: "status_of i released_db = (if i = ''ag'' then Some COMPLETED else None)" for i
    by (auto simp: status_of_def agreement_of_def released_db_def sample_agreement_def)
  have "funded ''ag'' released_db"
    by (simp add: funded_def released_db_def money_defs leg_def ledger_entry_def Let_def split_beta)
  moreover have "disputes released_db = []" by (simp add: released_db_def escrow_defs sample_defs)
  ultimately show "escrow_inv released_db"
    by (simp add: escrow_inv_def settled_ok_def frozen_ok_def rel ref st disputed_def
        dispute_constraints_def)
qed

definition released_session :: session where
  "released_session = sample_session released_db"

text \<open>Somebody opens an invitation link a minute later.\<close>

definition later_session :: session where
  "later_session =
     snd (with_session (answered (lookup_invitation ''t'')) (released_session\<lparr>clock := 1060\<rparr>))"

lemma later_run: "run released_session later_session"
proof -
  have "run released_session (released_session\<lparr>clock := clock released_session + 60\<rparr>)"
    by (rule run.further [OF run.here step.time_passes]) simp
  moreover have "clock released_session + 60 = 1060"
    by (simp add: released_session_def sample_session_def)
  ultimately have "run released_session (released_session\<lparr>clock := 1060\<rparr>)" by simp
  then show ?thesis
    unfolding later_session_def
    by (rule run.further [OF _ step.serve]) (intro request.reading reading_request.read_invite)
qed

lemma released_session_sound: "sound (committed released_session)"
  using released_sound by (simp add: released_session_def sample_session_def)

lemma released_booked: "booked (release_ref ''ag'') (committed released_session)"
  by (simp add: booked_def released_session_def sample_session_def released_db_def released_out_def
      release_ref_def esc_rel_group_def)

section \<open>Properties\<close>



text \<open>C1: In every reachable state the books balance: each wallet holds exactly what its recorded
  movements add up to, available and in escrow, neither is negative, and the total of all wallets is
  the net of the recorded flows.\<close>

theorem books_always_balance:
  assumes "fresh s \<or> ledger_inv (committed s)" and "run s t" and "w \<in> set (wallets (committed t))"
  shows "w_available_balance w = ledger_sum t_available_delta (w_id w) (transactions (committed t)) \<and>
     w_escrow_balance w = ledger_sum t_escrow_delta (w_id w) (transactions (committed t)) \<and>
     0 \<le> w_available_balance w \<and> 0 \<le> w_escrow_balance w \<and>
     total_balance (committed t) =
       sum_list (map (\<lambda>t. t_amount t * of_int (net_effect (t_type t))) (transactions (committed t)))"
proof -
  from assms(1,2) ledger_inv_empty have "ledger_inv (committed t)"
    by (auto simp: fresh_def intro: books.run_invariant)
  with assms(3) show ?thesis
    using total_balance_net_flow [of "committed t"]
    by (auto simp: ledger_inv_def list_all_iff balance_ok_def wallet_constraints_def)
qed

theorem books_always_balance_witness:
  "w_available_balance (moved wallet_bob released_in) =
     ledger_sum t_available_delta ''wb'' (transactions released_db) \<and>
   0 \<le> w_available_balance (moved wallet_bob released_in)"
proof -
  have c: "committed released_session = released_db"
    by (simp add: released_session_def sample_session_def)
  have "ledger_inv (committed released_session)" "w_id (moved wallet_bob released_in) = ''wb''"
    "moved wallet_bob released_in \<in> set (wallets (committed released_session))"
    using released_session_sound
    by (simp_all add: sound_def c, simp_all add: released_db_def money_defs)
  then show ?thesis using books_always_balance [OF _ run.here] by (metis c)
qed

text \<open>C2: An escrow is settled at most once and in one direction: whenever the ledger has the payout of
  an agreement, the agreement was funded and is completed, and there is no refund of it; whenever it
  has the refund, the agreement was funded, is refunded, and there is no payout.\<close>

theorem escrow_settled_once:
  assumes "fresh s \<or> escrow_inv (committed s)" and "run s t"
  shows "(booked (release_ref i) (committed t) \<longrightarrow>
       funded i (committed t) \<and> status_of i (committed t) = Some COMPLETED \<and>
       \<not> booked (esc_ref_ref i) (committed t)) \<and>
     (booked (esc_ref_ref i) (committed t) \<longrightarrow>
       funded i (committed t) \<and> status_of i (committed t) = Some REFUNDED \<and>
       \<not> booked (release_ref i) (committed t))"
proof -
  from assms escrow_inv_empty have "escrow_inv (committed t)"
    by (auto simp: fresh_def intro: escrow.run_invariant)
  then show ?thesis by (auto simp: escrow_inv_def settled_ok_def)
qed

theorem escrow_settled_once_witness:
  "booked (release_ref ''ag'') (committed later_session) \<and>
   status_of ''ag'' (committed later_session) = Some COMPLETED \<and>
   \<not> booked (esc_ref_ref ''ag'') (committed later_session)"
proof -
  have "escrow_inv (committed released_session)" using released_session_sound by (simp add: sound_def)
  with escrow_settled_once [OF _ later_run, of "''ag''"] booked_run [OF later_run released_booked]
  show ?thesis by blast
qed

text \<open>C3: The past is final: from a state of the service to any later one, no committed ledger entry is
  lost, reordered or changed but for its status and processing time, and an agreement that was paid
  out or refunded stays so for ever and is never settled the other way.\<close>

theorem settlement_is_final:
  assumes "escrow_inv (committed s)" and "run s t"
  shows "prefix (past (committed s)) (past (committed t)) \<and>
     (booked (release_ref i) (committed s) \<longrightarrow>
        status_of i (committed t) = Some COMPLETED \<and> \<not> booked (esc_ref_ref i) (committed t)) \<and>
     (booked (esc_ref_ref i) (committed s) \<longrightarrow>
        status_of i (committed t) = Some REFUNDED \<and> \<not> booked (release_ref i) (committed t))"
proof -
  from assms have "escrow_inv (committed t)" by (auto intro: escrow.run_invariant)
  then show ?thesis
    using run_past [OF assms(2)] booked_run [OF assms(2)]
    by (auto simp: escrow_inv_def settled_ok_def)
qed

theorem settlement_is_final_witness:
  "prefix (past (committed released_session)) (past (committed later_session)) \<and>
   status_of ''ag'' (committed later_session) = Some COMPLETED \<and>
   \<not> booked (esc_ref_ref ''ag'') (committed later_session)"
proof -
  have "escrow_inv (committed released_session)" using released_session_sound by (simp add: sound_def)
  from settlement_is_final [OF this later_run, of "''ag''"] released_booked show ?thesis by blast
qed

section \<open>Disputes\<close>

definition sample_dispute :: dispute where
  "sample_dispute =
     \<lparr>d_id = ''di'', d_agreement_id = ''ag'', d_raised_by_user_id = ''ua'',
      d_against_user_id = ''ub'', d_category = QUALITY_ISSUES,
      d_description = ''Not as described'', d_status = OPEN, d_agreement_status_before = ACTIVE,
      d_resolution_outcome = None, d_resolution_notes = None, d_resolved_by_user_id = None,
      d_resolved_at = None, d_created_at = 5, d_updated_at = 5\<rparr>"

definition disputed_db :: db where
  "disputed_db =
     escrow_db\<lparr>agreements := [sample_agreement\<lparr>a_status := DISPUTED\<rparr>], disputes := [sample_dispute]\<rparr>"

definition disputed_session :: session where
  "disputed_session = sample_session disputed_db"

lemma disputed_facts:
  "status_of i disputed_db = (if i = ''ag'' then Some DISPUTED else None)"
  "disputed i disputed_db \<longleftrightarrow> i = ''ag''"
  by (auto simp: status_of_def agreement_of_def disputed_def live_dispute_def dispute_active_def
      disputed_db_def escrow_defs sample_dispute_def)

lemma disputed_db_escrow: "escrow_inv disputed_db"
proof -
  have refs: "booked ref disputed_db \<longleftrightarrow> ref \<in> {''dep_1'', ''esc_lock_ag'', ''dep_2''}" for ref
    by (auto simp: booked_def disputed_db_def escrow_defs sample_defs money_defs)
  then have "\<not> booked (release_ref i) disputed_db" "\<not> booked (esc_ref_ref i) disputed_db" for i
    by (simp_all add: release_ref_def esc_rel_group_def esc_ref_ref_def)
  moreover have "dispute_constraints (disputes disputed_db)"
    "\<forall>x \<in> set (disputes disputed_db). d_agreement_status_before x = ACTIVE"
    by (simp_all add: disputed_db_def sample_dispute_def dispute_constraints_def)
  ultimately show ?thesis
    by (simp add: escrow_inv_def settled_ok_def frozen_ok_def disputed_facts)
qed



text \<open>C7: No path pays out a disputed escrow: the shared release fails before it touches anything, so
  the route and the automatic release after the last approval both leave the database as it is.\<close>

theorem release_refused_while_disputed:
  assumes "escrow_inv (work s)" and "disputed i (work s)"
  shows "\<exists>e t. perform_escrow_release i s = (Inl e, t) \<and> work t = work s \<and> committed t = committed s"
proof -
  from assms have st: "status_of i (work s) \<in> {Some DISPUTED, Some REFUNDED}"
    by (simp add: escrow_inv_def frozen_ok_def)
  obtain c t where c: "get_escrow_context i s = (c, t)" by fastforce
  have same: "work t = work s" "committed t = committed s"
    using staysD [OF agreement_service_reading(11) c] by (simp_all add: reading_def)
  show ?thesis
  proof (cases c)
    case (Inl e)
    with c same show ?thesis by (simp add: perform_escrow_release_def prepare_release_def bnd_assoc bnd_Inl)
  next
    case (Inr x)
    from st obtain a where "agreement_of i (work s) = Some a" "a_status a \<in> {DISPUTED, REFUNDED}"
      by (auto simp: status_of_def)
    then have "get_attached i t = (Inr (Some a), t)" by (simp add: get_attached_def agreement_of_def same)
    then have "prepare_release i s = (Inl BadRequestError, t)"
      using \<open>a_status a \<in> _\<close> c unfolding Inr
      by (auto simp: prepare_release_def bnd_def)
    with same show ?thesis by (simp add: perform_escrow_release_def bnd_Inl)
  qed
qed

theorem release_refused_while_disputed_witness:
  "\<exists>e t. perform_escrow_release ''ag'' disputed_session = (Inl e, t) \<and>
     work t = disputed_db \<and> committed t = disputed_db"
proof -
  have w: "work disputed_session = disputed_db" "committed disputed_session = disputed_db"
    by (simp_all add: disputed_session_def sample_session_def)
  show ?thesis
    using release_refused_while_disputed [of disputed_session "''ag''"] disputed_db_escrow
    by (simp add: w disputed_facts)
qed

section \<open>The escrow as a machine of four phases\<close>

text \<open>
  The abstract specification of one escrow: money comes in once, and leaves once, to one of the two
  sides.
\<close>

datatype escrow_phase = Unfunded | Held | PaidOut | Returned

inductive escrow_move :: "escrow_phase \<Rightarrow> escrow_phase \<Rightarrow> bool" where
  fund: "escrow_move Unfunded Held"
| pay: "escrow_move Held PaidOut"
| give_back: "escrow_move Held Returned"

definition phase_of :: "id \<Rightarrow> db \<Rightarrow> escrow_phase" where
  "phase_of i d =
     (if booked (release_ref i) d then PaidOut
      else if booked (esc_ref_ref i) d then Returned
      else if funded i d then Held
      else Unfunded)"

lemma funded_run: "run s t \<Longrightarrow> funded i (committed s) \<Longrightarrow> funded i (committed t)"
proof -
  assume r: "run s t" "funded i (committed s)"
  have f: "funded i d \<longleftrightarrow> (Some i, ESCROW_LOCK) \<in> (\<lambda>t. (t_agreement_id t, t_type t)) ` set (past d)" for d
    by (simp add: funded_def past_def core_def image_image)
  show "funded i (committed t)" using set_mono_prefix [OF run_past [OF r(1)]] r(2) by (auto simp: f)
qed

lemma moves:
  "escrow_move\<^sup>*\<^sup>* p p" "escrow_move\<^sup>*\<^sup>* Unfunded p" "escrow_move\<^sup>*\<^sup>* Held PaidOut" "escrow_move\<^sup>*\<^sup>* Held Returned"
proof -
  show h: "escrow_move\<^sup>*\<^sup>* Held PaidOut" "escrow_move\<^sup>*\<^sup>* Held Returned"
    by (auto intro: escrow_move.intros)
  have "escrow_move\<^sup>*\<^sup>* Unfunded Held" by (auto intro: escrow_move.intros)
  with h show "escrow_move\<^sup>*\<^sup>* Unfunded p" by (cases p) (auto intro: rtranclp_trans)
qed simp



end
