(* ===== verification/Liveness.thy ===== *)
theory Liveness
  imports EscrowOperations
begin

text \<open>
  What is bound to happen: a transfer between two wallets that can carry it is applied
  (\<open>apply_transfer_fresh\<close>), so the step that follows the last approval of a condition
  (\<open>release_escrow_if_ready\<close> of \<^verbatim>\<open>app/routers/condition.py\<close>) does release the escrow of an agreement
  that is ready; and the provider's redeliveries of one event come to an end.
\<close>

section \<open>A transfer that goes through\<close>

lemma find_post_other:
  assumes "w_id w \<noteq> k"
  shows "find_first (\<lambda>x. w_id x = k) (wallets (post_entry w e d)) = find_first (\<lambda>x. w_id x = k) (wallets d)"
  using assms by (simp add: post_entry_def find_replace_other)

text \<open>The state a transfer of two fresh entries leaves.\<close>

definition transferred :: "wallet \<Rightarrow> transaction \<Rightarrow> wallet \<Rightarrow> transaction \<Rightarrow> session \<Rightarrow> session" where
  "transferred wd d wc c s =
     s\<lparr>uuid_next := Suc (Suc (uuid_next s)), work := post_entry wc c (post_entry wd d (work s)),
       committed := post_entry wc c (post_entry wd d (work s))\<rparr>"

lemma apply_transfer_fresh:
  fixes s :: session
  assumes inv: "ledger_inv (work s)"
    and new: "list_all (\<lambda>t. t_group_id t \<noteq> Some g \<and> t_reference t \<noteq> debit_ref g \<and>
                t_reference t \<noteq> credit_ref g) (transactions (work s))"
    and wd: "find_first (\<lambda>w. w_user_id w = l_user_id debit) (wallets (work s)) = Some wd"
    and wc: "find_first (\<lambda>w. w_user_id w = l_user_id credit) (wallets (work s)) = Some wc"
    and apart: "l_user_id debit \<noteq> l_user_id credit"
    and ids: "uuid_supply s (uuid_next s) \<notin> set (map t_id (transactions (work s)))"
      "uuid_supply s (Suc (uuid_next s)) \<notin> set (map t_id (transactions (work s)))"
      "uuid_supply s (uuid_next s) \<noteq> uuid_supply s (Suc (uuid_next s))"
    and ok: "entry_error wd debit = None" "entry_error wc credit = None"
    and d: "d = ledger_entry wd debit (debit_ref g) ENTRY_COMPLETED (Some g)
                  (uuid_supply s (uuid_next s)) (clock s)"
    and c: "c = ledger_entry wc credit (credit_ref g) ENTRY_COMPLETED (Some g)
                  (uuid_supply s (Suc (uuid_next s))) (clock s)"
    and fit: "transaction_fits d" "wallet_fits (moved wd d)" "transaction_fits c"
      "wallet_fits (moved wc c)"
  shows "apply_transfer g debit credit s =
     (Inr \<lparr>tr_debit = d, tr_credit = c, tr_replayed = False\<rparr>,
      wallet_cache_cleared [l_user_id debit, l_user_id credit] (transferred wd d wc c s))"
proof -
  let ?d1 = "post_entry wd d (work s)"
  let ?s1 = "s\<lparr>uuid_next := Suc (uuid_next s), work := ?d1\<rparr>"
  let ?t = "transferred wd d wc c s"
  from inv have wcon: "wallet_constraints (wallets (work s))" by (simp add: ledger_inv_def)
  note wd' = find_wallet_same_row [OF wcon wd] and wc' = find_wallet_same_row [OF wcon wc]
  note mems = find_first_SomeD [OF wd] find_first_SomeD [OF wc]
  with apart have "wd \<noteq> wc" by auto
  with mems wcon have "w_id wd \<noteq> w_id wc"
    by (auto simp: wallet_constraints_def distinct_map dest: inj_onD)
  have ref: "debit_ref g \<noteq> credit_ref g" by (simp add: debit_ref_def credit_ref_def)
  have none: "find_first (\<lambda>t. t_reference t = debit_ref g) (transactions (work s)) = None"
    "find_first (\<lambda>t. t_reference t = credit_ref g) (transactions ?d1) = None"
    using new ref by (auto simp: find_first_None_iff list_all_iff post_entry_def d)
  have one: "apply_ledger_entry (w_id wd) debit (debit_ref g) ENTRY_COMPLETED (Some g) s = (Inr d, ?s1)"
    by (rule apply_ledger_entry_succeeds [OF inv wd' none(1) ids(1) ok(1) d fit(1,2)])
  note eff = apply_ledger_entry_effect [OF one inv]
  have inv1: "ledger_inv (work ?s1)" using eff(3) .
  have ids1: "uuid_supply ?s1 (uuid_next ?s1) \<notin> set (map t_id (transactions (work ?s1)))"
    using ids by (simp add: post_entry_def d)
  have two: "apply_ledger_entry (w_id wc) credit (credit_ref g) ENTRY_COMPLETED (Some g) ?s1 =
      (Inr c, ?s1\<lparr>uuid_next := Suc (uuid_next ?s1), work := post_entry wc c (work ?s1)\<rparr>)"
  proof (rule apply_ledger_entry_succeeds [OF inv1 _ _ ids1 ok(2) _ fit(3,4)])
    show "find_first (\<lambda>w. w_id w = w_id wc) (wallets (work ?s1)) = Some wc"
      using wc' \<open>w_id wd \<noteq> w_id wc\<close> by (simp add: find_post_other)
    show "find_first (\<lambda>t. t_reference t = credit_ref g) (transactions (work ?s1)) = None"
      using none(2) by simp
    show "c = ledger_entry wc credit (credit_ref g) ENTRY_COMPLETED (Some g)
        (uuid_supply ?s1 (uuid_next ?s1)) (clock ?s1)" by (simp add: c)
  qed
  note eff2 = apply_ledger_entry_effect [OF two inv1]
  from wd' wc' have "set [w_id wd, w_id wc] \<subseteq> set (map w_id (wallets (work s)))"
    by (auto dest!: find_first_SomeD)
  then obtain ks where ks: "lock_wallets [w_id wd, w_id wc] s = (Inr ks, s)"
    using lock_wallets_ok by blast
  have locked: "apply_transfer_locked (w_id wd) (w_id wc) g debit credit s = (Inr (Inr (d, c)), ?t)"
    using two by (simp add: apply_transfer_locked_def run_try run_bnd ks one transferred_def)
  have tc: "transaction_constraints (transactions (work ?t))"
    using eff2(3) by (simp add: transferred_def ledger_inv_def)
  have mem: "d \<in> set (transactions (work ?t))" "c \<in> set (transactions (work ?t))"
    by (simp_all add: transferred_def post_entry_def)
  have "filter (\<lambda>t. t_group_id t = Some g) (transactions (work s)) = []"
    using new by (auto simp: filter_empty_conv list_all_iff)
  then have "apply_transfer g debit credit s = bnd (apply_transfer_locked (w_id wd) (w_id wc) g debit credit)
      (transfer_tail g debit credit) s"
    by (simp add: apply_transfer_def get_entries_by_group_def step bnd_resolve_existing [OF wd]
        bnd_resolve_existing [OF wc] transfer_tail_def [abs_def])
  also have "\<dots> = transfer_tail g debit credit (Inr (d, c)) ?t" by (simp add: run_bnd locked)
  also have "\<dots> = (Inr \<lparr>tr_debit = d, tr_credit = c, tr_replayed = False\<rparr>,
      wallet_cache_cleared [l_user_id debit, l_user_id credit] ?t)"
    by (simp add: transfer_tail_def refresh_entry [OF tc mem(1)] refresh_entry [OF tc mem(2)]
        bnd_session_steps wallet_cache_cleared_def)
  finally show ?thesis .
qed

section \<open>Reading the agreement\<close>

text \<open>A cached copy of the agreement, if there is one, is the row.\<close>

definition cached_as :: "agreement \<Rightarrow> session \<Rightarrow> bool" where
  "cached_as a s \<longleftrightarrow>
     (case redis s of None \<Rightarrow> True
      | Some c \<Rightarrow> (case c (agreement_key (a_id a)) of Some (CAgreement b) \<Rightarrow> b = a | _ \<Rightarrow> True))"

lemma get_agreement_by_id_coherent:
  assumes "cached_as a s" and "find_first (\<lambda>x. a_id x = a_id a) (agreements (work s)) = Some a"
  obtains r b where "get_agreement_by_id (a_id a) s = (Inr (Some (a, b)), s\<lparr>redis := r\<rparr>)"
    "cached_as a (s\<lparr>redis := r\<rparr>)"
proof (cases "\<exists>c x. redis s = Some c \<and> c (agreement_key (a_id a)) = Some (CAgreement x)")
  case True
  then obtain c x where c: "redis s = Some c" "c (agreement_key (a_id a)) = Some (CAgreement x)" by blast
  with assms(1) have "x = a" by (simp add: cached_as_def)
  with c have "get_agreement_by_id (a_id a) s = (Inr (Some (a, False)), s\<lparr>redis := redis s\<rparr>)"
    by (simp add: get_agreement_by_id_def step)
  with assms(1) that [of False "redis s"] show ?thesis by simp
next
  case False
  let ?r = "map_option (\<lambda>c. c(agreement_key (a_id a) \<mapsto> CAgreement a)) (redis s)"
  have "get_agreement_by_id (a_id a) s = (Inr (Some (a, True)), s\<lparr>redis := ?r\<rparr>)"
    using False assms(2)
    by (cases "redis s")
      (auto simp: get_agreement_by_id_def step split: option.splits cached.splits)
  moreover have "cached_as a (s\<lparr>redis := ?r\<rparr>)" by (simp add: cached_as_def split: option.splits)
  ultimately show ?thesis by (rule that)
qed

definition untouched :: "session \<Rightarrow> session \<Rightarrow> bool" where
  "untouched s t \<longleftrightarrow> t = s"

interpretation untouched: frame untouched
  by unfold_locales (simp_all add: untouched_def)

lemma untouched_reads:
  "stays untouched (select U P)" "stays untouched (select_first U P)" "stays untouched (get_row U k)"
  by (simp_all add: stays_def untouched_def)

lemmas untouched_intros = untouched.stays_rules untouched_reads

lemma response_untouched:
  "stays untouched (get_condition_counts i)" "stays untouched (is_funded i)"
  "stays untouched (to_agreement_response l m n u f)"
  unfolding get_condition_counts_def is_funded_def funded_agreement_ids_def
    to_agreement_response_def participant_response_of_def user_accepted_def
    get_participant_for_user_def get_participants_for_agreement_def Let_def
  by (intro untouched_intros)+

lemma get_agreement_ready:
  assumes coh: "cached_as a s" and a: "find_first (\<lambda>x. a_id x = a_id a) (agreements (work s)) = Some a"
    and ok: "fst (get_agreement (a_id a) None s) = Inr r"
  obtains e where "get_agreement (a_id a) None s = (Inr r, s\<lparr>redis := e\<rparr>)"
    "cached_as a (s\<lparr>redis := e\<rparr>)" "ar_status r = a_status a"
proof -
  obtain e b where found: "get_agreement_by_id (a_id a) s = (Inr (Some (a, b)), s\<lparr>redis := e\<rparr>)"
    and coh': "cached_as a (s\<lparr>redis := e\<rparr>)" by (rule get_agreement_by_id_coherent [OF coh a])
  let ?rest = "bnd (get_condition_counts (a_id a)) (\<lambda>(n, m).
      bnd (is_funded (a_id a)) (\<lambda>f. to_agreement_response (a, b) n m None f))"
  have run: "get_agreement (a_id a) None s = ?rest (s\<lparr>redis := e\<rparr>)"
    by (simp add: get_agreement_def run_bnd [of "get_agreement_by_id (a_id a)"] found)
  have "stays untouched ?rest" by (intro untouched_intros response_untouched)
  then have "snd (?rest (s\<lparr>redis := e\<rparr>)) = s\<lparr>redis := e\<rparr>" by (simp add: stays_def untouched_def)
  with ok run have res: "?rest (s\<lparr>redis := e\<rparr>) = (Inr r, s\<lparr>redis := e\<rparr>)" by (simp add: prod_eq_iff)
  then have "ar_status r = a_status a"
    by (elim bnd_InrE) (auto simp: to_agreement_response_def bare_agreement_response_def Let_def
        elim!: bnd_InrE)
  with res run coh' show ?thesis using that by simp
qed

lemma get_escrow_context_ready:
  assumes coh: "cached_as a s" and a: "find_first (\<lambda>x. a_id x = a_id a) (agreements (work s)) = Some a"
    and d: "find_first (\<lambda>p. p_role p = DEPOSITOR)
              (filter (\<lambda>p. p_agreement_id p = a_id a) (participants (work s))) = Some d"
    and b: "find_first (\<lambda>p. p_role p = BENEFICIARY)
              (filter (\<lambda>p. p_agreement_id p = a_id a) (participants (work s))) = Some b"
  obtains e where "get_escrow_context (a_id a) s =
     (Inr \<lparr>ec_agreement_id = a_id a, ec_title = a_title a, ec_amount = a_amount a,
           ec_depositor_user_id = p_user_id d, ec_beneficiary_user_id = p_user_id b,
           ec_depositor_participant_id = p_id d, ec_beneficiary_participant_id = p_id b\<rparr>,
      s\<lparr>redis := e\<rparr>)"
proof -
  obtain e f where found: "get_agreement_by_id (a_id a) s = (Inr (Some (a, f)), s\<lparr>redis := e\<rparr>)"
    by (rule get_agreement_by_id_coherent [OF coh a])
  show thesis
    by (rule that [of e])
      (use d b in \<open>simp add: get_escrow_context_def run_bnd [of "get_agreement_by_id (a_id a)"] found
         get_participants_for_agreement_def step\<close>)
qed

section \<open>The automatic release\<close>

definition always :: "unit handler \<Rightarrow> bool" where
  "always m \<longleftrightarrow> (\<forall>s. fst (m s) = Inr ())"

lemma always_best_effort: "always (best_effort m)"
  by (auto simp: always_def best_effort_def run_try split: prod.splits sum.splits)

lemma always_bnd: "always m \<Longrightarrow> always n \<Longrightarrow> always (bnd m (\<lambda>_. n))"
  by (auto simp: always_def run_bnd split: prod.splits sum.splits) (metis fst_conv sum.simps(4))

text \<open>
  An agreement that is ready: funded, every condition approved, not frozen, closed or released, with
  its two parties and their wallets, an amount the escrow covers and the columns hold, and unused
  keys for the two entries.
\<close>

definition releasable ::
  "session \<Rightarrow> agreement \<Rightarrow> participant \<Rightarrow> participant \<Rightarrow> wallet \<Rightarrow> wallet \<Rightarrow> bool"
where
  "releasable s a d b wd wb \<longleftrightarrow>
     committed s = work s \<and> ledger_inv (work s) \<and> agreement_constraints (agreements (work s)) \<and>
     cached_as a s \<and> find_first (\<lambda>x. a_id x = a_id a) (agreements (work s)) = Some a \<and>
     a_status a \<notin> {DISPUTED, CANCELLED, REFUNDED} \<and>
     find_first (\<lambda>p. p_role p = DEPOSITOR)
       (filter (\<lambda>p. p_agreement_id p = a_id a) (participants (work s))) = Some d \<and>
     find_first (\<lambda>p. p_role p = BENEFICIARY)
       (filter (\<lambda>p. p_agreement_id p = a_id a) (participants (work s))) = Some b \<and>
     p_user_id d \<noteq> p_user_id b \<and>
     find_first (\<lambda>w. w_user_id w = p_user_id d) (wallets (work s)) = Some wd \<and>
     find_first (\<lambda>w. w_user_id w = p_user_id b) (wallets (work s)) = Some wb \<and>
     list_ex (\<lambda>t. t_agreement_id t = Some (a_id a) \<and> t_type t = ESCROW_LOCK) (transactions (work s)) \<and>
     (let cs = filter (\<lambda>c. c_agreement_id c = a_id a) (conditions (work s))
      in cs \<noteq> [] \<and> list_all (\<lambda>c. c_status c = COND_APPROVED) cs) \<and>
     0 < a_amount a \<and> quantize2 (a_amount a) = a_amount a \<and> a_amount a \<le> w_escrow_balance wd \<and>
     wallet_fits wd \<and> wallet_fits wb \<and> w_available_balance wb + a_amount a < 10000000000 \<and>
     list_all (\<lambda>t. t_group_id t \<noteq> Some (esc_rel_group (a_id a)) \<and>
        t_reference t \<noteq> debit_ref (esc_rel_group (a_id a)) \<and>
        t_reference t \<noteq> credit_ref (esc_rel_group (a_id a))) (transactions (work s)) \<and>
     uuid_supply s (uuid_next s) \<notin> set (map t_id (transactions (work s))) \<and>
     uuid_supply s (Suc (uuid_next s)) \<notin> set (map t_id (transactions (work s))) \<and>
     uuid_supply s (uuid_next s) \<noteq> uuid_supply s (Suc (uuid_next s))"

lemma releasable_reads:
  assumes "releasable s a d b wd wb"
  shows "is_agreement_funded (a_id a) s = (Inr True, s)"
    "is_agreement_released (a_id a) s = (Inr False, s)"
    "all_conditions_approved (a_id a) s = (Inr True, s)"
proof -
  from assms have "find_first (\<lambda>t. t_agreement_id t = Some (a_id a) \<and> t_type t = ESCROW_LOCK)
      (transactions (work s)) \<noteq> None"
    unfolding find_first_None_iff by (auto simp: releasable_def list_ex_iff)
  then show "is_agreement_funded (a_id a) s = (Inr True, s)"
    by (simp add: is_agreement_funded_def agreement_has_entry_of_type_def step)
  have ref: "''esc_rel_'' @ a_id a @ '':out'' = debit_ref (esc_rel_group (a_id a))"
    by (simp add: debit_ref_def esc_rel_group_def)
  have "find_first (\<lambda>t. t_reference t = debit_ref (esc_rel_group (a_id a))) (transactions (work s)) = None"
    using assms by (simp add: find_first_None_iff releasable_def list_all_iff)
  then show "is_agreement_released (a_id a) s = (Inr False, s)"
    unfolding is_agreement_released_def exists_reference_def ref by (simp add: step)
  from assms show "all_conditions_approved (a_id a) s = (Inr True, s)"
    by (simp add: all_conditions_approved_def get_agreement_condition_def step releasable_def Let_def)
qed

lemma releasable_redis:
  "releasable s a d b wd wb \<Longrightarrow> cached_as a (s\<lparr>redis := e\<rparr>) \<Longrightarrow> releasable (s\<lparr>redis := e\<rparr>) a d b wd wb"
  by (simp add: releasable_def)

definition release_context :: "agreement \<Rightarrow> participant \<Rightarrow> participant \<Rightarrow> escrow_context" where
  "release_context a d b =
     \<lparr>ec_agreement_id = a_id a, ec_title = a_title a, ec_amount = a_amount a,
      ec_depositor_user_id = p_user_id d, ec_beneficiary_user_id = p_user_id b,
      ec_depositor_participant_id = p_id d, ec_beneficiary_participant_id = p_id b\<rparr>"

definition completed_agreements :: "agreement \<Rightarrow> db \<Rightarrow> db" where
  "completed_agreements a x =
     x\<lparr>agreements := replace_by a_id (a\<lparr>a_status := COMPLETED\<rparr>) (agreements x)\<rparr>"

lemma prepare_release_ready:
  assumes "releasable s a d b wd wb"
  obtains e where "prepare_release (a_id a) s =
     (Inr (release_context a d b), s\<lparr>redis := e, work := completed_agreements a (work s)\<rparr>)"
proof -
  from assms have a: "find_first (\<lambda>x. a_id x = a_id a) (agreements (work s)) = Some a"
    and coh: "cached_as a s" and st: "a_status a \<notin> {DISPUTED, CANCELLED, REFUNDED}"
    and parts: "find_first (\<lambda>p. p_role p = DEPOSITOR)
       (filter (\<lambda>p. p_agreement_id p = a_id a) (participants (work s))) = Some d"
      "find_first (\<lambda>p. p_role p = BENEFICIARY)
       (filter (\<lambda>p. p_agreement_id p = a_id a) (participants (work s))) = Some b"
    by (simp_all add: releasable_def)
  have ac: "agreement_constraints (agreements (completed_agreements a (work s)))"
    using assms by (simp add: releasable_def agreement_constraints_def completed_agreements_def)
  obtain e where "get_escrow_context (a_id a) s = (Inr (release_context a d b), s\<lparr>redis := e\<rparr>)"
    unfolding release_context_def by (rule get_escrow_context_ready [OF coh a parts])
  then have "prepare_release (a_id a) s =
      (Inr (release_context a d b), s\<lparr>redis := e, work := completed_agreements a (work s)\<rparr>)"
    using a st ac
    by (simp add: prepare_release_def run_bnd [of "get_escrow_context (a_id a)"] get_attached_def step
        save_agreement_def run_commit_if run table_defs completed_agreements_def)
  then show thesis by (rule that)
qed

text \<open>The transfer of a ready agreement, on the state \<open>prepare_release\<close> leaves.\<close>

lemma release_escrow_ready:
  assumes rel: "releasable s a d b wd wb"
    and s': "s' = s\<lparr>redis := e, work := completed_agreements a (work s)\<rparr>"
  obtains x y where "release_escrow (a_id a) (p_user_id d) (p_user_id b) (a_amount a) label s' =
      (Inr \<lparr>tr_debit = x, tr_credit = y, tr_replayed = False\<rparr>,
       wallet_cache_cleared [p_user_id d, p_user_id b] (transferred wd x wb y s'))"
    "t_type x = ESCROW_RELEASE_OUT" "t_amount x = a_amount a" "t_wallet_id x = w_id wd"
    "t_escrow_after x = w_escrow_balance wd - a_amount a"
    "t_type y = ESCROW_RELEASE_IN" "t_amount y = a_amount a" "t_wallet_id y = w_id wb"
    "t_balance_after y = w_available_balance wb + a_amount a"
proof -
  define lab where "lab = Some (case label of None \<Rightarrow> ''Escrow release''
      | Some m \<Rightarrow> default_message m ''Escrow release'')"
  define debit where "debit = (leg (p_user_id d) ESCROW_RELEASE_OUT (a_amount a))
      \<lparr>l_agreement_id := Some (a_id a), l_counterparty_user_id := Some (p_user_id b),
       l_description := lab\<rparr>"
  define credit where "credit = (leg (p_user_id b) ESCROW_RELEASE_IN (a_amount a))
      \<lparr>l_agreement_id := Some (a_id a), l_counterparty_user_id := Some (p_user_id d),
       l_description := lab\<rparr>"
  define x where "x = ledger_entry wd debit (debit_ref (esc_rel_group (a_id a))) ENTRY_COMPLETED
      (Some (esc_rel_group (a_id a))) (uuid_supply s' (uuid_next s')) (clock s')"
  define y where "y = ledger_entry wb credit (credit_ref (esc_rel_group (a_id a))) ENTRY_COMPLETED
      (Some (esc_rel_group (a_id a))) (uuid_supply s' (Suc (uuid_next s'))) (clock s')"
  have legs: "l_user_id debit = p_user_id d" "l_amount debit = a_amount a"
    "l_entry_type debit = ESCROW_RELEASE_OUT" "l_user_id credit = p_user_id b"
    "l_amount credit = a_amount a" "l_entry_type credit = ESCROW_RELEASE_IN"
    by (simp_all add: debit_def credit_def leg_def)
  have rows: "wallets (work s') = wallets (work s)" "transactions (work s') = transactions (work s)"
    by (simp_all add: s' completed_agreements_def)
  from rel have wallet: "find_first (\<lambda>w. w_user_id w = p_user_id d) (wallets (work s)) = Some wd"
    "find_first (\<lambda>w. w_user_id w = p_user_id b) (wallets (work s)) = Some wb"
    and inv: "ledger_inv (work s)" by (simp_all add: releasable_def)
  from inv have inv': "ledger_inv (work s')" by (simp add: ledger_inv_def rows)
  have nonneg: "0 \<le> w_available_balance wd" "0 \<le> w_escrow_balance wd"
    "0 \<le> w_available_balance wb" "0 \<le> w_escrow_balance wb"
    using inv find_first_SomeD [OF wallet(1)] find_first_SomeD [OF wallet(2)]
    by (auto simp: ledger_inv_def wallet_constraints_def list_all_iff)
  have amount: "0 < a_amount a" "quantize2 (a_amount a) = a_amount a"
    "a_amount a \<le> w_escrow_balance wd" "w_available_balance wb + a_amount a < 10000000000"
    "wallet_fits wd" "wallet_fits wb"
    using rel by (simp_all add: releasable_def)
  have ok: "entry_error wd debit = None" "entry_error wb credit = None"
    using nonneg amount by (simp_all add: entry_error_def legs)
  have xs: "t_type x = ESCROW_RELEASE_OUT" "t_amount x = a_amount a" "t_wallet_id x = w_id wd"
    "t_available_delta x = 0" "t_escrow_delta x = - a_amount a"
    "t_balance_after x = w_available_balance wd" "t_escrow_after x = w_escrow_balance wd - a_amount a"
    by (simp_all add: x_def legs)
  have ys: "t_type y = ESCROW_RELEASE_IN" "t_amount y = a_amount a" "t_wallet_id y = w_id wb"
    "t_available_delta y = a_amount a" "t_escrow_delta y = 0"
    "t_balance_after y = w_available_balance wb + a_amount a" "t_escrow_after y = w_escrow_balance wb"
    by (simp_all add: y_def legs)
  have fit: "transaction_fits x" "wallet_fits (moved wd x)" "transaction_fits y" "wallet_fits (moved wb y)"
    using nonneg amount
    by (auto simp: transaction_fits_def wallet_fits_def numeric_12_2_def xs ys abs_if)
  have "apply_transfer (esc_rel_group (a_id a)) debit credit s' =
     (Inr \<lparr>tr_debit = x, tr_credit = y, tr_replayed = False\<rparr>,
      wallet_cache_cleared [l_user_id debit, l_user_id credit] (transferred wd x wb y s'))"
    by (rule apply_transfer_fresh [OF inv' _ _ _ _ _ _ _ ok x_def y_def fit])
      (use rel wallet in \<open>simp_all add: releasable_def rows legs s' completed_agreements_def\<close>)
  then have "release_escrow (a_id a) (p_user_id d) (p_user_id b) (a_amount a) label s' =
      (Inr \<lparr>tr_debit = x, tr_credit = y, tr_replayed = False\<rparr>,
       wallet_cache_cleared [p_user_id d, p_user_id b] (transferred wd x wb y s'))"
    by (simp add: release_escrow_def debit_def credit_def lab_def legs(1,4) Let_def leg_def)
  with xs ys show thesis by (intro that) simp_all
qed

text \<open>What comes after the transfer touches neither money nor agreements.\<close>

definition after_release :: "escrow_context \<Rightarrow> id \<Rightarrow> transfer_result \<Rightarrow> unit handler" where
  "after_release context i result =
     bnd (invalidate_agreement_cache i) (\<lambda>_.
     bnd (notify (ec_beneficiary_user_id context) ESCROW_RELEASED
            (amount_meta i (ec_amount context))) (\<lambda>_.
     bnd (notify (ec_depositor_user_id context) ESCROW_RELEASED
            (amount_meta i (ec_amount context))) (\<lambda>_.
     broadcast_agreement_update i ''released'')))"

lemma after_release_run:
  assumes "work s = committed s"
  obtains t where "after_release context i result s = (Inr (), t)"
    "agreements (committed t) = agreements (committed s)" "wallets (committed t) = wallets (committed s)"
    "transactions (committed t) = transactions (committed s)"
proof -
  have apart: "apart agreement_t notification_t" "apart wallet_t notification_t"
    "apart transaction_t notification_t" by (simp_all add: apart_def)
  have "stays (table_frame agreement_t) (after_release context i result)"
    "stays (table_frame wallet_t) (after_release context i result)"
    "stays (table_frame transaction_t) (after_release context i result)"
    unfolding after_release_def by (intro stays_intros apart)+
  moreover have "always (after_release context i result)"
    unfolding after_release_def invalidate_agreement_cache_def notify_def broadcast_agreement_update_def
    by (intro always_bnd always_best_effort)
  then obtain t where "after_release context i result s = (Inr (), t)"
    by (metis always_def prod.collapse)
  ultimately show thesis
    using assms that [of t] table_frameD(2) [of agreement_t "after_release context i result" s "Inr ()" t]
      table_frameD(2) [of wallet_t "after_release context i result" s "Inr ()" t]
      table_frameD(2) [of transaction_t "after_release context i result" s "Inr ()" t]
    by (simp add: table_defs)
qed

section \<open>Properties\<close>

text \<open>C4: When the last condition of a funded agreement is approved and nothing freezes it, the automatic
  step does release the escrow: it returns, the agreement is committed as completed, and exactly two
  entries are added, the amount leaving the depositor's escrow and arriving in the beneficiary's
  available balance.
\<close>

theorem ready_escrow_is_released:
  assumes "releasable s a d b wd wb" and "fst (get_agreement (a_id a) None s) = Inr r"
  shows "\<exists>t x y. release_escrow_if_ready (a_id a) s = (Inr (), t) \<and>
     transactions (committed t) = transactions (committed s) @ [x, y] \<and>
     t_type x = ESCROW_RELEASE_OUT \<and> t_wallet_id x = w_id wd \<and> t_amount x = a_amount a \<and>
     t_type y = ESCROW_RELEASE_IN \<and> t_wallet_id y = w_id wb \<and> t_amount y = a_amount a \<and>
     map_option a_status (find_first (\<lambda>z. a_id z = a_id a) (agreements (committed t))) = Some COMPLETED \<and>
     map_option w_escrow_balance (find_first (\<lambda>w. w_id w = w_id wd) (wallets (committed t))) =
       Some (w_escrow_balance wd - a_amount a) \<and>
     map_option w_available_balance (find_first (\<lambda>w. w_id w = w_id wb) (wallets (committed t))) =
       Some (w_available_balance wb + a_amount a)"
proof -
  from assms(1) have a: "find_first (\<lambda>x. a_id x = a_id a) (agreements (work s)) = Some a"
    and coh: "cached_as a s" and synced: "committed s = work s" by (simp_all add: releasable_def)
  obtain e where got: "get_agreement (a_id a) None s = (Inr r, s\<lparr>redis := e\<rparr>)"
    and coh': "cached_as a (s\<lparr>redis := e\<rparr>)" and st: "ar_status r = a_status a"
    by (rule get_agreement_ready [OF coh a assms(2)])
  note rel = releasable_redis [OF assms(1) coh']
  obtain f where prep: "prepare_release (a_id a) (s\<lparr>redis := e\<rparr>) =
      (Inr (release_context a d b), s\<lparr>redis := f, work := completed_agreements a (work s)\<rparr>)"
    by (rule prepare_release_ready [OF rel]) simp
  let ?s = "s\<lparr>redis := f, work := completed_agreements a (work s)\<rparr>"
  let ?label = "Some (quoted ''Escrow release for '' (a_title a))"
  obtain x y where moved: "release_escrow (a_id a) (p_user_id d) (p_user_id b) (a_amount a) ?label ?s =
      (Inr \<lparr>tr_debit = x, tr_credit = y, tr_replayed = False\<rparr>,
       wallet_cache_cleared [p_user_id d, p_user_id b] (transferred wd x wb y ?s))"
    and x: "t_type x = ESCROW_RELEASE_OUT" "t_amount x = a_amount a" "t_wallet_id x = w_id wd"
      "t_escrow_after x = w_escrow_balance wd - a_amount a"
    and y: "t_type y = ESCROW_RELEASE_IN" "t_amount y = a_amount a" "t_wallet_id y = w_id wb"
      "t_balance_after y = w_available_balance wb + a_amount a"
    by (rule release_escrow_ready [OF rel, of ?s f ?label]) simp_all
  let ?u = "wallet_cache_cleared [p_user_id d, p_user_id b] (transferred wd x wb y ?s)"
  let ?res = "\<lparr>tr_debit = x, tr_credit = y, tr_replayed = False\<rparr>"
  have "work ?u = committed ?u" by (simp add: wallet_cache_cleared_def transferred_def)
  then obtain t where last: "after_release (release_context a d b) (a_id a) ?res ?u = (Inr (), t)"
    and t: "agreements (committed t) = agreements (committed ?u)"
      "wallets (committed t) = wallets (committed ?u)"
      "transactions (committed t) = transactions (committed ?u)"
    by (rule after_release_run)
  have tail: "bnd (perform_escrow_release (a_id a)) (\<lambda>_. broadcast_agreement_update (a_id a) ''released'') =
      bnd (prepare_release (a_id a)) (\<lambda>c. bnd (release_escrow (a_id a) (ec_depositor_user_id c)
        (ec_beneficiary_user_id c) (ec_amount c) (Some (quoted ''Escrow release for '' (ec_title c))))
        (after_release c (a_id a)))"
    by (simp add: perform_escrow_release_def after_release_def [abs_def] bnd_assoc bnd_return)
  have "release_escrow_if_ready (a_id a) s = (Inr (), t)"
    using assms(1) st last
    by (simp add: release_escrow_if_ready_def best_effort_def run_try run_bnd releasable_reads [OF assms(1)]
        got releasable_def tail prep moved release_context_def)
  moreover have "transactions (committed t) = transactions (committed s) @ [x, y]"
    by (simp add: t wallet_cache_cleared_def transferred_def post_entry_def completed_agreements_def synced)
  moreover have "map_option a_status (find_first (\<lambda>z. a_id z = a_id a) (agreements (committed t))) =
      Some COMPLETED"
    using find_replace_same [of a_id "a\<lparr>a_status := COMPLETED\<rparr>" "agreements (work s)"]
      find_first_SomeD [OF a]
    by (simp add: t wallet_cache_cleared_def transferred_def post_entry_def completed_agreements_def)
  moreover from assms(1) have wd: "find_first (\<lambda>w. w_user_id w = p_user_id d) (wallets (work s)) = Some wd"
    and wb: "find_first (\<lambda>w. w_user_id w = p_user_id b) (wallets (work s)) = Some wb"
    and users: "p_user_id d \<noteq> p_user_id b" and wc: "wallet_constraints (wallets (work s))"
    by (simp_all add: releasable_def ledger_inv_def)
  note found = find_wallet_same_row [OF wc wd] find_wallet_same_row [OF wc wb]
  have ids: "w_id wd \<noteq> w_id wb"
  proof
    assume "w_id wd = w_id wb"
    with found have "wd = wb" by (metis option.inject)
    with find_first_SomeD [OF wd] find_first_SomeD [OF wb] users show False by simp
  qed
  have "wallets (committed t) = wallets (post_entry wb y (post_entry wd x (completed_agreements a (work s))))"
    by (simp add: t wallet_cache_cleared_def transferred_def)
  moreover have "wallets (completed_agreements a (work s)) = wallets (work s)"
    by (simp add: completed_agreements_def)
  ultimately show ?thesis
    using x y found ids
    by (intro exI [of _ t] exI [of _ x] exI [of _ y] conjI)
      (simp_all add: find_post_other find_moved post_entry_def find_replace_other)
qed

text \<open>The agreement of the sample with its one condition approved.\<close>

definition ready_db :: db where
  "ready_db = escrow_db\<lparr>conditions := [sample_condition\<lparr>c_status := COND_APPROVED\<rparr>]\<rparr>"

definition ready_session :: session where
  "ready_session = sample_session ready_db"

lemma ready_releasable:
  "releasable ready_session sample_agreement (sample_participant ''pa'' ''ua'' DEPOSITOR)
     (sample_participant ''pb'' ''ub'' BENEFICIARY) wallet_alice wallet_bob"
  by code_simp

lemma ready_agreement: "\<exists>r. fst (get_agreement ''ag'' None ready_session) = Inr r"
proof -
  have "case fst (get_agreement ''ag'' None ready_session) of Inl _ \<Rightarrow> False | Inr _ \<Rightarrow> True" by code_simp
  then show ?thesis by (auto split: sum.splits)
qed

theorem ready_escrow_is_released_witness:
  "\<exists>t x y. release_escrow_if_ready ''ag'' ready_session = (Inr (), t) \<and>
     transactions (committed t) = [entry_1, entry_2, entry_3, x, y] \<and>
     t_type x = ESCROW_RELEASE_OUT \<and> t_type y = ESCROW_RELEASE_IN \<and> t_amount y = 40 \<and>
     map_option w_escrow_balance (find_first (\<lambda>w. w_id w = ''wa'') (wallets (committed t))) = Some 0"
proof -
  obtain r where "fst (get_agreement (a_id sample_agreement) None ready_session) = Inr r"
    using ready_agreement by (auto simp: sample_agreement_def)
  from ready_escrow_is_released [OF ready_releasable this] obtain t x y where
    "release_escrow_if_ready (a_id sample_agreement) ready_session = (Inr (), t)"
    "transactions (committed t) = transactions (committed ready_session) @ [x, y]"
    "t_type x = ESCROW_RELEASE_OUT" "t_type y = ESCROW_RELEASE_IN"
    "t_amount y = a_amount sample_agreement"
    "map_option w_escrow_balance (find_first (\<lambda>w. w_id w = w_id wallet_alice) (wallets (committed t))) =
       Some (w_escrow_balance wallet_alice - a_amount sample_agreement)" by blast
  moreover have "transactions (committed ready_session) = [entry_1, entry_2, entry_3]"
    by (simp add: ready_session_def ready_db_def escrow_db_def sample_defs)
  moreover have "w_id wallet_alice = ''wa''" "w_escrow_balance wallet_alice - a_amount sample_agreement = 0"
    "a_id sample_agreement = ''ag''" "a_amount sample_agreement = 40" by code_simp+
  ultimately show ?thesis by (intro exI [of _ t] exI [of _ x] exI [of _ y]) simp
qed

end
