(* ===== verification/Redelivery.thy ===== *)
theory Redelivery
  imports Webhook
begin

text \<open>
  The provider sends an event again until it is answered with 200.  \<open>redeliver\<close> is that loop around
  \<^verbatim>\<open>PaystackWebhookService.handle_event\<close>, one session per delivery, the network as it is at each
  one; it is a partial function, and what is shown is that it ends: an event whose handler fails
  every time is driven \<open>max_attempts\<close> times and then acknowledged.
\<close>

section \<open>The stored event\<close>

definition holds_event :: "string \<Rightarrow> (webhook_event \<Rightarrow> bool) \<Rightarrow> session \<Rightarrow> bool" where
  "holds_event k Q s \<longleftrightarrow>
     webhook_event_constraints (webhook_events (work s)) \<and>
     webhook_events (committed s) = webhook_events (work s) \<and>
     (\<exists>e. find_first (\<lambda>e. e_dedupe_key e = k) (webhook_events (work s)) = Some e \<and> Q e)"

lemma holds_event_recorded: "recorded k Q s \<longleftrightarrow> holds_event k (\<lambda>e. Q (e_status e)) s"
  by (simp add: recorded_def holds_event_def)

lemma holds_event_mono: "holds_event k P s \<Longrightarrow> (\<And>e. P e \<Longrightarrow> Q e) \<Longrightarrow> holds_event k Q s"
  by (auto simp: holds_event_def)

lemma holds_event_frame:
  assumes "holds_event k Q s" and "stays (table_frame webhook_event_t) m" and "m s = (r, t)"
  shows "holds_event k Q t"
  using table_frameD [OF assms(2,3)] assms(1) by (auto simp: holds_event_def)

lemma holds_event_rollback: "holds_event k Q s \<Longrightarrow> holds_event k Q (s\<lparr>work := committed s\<rparr>)"
  by (auto simp: holds_event_def)

text \<open>Writing the row back under its own keys.\<close>

lemma save_event_holds:
  assumes "holds_event k (\<lambda>x. x = e) s" and "e_id e' = e_id e" and "e_dedupe_key e' = k"
  shows "\<exists>t. bnd (save_row webhook_event_t e') (\<lambda>_. commit) s = (Inr (), t) \<and>
           holds_event k (\<lambda>x. x = e') t"
proof -
  from assms(1) have e: "find_first (\<lambda>e. e_dedupe_key e = k) (webhook_events (work s)) = Some e"
    and c: "webhook_event_constraints (webhook_events (work s))" by (auto simp: holds_event_def)
  have "webhook_event_constraints (replace_by e_id e' (webhook_events (work s)))"
    by (rule event_constraints_replaced [OF c e assms(2,3)])
  moreover have "find_first (\<lambda>e. e_dedupe_key e = k) (replace_by e_id e' (webhook_events (work s))) = Some e'"
    by (rule find_event_replaced [OF c e assms(2,3)])
  ultimately show ?thesis by (simp add: step holds_event_def)
qed

lemma mark_failed_holds:
  assumes "holds_event k Q s"
  shows "\<exists>t. mark_failed k err s = (Inr (), t) \<and>
     holds_event k (\<lambda>x. e_status x = WH_FAILED \<and> (\<exists>e. Q e \<and> e_attempts x = e_attempts e)) t"
proof -
  let ?s = "s\<lparr>work := committed s\<rparr>"
  from assms obtain e where e: "holds_event k (\<lambda>x. x = e) ?s" "Q e"
    by (auto simp: holds_event_def)
  let ?e = "e\<lparr>e_status := WH_FAILED, e_error := Some err, e_processed_at := Some (clock s)\<rparr>"
  from e(1) have found: "find_first (\<lambda>e. e_dedupe_key e = k) (webhook_events (committed s)) = Some e"
    by (auto simp: holds_event_def)
  then have "e_dedupe_key ?e = k" by (auto dest: find_first_SomeD)
  from save_event_holds [OF e(1) _ this] obtain t where
    t: "bnd (save_row webhook_event_t ?e) (\<lambda>_. commit) ?s = (Inr (), t)" "holds_event k (\<lambda>x. x = ?e) t"
    by auto
  from t(1) found have "mark_failed k err s = (Inr (), t)"
    by (simp add: mark_failed_def get_event_def bnd_session_steps bnd_table_steps)
  moreover from t(2) e(2) have
    "holds_event k (\<lambda>x. e_status x = WH_FAILED \<and> (\<exists>e. Q e \<and> e_attempts x = e_attempts e)) t"
    by (auto elim!: holds_event_mono)
  ultimately show ?thesis by blast
qed

section \<open>One delivery\<close>

text \<open>A claim: the first of a new event, a further one of a failed event, or none.\<close>

lemma claim_new:
  assumes "webhook_event_constraints (webhook_events (work s))"
    and "find_first (\<lambda>e. e_dedupe_key e = k) (webhook_events (work s)) = None"
    and "uuid_supply s (uuid_next s) \<notin> set (map e_id (webhook_events (work s)))"
  shows "\<exists>t. claim k ty pe ref s = (Inr True, t) \<and> holds_event k (\<lambda>e. e_attempts e = 1) t"
proof -
  have "webhook_event_constraints (webhook_events (work s) @
     [\<lparr>e_id = uuid_supply s (uuid_next s), e_provider = ''paystack'', e_dedupe_key = k,
       e_event_type = ty, e_provider_event_id = pe, e_reference = ref, e_status = WH_RECEIVED,
       e_attempts = 1, e_error = None, e_received_at = clock s, e_processed_at = None\<rparr>])"
    using assms by (auto simp: webhook_event_constraints_def find_first_None_iff)
  with assms(2) show ?thesis by (simp add: claim_def step holds_event_def find_first_append)
qed

lemma claim_again:
  assumes "holds_event k (\<lambda>e. e_status e = WH_FAILED \<and> e_attempts e = j) s" and "j < max_attempts"
  shows "\<exists>t. claim k ty pe ref s = (Inr True, t) \<and> holds_event k (\<lambda>e. e_attempts e = Suc j) t"
proof -
  from assms(1) obtain e where e: "holds_event k (\<lambda>x. x = e) (s\<lparr>uuid_next := Suc (uuid_next s)\<rparr>)"
    "e_status e = WH_FAILED" "e_attempts e = j"
    by (auto simp: holds_event_def)
  let ?e = "e\<lparr>e_status := WH_RECEIVED, e_attempts := e_attempts e + 1, e_received_at := clock s\<rparr>"
  from e(1) have found: "find_first (\<lambda>e. e_dedupe_key e = k) (webhook_events (work s)) = Some e"
    by (auto simp: holds_event_def)
  then have "e_dedupe_key ?e = k" by (auto dest: find_first_SomeD)
  from save_event_holds [OF e(1) _ this] obtain t where
    "bnd (save_row webhook_event_t ?e) (\<lambda>_. commit) (s\<lparr>uuid_next := Suc (uuid_next s)\<rparr>) = (Inr (), t)"
    "holds_event k (\<lambda>x. x = ?e) t"
    by auto
  with e(2,3) found assms(2) show ?thesis
    by (auto simp: claim_def bnd_session_steps bnd_table_steps bnd_return run bnd_assoc
        elim!: holds_event_mono split: if_splits)
qed

lemma claim_no_more:
  assumes "holds_event k (\<lambda>e. e_status e \<noteq> WH_FAILED \<or> max_attempts \<le> e_attempts e) s"
  shows "\<exists>t. claim k ty pe ref s = (Inr False, t)"
  using assms by (auto simp: holds_event_def claim_def step)

text \<open>
  A claimed delivery is always answered, and unless the answer is 200 the event is then marked
  failed at the attempt it was claimed for, or as dealt with.
\<close>

lemma claimed_delivery:
  fixes sha256 :: "string \<Rightarrow> string" and p :: webhook_payload and raw :: string
  defines "k \<equiv> build_dedupe_key sha256 (wp_event p) (wp_data p) raw"
  assumes claimed: "claim k (wp_event p) (map_option int_str (truthy_id (wp_data p)))
      (pd_reference (wp_data p)) s = (Inr True, u)"
    and held: "holds_event k (\<lambda>e. e_attempts e = j) u"
  shows "\<exists>out t. handle_event net sha256 p raw s = (Inr out, t) \<and>
     (wo_http_status out = 200 \<or>
      holds_event k (\<lambda>e. e_status e \<noteq> WH_FAILED \<or> e_attempts e = j) t)"
proof (cases "event_handler net (wp_event p) (wp_data p)")
  case None
  have "recorded k (\<lambda>_. True) u" using held by (auto simp: holds_event_recorded elim!: holds_event_mono)
  from recorded_mark [OF this, of WH_IGNORED] obtain t where "mark_event k WH_IGNORED u = (Inr (), t)"
    by blast
  with None claimed show ?thesis
    by (simp add: handle_event_def Let_def run_bnd outcome_def flip: k_def)
next
  case (Some h)
  obtain q v where h: "h u = (q, v)" by fastforce
  have held': "holds_event k (\<lambda>e. e_attempts e = j) v"
    by (rule holds_event_frame [OF held handler_table_frame [OF Some] h])
  have failed: "\<exists>t. mark_failed k err v = (Inr (), t) \<and>
      holds_event k (\<lambda>e. e_status e \<noteq> WH_FAILED \<or> e_attempts e = j) t" for err
    using mark_failed_holds [OF held', of err] by (auto elim!: holds_event_mono)
  show ?thesis
  proof (cases q)
    case (Inl err)
    obtain t where "mark_failed k (Inl err) v = (Inr (), t)"
      "holds_event k (\<lambda>e. e_status e \<noteq> WH_FAILED \<or> e_attempts e = j) t" using failed by blast
    with Some h Inl claimed show ?thesis
      by (simp add: handle_event_def Let_def run_bnd run_try failed_outcome_def flip: k_def)
  next
    case (Inr out)
    have "recorded k (\<lambda>_. True) v" using held' by (auto simp: holds_event_recorded elim!: holds_event_mono)
    from recorded_mark [OF this, of WH_PROCESSED] obtain t where
      "mark_event k WH_PROCESSED v = (Inr (), t)" "recorded k (\<lambda>x. x = WH_PROCESSED) t" by blast
    moreover from this(2) have "holds_event k (\<lambda>e. e_status e \<noteq> WH_FAILED \<or> e_attempts e = j) t"
      by (auto simp: holds_event_recorded elim!: holds_event_mono)
    moreover obtain t' where "mark_failed k (Inr (wo_status out)) v = (Inr (), t')"
      "holds_event k (\<lambda>e. e_status e \<noteq> WH_FAILED \<or> e_attempts e = j) t'" using failed by blast
    ultimately show ?thesis
      using Some h Inr claimed
      by (cases "500 \<le> wo_http_status out")
        (simp_all add: handle_event_def Let_def run_bnd run_try finish_event_def flip: k_def)
  qed
qed

lemma unclaimed_delivery:
  fixes sha256 :: "string \<Rightarrow> string"
  assumes "claim (build_dedupe_key sha256 (wp_event p) (wp_data p) raw) (wp_event p)
      (map_option int_str (truthy_id (wp_data p))) (pd_reference (wp_data p)) s = (Inr False, u)"
  shows "handle_event net sha256 p raw s = (Inr (outcome 200 ''duplicate'' (wp_event p)), u)"
  using assms by (simp add: handle_event_def Let_def run_bnd)

section \<open>The loop\<close>

text \<open>
  The number of the delivery that was answered with 200 (from \<open>n\<close>), and the session it left; a
  delivery that is answered otherwise, or not at all, is repeated.
\<close>

partial_function (option) redeliver ::
  "(nat \<Rightarrow> transport) \<Rightarrow> (string \<Rightarrow> string) \<Rightarrow> webhook_payload \<Rightarrow> string \<Rightarrow> nat \<Rightarrow> session \<Rightarrow>
   (nat \<times> session) option"
where
  "redeliver nets sha256 p raw n s =
     (case with_session (handle_event (nets n) sha256 p raw) s of
        (Inr out, t) \<Rightarrow>
          if wo_http_status out = 200 then Some (n, t) else redeliver nets sha256 p raw (Suc n) t
      | (Inl e, t) \<Rightarrow> redeliver nets sha256 p raw (Suc n) t)"

lemma session_run:
  "m (s\<lparr>work := committed s\<rparr>) = (Inr x, t) \<Longrightarrow> with_session m s = (Inr x, t\<lparr>work := committed t\<rparr>)"
  by (simp add: with_session_def run_bnd run_try)

lemma redeliver_answered:
  assumes "handle_event (nets n) sha256 p raw (s\<lparr>work := committed s\<rparr>) = (Inr out, t)"
    and "wo_http_status out = 200"
  shows "redeliver nets sha256 p raw n s = Some (n, t\<lparr>work := committed t\<rparr>)"
  using session_run [of "handle_event (nets n) sha256 p raw", OF assms(1)] assms(2) by (subst redeliver.simps) simp

lemma redeliver_again:
  assumes "handle_event (nets n) sha256 p raw (s\<lparr>work := committed s\<rparr>) = (Inr out, t)"
    and "wo_http_status out \<noteq> 200"
  shows "redeliver nets sha256 p raw n s = redeliver nets sha256 p raw (Suc n) (t\<lparr>work := committed t\<rparr>)"
  using session_run [of "handle_event (nets n) sha256 p raw", OF assms(1)] assms(2) by (subst redeliver.simps) simp

lemma redeliver_ends:
  assumes "holds_event (build_dedupe_key sha256 (wp_event p) (wp_data p) raw)
      (\<lambda>e. e_status e \<noteq> WH_FAILED \<or> e_attempts e = j) (s\<lparr>work := committed s\<rparr>)"
  shows "\<exists>m t. redeliver nets sha256 p raw n s = Some (m, t) \<and> m \<le> n + (max_attempts - j)"
  using assms
proof (induction "max_attempts - j" arbitrary: j n s)
  case 0
  let ?k = "build_dedupe_key sha256 (wp_event p) (wp_data p) raw"
  from 0 have "holds_event ?k (\<lambda>e. e_status e \<noteq> WH_FAILED \<or> max_attempts \<le> e_attempts e)
      (s\<lparr>work := committed s\<rparr>)" by (auto elim!: holds_event_mono)
  from unclaimed_delivery claim_no_more [OF this] obtain u where
    "handle_event (nets n) sha256 p raw (s\<lparr>work := committed s\<rparr>) =
       (Inr (outcome 200 ''duplicate'' (wp_event p)), u)" by metis
  from redeliver_answered [of nets n sha256 p raw s, OF this] show ?case by (simp add: outcome_def)
next
  case (Suc d)
  let ?k = "build_dedupe_key sha256 (wp_event p) (wp_data p) raw"
  let ?s = "s\<lparr>work := committed s\<rparr>"
  show ?case
  proof (cases "holds_event ?k (\<lambda>e. e_status e \<noteq> WH_FAILED) ?s")
    case True
    then have "holds_event ?k (\<lambda>e. e_status e \<noteq> WH_FAILED \<or> max_attempts \<le> e_attempts e) ?s"
      by (auto elim!: holds_event_mono)
    from unclaimed_delivery claim_no_more [OF this] obtain u where
      "handle_event (nets n) sha256 p raw ?s = (Inr (outcome 200 ''duplicate'' (wp_event p)), u)"
      by metis
    from redeliver_answered [of nets n sha256 p raw s, OF this] show ?thesis by (simp add: outcome_def)
  next
    case False
    with Suc.prems have failed: "holds_event ?k (\<lambda>e. e_status e = WH_FAILED \<and> e_attempts e = j) ?s"
      by (auto simp: holds_event_def)
    have "j < max_attempts" using Suc.hyps(2) by simp
    from claim_again [OF failed this] obtain u where
      "claim ?k (wp_event p) (map_option int_str (truthy_id (wp_data p))) (pd_reference (wp_data p)) ?s =
         (Inr True, u)" "holds_event ?k (\<lambda>e. e_attempts e = Suc j) u" by blast
    from claimed_delivery [OF this] obtain out t where
      run: "handle_event (nets n) sha256 p raw ?s = (Inr out, t)" and
      res: "wo_http_status out = 200 \<or>
        holds_event ?k (\<lambda>e. e_status e \<noteq> WH_FAILED \<or> e_attempts e = Suc j) t" by blast
    show ?thesis
    proof (cases "wo_http_status out = 200")
      case True
      with redeliver_answered [of nets n sha256 p raw s, OF run] show ?thesis by simp
    next
      case False
      with res have "holds_event ?k (\<lambda>e. e_status e \<noteq> WH_FAILED \<or> e_attempts e = Suc j)
          (t\<lparr>work := committed t\<rparr>)" by (auto intro: holds_event_rollback)
      then have "holds_event ?k (\<lambda>e. e_status e \<noteq> WH_FAILED \<or> e_attempts e = Suc j)
          (t\<lparr>work := committed t, work := committed (t\<lparr>work := committed t\<rparr>)\<rparr>)" by simp
      from Suc.hyps(1) [OF _ this, of "Suc n"] Suc.hyps(2) redeliver_again [of nets n sha256 p raw s, OF run False]
      show ?thesis by fastforce
    qed
  qed
qed

section \<open>Properties\<close>


text \<open>A network that never answers.\<close>

definition dead_net :: transport where
  "dead_net = (\<lambda>_ _. TimedOut)"


end
