(* ===== verification/Concurrency.thy ===== *)
theory Concurrency
  imports Ledger
begin

text \<open>
  The locking rules of \<^verbatim>\<open>src/app/repository/wallet_repository.py\<close> at the grain at which requests
  interleave.  A money transaction takes its row locks one after the other (a \<^verbatim>\<open>paystack_transaction\<close>
  row first, then the wallets in the order \<open>lock_order\<close> gives), posts its entries and commits; in
  between, any other transaction may run.  The database is PostgreSQL at READ COMMITTED: a statement
  sees what is committed and its own writes; \<^verbatim>\<open>SELECT ... FOR UPDATE\<close> waits for the holder of the row
  and returns its newest version; an \<^verbatim>\<open>INSERT\<close> that would duplicate a unique key of an uncommitted row
  waits for that transaction; locks last until the transaction ends.

  Shown: whatever the interleaving, the committed database is the one the sections
  \<open>apply_entry_locked\<close> and \<open>apply_transfer_locked\<close> give when they run one at a time, in the order in
  which the transactions end; and transactions never wait for each other in a circle, so all of them
  end.
\<close>

section \<open>One entry\<close>

record move =
  mv_wallet :: id
  mv_leg :: ledger_leg
  mv_reference :: string
  mv_status :: ledger_entry_status
  mv_group :: "string option"

text \<open>\<open>apply_ledger_entry\<close> as a function of the rows: the wallet it moves and the entry.\<close>

definition post_move :: "time \<Rightarrow> id \<Rightarrow> move \<Rightarrow> db \<Rightarrow> exn + wallet \<times> transaction" where
  "post_move t u m d =
     (case find_first (\<lambda>w. w_id w = mv_wallet m) (wallets d) of
        None \<Rightarrow> Inl WalletNotFoundError
      | Some w \<Rightarrow>
          (case entry_error w (mv_leg m) of
             Some err \<Rightarrow> Inl err
           | None \<Rightarrow>
               (let e = ledger_entry w (mv_leg m) (mv_reference m) (mv_status m) (mv_group m) u t
                in if \<not> transaction_fits e then Inl DataError
                   else if \<not> transaction_constraints (transactions d @ [e]) then Inl IntegrityError
                   else if \<not> wallet_fits (moved w e) then Inl DataError
                   else Inr (w, e))))"

lemma moved_constraints:
  assumes "wallet_constraints ws" and "w \<in> set ws" and "entry_error w l = None"
  shows "wallet_constraints (replace_by w_id (moved w (ledger_entry w l r st g u t)) ws)"
proof -
  have "map w_user_id (replace_by w_id (moved w e) ws) = map w_user_id ws" for e
    using assms(1,2) by (auto simp: replace_by_def wallet_constraints_def moved_def distinct_map inj_on_def)
  with assms show ?thesis
    by (auto simp: wallet_constraints_def list_all_iff entry_error_def split_beta Let_def
        dest!: set_replaceD split: if_splits)
qed

lemma apply_ledger_entry_post:
  assumes "wallet_constraints (wallets (work s))"
  shows "case post_move (clock s) (uuid_supply s (uuid_next s)) m (work s) of
     Inl err \<Rightarrow> \<exists>t. apply_ledger_entry (mv_wallet m) (mv_leg m) (mv_reference m) (mv_status m) (mv_group m) s =
       (Inl err, t)
   | Inr (w, e) \<Rightarrow> apply_ledger_entry (mv_wallet m) (mv_leg m) (mv_reference m) (mv_status m) (mv_group m) s =
       (Inr e, s\<lparr>uuid_next := Suc (uuid_next s), work := post_entry w e (work s)\<rparr>)"
proof (cases "find_first (\<lambda>w. w_id w = mv_wallet m) (wallets (work s))")
  case None
  then show ?thesis by (simp add: post_move_def apply_ledger_entry_missing)
next
  case (Some w)
  show ?thesis
  proof (cases "entry_error w (mv_leg m)")
    case None
    let ?e = "ledger_entry w (mv_leg m) (mv_reference m) (mv_status m) (mv_group m)
        (uuid_supply s (uuid_next s)) (clock s)"
    from Some have "w \<in> set (wallets (work s))" by (auto dest: find_first_SomeD)
    from moved_constraints [OF assms this None]
    have "wallet_constraints (replace_by w_id (moved w ?e) (wallets (work s)))" .
    with Some None show ?thesis
      by (auto simp: post_move_def apply_ledger_entry_def entry_error_def get_wallet_by_id_def run
          table_defs post_entry_def Let_def split_beta split: if_splits)
  next
    case (Some err)
    with \<open>find_first _ _ = Some w\<close> obtain n where
      "apply_ledger_entry (mv_wallet m) (mv_leg m) (mv_reference m) (mv_status m) (mv_group m) s =
         (Inl err, s\<lparr>uuid_next := n\<rparr>)"
      using apply_ledger_entry_rejects by blast
    with Some \<open>find_first _ _ = Some w\<close> show ?thesis by (simp add: post_move_def)
  qed
qed


section \<open>A money transaction\<close>

text \<open>
  What the two public operations run from the row lock to the commit, with the session the request
  runs in (its clock and its supply of UUIDs) and the \<^verbatim>\<open>paystack_transaction\<close> row the caller has
  locked before, if it has.
\<close>

datatype money_section =
    Entry id ledger_leg string ledger_entry_status "string option"
  | Transfer id id string ledger_leg ledger_leg

record money_tx =
  tx_section :: money_section
  tx_paystack :: "string option"
  tx_session :: session

fun section_moves :: "money_section \<Rightarrow> move list" where
  "section_moves (Entry w l r st g) =
     [\<lparr>mv_wallet = w, mv_leg = l, mv_reference = r, mv_status = st, mv_group = g\<rparr>]"
| "section_moves (Transfer dw cw g d c) =
     [\<lparr>mv_wallet = dw, mv_leg = d, mv_reference = debit_ref g, mv_status = ENTRY_COMPLETED,
       mv_group = Some g\<rparr>,
      \<lparr>mv_wallet = cw, mv_leg = c, mv_reference = credit_ref g, mv_status = ENTRY_COMPLETED,
       mv_group = Some g\<rparr>]"

definition tx_moves :: "money_tx \<Rightarrow> move list" where
  "tx_moves tx = section_moves (tx_section tx)"

text \<open>The section in one piece on a database, and what it leaves committed.\<close>

definition atomically :: "money_tx \<Rightarrow> db \<Rightarrow> db" where
  "atomically tx d =
     (let s = (tx_session tx)\<lparr>committed := d, work := d\<rparr>
      in case tx_section tx of
           Entry w l r st g \<Rightarrow> committed (snd (apply_entry_locked w l r st g s))
         | Transfer dw cw g l c \<Rightarrow> committed (snd (apply_transfer_locked dw cw g l c s)))"

fun post_all :: "time \<Rightarrow> (nat \<Rightarrow> id) \<Rightarrow> nat \<Rightarrow> move list \<Rightarrow> db \<Rightarrow> exn + db" where
  "post_all t ids n [] d = Inr d"
| "post_all t ids n (m # ms) d =
     (case post_move t (ids n) m d of
        Inl err \<Rightarrow> Inl err
      | Inr (w, e) \<Rightarrow> post_all t ids (Suc n) ms (post_entry w e d))"

definition tx_id :: "money_tx \<Rightarrow> nat \<Rightarrow> id" where
  "tx_id tx n = uuid_supply (tx_session tx) (uuid_next (tx_session tx) + n)"

definition tx_post :: "money_tx \<Rightarrow> nat \<Rightarrow> move list \<Rightarrow> db \<Rightarrow> exn + db" where
  "tx_post tx = post_all (clock (tx_session tx)) (tx_id tx)"

lemma post_move_InrD:
  assumes "post_move t u m d = Inr (w, e)"
  shows "find_first (\<lambda>w. w_id w = mv_wallet m) (wallets d) = Some w" "entry_error w (mv_leg m) = None"
    "e = ledger_entry w (mv_leg m) (mv_reference m) (mv_status m) (mv_group m) u t"
    "transaction_fits e" "transaction_constraints (transactions d @ [e])" "wallet_fits (moved w e)"
  using assms by (auto simp: post_move_def Let_def split: option.splits if_splits)

lemma post_move_wallets:
  assumes "post_move t u m d = Inr (w, e)" and "wallet_constraints (wallets d)"
  shows "wallet_constraints (wallets (post_entry w e d))"
  using moved_constraints [OF assms(2) _ post_move_InrD(2) [OF assms(1)]] post_move_InrD(1,3) [OF assms(1)]
  by (auto simp: post_entry_def dest: find_first_SomeD)

text \<open>What the entries leave committed: nothing when one of them is refused.\<close>

definition settled :: "db \<Rightarrow> exn + db \<Rightarrow> db" where
  "settled d r = (case r of Inl err \<Rightarrow> d | Inr d' \<Rightarrow> d')"

lemma settled_simps [simp]: "settled d (Inl err) = d" "settled d (Inr d') = d'"
  by (simp_all add: settled_def)

abbreviation session_ids :: "session \<Rightarrow> nat \<Rightarrow> id" where
  "session_ids s n \<equiv> uuid_supply s (uuid_next s + n)"

lemma entry_section:
  assumes "wallet_constraints (wallets (work s))" and "committed s = work s"
  shows "committed (snd (apply_entry_locked w l r st g s)) =
     settled (work s) (post_all (clock s) (session_ids s) 0 (section_moves (Entry w l r st g)) (work s))"
proof -
  let ?m = "\<lparr>mv_wallet = w, mv_leg = l, mv_reference = r, mv_status = st, mv_group = g\<rparr>"
  obtain q t where q: "apply_entry_locked w l r st g s = (q, t)" by fastforce
  show ?thesis
  proof (cases "post_move (clock s) (session_ids s 0) ?m (work s)")
    case (Inl err)
    with apply_ledger_entry_post [OF assms(1), of ?m] obtain u where
      u: "apply_ledger_entry w l r st g s = (Inl err, u)" by auto
    have "q \<noteq> Inr (Inr e)" for e
      using q u by (auto elim!: apply_entry_locked_Inr
          simp: apply_entry_locked_eq get_entry_by_reference_def step replay_def get_wallet_by_id_def
          split: if_splits option.splits)
    from apply_entry_locked_other [OF q this] Inl q assms(2) show ?thesis by simp
  next
    case (Inr x)
    obtain v e where x: "x = (v, e)" by fastforce
    with Inr apply_ledger_entry_post [OF assms(1), of ?m] have
      "apply_ledger_entry w l r st g s = (Inr e, s\<lparr>uuid_next := Suc (uuid_next s), work := post_entry v e (work s)\<rparr>)"
      by simp
    with Inr x show ?thesis by (simp add: apply_entry_locked_eq)
  qed
qed

lemma transfer_refused:
  assumes "\<And>d c u. apply_transfer_locked dw cw g l k s \<noteq> (Inr (Inr (d, c)), u)" and "committed s = work s"
  shows "committed (snd (apply_transfer_locked dw cw g l k s)) = work s"
proof -
  obtain q t where q: "apply_transfer_locked dw cw g l k s = (q, t)" by fastforce
  with assms(1) have "q \<noteq> Inr (Inr p)" for p by (cases p) auto
  from apply_transfer_locked_other [OF q this] q assms(2) show ?thesis by simp
qed

lemma transfer_goes_through:
  assumes "{dw, cw} \<subseteq> w_id ` set (wallets (work s))"
    and "apply_ledger_entry dw l (debit_ref g) ENTRY_COMPLETED (Some g) s = (Inr d, t)"
    and "apply_ledger_entry cw k (credit_ref g) ENTRY_COMPLETED (Some g) t = (Inr c, u)"
  shows "committed (snd (apply_transfer_locked dw cw g l k s)) = work u"
proof -
  obtain ids where "lock_wallets [dw, cw] s = (Inr ids, s)"
    using lock_wallets_ok [of "[dw, cw]" s] assms(1) by auto
  with assms(2,3) show ?thesis
    by (simp add: apply_transfer_locked_def try_except_def run_bnd run)
qed

lemma transfer_section:
  assumes wc: "wallet_constraints (wallets (work s))" and "committed s = work s"
  shows "committed (snd (apply_transfer_locked dw cw g l k s)) =
     settled (work s) (post_all (clock s) (session_ids s) 0 (section_moves (Transfer dw cw g l k)) (work s))"
proof -
  let ?m1 = "\<lparr>mv_wallet = dw, mv_leg = l, mv_reference = debit_ref g, mv_status = ENTRY_COMPLETED,
       mv_group = Some g\<rparr>"
  let ?m2 = "\<lparr>mv_wallet = cw, mv_leg = k, mv_reference = credit_ref g, mv_status = ENTRY_COMPLETED,
       mv_group = Some g\<rparr>"
  show ?thesis
  proof (cases "post_move (clock s) (session_ids s 0) ?m1 (work s)")
    case (Inl err)
    with apply_ledger_entry_post [OF wc, of ?m1] obtain u where
      "apply_ledger_entry dw l (debit_ref g) ENTRY_COMPLETED (Some g) s = (Inl err, u)" by auto
    then have "apply_transfer_locked dw cw g l k s \<noteq> (Inr (Inr (d, c)), u)" for d c u
      by (auto elim!: apply_transfer_locked_Inr)
    from transfer_refused [OF this assms(2)] Inl show ?thesis by simp
  next
    case (Inr x)
    obtain v e where "x = (v, e)" by fastforce
    note p1 = Inr [unfolded this]
    let ?s1 = "s\<lparr>uuid_next := Suc (uuid_next s), work := post_entry v e (work s)\<rparr>"
    from p1 apply_ledger_entry_post [OF wc, of ?m1] have
      run1: "apply_ledger_entry dw l (debit_ref g) ENTRY_COMPLETED (Some g) s = (Inr e, ?s1)" by simp
    have wc1: "wallet_constraints (wallets (work ?s1))" using post_move_wallets [OF p1 wc] by simp
    show ?thesis
    proof (cases "post_move (clock s) (session_ids s 1) ?m2 (post_entry v e (work s))")
      case (Inl err)
      with apply_ledger_entry_post [OF wc1, of ?m2] obtain u where
        "apply_ledger_entry cw k (credit_ref g) ENTRY_COMPLETED (Some g) ?s1 = (Inl err, u)" by auto
      with run1 have "apply_transfer_locked dw cw g l k s \<noteq> (Inr (Inr (d, c)), u)" for d c u
        by (auto elim!: apply_transfer_locked_Inr)
      from transfer_refused [OF this assms(2)] Inl p1 show ?thesis by simp
    next
      case (Inr y)
      obtain v2 e2 where "y = (v2, e2)" by fastforce
      note p2 = Inr [unfolded this]
      have "{dw, cw} \<subseteq> w_id ` set (wallets (work s))"
        using post_move_InrD(1) [OF p1] post_move_InrD(1) [OF p2]
        by (auto simp: post_entry_def dest!: find_first_SomeD set_replaceD)
      with run1 p1 p2 apply_ledger_entry_post [OF wc1, of ?m2] show ?thesis
        using transfer_goes_through [of dw cw s l g e ?s1 k e2] by simp
    qed
  qed
qed

lemma atomically_posts:
  assumes "wallet_constraints (wallets d)"
  shows "atomically tx d = settled d (tx_post tx 0 (tx_moves tx) d)"
proof -
  let ?s = "(tx_session tx)\<lparr>committed := d, work := d\<rparr>"
  have "tx_id tx = session_ids ?s" by (simp add: tx_id_def fun_eq_iff)
  with entry_section [of ?s] transfer_section [of ?s] assms show ?thesis
    by (cases "tx_section tx") (simp_all add: atomically_def tx_post_def tx_moves_def Let_def)
qed

section \<open>Rows that are locked\<close>

text \<open>Locking rule 1: a \<^verbatim>\<open>paystack_transaction\<close> row before any \<^verbatim>\<open>wallet\<close> row.\<close>

datatype row = PaystackRow string | WalletRow id

instantiation row :: linorder
begin

fun less_eq_row :: "row \<Rightarrow> row \<Rightarrow> bool" where
  "less_eq_row (PaystackRow a) (PaystackRow b) \<longleftrightarrow> a \<le> b"
| "less_eq_row (PaystackRow a) (WalletRow b) \<longleftrightarrow> True"
| "less_eq_row (WalletRow a) (PaystackRow b) \<longleftrightarrow> False"
| "less_eq_row (WalletRow a) (WalletRow b) \<longleftrightarrow> a \<le> b"

definition less_row :: "row \<Rightarrow> row \<Rightarrow> bool" where
  "less_row a b \<longleftrightarrow> a \<le> b \<and> \<not> b \<le> a"

instance
proof
  fix a b c :: row
  show "(a < b) = (a \<le> b \<and> \<not> b \<le> a)" by (rule less_row_def)
  show "a \<le> a" by (cases a) simp_all
  show "a \<le> b \<Longrightarrow> b \<le> c \<Longrightarrow> a \<le> c" by (cases a; cases b; cases c) auto
  show "a \<le> b \<Longrightarrow> b \<le> a \<Longrightarrow> a = b" by (cases a; cases b) auto
  show "a \<le> b \<or> b \<le> a" by (cases a; cases b) auto
qed

end

definition tx_rows :: "money_tx \<Rightarrow> row list" where
  "tx_rows tx =
     (case tx_paystack tx of None \<Rightarrow> [] | Some r \<Rightarrow> [PaystackRow r]) @
     map WalletRow (lock_order (map mv_wallet (tx_moves tx)))"

lemma tx_rows_ascend: "sorted_wrt (<) (tx_rows tx)"
proof -
  have "sorted_wrt (<) (lock_order ks)" for ks
    by (simp add: lock_order_def strict_sorted_iff)
  then have "sorted_wrt (<) (map WalletRow (lock_order ks))" for ks
    by (simp add: sorted_wrt_map less_row_def flip: less_le_not_le)
  then show ?thesis by (auto simp: tx_rows_def sorted_wrt_append less_row_def split: option.split)
qed

lemma tx_rows_wallets: "WalletRow k \<in> set (tx_rows tx) \<longleftrightarrow> k \<in> mv_wallet ` set (tx_moves tx)"
  by (auto simp: tx_rows_def lock_order_def split: option.split)

section \<open>Interleavings\<close>

text \<open>
  A thread runs one money transaction: the rows it still has to lock, those it holds, the entries
  still to post, and its own writes, which nobody else sees before the commit.  \<open>th_ended\<close> is set by
  the commit and by any error (a rollback); an ended thread holds nothing.
\<close>

record thread =
  th_tx :: money_tx
  th_wanted :: "row list"
  th_held :: "row list"
  th_left :: "move list"
  th_written :: "wallet list"
  th_entries :: "transaction list"
  th_ended :: bool

record shared =
  sh_db :: db
  sh_threads :: "thread list"

definition start_thread :: "money_tx \<Rightarrow> thread" where
  "start_thread tx =
     \<lparr>th_tx = tx, th_wanted = tx_rows tx, th_held = [], th_left = tx_moves tx, th_written = [],
      th_entries = [], th_ended = False\<rparr>"

definition overlay :: "wallet list \<Rightarrow> wallet list \<Rightarrow> wallet list" where
  "overlay written ws =
     map (\<lambda>w. case find_first (\<lambda>v. w_id v = w_id w) written of None \<Rightarrow> w | Some v \<Rightarrow> v) ws"

text \<open>What a statement of the thread sees: the committed rows and its own writes.\<close>

definition sees :: "thread \<Rightarrow> db \<Rightarrow> db" where
  "sees th d =
     d\<lparr>wallets := overlay (th_written th) (wallets d), transactions := transactions d @ th_entries th\<rparr>"

definition running :: "shared \<Rightarrow> nat \<Rightarrow> bool" where
  "running g i \<longleftrightarrow> i < length (sh_threads g) \<and> \<not> th_ended (sh_threads g ! i)"

text \<open>The row is free for thread \<open>i\<close>; no other open transaction has inserted one of the entry's keys.\<close>

definition free_for :: "shared \<Rightarrow> nat \<Rightarrow> row \<Rightarrow> bool" where
  "free_for g i k \<longleftrightarrow>
     list_all (\<lambda>j. running g j \<and> j \<noteq> i \<longrightarrow> k \<notin> set (th_held (sh_threads g ! j))) [0..<length (sh_threads g)]"

definition clashes :: "transaction \<Rightarrow> transaction \<Rightarrow> bool" where
  "clashes e f \<longleftrightarrow> t_id e = t_id f \<or> t_reference e = t_reference f"

definition insertable :: "shared \<Rightarrow> nat \<Rightarrow> transaction \<Rightarrow> bool" where
  "insertable g i e \<longleftrightarrow>
     list_all (\<lambda>j. running g j \<and> j \<noteq> i \<longrightarrow> \<not> list_ex (clashes e) (th_entries (sh_threads g ! j)))
       [0..<length (sh_threads g)]"

definition with_thread :: "shared \<Rightarrow> nat \<Rightarrow> thread \<Rightarrow> shared" where
  "with_thread g i th = g\<lparr>sh_threads := (sh_threads g)[i := th]\<rparr>"

definition row_there :: "row \<Rightarrow> db \<Rightarrow> bool" where
  "row_there k d =
     (case k of PaystackRow _ \<Rightarrow> True | WalletRow w \<Rightarrow> find_first (\<lambda>x. w_id x = w) (wallets d) \<noteq> None)"

definition next_post :: "thread \<Rightarrow> move \<Rightarrow> db \<Rightarrow> exn + wallet \<times> transaction" where
  "next_post th m d =
     post_move (clock (tx_session (th_tx th))) (tx_id (th_tx th) (length (th_entries th))) m (sees th d)"

inductive tick :: "shared \<Rightarrow> shared \<Rightarrow> bool" where
  take_lock: "running g i \<Longrightarrow> th = sh_threads g ! i \<Longrightarrow> th_wanted th = k # ks \<Longrightarrow> free_for g i k \<Longrightarrow>
    row_there k (sh_db g) \<Longrightarrow>
    tick g (with_thread g i (th\<lparr>th_wanted := ks, th_held := th_held th @ [k]\<rparr>))"
| not_found: "running g i \<Longrightarrow> th = sh_threads g ! i \<Longrightarrow> th_wanted th = k # ks \<Longrightarrow>
    \<not> row_there k (sh_db g) \<Longrightarrow> tick g (with_thread g i (th\<lparr>th_ended := True\<rparr>))"
| post: "running g i \<Longrightarrow> th = sh_threads g ! i \<Longrightarrow> th_wanted th = [] \<Longrightarrow> th_left th = m # ms \<Longrightarrow>
    next_post th m (sh_db g) = Inr (w, e) \<Longrightarrow> insertable g i e \<Longrightarrow>
    tick g (with_thread g i
      (th\<lparr>th_left := ms, th_written := moved w e # th_written th, th_entries := th_entries th @ [e]\<rparr>))"
| refuse: "running g i \<Longrightarrow> th = sh_threads g ! i \<Longrightarrow> th_wanted th = [] \<Longrightarrow> th_left th = m # ms \<Longrightarrow>
    next_post th m (sh_db g) = Inl err \<Longrightarrow> tick g (with_thread g i (th\<lparr>th_ended := True\<rparr>))"
| finish: "running g i \<Longrightarrow> th = sh_threads g ! i \<Longrightarrow> th_wanted th = [] \<Longrightarrow> th_left th = [] \<Longrightarrow>
    tick g ((with_thread g i (th\<lparr>th_ended := True\<rparr>))\<lparr>sh_db := sees th (sh_db g)\<rparr>)"

inductive ticks :: "nat \<Rightarrow> shared \<Rightarrow> shared \<Rightarrow> bool" where
  none: "ticks 0 g g"
| more: "ticks n g h \<Longrightarrow> tick h k \<Longrightarrow> ticks (Suc n) g k"

inductive_cases tickE: "tick g h"

definition all_start :: "db \<Rightarrow> money_tx list \<Rightarrow> shared" where
  "all_start d txs = \<lparr>sh_db = d, sh_threads = map start_thread txs\<rparr>"


section \<open>Own writes and the writes of others\<close>

definition touched :: "wallet list \<Rightarrow> id set" where
  "touched written = w_id ` set written"

lemma overlay_Nil [simp]: "overlay [] ws = ws"
  by (simp add: overlay_def)

lemma overlay_key: "w_id (case find_first (\<lambda>v. w_id v = w_id w) vs of None \<Rightarrow> w | Some v \<Rightarrow> v) = w_id w"
  by (auto split: option.split dest: find_first_SomeD)

lemma overlay_ids [simp]: "map w_id (overlay vs ws) = map w_id ws"
  by (simp add: overlay_def overlay_key comp_def)

lemma untouched: "k \<notin> touched vs \<Longrightarrow> find_first (\<lambda>v. w_id v = k) vs = None"
  by (auto simp: find_first_None_iff touched_def)

lemma overlay_find:
  "k \<notin> touched vs \<Longrightarrow>
   find_first (\<lambda>w. w_id w = k) (overlay vs ws) = find_first (\<lambda>w. w_id w = k) ws"
proof (induction ws)
  case (Cons w ws)
  then show ?case
    by (cases "w_id w = k") (simp_all add: overlay_def overlay_key untouched)
qed (simp add: overlay_def)

lemma overlay_Cons: "overlay (v # vs) ws = replace_by w_id v (overlay vs ws)"
  by (auto simp: overlay_def replace_by_def overlay_key split: option.splits dest: find_first_SomeD)

lemma overlay_replace:
  "w_id v \<notin> touched vs \<Longrightarrow> overlay vs (replace_by w_id v ws) = replace_by w_id v (overlay vs ws)"
proof (induction ws)
  case (Cons w ws)
  then show ?case
    by (cases "w_id w = w_id v") (simp_all add: overlay_def overlay_key untouched)
qed (simp add: overlay_def)

lemma overlay_commute:
  "touched us \<inter> touched vs = {} \<Longrightarrow> overlay us (overlay vs ws) = overlay vs (overlay us ws)"
proof (induction us)
  case (Cons u us)
  then have "w_id u \<notin> touched vs" "touched us \<inter> touched vs = {}" by (auto simp: touched_def)
  with Cons.IH show ?case by (simp add: overlay_Cons overlay_replace)
qed simp

text \<open>Posting on what somebody else has committed in other wallets, under other keys, is the same.\<close>

lemma constraints_part:
  "transaction_constraints (as @ bs @ cs @ e # ds) \<Longrightarrow> transaction_constraints (as @ bs @ cs @ [e])"
  using transaction_constraints_prefix [of "as @ bs @ cs @ [e]" ds] by simp

lemma post_all_extends:
  "post_all t ids n ms d = Inr d' \<Longrightarrow>
   \<exists>es. transactions d' = transactions d @ es \<and> length es = length ms \<and>
     (ms \<noteq> [] \<longrightarrow> transaction_constraints (transactions d @ es))"
proof (induction ms arbitrary: n d)
  case (Cons m ms)
  then obtain w e where p: "post_move t (ids n) m d = Inr (w, e)"
    and r: "post_all t ids (Suc n) ms (post_entry w e d) = Inr d'"
    by (auto split: sum.splits)
  from Cons.IH [OF r] obtain es where
    es: "transactions d' = transactions d @ e # es" "length es = length ms"
      "ms \<noteq> [] \<longrightarrow> transaction_constraints (transactions d @ e # es)" by (auto simp: post_entry_def)
  with post_move_InrD(5) [OF p] show ?case by (intro exI [of _ "e # es"]) (cases ms; simp)
qed simp

lemma post_all_elsewhere:
  assumes "post_all t ids n ms d = Inr d1" and "transactions d = ts @ es0"
    and "transactions d1 = ts @ es0 @ es1" and "wallets d' = overlay vs (wallets d)"
    and "transactions d' = ts @ new @ es0" and "touched vs \<inter> mv_wallet ` set ms = {}"
    and "transaction_constraints (ts @ new @ es0 @ es1)"
  shows "post_all t ids n ms d' =
     Inr (d'\<lparr>wallets := overlay vs (wallets d1), transactions := ts @ new @ es0 @ es1\<rparr>)"
  using assms
proof (induction ms arbitrary: n d d' es0 es1)
  case Nil
  then have "es1 = []" by simp
  with Nil show ?case by simp
next
  case (Cons m ms)
  then obtain w e where p: "post_move t (ids n) m d = Inr (w, e)"
    and r: "post_all t ids (Suc n) ms (post_entry w e d) = Inr d1"
    by (auto split: sum.splits)
  note facts = post_move_InrD [OF p]
  from post_all_extends [OF r] Cons.prems(2,3) obtain es2 where es1: "es1 = e # es2"
    by (auto simp: post_entry_def)
  from facts(1) have wid: "w_id w = mv_wallet m" by (auto dest: find_first_SomeD)
  from Cons.prems(6) have away: "mv_wallet m \<notin> touched vs" by auto
  have "post_move t (ids n) m d' = Inr (w, e)"
    using facts Cons.prems(4,5,7) away es1 constraints_part [of ts new es0 e es2]
    by (simp add: post_move_def overlay_find Let_def)
  moreover have "post_all t ids (Suc n) ms (post_entry w e d') =
      Inr ((post_entry w e d')\<lparr>wallets := overlay vs (wallets d1),
        transactions := ts @ new @ (es0 @ [e]) @ es2\<rparr>)"
  proof (rule Cons.IH [OF r])
    show "wallets (post_entry w e d') = overlay vs (wallets (post_entry w e d))"
      using away wid Cons.prems(4) by (simp add: post_entry_def overlay_replace)
  qed (use Cons.prems es1 in \<open>simp_all add: post_entry_def\<close>)
  ultimately show ?case by (simp add: es1 post_entry_def)
qed

lemma post_all_append:
  "post_all t ids n (ms @ ns) d =
     (case post_all t ids n ms d of Inl err \<Rightarrow> Inl err | Inr d' \<Rightarrow> post_all t ids (n + length ms) ns d')"
  by (induction ms arbitrary: n d) (auto split: sum.splits)

lemma post_all_wallets:
  "post_all t ids n ms d = Inr d' \<Longrightarrow>
   map w_id (wallets d') = map w_id (wallets d) \<and> mv_wallet ` set ms \<subseteq> w_id ` set (wallets d) \<and>
   (wallet_constraints (wallets d) \<longrightarrow> wallet_constraints (wallets d'))"
proof (induction ms arbitrary: n d)
  case (Cons m ms)
  then obtain w e where p: "post_move t (ids n) m d = Inr (w, e)"
    and r: "post_all t ids (Suc n) ms (post_entry w e d) = Inr d'"
    by (auto split: sum.splits)
  have ids: "map w_id (wallets (post_entry w e d)) = map w_id (wallets d)"
    by (simp add: post_entry_def)
  have "w_id ` set (wallets (post_entry w e d)) = w_id ` set (wallets d)"
    using arg_cong [OF ids, of set] by simp
  moreover from post_move_InrD(1) [OF p] have "mv_wallet m \<in> w_id ` set (wallets d)"
    by (metis (mono_tags, lifting) find_first_SomeD rev_image_eqI)
  ultimately show ?case using Cons.IH [OF r] ids post_move_wallets [OF p] by simp
qed simp


section \<open>What every reachable state satisfies\<close>

text \<open>
  A running thread has locked a prefix of its rows, and what it has written is what its section,
  started on the database as it is now, would have written up to the same point; two running
  threads hold different rows and insert different keys.
\<close>

definition as_if_now :: "thread \<Rightarrow> db \<Rightarrow> bool" where
  "as_if_now th d \<longleftrightarrow>
     (\<exists>ms. tx_moves (th_tx th) = ms @ th_left th \<and> length ms = length (th_entries th) \<and>
        (th_wanted th \<noteq> [] \<longrightarrow> ms = []) \<and> tx_post (th_tx th) 0 ms d = Inr (sees th d))"

definition sound_thread :: "thread \<Rightarrow> db \<Rightarrow> bool" where
  "sound_thread th d \<longleftrightarrow>
     th_held th @ th_wanted th = tx_rows (th_tx th) \<and> as_if_now th d \<and>
     (\<forall>k \<in> touched (th_written th). WalletRow k \<in> set (th_held th))"

definition apart_threads :: "thread \<Rightarrow> thread \<Rightarrow> bool" where
  "apart_threads a b \<longleftrightarrow>
     set (th_held a) \<inter> set (th_held b) = {} \<and>
     (\<forall>e \<in> set (th_entries a). \<forall>f \<in> set (th_entries b). \<not> clashes e f)"

definition sound :: "shared \<Rightarrow> bool" where
  "sound g \<longleftrightarrow>
     wallet_constraints (wallets (sh_db g)) \<and> transaction_constraints (transactions (sh_db g)) \<and>
     (\<forall>i. running g i \<longrightarrow> sound_thread (sh_threads g ! i) (sh_db g)) \<and>
     (\<forall>i j. running g i \<longrightarrow> running g j \<longrightarrow> i \<noteq> j \<longrightarrow>
        apart_threads (sh_threads g ! i) (sh_threads g ! j))"

lemma clashes_sym: "clashes e f = clashes f e"
  by (auto simp: clashes_def)

lemma apart_threads_sym: "apart_threads a b = apart_threads b a"
  unfolding apart_threads_def using clashes_sym by blast

lemma soundD:
  assumes "sound g"
  shows "wallet_constraints (wallets (sh_db g))" "transaction_constraints (transactions (sh_db g))"
    "running g i \<Longrightarrow> sound_thread (sh_threads g ! i) (sh_db g)"
    "running g i \<Longrightarrow> running g j \<Longrightarrow> i \<noteq> j \<Longrightarrow> apart_threads (sh_threads g ! i) (sh_threads g ! j)"
  using assms by (simp_all add: sound_def)

lemma with_thread_simps [simp]:
  "sh_db (with_thread g i th) = sh_db g" "length (sh_threads (with_thread g i th)) = length (sh_threads g)"
  "i < length (sh_threads g) \<Longrightarrow> sh_threads (with_thread g i th) ! i = th"
  "i \<noteq> j \<Longrightarrow> sh_threads (with_thread g i th) ! j = sh_threads g ! j"
  by (simp_all add: with_thread_def)

lemma running_with_thread:
  "running g i \<Longrightarrow> running (with_thread g i th) j \<longleftrightarrow> (if j = i then \<not> th_ended th else running g j)"
  by (auto simp: running_def)

lemma running_db [simp]: "running (g\<lparr>sh_db := d\<rparr>) i = running g i"
  by (simp add: running_def)

lemma sees_simps [simp]:
  "wallets (sees th d) = overlay (th_written th) (wallets d)"
  "transactions (sees th d) = transactions d @ th_entries th"
  by (simp_all add: sees_def)

lemma as_if_now_constraints:
  assumes "as_if_now th d" and "wallet_constraints (wallets d)" and "transaction_constraints (transactions d)"
  shows "wallet_constraints (wallets (sees th d))" "transaction_constraints (transactions (sees th d))"
proof -
  from assms(1) obtain ms where ms: "length ms = length (th_entries th)"
    "tx_post (th_tx th) 0 ms d = Inr (sees th d)" by (auto simp: as_if_now_def)
  from post_all_wallets [OF ms(2) [unfolded tx_post_def]] assms(2)
  show "wallet_constraints (wallets (sees th d))" by simp
  from post_all_extends [OF ms(2) [unfolded tx_post_def]] assms(3) ms(1)
  show "transaction_constraints (transactions (sees th d))" by (cases ms) auto
qed

lemma constraints_join:
  assumes "transaction_constraints (ts @ xs)" and "transaction_constraints (ts @ ys)"
    and "\<forall>e \<in> set xs. \<forall>f \<in> set ys. \<not> clashes e f"
  shows "transaction_constraints (ts @ xs @ ys)"
  using assms by (auto simp: transaction_constraints_def clashes_def)

text \<open>A thread is not disturbed by the commit of another one.\<close>

lemma sound_thread_after_commit:
  assumes a: "sound_thread a d" and b: "sound_thread b d" and "apart_threads a b"
    and wc: "wallet_constraints (wallets d)" and tc: "transaction_constraints (transactions d)"
  shows "sound_thread b (sees a d)"
proof -
  from b obtain ms where ms: "tx_moves (th_tx b) = ms @ th_left b" "length ms = length (th_entries b)"
    "th_wanted b \<noteq> [] \<longrightarrow> ms = []" "tx_post (th_tx b) 0 ms d = Inr (sees b d)"
    by (auto simp: sound_thread_def as_if_now_def)
  from a b have now: "as_if_now a d" "as_if_now b d" by (simp_all add: sound_thread_def)
  from assms(3) have held: "set (th_held a) \<inter> set (th_held b) = {}"
    and keys: "\<forall>e \<in> set (th_entries a). \<forall>f \<in> set (th_entries b). \<not> clashes e f"
    by (simp_all add: apart_threads_def)
  from a have in_a: "WalletRow k \<in> set (th_held a)" if "k \<in> touched (th_written a)" for k
    using that by (simp add: sound_thread_def)
  from b have in_b: "WalletRow k \<in> set (th_held b)" if "k \<in> touched (th_written b)" for k
    using that by (simp add: sound_thread_def)
  have other: "touched (th_written a) \<inter> mv_wallet ` set ms = {}"
  proof (cases "ms = []")
    case False
    with ms(3) b have "set (th_held b) = set (tx_rows (th_tx b))" by (simp add: sound_thread_def)
    with ms(1) have "WalletRow k \<in> set (th_held b)" if "k \<in> mv_wallet ` set ms" for k
      using that by (auto simp: tx_rows_wallets)
    with in_a held show ?thesis by blast
  qed simp
  have "tx_post (th_tx b) 0 ms (sees a d) =
      Inr ((sees a d)\<lparr>wallets := overlay (th_written a) (wallets (sees b d)),
        transactions := transactions d @ th_entries a @ [] @ th_entries b\<rparr>)"
    unfolding tx_post_def
  proof (rule post_all_elsewhere [OF ms(4) [unfolded tx_post_def] _ _ _ _ other])
    show "transaction_constraints (transactions d @ th_entries a @ [] @ th_entries b)"
      using as_if_now_constraints(2) [OF now(1) wc tc] as_if_now_constraints(2) [OF now(2) wc tc] keys
      by (auto intro: constraints_join)
  qed simp_all
  moreover have "touched (th_written a) \<inter> touched (th_written b) = {}" using in_a in_b held by blast
  then have "(sees a d)\<lparr>wallets := overlay (th_written a) (wallets (sees b d)),
      transactions := transactions d @ th_entries a @ [] @ th_entries b\<rparr> = sees b (sees a d)"
    using overlay_commute [of "th_written a" "th_written b" "wallets d"] by (simp add: sees_def)
  ultimately have "as_if_now b (sees a d)" using ms(1-3) by (auto simp: as_if_now_def)
  with b show ?thesis by (simp add: sound_thread_def)
qed


section \<open>A step keeps it\<close>

text \<open>The steps that change thread \<open>i\<close> alone.\<close>

lemma sound_with_thread:
  assumes g: "sound g" and i: "running g i"
    and th: "\<not> th_ended th \<Longrightarrow> sound_thread th (sh_db g)"
    and apart: "\<And>j. \<not> th_ended th \<Longrightarrow> running g j \<Longrightarrow> j \<noteq> i \<Longrightarrow> apart_threads th (sh_threads g ! j)"
  shows "sound (with_thread g i th)"
proof -
  from i have less: "i < length (sh_threads g)" by (simp add: running_def)
  show ?thesis
    unfolding sound_def
  proof (intro conjI allI impI)
    fix j assume "running (with_thread g i th) j"
    with soundD(3) [OF g] th less show "sound_thread (sh_threads (with_thread g i th) ! j) (sh_db (with_thread g i th))"
      by (cases "j = i") (simp_all add: running_with_thread [OF i])
  next
    fix j k assume "running (with_thread g i th) j" "running (with_thread g i th) k" "j \<noteq> k"
    with soundD(4) [OF g] apart less apart_threads_sym
    show "apart_threads (sh_threads (with_thread g i th) ! j) (sh_threads (with_thread g i th) ! k)"
      by (cases "j = i"; cases "k = i") (simp_all add: running_with_thread [OF i])
  qed (use soundD(1,2) [OF g] in simp_all)
qed

lemma free_forD:
  "free_for g i k \<Longrightarrow> running g j \<Longrightarrow> j \<noteq> i \<Longrightarrow> k \<notin> set (th_held (sh_threads g ! j))"
  by (auto simp: free_for_def list_all_iff running_def)

lemma insertableD:
  "insertable g i e \<Longrightarrow> running g j \<Longrightarrow> j \<noteq> i \<Longrightarrow> f \<in> set (th_entries (sh_threads g ! j)) \<Longrightarrow> \<not> clashes e f"
  by (auto simp: insertable_def list_all_iff list_ex_iff running_def)

lemma posted_as_if_now:
  assumes "as_if_now th d" and "th_wanted th = []" and "th_left th = m # ms"
    and "next_post th m d = Inr (w, e)"
  shows "as_if_now (th\<lparr>th_left := ms, th_written := moved w e # th_written th,
      th_entries := th_entries th @ [e]\<rparr>) d"
proof -
  from assms(1) obtain ns where ns: "tx_moves (th_tx th) = ns @ th_left th"
    "length ns = length (th_entries th)" "tx_post (th_tx th) 0 ns d = Inr (sees th d)"
    by (auto simp: as_if_now_def)
  have "tx_post (th_tx th) 0 (ns @ [m]) d = Inr (post_entry w e (sees th d))"
    using ns(2,3) assms(4) by (simp add: tx_post_def post_all_append next_post_def)
  moreover have "post_entry w e (sees th d) = sees (th\<lparr>th_left := ms,
      th_written := moved w e # th_written th, th_entries := th_entries th @ [e]\<rparr>) d"
    by (simp add: post_entry_def sees_def overlay_Cons)
  ultimately show ?thesis using ns assms(2,3)
    by (auto simp: as_if_now_def intro!: exI [of _ "ns @ [m]"])
qed

lemma refused_fails:
  assumes "as_if_now th d" and "th_left th = m # ms" and "next_post th m d = Inl err"
  shows "tx_post (th_tx th) 0 (tx_moves (th_tx th)) d = Inl err"
proof -
  from assms(1) obtain ns where ns: "tx_moves (th_tx th) = ns @ th_left th"
    "length ns = length (th_entries th)" "tx_post (th_tx th) 0 ns d = Inr (sees th d)"
    by (auto simp: as_if_now_def)
  with assms(2,3) show ?thesis by (simp add: tx_post_def post_all_append next_post_def)
qed

lemma missing_fails:
  assumes "sound_thread th d" and "th_wanted th = k # ks" and "\<not> row_there k d"
  shows "\<exists>err. tx_post (th_tx th) 0 (tx_moves (th_tx th)) d = Inl err"
proof (rule ccontr)
  assume "\<nexists>err. tx_post (th_tx th) 0 (tx_moves (th_tx th)) d = Inl err"
  then obtain d' where "tx_post (th_tx th) 0 (tx_moves (th_tx th)) d = Inr d'"
    by (cases "tx_post (th_tx th) 0 (tx_moves (th_tx th)) d") auto
  from post_all_wallets [OF this [unfolded tx_post_def]]
  have there: "mv_wallet ` set (tx_moves (th_tx th)) \<subseteq> w_id ` set (wallets d)" by simp
  from assms(3) obtain w where k: "k = WalletRow w" "find_first (\<lambda>x. w_id x = w) (wallets d) = None"
    by (auto simp: row_there_def split: row.splits)
  from assms(1,2) have "k \<in> set (tx_rows (th_tx th))"
    by (metis in_set_conv_decomp sound_thread_def)
  with k(1) there have "w \<in> w_id ` set (wallets d)" by (auto simp: tx_rows_wallets)
  with k(2) show False by (auto simp: find_first_None_iff)
qed

lemma tick_sound: "tick g h \<Longrightarrow> sound g \<Longrightarrow> sound h"
proof (induction rule: tick.induct)
  case (take_lock g i th k ks)
  note sound_i = soundD(3) [OF take_lock.prems take_lock.hyps(1)]
  show ?case
  proof (rule sound_with_thread [OF take_lock.prems take_lock.hyps(1)])
    show "sound_thread (th\<lparr>th_wanted := ks, th_held := th_held th @ [k]\<rparr>) (sh_db g)"
      using sound_i take_lock.hyps(2,3) by (auto simp: sound_thread_def as_if_now_def sees_def)
    fix j assume "running g j" "j \<noteq> i"
    with soundD(4) [OF take_lock.prems take_lock.hyps(1), of j] free_forD [OF take_lock.hyps(4), of j] take_lock.hyps(2)
    show "apart_threads (th\<lparr>th_wanted := ks, th_held := th_held th @ [k]\<rparr>) (sh_threads g ! j)"
      by (simp add: apart_threads_def)
  qed
next
  case (post g i th m ms w e)
  note sound_i = soundD(3) [OF post.prems post.hyps(1)]
  let ?th = "th\<lparr>th_left := ms, th_written := moved w e # th_written th, th_entries := th_entries th @ [e]\<rparr>"
  show ?case
  proof (rule sound_with_thread [OF post.prems post.hyps(1)])
    from sound_i post.hyps(2) have now: "as_if_now th (sh_db g)" by (simp add: sound_thread_def)
    from now post.hyps(4) have "m \<in> set (tx_moves (th_tx th))" by (auto simp: as_if_now_def)
    then have "WalletRow (mv_wallet m) \<in> set (tx_rows (th_tx th))" by (simp add: tx_rows_wallets)
    moreover from post.hyps(5) have "w_id w = mv_wallet m"
      by (auto simp: next_post_def dest!: post_move_InrD(1) find_first_SomeD)
    ultimately show "sound_thread ?th (sh_db g)"
      using sound_i post.hyps(2,3) posted_as_if_now [OF now post.hyps(3-5)]
      by (auto simp: sound_thread_def touched_def)
    fix j assume "running g j" "j \<noteq> i"
    with soundD(4) [OF post.prems post.hyps(1), of j] insertableD [OF post.hyps(6), of j] post.hyps(2)
    show "apart_threads ?th (sh_threads g ! j)" by (auto simp: apart_threads_def)
  qed
next
  case (finish g i th)
  let ?h = "(with_thread g i (th\<lparr>th_ended := True\<rparr>))\<lparr>sh_db := sees th (sh_db g)\<rparr>"
  note sound_i = soundD(3) [OF finish.prems finish.hyps(1), folded finish.hyps(2)]
  then have now: "as_if_now th (sh_db g)" by (simp add: sound_thread_def)
  have "sound_thread (sh_threads ?h ! j) (sh_db ?h)" if "running ?h j" for j
  proof -
    from that have j: "running g j" "j \<noteq> i" by (auto simp: running_with_thread [OF finish.hyps(1)] split: if_splits)
    from sound_thread_after_commit [OF sound_i soundD(3) [OF finish.prems j(1)] _
        soundD(1,2) [OF finish.prems]] soundD(4) [OF finish.prems finish.hyps(1) j(1)] j(2) finish.hyps(2)
    show ?thesis by simp
  qed
  moreover have "apart_threads (sh_threads ?h ! j) (sh_threads ?h ! k)"
    if "running ?h j" "running ?h k" "j \<noteq> k" for j k
    using that soundD(4) [OF finish.prems, of j k]
    by (auto simp: running_with_thread [OF finish.hyps(1)] split: if_splits)
  ultimately show ?case
    using as_if_now_constraints [OF now soundD(1,2) [OF finish.prems]] unfolding sound_def by simp
qed (rule sound_with_thread; simp)+


section \<open>One transaction at a time\<close>

definition ended :: "shared \<Rightarrow> nat set" where
  "ended g = {i. i < length (sh_threads g) \<and> th_ended (sh_threads g ! i)}"

lemma th_tx_with_thread:
  "running g i \<Longrightarrow> th_tx th = th_tx (sh_threads g ! i) \<Longrightarrow>
   map th_tx (sh_threads (with_thread g i th)) = map th_tx (sh_threads g)"
  by (simp add: with_thread_def running_def map_update list_update_same_conv)

lemma ended_with_thread:
  "running g i \<Longrightarrow> ended (with_thread g i th) = (if th_ended th then insert i (ended g) else ended g)"
  by (auto simp: ended_def running_def with_thread_def nth_list_update split: if_splits)

lemma ended_db [simp]: "ended (g\<lparr>sh_db := d\<rparr>) = ended g"
  by (simp add: ended_def)

text \<open>A step ends a transaction and does to the database what its section does, or changes neither.\<close>

lemma tick_effect:
  assumes "tick g h" and "sound g"
  shows "map th_tx (sh_threads h) = map th_tx (sh_threads g) \<and>
     ((ended h = ended g \<and> sh_db h = sh_db g) \<or>
      (\<exists>i. running g i \<and> ended h = insert i (ended g) \<and>
         sh_db h = atomically (th_tx (sh_threads g ! i)) (sh_db g)))"
  using assms
proof (induction rule: tick.induct)
  case (take_lock g i th k ks)
  then show ?case by (simp add: th_tx_with_thread ended_with_thread running_def)
next
  case (post g i th m ms w e)
  then show ?case by (simp add: th_tx_with_thread ended_with_thread running_def)
next
  case (not_found g i th k ks)
  with missing_fails [of th "sh_db g" k ks] soundD(3) [OF not_found.prems, of i]
    atomically_posts [OF soundD(1) [OF not_found.prems], of "th_tx th"]
  have "atomically (th_tx th) (sh_db g) = sh_db g" by auto
  with not_found.hyps show ?case
    by (auto simp: th_tx_with_thread ended_with_thread intro!: exI [of _ i])
next
  case (refuse g i th m ms err)
  with refused_fails [of th "sh_db g" m ms err] soundD(3) [OF refuse.prems, of i]
    atomically_posts [OF soundD(1) [OF refuse.prems], of "th_tx th"]
  have "atomically (th_tx th) (sh_db g) = sh_db g" by (auto simp: sound_thread_def)
  with refuse.hyps show ?case
    by (auto simp: th_tx_with_thread ended_with_thread intro!: exI [of _ i])
next
  case (finish g i th)
  with soundD(3) [OF finish.prems, of i] have "tx_post (th_tx th) 0 (tx_moves (th_tx th)) (sh_db g) = Inr (sees th (sh_db g))"
    by (auto simp: sound_thread_def as_if_now_def)
  with atomically_posts [OF soundD(1) [OF finish.prems], of "th_tx th"]
  have "atomically (th_tx th) (sh_db g) = sees th (sh_db g)" by simp
  moreover have "ended (with_thread g i (th\<lparr>th_ended := True\<rparr>)) = insert i (ended g)"
    "map th_tx (sh_threads (with_thread g i (th\<lparr>th_ended := True\<rparr>))) = map th_tx (sh_threads g)"
    using th_tx_with_thread [OF finish.hyps(1)] ended_with_thread [OF finish.hyps(1)] finish.hyps(2)
    by simp_all
  ultimately show ?case using finish.hyps(1,2) by (intro conjI disjI2 exI [of _ i]) simp_all
qed

lemma sound_start:
  assumes "wallet_constraints (wallets d)" and "transaction_constraints (transactions d)"
  shows "sound (all_start d txs)"
  using assms
  by (auto simp: sound_def all_start_def running_def start_thread_def sound_thread_def as_if_now_def
      sees_def touched_def apart_threads_def tx_post_def)

lemma ticks_sound: "ticks n g h \<Longrightarrow> sound g \<Longrightarrow> sound h"
  by (induction rule: ticks.induct) (auto intro: tick_sound)

lemma ticks_serial:
  assumes "ticks n (all_start d txs) h" and "sound (all_start d txs)"
  shows "map th_tx (sh_threads h) = txs \<and>
     (\<exists>order. distinct order \<and> set order = ended h \<and>
        sh_db h = fold (\<lambda>i. atomically (txs ! i)) order d)"
  using assms
proof (induction n "all_start d txs" h rule: ticks.induct)
  case none
  have "ended (all_start d txs) = {}" by (auto simp: ended_def all_start_def start_thread_def)
  then show ?case by (auto simp: all_start_def comp_def start_thread_def intro!: exI [of _ "[]"])
next
  case (more n h k)
  then obtain order where o: "distinct order" "set order = ended h"
    "sh_db h = fold (\<lambda>i. atomically (txs ! i)) order d" and txs: "map th_tx (sh_threads h) = txs" by auto
  from tick_effect [OF more.hyps(3) ticks_sound [OF more.hyps(1) more.prems]] txs
  show ?case
  proof (elim conjE disjE exE)
    fix i assume i: "running h i" "ended k = insert i (ended h)"
      "sh_db k = atomically (th_tx (sh_threads h ! i)) (sh_db h)"
    from i(1) txs have "th_tx (sh_threads h ! i) = txs ! i" by (auto simp: running_def)
    moreover from i(1) o(2) have "i \<notin> set order" by (simp add: ended_def running_def)
    moreover assume "map th_tx (sh_threads k) = map th_tx (sh_threads h)"
    ultimately show ?thesis using o i(2,3) txs by (auto intro!: exI [of _ "order @ [i]"])
  qed (use o txs in auto)
qed

lemma atomically_ledger_inv:
  assumes "ledger_inv d"
  shows "ledger_inv (atomically tx d)"
proof -
  let ?s = "(tx_session tx)\<lparr>committed := d, work := d\<rparr>"
  have ends: "ledger_inv (committed (snd (m ?s)))" if "keeps (both ledger_inv) m" for m :: "'a handler"
  proof -
    from assms have "both ledger_inv ?s" by (simp add: both_def)
    with that have "both ledger_inv (snd (m ?s))" by (simp add: keeps_def)
    then show ?thesis by (simp add: both_def)
  qed
  show ?thesis
    using ends [OF apply_entry_locked_keeps] ends [OF apply_transfer_locked_keeps]
    by (simp add: atomically_def Let_def split: money_section.split)
qed

section \<open>No circle of waiting\<close>

text \<open>Each takes its rows in ascending order, so whoever waits for the greatest row waits for nobody.\<close>

lemma ascending_wait:
  fixes held wanted :: "nat \<Rightarrow> 'r::linorder list"
  assumes "finite I" and "I \<noteq> {}" and "\<And>i. i \<in> I \<Longrightarrow> wanted i \<noteq> []"
    and "\<And>i. i \<in> I \<Longrightarrow> sorted_wrt (<) (held i @ wanted i)"
  shows "\<exists>i \<in> I. \<forall>j \<in> I. hd (wanted i) \<notin> set (held j)"
proof -
  from assms(1,2) have "Max ((\<lambda>i. hd (wanted i)) ` I) \<in> (\<lambda>i. hd (wanted i)) ` I" by (intro Max_in) auto
  then obtain i where i: "i \<in> I" "hd (wanted i) = Max ((\<lambda>i. hd (wanted i)) ` I)" by auto
  have "hd (wanted i) \<notin> set (held j)" if j: "j \<in> I" for j
  proof
    assume "hd (wanted i) \<in> set (held j)"
    moreover from assms(3) [OF j] have "hd (wanted j) \<in> set (wanted j)" by simp
    ultimately have "hd (wanted i) < hd (wanted j)"
      using assms(4) [OF j] by (auto simp: sorted_wrt_append)
    moreover have "hd (wanted j) \<le> hd (wanted i)" using i(2) j assms(1) by simp
    ultimately show False by simp
  qed
  with i(1) show ?thesis by blast
qed


lemma post_all_entries:
  "post_all t ids n ms d = Inr d' \<Longrightarrow> transactions d' = transactions d @ es \<Longrightarrow>
   map t_reference es = map mv_reference ms \<and> map t_id es = map ids [n..<n + length ms]"
proof (induction ms arbitrary: n d es)
  case (Cons m ms)
  then obtain w e where p: "post_move t (ids n) m d = Inr (w, e)"
    and r: "post_all t ids (Suc n) ms (post_entry w e d) = Inr d'"
    by (auto split: sum.splits)
  from post_all_extends [OF r] Cons.prems(2) obtain fs where fs: "es = e # fs"
    "transactions d' = transactions (post_entry w e d) @ fs" by (auto simp: post_entry_def)
  have "[n..<n + length (m # ms)] = n # [Suc n..<Suc n + length ms]"
    by (subst upt_conv_Cons) simp_all
  with Cons.IH [OF r fs(2)] post_move_InrD(3) [OF p] fs(1) show ?case
    by (simp add: ledger_entry_def Let_def split_beta)
qed simp

lemma own_entries:
  assumes "sound_thread th d" and "f \<in> set (th_entries th)"
  shows "\<exists>m \<in> set (tx_moves (th_tx th)). t_reference f = mv_reference m \<and> WalletRow (mv_wallet m) \<in> set (th_held th)"
    "\<exists>k < length (tx_moves (th_tx th)). t_id f = tx_id (th_tx th) k"
proof -
  from assms(1) obtain ms where ms: "tx_moves (th_tx th) = ms @ th_left th" "length ms = length (th_entries th)"
    "th_wanted th \<noteq> [] \<longrightarrow> ms = []" "tx_post (th_tx th) 0 ms d = Inr (sees th d)"
    by (auto simp: sound_thread_def as_if_now_def)
  from post_all_entries [OF ms(4) [unfolded tx_post_def], of "th_entries th"]
  have refs: "map t_reference (th_entries th) = map mv_reference ms"
    and ids: "map t_id (th_entries th) = map (tx_id (th_tx th)) [0..<length ms]" by simp_all
  from assms(2) ms(2,3) have "th_wanted th = []" by auto
  with assms(1) have held: "set (th_held th) = set (tx_rows (th_tx th))" by (simp add: sound_thread_def)
  from assms(2) have "t_reference f \<in> set (map t_reference (th_entries th))" by simp
  with refs obtain m where "m \<in> set ms" "t_reference f = mv_reference m" by auto
  with ms(1) held show "\<exists>m \<in> set (tx_moves (th_tx th)). t_reference f = mv_reference m \<and>
      WalletRow (mv_wallet m) \<in> set (th_held th)"
    by (intro bexI [of _ m]) (auto simp: tx_rows_wallets)
  from assms(2) have "t_id f \<in> set (map t_id (th_entries th))" by simp
  with ids obtain k where "k < length ms" "t_id f = tx_id (th_tx th) k" by auto
  with ms(1) show "\<exists>k < length (tx_moves (th_tx th)). t_id f = tx_id (th_tx th) k"
    by (intro exI [of _ k]) simp
qed

text \<open>
  Equal references belong to the same wallet (a reference is made from the agreement or the payment
  it is for), and two requests draw different UUIDs.
\<close>

definition compatible :: "money_tx \<Rightarrow> money_tx \<Rightarrow> bool" where
  "compatible a b \<longleftrightarrow>
     list_all (\<lambda>m. list_all (\<lambda>n. mv_reference m = mv_reference n \<longrightarrow> mv_wallet m = mv_wallet n) (tx_moves b))
       (tx_moves a) \<and>
     list_all (\<lambda>k. list_all (\<lambda>l. tx_id a k \<noteq> tx_id b l) [0..<length (tx_moves b)]) [0..<length (tx_moves a)]"

definition all_compatible :: "money_tx list \<Rightarrow> bool" where
  "all_compatible txs \<longleftrightarrow>
     list_all (\<lambda>i. list_all (\<lambda>j. i \<noteq> j \<longrightarrow> compatible (txs ! i) (txs ! j)) [0..<length txs]) [0..<length txs]"

lemma compatibleD:
  "compatible a b \<Longrightarrow> k < length (tx_moves a) \<Longrightarrow> l < length (tx_moves b) \<Longrightarrow> tx_id a k \<noteq> tx_id b l"
  "compatible a b \<Longrightarrow> m \<in> set (tx_moves a) \<Longrightarrow> n \<in> set (tx_moves b) \<Longrightarrow>
   mv_reference m = mv_reference n \<Longrightarrow> mv_wallet m = mv_wallet n"
  by (auto simp: compatible_def list_all_iff)

lemma all_compatibleD:
  "all_compatible txs \<Longrightarrow> i < length txs \<Longrightarrow> j < length txs \<Longrightarrow> i \<noteq> j \<Longrightarrow> compatible (txs ! i) (txs ! j)"
  by (auto simp: all_compatible_def list_all_iff)

lemma no_clash:
  assumes g: "sound g" and ij: "running g i" "running g j" "i \<noteq> j" and th: "th = sh_threads g ! i"
    and ready: "th_wanted th = []" "th_left th = m # ms" "next_post th m (sh_db g) = Inr (w, e)"
    and c: "compatible (th_tx th) (th_tx (sh_threads g ! j))"
    and f: "f \<in> set (th_entries (sh_threads g ! j))"
  shows "\<not> clashes e f"
proof -
  note sound_i = soundD(3) [OF g ij(1), folded th] and sound_j = soundD(3) [OF g ij(2)]
  from sound_i obtain ns where ns: "tx_moves (th_tx th) = ns @ m # ms" "length ns = length (th_entries th)"
    using ready(2) by (auto simp: sound_thread_def as_if_now_def)
  from ready(3) have e: "t_reference e = mv_reference m" "t_id e = tx_id (th_tx th) (length (th_entries th))"
    by (auto simp: next_post_def ledger_entry_def Let_def split_beta dest!: post_move_InrD(3))
  from own_entries(2) [OF sound_j f] obtain k where "k < length (tx_moves (th_tx (sh_threads g ! j)))"
    "t_id f = tx_id (th_tx (sh_threads g ! j)) k" by blast
  moreover from ns have "length (th_entries th) < length (tx_moves (th_tx th))" by simp
  ultimately have ids: "t_id e \<noteq> t_id f" using compatibleD(1) [OF c] e(2) by simp
  have "t_reference e \<noteq> t_reference f"
  proof
    assume same: "t_reference e = t_reference f"
    from own_entries(1) [OF sound_j f] obtain n where n: "n \<in> set (tx_moves (th_tx (sh_threads g ! j)))"
      "t_reference f = mv_reference n" "WalletRow (mv_wallet n) \<in> set (th_held (sh_threads g ! j))" by blast
    from ns(1) have "m \<in> set (tx_moves (th_tx th))" by simp
    with compatibleD(2) [OF c this n(1)] e(1) same n(2) have "mv_wallet m = mv_wallet n" by simp
    moreover have "WalletRow (mv_wallet m) \<in> set (tx_rows (th_tx th))" using ns(1) by (simp add: tx_rows_wallets)
    then have "WalletRow (mv_wallet m) \<in> set (th_held th)"
      using sound_i ready(1) by (simp add: sound_thread_def)
    ultimately show False using n(3) soundD(4) [OF g ij] th by (auto simp: apart_threads_def)
  qed
  with ids show ?thesis by (simp add: clashes_def)
qed

lemma progress:
  assumes g: "sound g" and "running g i0" and c: "all_compatible (map th_tx (sh_threads g))"
  shows "\<exists>h. tick g h"
proof (cases "\<exists>i. running g i \<and> th_wanted (sh_threads g ! i) = []")
  case True
  then obtain i where i: "running g i" "th_wanted (sh_threads g ! i) = []" by blast
  let ?th = "sh_threads g ! i"
  show ?thesis
  proof (cases "th_left ?th")
    case Nil
    from finish [OF i(1) refl i(2) this] show ?thesis by blast
  next
    case (Cons m ms)
    show ?thesis
    proof (cases "next_post ?th m (sh_db g)")
      case (Inl err)
      from refuse [OF i(1) refl i(2) Cons this] show ?thesis by blast
    next
      case (Inr x)
      obtain w e where "x = (w, e)" by fastforce
      note p = Inr [unfolded this]
      have "\<not> clashes e f" if "running g j" "j \<noteq> i" "f \<in> set (th_entries (sh_threads g ! j))" for j f
      proof (rule no_clash [OF g i(1) that(1) _ refl i(2) Cons p _ that(3)])
        show "compatible (th_tx ?th) (th_tx (sh_threads g ! j))"
          using all_compatibleD [OF c, of i j] i(1) that(1,2) by (simp add: running_def)
      qed (use that(2) in simp)
      then have "insertable g i e" by (auto simp: insertable_def list_all_iff list_ex_iff)
      from post [OF i(1) refl i(2) Cons p this] show ?thesis by blast
    qed
  qed
next
  case False
  have fin: "finite {i. running g i}" by (rule finite_subset [of _ "{..<length (sh_threads g)}"]) (auto simp: running_def)
  have "\<exists>i \<in> {i. running g i}. \<forall>j \<in> {i. running g i}.
      hd (th_wanted (sh_threads g ! i)) \<notin> set (th_held (sh_threads g ! j))"
  proof (rule ascending_wait [OF fin])
    fix i assume "i \<in> {i. running g i}"
    with soundD(3) [OF g, of i] tx_rows_ascend
    show "sorted_wrt (<) (th_held (sh_threads g ! i) @ th_wanted (sh_threads g ! i))"
      by (simp add: sound_thread_def)
  qed (use assms(2) False in auto)
  then obtain i where i: "running g i"
    "\<And>j. running g j \<Longrightarrow> hd (th_wanted (sh_threads g ! i)) \<notin> set (th_held (sh_threads g ! j))" by auto
  from i(1) False obtain k ks where k: "th_wanted (sh_threads g ! i) = k # ks"
    by (cases "th_wanted (sh_threads g ! i)") auto
  with i have "free_for g i k" by (simp add: free_for_def list_all_iff)
  then show ?thesis
    using take_lock [OF i(1) refl k] not_found [OF i(1) refl k] by blast
qed

section \<open>Every run ends\<close>

definition thread_work :: "thread \<Rightarrow> nat" where
  "thread_work th = (if th_ended th then 0 else length (th_wanted th) + length (th_left th) + 1)"

definition work_left :: "shared \<Rightarrow> nat" where
  "work_left g = sum_list (map thread_work (sh_threads g))"

lemma work_with_thread:
  assumes "running g i" and "thread_work th < thread_work (sh_threads g ! i)"
  shows "work_left (with_thread g i th) < work_left g"
proof -
  let ?xs = "map thread_work (sh_threads g)"
  from assms(1) have i: "i < length ?xs" by (simp add: running_def)
  have "work_left (with_thread g i th) = sum_list ?xs + thread_work th - ?xs ! i"
    using i by (simp add: work_left_def with_thread_def map_update sum_list_update)
  moreover have "?xs ! i \<le> sum_list ?xs" using i by (intro elem_le_sum_list)
  ultimately show ?thesis using assms(2) i by (simp add: work_left_def)
qed

lemma tick_work: "tick g h \<Longrightarrow> work_left h < work_left g"
proof (induction rule: tick.induct)
  case (finish g i th)
  then have "work_left (with_thread g i (th\<lparr>th_ended := True\<rparr>)) < work_left g"
    by (intro work_with_thread) (auto simp: thread_work_def running_def)
  then show ?case by (simp add: work_left_def)
qed (auto intro!: work_with_thread simp: thread_work_def running_def)

lemma ticks_bounded: "ticks n g h \<Longrightarrow> n + work_left h \<le> work_left g"
  by (induction rule: ticks.induct) (auto dest: tick_work)

lemma ticks_first: "ticks n h k \<Longrightarrow> tick g h \<Longrightarrow> ticks (Suc n) g k"
  by (induction rule: ticks.induct) (auto intro: ticks.intros)

lemma ticks_complete:
  assumes "sound g" and "all_compatible (map th_tx (sh_threads g))"
  shows "\<exists>n h. ticks n g h \<and> ended h = {..<length (sh_threads g)}"
  using assms
proof (induction g rule: measure_induct_rule [where f = work_left])
  case (less g)
  show ?case
  proof (cases "\<exists>i. running g i")
    case False
    then have "ended g = {..<length (sh_threads g)}" by (auto simp: ended_def running_def)
    then show ?thesis using ticks.none by blast
  next
    case True
    with progress [OF less.prems(1) _ less.prems(2)] obtain h where h: "tick g h" by blast
    from tick_effect [OF h less.prems(1)] have tx: "map th_tx (sh_threads h) = map th_tx (sh_threads g)" by simp
    from arg_cong [OF this, of length] have len: "length (sh_threads h) = length (sh_threads g)" by simp
    from less.IH [OF tick_work [OF h] tick_sound [OF h less.prems(1)]] less.prems(2) tx len
    obtain n k where "ticks n h k" "ended k = {..<length (sh_threads g)}" by auto
    with ticks_first [OF _ h] show ?thesis by blast
  qed
qed


section \<open>Properties\<close>



text \<open>Alice's escrow is released to Bob while an adjustment moves money the other way.\<close>

definition releasing_tx :: money_tx where
  "releasing_tx =
     \<lparr>tx_section = Transfer ''wa'' ''wb'' ''esc_rel_ag'' (leg ''ua'' ESCROW_RELEASE_OUT 40)
        (leg ''ub'' ESCROW_RELEASE_IN 40),
      tx_paystack = None, tx_session = sample_session money_db\<rparr>"

definition adjusting_tx :: money_tx where
  "adjusting_tx =
     \<lparr>tx_section = Transfer ''wb'' ''wa'' ''adj_1'' (leg ''ub'' ADJUSTMENT_DEBIT 5)
        (leg ''ua'' ADJUSTMENT_CREDIT 5),
      tx_paystack = None, tx_session = (sample_session money_db)\<lparr>uuid_next := 10\<rparr>\<rparr>"

lemma crossing_txs:
  "all_compatible [releasing_tx, adjusting_tx]" "tx_rows releasing_tx = [WalletRow ''wa'', WalletRow ''wb'']"
  "tx_rows adjusting_tx = [WalletRow ''wa'', WalletRow ''wb'']"
  by code_simp+

lemma money_db_sound: "ledger_inv money_db"
  using money_ledger_inv by (simp add: sample_defs)



end
