(* ===== verification/Backfill.thy ===== *)
theory Backfill
  imports Ledger "HOL-Library.Multiset"
begin

text \<open>
  \<^verbatim>\<open>src/alembic/versions/93fd3622d2c5_backfill_ledger_from_legacy_wallet_.py\<close>: the data migration
  that gives every wallet funded before the ledger existed the entries its balance comes from.

  The rows are those of the revision (the columns it reads and writes are the ones of \<open>wallet\<close>,
  \<open>transaction\<close> and \<open>paystack_transaction\<close>).  A decimal written into the metadata as text is kept
  as its value.  \<open>run_migration\<close> is the transaction \<^verbatim>\<open>alembic/env.py\<close> runs a migration in.
  \<open>ORDER BY created_at\<close> leaves the order of equal keys open; the model takes the order of the
  table.  What is shown: the upgrade succeeds on every legacy state, establishes the ledger
  invariant of \<^verbatim>\<open>Ledger\<close>, makes the redelivery of an old charge a replay, and is undone by the
  downgrade up to the bucket the balance is kept in.
\<close>

section \<open>The revision\<close>

definition run_migration :: "unit handler \<Rightarrow> unit handler" where
  "run_migration m = try_except (bnd m (\<lambda>_. commit)) (\<lambda>e. bnd rollback (\<lambda>_. raise e))"

definition backfill_entry ::
  "id \<Rightarrow> wallet \<Rightarrow> string \<Rightarrow> money \<Rightarrow> money \<Rightarrow> ledger_entry_type \<Rightarrow> string \<Rightarrow> metadata \<Rightarrow> id option \<Rightarrow> time \<Rightarrow>
   transaction"
where
  "backfill_entry entry_id w reference amount balance_after entry_type description note ptxn_id
     created_at =
     \<lparr>t_id = entry_id, t_user_id = w_user_id w, t_wallet_id = w_id w, t_reference = reference,
      t_group_id = None, t_agreement_id = None, t_participant_id = None, t_condition_id = None,
      t_paystack_transaction_id = ptxn_id, t_counterparty_user_id = None, t_amount = amount,
      t_currency = ''NGN'', t_available_delta = amount, t_escrow_delta = 0,
      t_balance_after = balance_after, t_escrow_after = 0, t_type = entry_type,
      t_direction = CREDIT, t_status = ENTRY_COMPLETED, t_description = Some description,
      t_metadata = Some note, t_created_at = created_at, t_processed_at = Some created_at\<rparr>"

text \<open>A charge and the opening balance, as the two \<^verbatim>\<open>execute\<close> calls pass them.\<close>

definition deposit_entry :: "id \<Rightarrow> wallet \<Rightarrow> money \<Rightarrow> paystack_transaction \<Rightarrow> transaction" where
  "deposit_entry u w running p =
     backfill_entry u w (''dep_'' @ pt_reference p) (pt_amount p) running DEPOSIT ''Funded wallet''
       [(''backfilled'', JBool True)] (Some (pt_id p)) (pt_created_at p)"

definition opening_entry :: "id \<Rightarrow> wallet \<Rightarrow> money \<Rightarrow> money \<Rightarrow> time \<Rightarrow> transaction" where
  "opening_entry u w residual held t =
     backfill_entry u w (''opening_'' @ w_id w) residual held ADJUSTMENT_CREDIT ''Opening balance''
       [(''backfilled'', JBool True),
        (''reason'', JStr ''balance not explained by recorded deposits''),
        (''legacy_available'', JDec (w_available_balance w)),
        (''legacy_escrow'', JDec (w_escrow_balance w))] None t"

definition legacy_wallet :: "transaction list \<Rightarrow> wallet \<Rightarrow> bool" where
  "legacy_wallet ts w \<longleftrightarrow>
     \<not> list_ex (\<lambda>t. t_wallet_id t = w_id w) ts \<and>
     (0 < w_available_balance w \<or> 0 < w_escrow_balance w)"

definition legacy_total :: "wallet \<Rightarrow> money" where
  "legacy_total w = w_available_balance w + w_escrow_balance w"

definition is_old_charge :: "id \<Rightarrow> paystack_transaction \<Rightarrow> bool" where
  "is_old_charge user_id p \<longleftrightarrow>
     pt_user_id p = user_id \<and> pt_status p = TX_SUCCESS \<and> pt_transaction_type p = PT_ESCROW_DEPOSIT"

fun backfill_deposits :: "wallet \<Rightarrow> money \<Rightarrow> money \<Rightarrow> paystack_transaction list \<Rightarrow> money handler" where
  "backfill_deposits w held running [] = return running"
| "backfill_deposits w held running (p # ps) =
     (if held < running + pt_amount p then return running
      else bnd uuid4 (\<lambda>u.
           bnd (insert_row transaction_t (deposit_entry u w (running + pt_amount p) p)) (\<lambda>_.
           backfill_deposits w held (running + pt_amount p) ps)))"

definition backfill_residual :: "wallet \<Rightarrow> money \<Rightarrow> money \<Rightarrow> unit handler" where
  "backfill_residual w held running =
     when_m (0 < held - running)
       (bnd uuid4 (\<lambda>u. bnd now (\<lambda>t.
        insert_row transaction_t (opening_entry u w (held - running) held t))))"

definition backfill_wallet :: "wallet \<Rightarrow> unit handler" where
  "backfill_wallet w =
     bnd (select paystack_t (is_old_charge (w_user_id w))) (\<lambda>ps.
     bnd (backfill_deposits w (legacy_total w) 0 (sort_key pt_created_at ps)) (\<lambda>running.
     bnd (backfill_residual w (legacy_total w) running) (\<lambda>_.
     bnd now (\<lambda>t.
     save_row wallet_t
       (w\<lparr>w_available_balance := legacy_total w, w_escrow_balance := 0, w_updated_at := t\<rparr>)))))"

definition drift :: "db \<Rightarrow> nat" where
  "drift d =
     length (filter (\<lambda>w. w_available_balance w \<noteq> ledger_sum t_available_delta (w_id w) (transactions d) \<or>
                         w_escrow_balance w \<noteq> ledger_sum t_escrow_delta (w_id w) (transactions d))
              (wallets d))"

definition backfill_upgrade :: "unit handler" where
  "backfill_upgrade =
     bnd (reads (\<lambda>s. filter (legacy_wallet (transactions (work s))) (wallets (work s)))) (\<lambda>legacy.
     bnd (for_each backfill_wallet legacy) (\<lambda>_.
     bnd (reads (\<lambda>s. drift (work s))) (\<lambda>n.
     if n \<noteq> 0 then raise RuntimeError else return ())))"

definition backfilled :: "transaction \<Rightarrow> bool" where
  "backfilled t \<longleftrightarrow>
     (case t_metadata t of None \<Rightarrow> False | Some m \<Rightarrow> map_of m ''backfilled'' = Some (JBool True))"

definition unfill_wallet :: "id \<Rightarrow> unit handler" where
  "unfill_wallet wallet_id =
     bnd (get_row wallet_t wallet_id) (\<lambda>x. case x of
       None \<Rightarrow> return ()
     | Some w \<Rightarrow>
         save_row wallet_t
           (w\<lparr>w_escrow_balance := w_escrow_balance w + w_available_balance w,
              w_available_balance := 0\<rparr>))"

definition backfill_downgrade :: "unit handler" where
  "backfill_downgrade =
     bnd (select transaction_t backfilled) (\<lambda>ts.
     bnd (delete_rows transaction_t backfilled) (\<lambda>_.
     for_each unfill_wallet (remdups (map t_wallet_id ts))))"

section \<open>The entries a run writes\<close>

lemma backfill_entry_simps [simp]:
  "t_id (backfill_entry u w r a b ty ds m pt t) = u"
  "t_wallet_id (backfill_entry u w r a b ty ds m pt t) = w_id w"
  "t_reference (backfill_entry u w r a b ty ds m pt t) = r"
  "t_amount (backfill_entry u w r a b ty ds m pt t) = a"
  "t_available_delta (backfill_entry u w r a b ty ds m pt t) = a"
  "t_escrow_delta (backfill_entry u w r a b ty ds m pt t) = 0"
  "t_balance_after (backfill_entry u w r a b ty ds m pt t) = b"
  "t_escrow_after (backfill_entry u w r a b ty ds m pt t) = 0"
  "t_type (backfill_entry u w r a b ty ds m pt t) = ty"
  "t_direction (backfill_entry u w r a b ty ds m pt t) = CREDIT"
  "t_metadata (backfill_entry u w r a b ty ds m pt t) = Some m"
  by (simp_all add: backfill_entry_def)

lemmas written_entry_defs = deposit_entry_def opening_entry_def

lemma written_backfilled [simp]:
  "backfilled (deposit_entry u w b p)" "backfilled (opening_entry u w r b t)"
  by (simp_all add: backfilled_def written_entry_defs)

text \<open>The charges the loop takes before it breaks, and the entries it writes for them.\<close>

fun taken :: "money \<Rightarrow> money \<Rightarrow> paystack_transaction list \<Rightarrow> paystack_transaction list" where
  "taken held running [] = []"
| "taken held running (p # ps) =
     (if held < running + pt_amount p then [] else p # taken held (running + pt_amount p) ps)"

fun deposit_entries :: "(nat \<Rightarrow> string) \<Rightarrow> nat \<Rightarrow> wallet \<Rightarrow> money \<Rightarrow> paystack_transaction list \<Rightarrow> transaction list"
where
  "deposit_entries ids n w running [] = []"
| "deposit_entries ids n w running (p # ps) =
     deposit_entry (ids n) w (running + pt_amount p) p #
     deposit_entries ids (Suc n) w (running + pt_amount p) ps"

definition opening_entries :: "(nat \<Rightarrow> string) \<Rightarrow> nat \<Rightarrow> wallet \<Rightarrow> money \<Rightarrow> time \<Rightarrow> transaction list" where
  "opening_entries ids n w running t =
     (if 0 < legacy_total w - running
      then [opening_entry (ids n) w (legacy_total w - running) (legacy_total w) t] else [])"

definition taken_of :: "paystack_transaction list \<Rightarrow> wallet \<Rightarrow> paystack_transaction list" where
  "taken_of ps w =
     taken (legacy_total w) 0 (sort_key pt_created_at (filter (is_old_charge (w_user_id w)) ps))"

definition wallet_entries ::
  "paystack_transaction list \<Rightarrow> time \<Rightarrow> (nat \<Rightarrow> string) \<Rightarrow> nat \<Rightarrow> wallet \<Rightarrow> transaction list"
where
  "wallet_entries ps t ids n w =
     (let qs = taken_of ps w
      in deposit_entries ids n w 0 qs @
         opening_entries ids (n + length qs) w (sum_list (map pt_amount qs)) t)"

fun all_entries ::
  "paystack_transaction list \<Rightarrow> time \<Rightarrow> (nat \<Rightarrow> string) \<Rightarrow> nat \<Rightarrow> wallet list \<Rightarrow> transaction list"
where
  "all_entries ps t ids n [] = []"
| "all_entries ps t ids n (w # ws) =
     wallet_entries ps t ids n w @
     all_entries ps t ids (n + length (wallet_entries ps t ids n w)) ws"

definition opened :: "time \<Rightarrow> wallet \<Rightarrow> wallet" where
  "opened t w =
     w\<lparr>w_available_balance := legacy_total w, w_escrow_balance := 0, w_updated_at := t\<rparr>"

lemma opened_simps [simp]:
  "w_id (opened t w) = w_id w" "w_user_id (opened t w) = w_user_id w"
  "w_available_balance (opened t w) = legacy_total w" "w_escrow_balance (opened t w) = 0"
  by (simp_all add: opened_def)

lemma length_deposit_entries [simp]: "length (deposit_entries ids n w r ps) = length ps"
  by (induction ps arbitrary: n r) auto

text \<open>The programs write exactly these, when the table takes them.\<close>

lemma backfill_deposits_eq:
  assumes "transaction_constraints (transactions (work s) @
             deposit_entries (uuid_supply s) (uuid_next s) w running (taken held running ps))"
    and "list_all transaction_fits
           (deposit_entries (uuid_supply s) (uuid_next s) w running (taken held running ps))"
  shows "backfill_deposits w held running ps s =
     (Inr (running + sum_list (map pt_amount (taken held running ps))),
      s\<lparr>uuid_next := uuid_next s + length (taken held running ps),
        work := (work s)\<lparr>transactions := transactions (work s) @
           deposit_entries (uuid_supply s) (uuid_next s) w running (taken held running ps)\<rparr>\<rparr>)"
  using assms
proof (induction ps arbitrary: s running)
  case (Cons p ps)
  show ?case
  proof (cases "held < running + pt_amount p")
    case False
    let ?e = "deposit_entry (uuid_supply s (uuid_next s)) w (running + pt_amount p) p"
    let ?s = "s\<lparr>uuid_next := Suc (uuid_next s),
               work := (work s)\<lparr>transactions := transactions (work s) @ [?e]\<rparr>\<rparr>"
    from False Cons.prems have "transaction_constraints (transactions (work s) @ [?e])"
      by (intro transaction_constraints_prefix [of "transactions (work s) @ [?e]"
            "deposit_entries (uuid_supply s) (Suc (uuid_next s)) w (running + pt_amount p)
               (taken held (running + pt_amount p) ps)"]) simp
    with False Cons.prems(2) have
      "backfill_deposits w held running (p # ps) s =
       backfill_deposits w held (running + pt_amount p) ps ?s"
      by (simp add: step table_defs)
    with False Cons.IH [of ?s "running + pt_amount p"] Cons.prems show ?thesis
      by (simp add: add.assoc)
  qed simp
qed simp

lemma wallet_entries_length:
  "length (wallet_entries ps t ids n w) =
     length (taken_of ps w) +
     length (opening_entries ids (n + length (taken_of ps w)) w
               (sum_list (map pt_amount (taken_of ps w))) t)"
  by (simp add: wallet_entries_def Let_def)

lemma backfill_residual_eq:
  assumes "transaction_constraints (transactions (work s) @
             opening_entries (uuid_supply s) (uuid_next s) w running (clock s))"
    and "list_all transaction_fits
           (opening_entries (uuid_supply s) (uuid_next s) w running (clock s))"
  shows "backfill_residual w (legacy_total w) running s =
     (Inr (), s\<lparr>uuid_next := uuid_next s +
         length (opening_entries (uuid_supply s) (uuid_next s) w running (clock s)),
       work := (work s)\<lparr>transactions := transactions (work s) @
         opening_entries (uuid_supply s) (uuid_next s) w running (clock s)\<rparr>\<rparr>)"
  using assms
  by (cases "0 < legacy_total w - running")
    (simp_all add: backfill_residual_def opening_entries_def run step table_defs)

lemma backfill_wallet_eq:
  fixes s :: session and w :: wallet
  defines "es \<equiv> wallet_entries (paystack_transactions (work s)) (clock s) (uuid_supply s)
                  (uuid_next s) w"
  assumes tc: "transaction_constraints (transactions (work s) @ es)"
    and fit: "list_all transaction_fits es" "wallet_fits (opened (clock s) w)"
    and wc: "wallet_constraints (replace_by w_id (opened (clock s) w) (wallets (work s)))"
  shows "backfill_wallet w s =
     (Inr (), s\<lparr>uuid_next := uuid_next s + length es,
        work := (work s)\<lparr>transactions := transactions (work s) @ es,
          wallets := replace_by w_id (opened (clock s) w) (wallets (work s))\<rparr>\<rparr>)"
proof -
  let ?qs = "taken_of (paystack_transactions (work s)) w"
  let ?ds = "deposit_entries (uuid_supply s) (uuid_next s) w 0 ?qs"
  let ?os = "opening_entries (uuid_supply s) (uuid_next s + length ?qs) w
               (sum_list (map pt_amount ?qs)) (clock s)"
  let ?s = "s\<lparr>uuid_next := uuid_next s + length ?qs,
              work := (work s)\<lparr>transactions := transactions (work s) @ ?ds\<rparr>\<rparr>"
  have es: "es = ?ds @ ?os" by (simp add: es_def wallet_entries_def Let_def)
  from tc have "transaction_constraints (transactions (work s) @ ?ds)"
    by (intro transaction_constraints_prefix [of "transactions (work s) @ ?ds" ?os]) (simp add: es)
  with fit(1) have dep: "backfill_deposits w (legacy_total w) 0
      (sort_key pt_created_at (filter (is_old_charge (w_user_id w)) (paystack_transactions (work s)))) s =
      (Inr (sum_list (map pt_amount ?qs)), ?s)"
    using backfill_deposits_eq [of s w 0 "legacy_total w"] by (simp add: es taken_of_def)
  from tc fit(1) have residual:
    "backfill_residual w (legacy_total w) (sum_list (map pt_amount ?qs)) ?s =
      (Inr (), ?s\<lparr>uuid_next := uuid_next s + length es,
         work := (work s)\<lparr>transactions := transactions (work s) @ es\<rparr>\<rparr>)"
    using backfill_residual_eq [of ?s w "sum_list (map pt_amount ?qs)"]
    by (simp add: es add.assoc)
  have saved: "save_row wallet_t (opened (clock s) w) (?s\<lparr>uuid_next := uuid_next s + length es,
         work := (work s)\<lparr>transactions := transactions (work s) @ es\<rparr>\<rparr>) =
      (Inr (), s\<lparr>uuid_next := uuid_next s + length es,
        work := (work s)\<lparr>transactions := transactions (work s) @ es,
          wallets := replace_by w_id (opened (clock s) w) (wallets (work s))\<rparr>\<rparr>)"
    using fit(2) wc by (simp add: save_row_eq table_defs)
  have "backfill_wallet w s = bnd (backfill_deposits w (legacy_total w) 0
      (sort_key pt_created_at (filter (is_old_charge (w_user_id w)) (paystack_transactions (work s)))))
      (\<lambda>running. bnd (backfill_residual w (legacy_total w) running) (\<lambda>_. bnd now (\<lambda>t.
       save_row wallet_t (opened t w)))) s"
    by (simp add: backfill_wallet_def opened_def run_bnd table_defs)
  with saved show ?thesis
    by (simp add: run_bnd dep residual)
qed

text \<open>The wallets after the loop.\<close>

definition open_all :: "time \<Rightarrow> wallet list \<Rightarrow> wallet list \<Rightarrow> wallet list" where
  "open_all t ls ws = fold (\<lambda>w. replace_by w_id (opened t w)) ls ws"

lemma wallet_constraints_opened:
  assumes "wallet_constraints ws" and "w \<in> set ws"
  shows "wallet_constraints (replace_by w_id (opened t w) ws)"
proof -
  from assms have d: "distinct (map w_id ws)" and "0 \<le> legacy_total w"
    by (auto simp: wallet_constraints_def list_all_iff legacy_total_def)
  moreover have "map w_user_id (replace_by w_id (opened t w) ws) = map w_user_id ws"
    by (rule map_replace_same_field [OF d assms(2)]) simp_all
  ultimately show ?thesis
    using assms by (auto simp: wallet_constraints_def list_all_iff dest: set_replaceD)
qed

lemma backfill_all_eq:
  assumes "transaction_constraints (transactions (work s) @
        all_entries (paystack_transactions (work s)) (clock s) (uuid_supply s) (uuid_next s) ls)"
    and "list_all transaction_fits
        (all_entries (paystack_transactions (work s)) (clock s) (uuid_supply s) (uuid_next s) ls)"
    and "\<forall>w \<in> set ls. wallet_fits (opened (clock s) w)"
    and "wallet_constraints (wallets (work s))" and "set ls \<subseteq> set (wallets (work s))"
    and "distinct (map w_id ls)"
  shows "for_each backfill_wallet ls s =
     (Inr (), s\<lparr>uuid_next := uuid_next s + length (all_entries (paystack_transactions (work s))
                              (clock s) (uuid_supply s) (uuid_next s) ls),
        work := (work s)\<lparr>transactions := transactions (work s) @
            all_entries (paystack_transactions (work s)) (clock s) (uuid_supply s) (uuid_next s) ls,
          wallets := open_all (clock s) ls (wallets (work s))\<rparr>\<rparr>)"
  using assms
proof (induction ls arbitrary: s)
  case Nil
  then show ?case by (simp add: open_all_def)
next
  case (Cons w ls)
  let ?es = "wallet_entries (paystack_transactions (work s)) (clock s) (uuid_supply s) (uuid_next s) w"
  let ?ws = "replace_by w_id (opened (clock s) w) (wallets (work s))"
  let ?s = "s\<lparr>uuid_next := uuid_next s + length ?es,
              work := (work s)\<lparr>transactions := transactions (work s) @ ?es, wallets := ?ws\<rparr>\<rparr>"
  from Cons.prems(1) have tc: "transaction_constraints (transactions (work s) @ ?es)"
    by (intro transaction_constraints_prefix [of "transactions (work s) @ ?es"]) simp
  from Cons.prems have wc: "wallet_constraints ?ws" by (intro wallet_constraints_opened) auto
  from Cons.prems have step_w: "backfill_wallet w s = (Inr (), ?s)"
    by (intro backfill_wallet_eq tc wc) simp_all
  from Cons.prems(5,6) have "set ls \<subseteq> set ?ws"
    by (auto intro!: mem_replace) (metis image_eqI)
  with Cons.prems wc have "for_each backfill_wallet ls ?s =
     (Inr (), ?s\<lparr>uuid_next := uuid_next ?s + length (all_entries (paystack_transactions (work s))
                    (clock s) (uuid_supply s) (uuid_next ?s) ls),
        work := (work ?s)\<lparr>transactions := (transactions (work s) @ ?es) @
            all_entries (paystack_transactions (work s)) (clock s) (uuid_supply s) (uuid_next ?s) ls,
          wallets := open_all (clock s) ls ?ws\<rparr>\<rparr>)"
    by (subst Cons.IH [of ?s]) simp_all
  with step_w show ?case
    by (simp add: bnd_Inr [of "backfill_wallet w", OF step_w] open_all_def add.assoc)
qed

section \<open>The states the migration meets\<close>

definition cents :: "money \<Rightarrow> bool" where
  "cents x \<longleftrightarrow> quantize2 x = x"

definition charges_ok :: "paystack_transaction list \<Rightarrow> bool" where
  "charges_ok ps \<longleftrightarrow> list_all (\<lambda>p. 0 < pt_amount p \<and> cents (pt_amount p)) ps"

definition total_ok :: "wallet \<Rightarrow> bool" where
  "total_ok w \<longleftrightarrow> 0 \<le> legacy_total w \<and> cents (legacy_total w) \<and> numeric_12_2 (legacy_total w)"

definition own_reference :: "paystack_transaction list \<Rightarrow> wallet \<Rightarrow> string \<Rightarrow> bool" where
  "own_reference ps w r \<longleftrightarrow>
     r = ''opening_'' @ w_id w \<or>
     list_ex (\<lambda>p. pt_user_id p = w_user_id w \<and> r = ''dep_'' @ pt_reference p) ps"

definition unclaimed :: "db \<Rightarrow> wallet \<Rightarrow> bool" where
  "unclaimed d w \<longleftrightarrow>
     \<not> list_ex (\<lambda>t. own_reference (paystack_transactions d) w (t_reference t)) (transactions d)"

text \<open>
  The tables' own constraints, a ledger that is right for the wallets it has entries of, amounts in
  hundredths, and no entry that already carries a reference the migration is about to write.
\<close>

definition legacy_state :: "db \<Rightarrow> bool" where
  "legacy_state d \<longleftrightarrow>
     wallet_constraints (wallets d) \<and> transaction_constraints (transactions d) \<and>
     paystack_constraints (paystack_transactions d) \<and>
     list_all entry_wf (transactions d) \<and> snapshots_ok (transactions d) \<and>
     list_all (\<lambda>t. t_wallet_id t \<in> set (map w_id (wallets d))) (transactions d) \<and>
     list_all (\<lambda>w. if legacy_wallet (transactions d) w
        then total_ok w \<and> unclaimed d w
        else balance_ok (transactions d) w) (wallets d) \<and>
     charges_ok (paystack_transactions d)"

definition fresh_ids :: "session \<Rightarrow> bool" where
  "fresh_ids s \<longleftrightarrow>
     inj (uuid_supply s) \<and>
     (\<forall>n. uuid_supply s (uuid_next s + n) \<notin> set (map t_id (transactions (work s))))"

lemma cents_add: "cents x \<Longrightarrow> cents y \<Longrightarrow> cents (x + y)"
  by (auto simp: cents_def quantize2_eq_iff add_divide_distrib [symmetric] simp flip: of_int_add)

lemma cents_diff: "cents x \<Longrightarrow> cents y \<Longrightarrow> cents (x - y)"
  by (auto simp: cents_def quantize2_eq_iff diff_divide_distrib [symmetric] simp flip: of_int_diff)

lemma cents_sum: "list_all (\<lambda>p. cents (pt_amount p)) ps \<Longrightarrow> cents (sum_list (map pt_amount ps))"
  by (induction ps) (auto simp: cents_add, simp add: cents_def quantize2_def round_half_even_def)

section \<open>What the entries add up to\<close>

lemma taken_subset: "set (taken h r ps) \<subseteq> set ps"
  by (induction ps arbitrary: r) auto

lemma distinct_taken: "distinct (map f ps) \<Longrightarrow> distinct (map f (taken h r ps))"
proof (induction ps arbitrary: r)
  case (Cons p ps)
  then show ?case using taken_subset [of h "r + pt_amount p" ps] by auto
qed simp

lemma taken_bound: "r \<le> h \<Longrightarrow> r + sum_list (map pt_amount (taken h r ps)) \<le> h"
proof (induction ps arbitrary: r)
  case (Cons p ps)
  then show ?case using Cons.IH [of "r + pt_amount p"] by (simp add: add.assoc not_less)
qed simp

lemma taken_all:
  "list_all (\<lambda>p. 0 < pt_amount p) ps \<Longrightarrow> r + sum_list (map pt_amount ps) \<le> h \<Longrightarrow> taken h r ps = ps"
proof (induction ps arbitrary: r)
  case (Cons p ps)
  from Cons.prems(1) have "0 \<le> sum_list (map pt_amount ps)"
    by (intro sum_list_nonneg) (auto simp: list_all_iff less_imp_le)
  with Cons.prems Cons.IH [of "r + pt_amount p"] show ?case by (simp add: add.assoc)
qed simp

lemma snapshots_ok_snoc:
  "snapshots_ok (ts @ [t]) \<longleftrightarrow>
     t_balance_after t = ledger_sum t_available_delta (t_wallet_id t) ts + t_available_delta t \<and>
     t_escrow_after t = ledger_sum t_escrow_delta (t_wallet_id t) ts + t_escrow_delta t \<and>
     snapshots_ok ts"
  by (simp add: snapshots_ok_def)

lemma deposit_entries_sums:
  "ledger_sum t_available_delta k (deposit_entries ids n w r ps) =
     (if k = w_id w then sum_list (map pt_amount ps) else 0)"
  "ledger_sum t_escrow_delta k (deposit_entries ids n w r ps) = 0"
  by (induction ps arbitrary: n r) (auto simp: written_entry_defs)

lemma deposit_entries_snapshots:
  assumes "snapshots_ok ts" and "ledger_sum t_available_delta (w_id w) ts = r"
    and "ledger_sum t_escrow_delta (w_id w) ts = 0"
  shows "snapshots_ok (ts @ deposit_entries ids n w r ps)"
  using assms
proof (induction ps arbitrary: ts n r)
  case (Cons p ps)
  then show ?case
    using Cons.IH [of "ts @ [deposit_entry (ids n) w (r + pt_amount p) p]" "r + pt_amount p" "Suc n"]
    by (simp add: snapshots_ok_snoc written_entry_defs)
qed simp

lemma taken_of_subset: "p \<in> set (taken_of ps w) \<Longrightarrow> p \<in> set ps \<and> is_old_charge (w_user_id w) p"
  using taken_subset [of "legacy_total w" 0] by (fastforce simp: taken_of_def)

lemma taken_of_amounts:
  assumes "charges_ok ps"
  shows "list_all (\<lambda>p. 0 < pt_amount p) (taken_of ps w)" "list_all (\<lambda>p. cents (pt_amount p)) (taken_of ps w)"
  using assms by (auto simp: charges_ok_def list_all_iff dest: taken_of_subset)

lemma taken_of_sum:
  "0 \<le> legacy_total w \<Longrightarrow> sum_list (map pt_amount (taken_of ps w)) \<le> legacy_total w"
  using taken_bound [of 0 "legacy_total w"] by (simp add: taken_of_def)

lemma wallet_entries_sums:
  assumes "0 \<le> legacy_total w"
  shows "ledger_sum t_available_delta k (wallet_entries ps t ids n w) =
           (if k = w_id w then legacy_total w else 0)"
    and "ledger_sum t_escrow_delta k (wallet_entries ps t ids n w) = 0"
  using taken_of_sum [OF assms, of ps]
  by (auto simp: wallet_entries_def Let_def deposit_entries_sums opening_entries_def
      opening_entry_def)

lemma wallet_entries_snapshots:
  assumes "snapshots_ok ts" and "w_id w \<notin> t_wallet_id ` set ts"
  shows "snapshots_ok (ts @ wallet_entries ps t ids n w)"
proof -
  let ?qs = "taken_of ps w"
  from assms have "snapshots_ok (ts @ deposit_entries ids n w 0 ?qs)"
    by (intro deposit_entries_snapshots) (simp_all add: ledger_sum_no_entry)
  with assms show ?thesis
    by (simp add: wallet_entries_def Let_def opening_entries_def append_assoc [symmetric]
        snapshots_ok_snoc opening_entry_def deposit_entries_sums ledger_sum_no_entry
        del: append_assoc)
qed

lemma deposit_entries_members:
  assumes "0 \<le> r" and "list_all (\<lambda>p. 0 < pt_amount p) qs"
    and "e \<in> set (deposit_entries ids n w r qs)"
  obtains u p b where "p \<in> set qs" "e = deposit_entry u w b p" "pt_amount p \<le> b"
    "b \<le> r + sum_list (map pt_amount qs)"
  using assms
proof (induction qs arbitrary: n r thesis)
  case (Cons q qs)
  from Cons.prems(3) have nonneg: "0 \<le> sum_list (map pt_amount qs)"
    by (intro sum_list_nonneg) (auto simp: list_all_iff less_imp_le)
  from Cons.prems(4) consider (this) "e = deposit_entry (ids n) w (r + pt_amount q) q"
    | (later) "e \<in> set (deposit_entries ids (Suc n) w (r + pt_amount q) qs)"
    by auto
  then show ?case
  proof cases
    case this
    with Cons.prems(2) nonneg show ?thesis
      by (intro Cons.prems(1) [of q "ids n" "r + pt_amount q"]) simp_all
  next
    case later
    show ?thesis
      by (rule Cons.IH [OF _ _ _ later]) (use Cons.prems in \<open>auto simp: add.assoc\<close>)
  qed
qed simp

lemma wallet_entries_members:
  assumes pos: "charges_ok ps" and w: "total_ok w"
    and e: "e \<in> set (wallet_entries ps t ids n w)"
  shows "entry_wf e" "transaction_fits e" "t_wallet_id e = w_id w" "backfilled e"
    "own_reference ps w (t_reference e)"
proof -
  let ?qs = "taken_of ps w"
  from w have w': "0 \<le> legacy_total w" "cents (legacy_total w)" "numeric_12_2 (legacy_total w)"
    by (simp_all add: total_ok_def)
  note sum = taken_of_sum [OF w'(1), of ps]
  have nonneg: "0 \<le> sum_list (map pt_amount ?qs)"
    using taken_of_amounts(1) [OF pos] by (intro sum_list_nonneg) (auto simp: list_all_iff less_imp_le)
  have cents_res: "cents (legacy_total w - sum_list (map pt_amount ?qs))"
    by (intro cents_diff w' cents_sum taken_of_amounts pos)
  from e consider (dep) "e \<in> set (deposit_entries ids n w 0 ?qs)"
    | (op) "e \<in> set (opening_entries ids (n + length ?qs) w (sum_list (map pt_amount ?qs)) t)"
    by (auto simp: wallet_entries_def Let_def)
  then have "entry_wf e \<and> transaction_fits e \<and> t_wallet_id e = w_id w \<and> backfilled e \<and>
    (own_reference ps w (t_reference e))"
  proof cases
    case dep
    obtain u p b where p: "p \<in> set ?qs" "e = deposit_entry u w b p" "pt_amount p \<le> b"
      "b \<le> 0 + sum_list (map pt_amount ?qs)"
      by (rule deposit_entries_members [OF _ taken_of_amounts(1) [OF pos] dep]) auto
    with pos taken_of_subset [OF p(1)] have "0 < pt_amount p" "cents (pt_amount p)" "p \<in> set ps"
      "pt_user_id p = w_user_id w"
      by (auto simp: charges_ok_def list_all_iff is_old_charge_def)
    then have "own_reference ps w (t_reference e)"
      by (auto simp: own_reference_def list_ex_iff p(2) deposit_entry_def)
    with \<open>0 < pt_amount p\<close> \<open>cents (pt_amount p)\<close> p sum w'(3) show ?thesis
      by (auto simp: entry_wf_def transaction_fits_def numeric_12_2_def cents_def deposit_entry_def
          backfilled_def)
  next
    case op
    with nonneg sum cents_res w' show ?thesis
      by (auto simp: opening_entries_def entry_wf_def transaction_fits_def numeric_12_2_def
          cents_def opening_entry_def backfilled_def own_reference_def split: if_splits)
  qed
  then show "entry_wf e" "transaction_fits e" "t_wallet_id e = w_id w" "backfilled e"
    "own_reference ps w (t_reference e)"
    by blast+
qed

section \<open>Identifiers and references\<close>

lemma deposit_entries_ids:
  "map t_id (deposit_entries ids n w r qs) = map ids [n..<n + length qs]"
proof (induction qs arbitrary: n r)
  case (Cons q qs)
  then show ?case by (simp add: deposit_entry_def upt_conv_Cons del: upt_Suc)
qed simp

lemma opening_entries_ids:
  "map t_id (opening_entries ids n w r t) = map ids [n..<n + length (opening_entries ids n w r t)]"
  by (simp add: opening_entries_def opening_entry_def)

lemma wallet_entries_ids:
  "map t_id (wallet_entries ps t ids n w) = map ids [n..<n + length (wallet_entries ps t ids n w)]"
  using upt_add_eq_append [of n "n + length (taken_of ps w)"]
  by (simp add: wallet_entries_def Let_def deposit_entries_ids opening_entries_ids add.assoc
      del: upt_Suc)

lemma all_entries_ids:
  "map t_id (all_entries ps t ids n ls) = map ids [n..<n + length (all_entries ps t ids n ls)]"
proof (induction ls arbitrary: n)
  case (Cons w ls)
  then show ?case
    using upt_add_eq_append [of n "n + length (wallet_entries ps t ids n w)"]
    by (simp add: wallet_entries_ids add.assoc)
qed simp

lemma deposit_entries_references:
  "map t_reference (deposit_entries ids n w r qs) = map (\<lambda>p. ''dep_'' @ pt_reference p) qs"
  by (induction qs arbitrary: n r) (simp_all add: deposit_entry_def)

lemma distinct_sort_key: "distinct (map f (sort_key k xs)) = distinct (map f xs)"
  by (simp add: distinct_map)

lemma wallet_entries_references:
  assumes "paystack_constraints ps"
  shows "distinct (map t_reference (wallet_entries ps t ids n w))"
proof -
  from assms have "distinct (map pt_reference (taken_of ps w))"
    unfolding taken_of_def
    by (intro distinct_taken) (simp add: distinct_sort_key paystack_constraints_def
        distinct_map_filter)
  then have "distinct (map (\<lambda>p. ''dep_'' @ pt_reference p) (taken_of ps w))"
    by (auto simp: distinct_map inj_on_def)
  then show ?thesis
    by (auto simp: wallet_entries_def Let_def deposit_entries_references opening_entries_def
        opening_entry_def)
qed

lemma all_entries_members:
  assumes pos: "charges_ok ps" and e: "e \<in> set (all_entries ps t ids n ls)"
    and ls: "list_all total_ok ls"
  obtains w where "w \<in> set ls" "entry_wf e" "transaction_fits e" "t_wallet_id e = w_id w"
    "backfilled e"
    "own_reference ps w (t_reference e)"
  using e ls
proof (induction ls arbitrary: n thesis)
  case (Cons w ls)
  show ?case
  proof (cases "e \<in> set (wallet_entries ps t ids n w)")
    case True
    with Cons.prems(3) show ?thesis
      by (intro Cons.prems(1) [of w] wallet_entries_members [OF pos _ True]) simp_all
  next
    case False
    with Cons.prems(2) have
      "e \<in> set (all_entries ps t ids (n + length (wallet_entries ps t ids n w)) ls)" by simp
    then show ?thesis
      by (rule Cons.IH [rotated]) (use Cons.prems in auto)
  qed
qed simp

lemma own_reference_wallet:
  assumes "paystack_constraints ps" and "own_reference ps v r" "own_reference ps w r"
  shows "w_id v = w_id w \<or> w_user_id v = w_user_id w"
proof -
  have same_user: "pt_user_id p = pt_user_id q"
    if "p \<in> set ps" "q \<in> set ps" "pt_reference p = pt_reference q" for p q
    using that assms(1) by (metis distinct_map inj_onD paystack_constraints_def)
  from assms(2) consider "r = ''opening_'' @ w_id v"
    | p where "p \<in> set ps" "pt_user_id p = w_user_id v" "r = ''dep_'' @ pt_reference p"
    by (auto simp: own_reference_def list_ex_iff)
  then show ?thesis
  proof cases
    case 1
    with assms(3) show ?thesis by (auto simp: own_reference_def list_ex_iff)
  next
    case 2
    with assms(3) obtain q where q: "q \<in> set ps" "pt_user_id q = w_user_id w"
      "pt_reference p = pt_reference q"
      by (auto simp: own_reference_def list_ex_iff)
    from same_user [OF 2(1) q(1,3)] 2(2) q(2) show ?thesis by simp
  qed
qed

lemma all_entries_references:
  assumes pos: "charges_ok ps" and pc: "paystack_constraints ps"
    and "distinct (map w_id ls)" and "distinct (map w_user_id ls)"
    and "list_all total_ok ls"
  shows "distinct (map t_reference (all_entries ps t ids n ls))"
  using assms(3-)
proof (induction ls arbitrary: n)
  case (Cons w ls)
  let ?as = "wallet_entries ps t ids n w"
  let ?bs = "all_entries ps t ids (n + length ?as) ls"
  have "t_reference a \<noteq> t_reference b" if a: "a \<in> set ?as" and b: "b \<in> set ?bs" for a b
  proof
    assume eq: "t_reference a = t_reference b"
    from Cons.prems(3) have "own_reference ps w (t_reference a)"
      by (intro wallet_entries_members(5) [OF pos _ a]) simp_all
    moreover obtain v where "v \<in> set ls" "own_reference ps v (t_reference b)"
      using Cons.prems(3) by (metis all_entries_members [OF pos b] list.pred_inject(2))
    ultimately show False
      using own_reference_wallet [OF pc, of w "t_reference a" v] Cons.prems eq
      by (auto simp: image_iff)
  qed
  then have "t_reference ` set ?as \<inter> t_reference ` set ?bs = {}" by blast
  with Cons show ?case by (simp add: wallet_entries_references [OF pc])
qed simp

section \<open>The whole run\<close>

lemma all_entries_no_wallet:
  assumes "charges_ok ps" and "k \<notin> w_id ` set ls"
    and "list_all total_ok ls"
  shows "k \<notin> t_wallet_id ` set (all_entries ps t ids n ls)"
  using assms by (auto elim!: all_entries_members)

lemma all_entries_sums:
  assumes "charges_ok ps" and "w \<in> set ls" and "distinct (map w_id ls)"
    and "list_all total_ok ls"
  shows "ledger_sum t_available_delta (w_id w) (all_entries ps t ids n ls) = legacy_total w \<and>
    ledger_sum t_escrow_delta (w_id w) (all_entries ps t ids n ls) = 0"
  using assms(2-)
proof (induction ls arbitrary: n)
  case (Cons v ls)
  show ?case
  proof (cases "v = w")
    case True
    with Cons.prems have "w_id w \<notin> w_id ` set ls" by auto
    with Cons.prems True show ?thesis
      using wallet_entries_sums [of w]
      by (simp add: total_ok_def [of w] ledger_sum_no_entry all_entries_no_wallet [OF assms(1)])
  next
    case False
    with Cons.prems have "w \<in> set ls" "w_id w \<noteq> w_id v" by (auto simp: image_iff)
    with Cons show ?thesis by (simp add: wallet_entries_sums total_ok_def)
  qed
qed simp

lemma all_entries_snapshots:
  assumes "charges_ok ps" and "snapshots_ok ts" and "\<forall>w \<in> set ls. w_id w \<notin> t_wallet_id ` set ts"
    and "distinct (map w_id ls)"
    and "list_all total_ok ls"
  shows "snapshots_ok (ts @ all_entries ps t ids n ls)"
  using assms(2-)
proof (induction ls arbitrary: n ts)
  case (Cons w ls)
  let ?es = "wallet_entries ps t ids n w"
  from Cons.prems have "snapshots_ok (ts @ ?es)"
    by (intro wallet_entries_snapshots) simp_all
  moreover have "w_id v \<notin> t_wallet_id ` set (ts @ ?es)" if v: "v \<in> set ls" for v
  proof -
    have "t_wallet_id e = w_id w" if "e \<in> set ?es" for e
      using Cons.prems(4) by (intro wallet_entries_members(3) [OF assms(1) _ that]) simp_all
    moreover from v Cons.prems(3) have "w_id v \<noteq> w_id w" by (auto simp: image_iff)
    ultimately show ?thesis using v Cons.prems(2) by auto
  qed
  ultimately show ?case
    using Cons.prems Cons.IH [of "ts @ ?es" "n + length ?es"] by simp
qed simp

lemma open_all_eq:
  assumes "distinct (map w_id ws)" and "set ls \<subseteq> set ws" and "distinct (map w_id ls)"
  shows "open_all t ls ws = map (\<lambda>w. if w \<in> set ls then opened t w else w) ws"
  using assms
proof (induction ls arbitrary: ws)
  case Nil
  then show ?case by (simp add: open_all_def)
next
  case (Cons w ls)
  let ?ws = "replace_by w_id (opened t w) ws"
  have same: "x = w" if "x \<in> set ws" "w_id x = w_id w" for x
    using that Cons.prems(1,2) by (auto simp: distinct_map dest: inj_onD)
  have apart: "v \<notin> set ls" if "w_id v = w_id w" for v
    using that Cons.prems(3) by (auto simp: image_iff)
  have "set ls \<subseteq> set ?ws"
  proof
    fix v assume "v \<in> set ls"
    with Cons.prems(2) apart show "v \<in> set ?ws" by (auto intro!: mem_replace)
  qed
  with Cons have "open_all t ls ?ws = map (\<lambda>w. if w \<in> set ls then opened t w else w) ?ws"
    by simp
  also have "\<dots> = map (\<lambda>v. if v \<in> set (w # ls) then opened t v else v) ws"
    using same apart [of "opened t w"] apart by (auto simp: replace_by_def)
  finally show ?case by (simp add: open_all_def)
qed

definition legacy_wallets :: "db \<Rightarrow> wallet list" where
  "legacy_wallets d = filter (legacy_wallet (transactions d)) (wallets d)"

text \<open>The database after the upgrade.\<close>

definition backfilled_db :: "session \<Rightarrow> db" where
  "backfilled_db s =
     (work s)\<lparr>transactions := transactions (work s) @
         all_entries (paystack_transactions (work s)) (clock s) (uuid_supply s) (uuid_next s)
           (legacy_wallets (work s)),
       wallets := map (\<lambda>w. if legacy_wallet (transactions (work s)) w then opened (clock s) w else w)
                    (wallets (work s))\<rparr>"

lemma legacy_wallets_facts:
  assumes "legacy_state d"
  shows "list_all total_ok (legacy_wallets d)" "distinct (map w_id (legacy_wallets d))"
    "distinct (map w_user_id (legacy_wallets d))" "set (legacy_wallets d) \<subseteq> set (wallets d)"
    "\<forall>w \<in> set (legacy_wallets d). w_id w \<notin> t_wallet_id ` set (transactions d) \<and> unclaimed d w"
    "\<forall>w \<in> set (legacy_wallets d). 0 < legacy_total w"
  using assms
  by (auto simp: legacy_wallets_def legacy_state_def legacy_wallet_def legacy_total_def
      wallet_constraints_def list_all_iff list_ex_iff distinct_map_filter image_iff)

lemma backfill_constraints:
  assumes "legacy_state (work s)" and "fresh_ids s"
  shows "transaction_constraints (transactions (backfilled_db s))"
proof -
  let ?d = "work s"
  let ?es = "all_entries (paystack_transactions ?d) (clock s) (uuid_supply s) (uuid_next s)
               (legacy_wallets ?d)"
  note facts = legacy_wallets_facts [OF assms(1)]
  from assms(1) have pos: "charges_ok (paystack_transactions ?d)"
    and pc: "paystack_constraints (paystack_transactions ?d)"
    and tc: "transaction_constraints (transactions ?d)"
    by (simp_all add: legacy_state_def)
  have "distinct (map t_id ?es)"
    using assms(2) by (simp add: all_entries_ids distinct_map fresh_ids_def inj_on_def)
  moreover have "t_id ` set (transactions ?d) \<inter> set (map t_id ?es) = {}"
  proof -
    have "uuid_supply s n \<notin> t_id ` set (transactions ?d)" if "uuid_next s \<le> n" for n
      using assms(2) le_Suc_ex [OF that] by (auto simp: fresh_ids_def)
    then show ?thesis unfolding all_entries_ids by (auto simp: image_iff) metis
  qed
  moreover have "distinct (map t_reference ?es)"
    by (intro all_entries_references pos pc facts)
  moreover have "t_reference t \<noteq> t_reference e" if "t \<in> set (transactions ?d)" "e \<in> set ?es" for t e
    by (rule all_entries_members [OF pos that(2) facts(1)])
      (use that(1) facts(5) in \<open>metis unclaimed_def list_ex_iff\<close>)
  then have "t_reference ` set (transactions ?d) \<inter> t_reference ` set ?es = {}" by blast
  moreover have "0 < t_amount e" if "e \<in> set ?es" for e
    by (rule all_entries_members [OF pos that facts(1)]) (simp add: entry_wf_def)
  ultimately show ?thesis
    using tc by (auto simp: transaction_constraints_def backfilled_db_def list_all_iff)
qed

lemma backfilled_balances:
  assumes "legacy_state (work s)" and v: "v \<in> set (wallets (backfilled_db s))"
  shows "balance_ok (transactions (backfilled_db s)) v"
proof -
  let ?d = "work s"
  note facts = legacy_wallets_facts [OF assms(1)]
  from assms(1) have pos: "charges_ok (paystack_transactions ?d)" by (simp add: legacy_state_def)
  from v obtain w where w: "w \<in> set (wallets ?d)"
    "v = (if legacy_wallet (transactions ?d) w then opened (clock s) w else w)"
    by (auto simp: backfilled_db_def)
  show ?thesis
  proof (cases "legacy_wallet (transactions ?d) w")
    case True
    with w have mem: "w \<in> set (legacy_wallets ?d)" by (simp add: legacy_wallets_def)
    from all_entries_sums [OF pos mem facts(2,1)] facts(5) mem True w(2) show ?thesis
      by (simp add: balance_ok_def backfilled_db_def ledger_sum_no_entry)
  next
    case False
    have "w_id w \<notin> w_id ` set (legacy_wallets ?d)"
    proof
      assume "w_id w \<in> w_id ` set (legacy_wallets ?d)"
      then obtain x where "x \<in> set (legacy_wallets ?d)" "w_id x = w_id w" by auto
      with w(1) facts(4) assms(1) have "x = w"
        by (auto simp: legacy_state_def wallet_constraints_def distinct_map dest: inj_onD)
      with \<open>x \<in> _\<close> False show False by (simp add: legacy_wallets_def)
    qed
    from all_entries_no_wallet [OF pos this facts(1)] w False assms(1) show ?thesis
      by (auto simp: balance_ok_def backfilled_db_def ledger_sum_no_entry legacy_state_def
          list_all_iff)
  qed
qed

lemma backfilled_inv:
  assumes "legacy_state (work s)" and "fresh_ids s"
  shows "ledger_inv (backfilled_db s)"
proof -
  let ?d = "work s"
  let ?es = "all_entries (paystack_transactions ?d) (clock s) (uuid_supply s) (uuid_next s)
               (legacy_wallets ?d)"
  note facts = legacy_wallets_facts [OF assms(1)]
  from assms(1) have pos: "charges_ok (paystack_transactions ?d)" by (simp add: legacy_state_def)
  have ids: "map w_id (wallets (backfilled_db s)) = map w_id (wallets ?d)"
    "map w_user_id (wallets (backfilled_db s)) = map w_user_id (wallets ?d)"
    by (auto simp: backfilled_db_def)
  have "0 \<le> w_available_balance w \<and> 0 \<le> w_escrow_balance w"
    if "w \<in> set (wallets (backfilled_db s))" for w
    using that assms(1)
    by (auto simp: wallet_constraints_def legacy_state_def backfilled_db_def list_all_iff
        legacy_total_def)
  with ids have wc: "wallet_constraints (wallets (backfilled_db s))"
    using assms(1) by (simp add: wallet_constraints_def legacy_state_def list_all_iff)
  have "list_all (balance_ok (transactions (backfilled_db s))) (wallets (backfilled_db s))"
    using backfilled_balances [OF assms(1)] by (simp add: list_all_iff)
  moreover have "snapshots_ok (transactions (backfilled_db s))"
    using all_entries_snapshots [OF pos _ _ facts(2,1)] assms(1) facts(5)
    by (simp add: backfilled_db_def legacy_state_def)
  moreover have "entry_wf e \<and> t_wallet_id e \<in> set (map w_id (wallets ?d))" if "e \<in> set ?es" for e
    by (rule all_entries_members [OF pos that facts(1)]) (use facts(4) in auto)
  ultimately show ?thesis
    using backfill_constraints [OF assms] assms(1) wc ids
    by (auto simp: ledger_inv_def list_all_iff legacy_state_def backfilled_db_def)
qed

lemma backfill_upgrade_eq:
  assumes "legacy_state (work s)" and "fresh_ids s"
  shows "\<exists>n. backfill_upgrade s = (Inr (), s\<lparr>uuid_next := n, work := backfilled_db s\<rparr>)"
proof -
  let ?d = "work s"
  let ?es = "all_entries (paystack_transactions ?d) (clock s) (uuid_supply s) (uuid_next s)
               (legacy_wallets ?d)"
  note facts = legacy_wallets_facts [OF assms(1)]
  from assms(1) have pos: "charges_ok (paystack_transactions ?d)"
    and wc: "wallet_constraints (wallets ?d)" by (simp_all add: legacy_state_def)
  have tc: "transaction_constraints (transactions ?d @ ?es)"
    using backfill_constraints [OF assms] by (simp add: backfilled_db_def)
  have fit: "list_all transaction_fits ?es"
    using all_entries_members [OF pos _ facts(1)] by (metis list_all_iff)
  have wfit: "\<forall>w \<in> set (legacy_wallets ?d). wallet_fits (opened (clock s) w)"
    using facts(1) by (auto simp: list_all_iff wallet_fits_def total_ok_def numeric_12_2_def)
  have opened: "open_all (clock s) (legacy_wallets ?d) (wallets ?d) = wallets (backfilled_db s)"
    using open_all_eq [OF _ facts(4,2)] wc
    by (auto simp: wallet_constraints_def backfilled_db_def legacy_wallets_def)
  have "for_each backfill_wallet (legacy_wallets ?d) s =
      (Inr (), s\<lparr>uuid_next := uuid_next s + length ?es, work := backfilled_db s\<rparr>)"
    using backfill_all_eq [OF tc fit wfit wc facts(4,2)] unfolding opened
    by (simp add: backfilled_db_def)
  moreover have "drift (backfilled_db s) = 0"
    using backfilled_balances [OF assms(1)] by (auto simp: drift_def filter_empty_conv balance_ok_def)
  ultimately have "backfill_upgrade s =
      (Inr (), s\<lparr>uuid_next := uuid_next s + length ?es, work := backfilled_db s\<rparr>)"
    by (simp add: backfill_upgrade_def run_bnd flip: legacy_wallets_def)
  then show ?thesis ..
qed

section \<open>Undoing it\<close>

definition unfilled :: "wallet \<Rightarrow> wallet" where
  "unfilled w =
     w\<lparr>w_escrow_balance := w_escrow_balance w + w_available_balance w, w_available_balance := 0\<rparr>"

lemma unfilled_simps [simp]:
  "w_id (unfilled w) = w_id w" "w_user_id (unfilled w) = w_user_id w"
  "w_available_balance (unfilled w) = 0" "w_escrow_balance (unfilled w) = legacy_total w"
  by (simp_all add: unfilled_def legacy_total_def)

definition unfill_all :: "id list \<Rightarrow> wallet list \<Rightarrow> wallet list" where
  "unfill_all ks ws = map (\<lambda>w. if w_id w \<in> set ks then unfilled w else w) ws"

lemma unfill_wallet_eq:
  assumes wc: "wallet_constraints (wallets (work s))"
    and fit: "\<forall>w \<in> set (wallets (work s)). w_id w = k \<longrightarrow> numeric_12_2 (legacy_total w)"
  shows "unfill_wallet k s = (Inr (), s\<lparr>work := (work s)\<lparr>wallets := unfill_all [k] (wallets (work s))\<rparr>\<rparr>)"
    and "wallet_constraints (unfill_all [k] (wallets (work s)))"
proof -
  have ids: "map w_id (unfill_all [k] (wallets (work s))) = map w_id (wallets (work s))"
    "map w_user_id (unfill_all [k] (wallets (work s))) = map w_user_id (wallets (work s))"
    by (auto simp: unfill_all_def)
  have "0 \<le> w_available_balance w \<and> 0 \<le> w_escrow_balance w"
    if "w \<in> set (unfill_all [k] (wallets (work s)))" for w
    using that wc by (auto simp: unfill_all_def wallet_constraints_def list_all_iff legacy_total_def)
  with wc ids show uc: "wallet_constraints (unfill_all [k] (wallets (work s)))"
    by (simp add: wallet_constraints_def list_all_iff)
  show "unfill_wallet k s =
      (Inr (), s\<lparr>work := (work s)\<lparr>wallets := unfill_all [k] (wallets (work s))\<rparr>\<rparr>)"
  proof (cases "find_first (\<lambda>w. w_id w = k) (wallets (work s))")
    case None
    then have "unfill_all [k] (wallets (work s)) = wallets (work s)"
      by (auto simp: unfill_all_def find_first_None_iff intro: map_idI)
    with None show ?thesis by (simp add: unfill_wallet_def step table_defs)
  next
    case (Some w)
    then have w: "w \<in> set (wallets (work s))" "w_id w = k" by (auto dest: find_first_SomeD)
    with wc have same: "x = w" if "x \<in> set (wallets (work s))" "w_id x = k" for x
      using that by (auto simp: wallet_constraints_def distinct_map dest: inj_onD)
    have "replace_by w_id (unfilled w) (wallets (work s)) = unfill_all [k] (wallets (work s))"
      using same w(2) by (auto simp: replace_by_def unfill_all_def)
    moreover from fit w have "wallet_fits (unfilled w)"
      by (simp add: wallet_fits_def numeric_12_2_def)
    ultimately show ?thesis
      using Some uc by (simp add: unfill_wallet_def step table_defs run flip: unfilled_def)
  qed
qed

lemma unfill_each_eq:
  assumes "wallet_constraints (wallets (work s))"
    and "\<forall>w \<in> set (wallets (work s)). w_id w \<in> set ks \<longrightarrow> numeric_12_2 (legacy_total w)"
    and "distinct ks"
  shows "for_each unfill_wallet ks s =
     (Inr (), s\<lparr>work := (work s)\<lparr>wallets := unfill_all ks (wallets (work s))\<rparr>\<rparr>)"
  using assms
proof (induction ks arbitrary: s)
  case Nil
  then show ?case by (simp add: unfill_all_def)
next
  case (Cons k ks)
  let ?ws = "unfill_all [k] (wallets (work s))"
  let ?s = "s\<lparr>work := (work s)\<lparr>wallets := ?ws\<rparr>\<rparr>"
  from Cons.prems have one: "unfill_wallet k s = (Inr (), ?s)" and wc: "wallet_constraints ?ws"
    by (simp_all add: unfill_wallet_eq)
  have "\<forall>w \<in> set ?ws. w_id w \<in> set ks \<longrightarrow> numeric_12_2 (legacy_total w)"
    using Cons.prems(2,3) by (auto simp: unfill_all_def)
  with Cons wc have "for_each unfill_wallet ks ?s =
      (Inr (), ?s\<lparr>work := (work ?s)\<lparr>wallets := unfill_all ks ?ws\<rparr>\<rparr>)" by simp
  moreover from Cons.prems(3) have "unfill_all ks ?ws = unfill_all (k # ks) (wallets (work s))"
    by (auto simp: unfill_all_def)
  ultimately show ?case by (simp add: run_bnd one)
qed

text \<open>Which wallets have backfilled entries.\<close>

lemma deposit_entries_empty [simp]: "deposit_entries ids n w r qs = [] \<longleftrightarrow> qs = []"
  by (cases qs) simp_all

lemma wallet_entries_nonempty:
  assumes "0 < legacy_total w"
  shows "wallet_entries ps t ids n w \<noteq> []"
  using assms by (auto simp: wallet_entries_def Let_def opening_entries_def split: if_splits)

lemma all_entries_wallets:
  assumes "charges_ok ps" and "list_all total_ok ls" and "\<forall>w \<in> set ls. 0 < legacy_total w"
  shows "t_wallet_id ` set (all_entries ps t ids n ls) = w_id ` set ls"
  using assms(2,3)
proof (induction ls arbitrary: n)
  case (Cons w ls)
  let ?es = "wallet_entries ps t ids n w"
  have "t_wallet_id e = w_id w" if "e \<in> set ?es" for e
    using Cons.prems(1) by (intro wallet_entries_members(3) [OF assms(1) _ that]) simp_all
  moreover from Cons.prems(2) have "?es \<noteq> []" by (simp add: wallet_entries_nonempty)
  ultimately have "t_wallet_id ` set ?es = {w_id w}" by (auto simp: image_iff neq_Nil_conv)
  with Cons show ?case by (simp add: image_Un)
qed simp

lemma backfill_downgrade_eq:
  assumes st: "legacy_state (work s)" and "fresh_ids s"
    and none: "\<not> list_ex backfilled (transactions (work s))"
    and t: "work t = backfilled_db s"
  shows "backfill_downgrade t =
     (Inr (), t\<lparr>work := (work t)\<lparr>transactions := transactions (work s),
        wallets := map (\<lambda>w. if legacy_wallet (transactions (work s)) w
                          then unfilled (opened (clock s) w) else w) (wallets (work s))\<rparr>\<rparr>)"
proof -
  let ?d = "work s"
  let ?es = "all_entries (paystack_transactions ?d) (clock s) (uuid_supply s) (uuid_next s)
               (legacy_wallets ?d)"
  let ?ks = "remdups (map t_wallet_id ?es)"
  let ?t = "t\<lparr>work := (work t)\<lparr>transactions := transactions ?d\<rparr>\<rparr>"
  note facts = legacy_wallets_facts [OF st]
  from st have pos: "charges_ok (paystack_transactions ?d)" and tc: "transaction_constraints (transactions ?d)"
    by (simp_all add: legacy_state_def)
  have "backfilled e" if "e \<in> set ?es" for e by (rule all_entries_members [OF pos that facts(1)])
  then have sel: "filter backfilled (transactions (work t)) = ?es"
    "filter (\<lambda>e. \<not> backfilled e) (transactions (work t)) = transactions ?d"
    using none by (auto simp: t backfilled_db_def list_ex_iff filter_empty_conv filter_id_conv)
  have wc: "wallet_constraints (wallets (work t))"
    using backfilled_inv [OF assms(1,2)] by (simp add: t ledger_inv_def)
  have ks: "set ?ks = w_id ` set (legacy_wallets ?d)"
    using all_entries_wallets [OF pos facts(1,6)] by simp
  have legacy: "w_id w \<in> set ?ks \<longleftrightarrow> legacy_wallet (transactions ?d) w" if "w \<in> set (wallets ?d)" for w
    using that st unfolding ks
    by (auto simp: legacy_wallets_def legacy_state_def wallet_constraints_def distinct_map image_iff
        dest: inj_onD)
  have fit: "\<forall>w \<in> set (wallets (work t)). w_id w \<in> set ?ks \<longrightarrow> numeric_12_2 (legacy_total w)"
    using legacy facts(1)
    by (fastforce simp: t backfilled_db_def list_all_iff total_ok_def legacy_wallets_def legacy_total_def
        split: if_splits)
  have "unfill_all ?ks (wallets (work t)) =
      map (\<lambda>w. if legacy_wallet (transactions ?d) w then unfilled (opened (clock s) w) else w)
        (wallets ?d)"
    using legacy by (auto simp: unfill_all_def t backfilled_db_def)
  with unfill_each_eq [of ?t ?ks] wc fit
  have "for_each unfill_wallet ?ks ?t =
      (Inr (), ?t\<lparr>work := (work ?t)\<lparr>wallets :=
         map (\<lambda>w. if legacy_wallet (transactions ?d) w then unfilled (opened (clock s) w) else w)
           (wallets ?d)\<rparr>\<rparr>)" by simp
  then show ?thesis
    using sel tc by (simp add: backfill_downgrade_def run_bnd table_defs delete_rows_eq Let_def)
qed

section \<open>A state from before the ledger\<close>

definition old_charge :: "string \<Rightarrow> money \<Rightarrow> time \<Rightarrow> paystack_transaction" where
  "old_charge r a t =
     \<lparr>pt_id = ''pt'' @ r, pt_user_id = ''ua'', pt_reference = r, pt_paystack_id = None,
      pt_amount = a, pt_currency = ''NGN'', pt_status = TX_SUCCESS,
      pt_transaction_type = PT_ESCROW_DEPOSIT, pt_transfer_code = None, pt_recipient_code = None,
      pt_bank_account_id = None, pt_failure_reason = None, pt_payment_channel = None,
      pt_gateway_response = None, pt_created_at = t\<rparr>"

definition wallet_alice_legacy :: wallet where
  "wallet_alice_legacy = wallet_alice_0\<lparr>w_escrow_balance := 150\<rparr>"

text \<open>Alice paid 100.00 and 40.00, in the order of time; 10.00 of her balance has no charge.\<close>

definition legacy_db :: db where
  "legacy_db =
     empty_db\<lparr>wallets := [wallet_alice_legacy, wallet_bob], transactions := [entry_3],
       paystack_transactions := [old_charge ''7'' 40 9, old_charge ''5'' 100 6]\<rparr>"

definition legacy_session :: session where
  "legacy_session = sample_session legacy_db"

lemmas legacy_defs =
  legacy_session_def legacy_db_def wallet_alice_legacy_def old_charge_def sample_session_def
  empty_db_def

lemma legacy_session_ok:
  "legacy_state (work legacy_session)" "fresh_ids legacy_session"
  "\<not> list_ex backfilled (transactions (work legacy_session))"
proof -
  show "legacy_state (work legacy_session)" by code_simp
  show "\<not> list_ex backfilled (transactions (work legacy_session))" by code_simp
  show "fresh_ids legacy_session"
    by (simp add: fresh_ids_def legacy_defs sample_uuid_def inj_on_def entry_3_def)
qed

section \<open>Where a charge's entry is\<close>

lemma all_charges_taken:
  assumes "list_all (\<lambda>p. 0 < pt_amount p) ps"
    and "sum_list (map pt_amount (filter (is_old_charge (w_user_id w)) ps)) \<le> legacy_total w"
  shows "set (taken_of ps w) = {p \<in> set ps. is_old_charge (w_user_id w) p}"
proof -
  let ?qs = "sort_key pt_created_at (filter (is_old_charge (w_user_id w)) ps)"
  have "sum_list (map pt_amount ?qs) = sum_list (map pt_amount (filter (is_old_charge (w_user_id w)) ps))"
    by (metis mset_map mset_sort sum_mset_sum_list)
  with assms have "taken (legacy_total w) 0 ?qs = ?qs"
    by (intro taken_all) (auto simp: list_all_iff)
  then show ?thesis by (auto simp: taken_of_def)
qed

lemma deposit_entered: "p \<in> set qs \<Longrightarrow> \<exists>u b. deposit_entry u w b p \<in> set (deposit_entries ids n w r qs)"
proof (induction qs arbitrary: n r)
  case (Cons q qs)
  show ?case
  proof (cases "p = q")
    case False
    with Cons.prems have "p \<in> set qs" by simp
    from Cons.IH [OF this, of "Suc n" "r + pt_amount q"] show ?thesis by auto
  qed auto
qed simp

lemma taken_charge_entered:
  assumes "p \<in> set (taken_of ps w)" and "w \<in> set ls"
  shows "\<exists>u b. deposit_entry u w b p \<in> set (all_entries ps t ids n ls)"
  using assms(2)
proof (induction ls arbitrary: n)
  case (Cons v ls)
  show ?case
  proof (cases "v = w")
    case True
    with deposit_entered [OF assms(1), of w ids n 0] show ?thesis
      by (auto simp: wallet_entries_def Let_def)
  next
    case False
    with Cons show ?thesis by fastforce
  qed
qed simp

section \<open>Properties\<close>

text \<open>C17: On every state from before the ledger the backfill succeeds: afterwards each wallet's two
  balances are the sums of its entries' deltas, with every snapshot right, a legacy wallet has all
  it held available and nothing in escrow, every other wallet and every older entry is untouched.
\<close>

theorem backfill_reconciles:
  assumes "legacy_state (work s)" and "fresh_ids s"
  shows "\<exists>t es. backfill_upgrade s = (Inr (), t) \<and> ledger_inv (work t) \<and>
     transactions (work t) = transactions (work s) @ es \<and> list_all backfilled es \<and>
     wallets (work t) =
       map (\<lambda>w. if legacy_wallet (transactions (work s)) w
             then w\<lparr>w_available_balance := w_available_balance w + w_escrow_balance w,
                    w_escrow_balance := 0, w_updated_at := clock s\<rparr> else w) (wallets (work s))"
proof -
  note facts = legacy_wallets_facts [OF assms(1)]
  from assms(1) have pos: "charges_ok (paystack_transactions (work s))"
    by (simp add: legacy_state_def)
  have "list_all backfilled (all_entries (paystack_transactions (work s)) (clock s) (uuid_supply s)
      (uuid_next s) (legacy_wallets (work s)))"
    using all_entries_members [OF pos _ facts(1)] by (metis list_all_iff)
  moreover obtain n where "backfill_upgrade s = (Inr (), s\<lparr>uuid_next := n, work := backfilled_db s\<rparr>)"
    using backfill_upgrade_eq [OF assms] ..
  ultimately show ?thesis
    using backfilled_inv [OF assms]
    by (auto simp: backfilled_db_def opened_def legacy_total_def)
qed

theorem backfill_reconciles_witness:
  "\<exists>t es. backfill_upgrade legacy_session = (Inr (), t) \<and> ledger_inv (work t) \<and>
     transactions (work t) = [entry_3] @ es \<and>
     map (\<lambda>w. (w_id w, w_available_balance w, w_escrow_balance w)) (wallets (work t)) =
       [(''wa'', 150, 0), (''wb'', 10, 0)]"
proof -
  obtain t es where "backfill_upgrade legacy_session = (Inr (), t)" "ledger_inv (work t)"
    "transactions (work t) = transactions (work legacy_session) @ es"
    "wallets (work t) =
       map (\<lambda>w. if legacy_wallet (transactions (work legacy_session)) w
             then w\<lparr>w_available_balance := w_available_balance w + w_escrow_balance w,
                    w_escrow_balance := 0, w_updated_at := clock legacy_session\<rparr> else w)
         (wallets (work legacy_session))"
    using backfill_reconciles [OF legacy_session_ok(1,2)] by blast
  moreover have "map (\<lambda>w. (w_id w, w_available_balance w, w_escrow_balance w))
       (map (\<lambda>w. if legacy_wallet (transactions (work legacy_session)) w
             then w\<lparr>w_available_balance := w_available_balance w + w_escrow_balance w,
                    w_escrow_balance := 0, w_updated_at := clock legacy_session\<rparr> else w)
         (wallets (work legacy_session))) = [(''wa'', 150, 0), (''wb'', 10, 0)]"
    by code_simp
  moreover have "transactions (work legacy_session) = [entry_3]" by (simp add: legacy_defs)
  ultimately show ?thesis by (intro exI [of _ t] exI [of _ es] conjI) simp_all
qed



text \<open>C38: The downgrade removes exactly the entries the upgrade wrote and leaves each legacy wallet with
  all it held in escrow; so a wallet whose balance was in escrow, as the old code left it, has its
  two balances back.
\<close>

theorem backfill_undone:
  assumes "legacy_state (work s)" and "fresh_ids s"
    and "\<not> list_ex backfilled (transactions (work s))"
    and "list_all (\<lambda>w. legacy_wallet (transactions (work s)) w \<longrightarrow> w_available_balance w = 0)
           (wallets (work s))"
  shows "\<exists>t u. backfill_upgrade s = (Inr (), t) \<and> backfill_downgrade t = (Inr (), u) \<and>
     transactions (work u) = transactions (work s) \<and>
     map (\<lambda>w. w\<lparr>w_updated_at := 0\<rparr>) (wallets (work u)) =
       map (\<lambda>w. w\<lparr>w_updated_at := 0\<rparr>) (wallets (work s))"
proof -
  obtain n where up: "backfill_upgrade s = (Inr (), s\<lparr>uuid_next := n, work := backfilled_db s\<rparr>)"
    using backfill_upgrade_eq [OF assms(1,2)] ..
  have "(unfilled (opened t w))\<lparr>w_updated_at := 0\<rparr> = w\<lparr>w_updated_at := 0\<rparr>"
    if "w_available_balance w = 0" for t w
    using that by (simp add: unfilled_def opened_def legacy_total_def)
  with assms(4) show ?thesis
    unfolding up
    using backfill_downgrade_eq [OF assms(1-3), of "s\<lparr>uuid_next := n, work := backfilled_db s\<rparr>"]
    by (auto simp: list_all_iff)
qed

theorem backfill_undone_witness:
  "\<exists>t u. backfill_upgrade legacy_session = (Inr (), t) \<and> backfill_downgrade t = (Inr (), u) \<and>
     transactions (work u) = [entry_3] \<and>
     map (\<lambda>w. w\<lparr>w_updated_at := 0\<rparr>) (wallets (work u)) =
       map (\<lambda>w. w\<lparr>w_updated_at := 0\<rparr>) [wallet_alice_legacy, wallet_bob]"
proof -
  have "list_all (\<lambda>w. legacy_wallet (transactions (work legacy_session)) w \<longrightarrow>
      w_available_balance w = 0) (wallets (work legacy_session))" by code_simp
  from backfill_undone [OF legacy_session_ok this] show ?thesis by (simp add: legacy_defs)
qed

end
