(* ===== verification/DataMigrations.thy ===== *)
theory DataMigrations
  imports Backfill
begin

text \<open>
  The data steps of two schema revisions under \<^verbatim>\<open>src/alembic/versions\<close>, as functions on the rows:
  \<^verbatim>\<open>b807c382afe3\<close> merges the wallets of a user into the oldest one before a wallet per user is
  enforced, \<^verbatim>\<open>c1a2b3d4e5f6\<close> collapses duplicate participants and repoints every row that names one
  before their unique constraint is added.  \<open>None\<close> is the database refusing a constraint or a value.
  Their schema steps are in \<^verbatim>\<open>Migrations\<close>.
\<close>

section \<open>One wallet per user\<close>

text \<open>\<^verbatim>\<open>SELECT DISTINCT ON (user_id) id FROM wallet ORDER BY user_id, created_at, id\<close>.\<close>

definition oldest_first :: "wallet list \<Rightarrow> wallet list" where
  "oldest_first ws = sort_key w_created_at (sort_key w_id ws)"

definition kept_wallet :: "wallet list \<Rightarrow> id \<Rightarrow> wallet option" where
  "kept_wallet ws user_id = find_first (\<lambda>w. w_user_id w = user_id) (oldest_first ws)"

definition is_kept :: "wallet list \<Rightarrow> wallet \<Rightarrow> bool" where
  "is_kept ws w \<longleftrightarrow> map_option w_id (kept_wallet ws (w_user_id w)) = Some (w_id w)"

definition held_by :: "(wallet \<Rightarrow> money) \<Rightarrow> id \<Rightarrow> wallet list \<Rightarrow> money" where
  "held_by f user_id ws = sum_list (map f (filter (\<lambda>w. w_user_id w = user_id) ws))"

definition sum_onto_kept :: "wallet list \<Rightarrow> wallet list" where
  "sum_onto_kept ws =
     map (\<lambda>w. if is_kept ws w
          then w\<lparr>w_available_balance := held_by w_available_balance (w_user_id w) ws,
                 w_escrow_balance := held_by w_escrow_balance (w_user_id w) ws\<rparr> else w) ws"

definition drop_duplicates :: "wallet list \<Rightarrow> wallet list" where
  "drop_duplicates ws = filter (is_kept ws) ws"

definition merge_wallets :: "wallet list \<Rightarrow> wallet list" where
  "merge_wallets ws =
     (if distinct (map w_user_id ws) then ws else drop_duplicates (sum_onto_kept ws))"

text \<open>\<^verbatim>\<open>ROUND(x, 2)\<close> of a \<^verbatim>\<open>numeric\<close>, and the cast to \<^verbatim>\<open>NUMERIC(12,2)\<close>: ties away from zero.\<close>

definition round2 :: "money \<Rightarrow> money" where
  "round2 x = (if 0 \<le> x then of_int \<lfloor>x * 100 + 1 / 2\<rfloor> / 100 else - (of_int \<lfloor>- x * 100 + 1 / 2\<rfloor> / 100))"

definition normalised_wallet :: "wallet \<Rightarrow> wallet" where
  "normalised_wallet w =
     w\<lparr>w_available_balance := round2 (w_available_balance w),
       w_escrow_balance := round2 (w_escrow_balance w), w_currency := ''NGN''\<rparr>"

definition normalise_wallets :: "wallet list \<Rightarrow> wallet list option" where
  "normalise_wallets ws =
     (let vs = map normalised_wallet (merge_wallets ws)
      in if list_all wallet_fits vs \<and> wallet_constraints vs then Some vs else None)"

section \<open>One participant per agreement and user\<close>

definition same_member :: "participant \<Rightarrow> participant \<Rightarrow> bool" where
  "same_member p q \<longleftrightarrow> p_agreement_id p = p_agreement_id q \<and> p_user_id p = p_user_id q"

text \<open>\<^verbatim>\<open>(array_agg(id ORDER BY id))[1]\<close> of the group.\<close>

definition keep_id :: "participant list \<Rightarrow> participant \<Rightarrow> id" where
  "keep_id ps p = hd (sort (map p_id (filter (same_member p) ps)))"

definition participant_dupes :: "participant list \<Rightarrow> (id \<times> id) list" where
  "participant_dupes ps =
     map (\<lambda>p. (p_id p, keep_id ps p))
       (filter (\<lambda>p. 1 < length (filter (same_member p) ps) \<and> p_id p \<noteq> keep_id ps p) ps)"

definition repoint :: "(id \<times> id) list \<Rightarrow> id \<Rightarrow> id" where
  "repoint dupes x = (case map_of dupes x of None \<Rightarrow> x | Some k \<Rightarrow> k)"

definition dedupe_participants :: "db \<Rightarrow> db" where
  "dedupe_participants d =
     (let dupes = participant_dupes (participants d)
      in d\<lparr>conditions :=
             map (\<lambda>c. c\<lparr>c_required_from_participant_id :=
                       map_option (repoint dupes) (c_required_from_participant_id c)\<rparr>)
               (map (\<lambda>c. c\<lparr>c_participant_id := repoint dupes (c_participant_id c)\<rparr>) (conditions d)),
           assets := map (\<lambda>a. a\<lparr>s_uploaded_by := repoint dupes (s_uploaded_by a)\<rparr>) (assets d),
           transactions :=
             map (\<lambda>t. t\<lparr>t_participant_id := map_option (repoint dupes) (t_participant_id t)\<rparr>)
               (transactions d),
           participants := filter (\<lambda>p. p_id p \<notin> fst ` set dupes) (participants d)\<rparr>)"

definition enforce_unique_participant :: "db \<Rightarrow> db option" where
  "enforce_unique_participant d =
     (let d' = dedupe_participants d
      in if participant_constraints (participants d') then Some d' else None)"

section \<open>The merge\<close>

lemma filter_key_single:
  "distinct (map key xs) \<Longrightarrow> k \<in> set xs \<Longrightarrow> filter (\<lambda>x. key x = key k) xs = [k]"
  by (induction xs) (auto simp: filter_empty_conv image_iff)

lemma insort_key_map:
  "(\<And>x. f (g x) = f x) \<Longrightarrow> map g (insort_key f x xs) = insort_key f (g x) (map g xs)"
  by (induction xs) auto

lemma sort_key_map:
  "(\<And>x. f (g x) = f x) \<Longrightarrow> sort_key f (map g xs) = map g (sort_key f xs)"
  by (induction xs) (auto simp: insort_key_map)

lemma set_oldest_first [simp]: "set (oldest_first ws) = set ws"
  by (simp add: oldest_first_def)

lemma kept_wallet_SomeD:
  "kept_wallet ws u = Some k \<Longrightarrow> k \<in> set ws \<and> w_user_id k = u"
  by (auto simp: kept_wallet_def dest!: find_first_SomeD)

lemma kept_wallet_None_iff: "kept_wallet ws u = None \<longleftrightarrow> u \<notin> w_user_id ` set ws"
  by (auto simp: kept_wallet_def find_first_None_iff)

lemma first_is_least:
  "find_first P xs = Some x \<Longrightarrow> sorted (map key xs) \<Longrightarrow> y \<in> set xs \<Longrightarrow> P y \<Longrightarrow> key x \<le> key y"
  by (induction xs) (auto split: if_splits)

lemma kept_wallet_oldest:
  assumes "kept_wallet ws u = Some k" and "w \<in> set ws" and "w_user_id w = u"
  shows "w_created_at k \<le> w_created_at w"
  using assms
  by (intro first_is_least [where P = "\<lambda>w. w_user_id w = u" and xs = "oldest_first ws"])
    (simp_all add: kept_wallet_def oldest_first_def)

text \<open>The rows a user has left: the kept one.\<close>

lemma kept_rows:
  assumes "distinct (map w_id ws)"
  shows "filter (\<lambda>w. w_user_id w = u \<and> is_kept ws w) ws =
     (case kept_wallet ws u of None \<Rightarrow> [] | Some k \<Rightarrow> [k])"
proof (cases "kept_wallet ws u")
  case None
  then have "u \<notin> w_user_id ` set ws" by (simp add: kept_wallet_None_iff)
  with None show ?thesis by (auto simp: filter_empty_conv)
next
  case (Some k)
  then have k: "k \<in> set ws" "w_user_id k = u" by (auto dest: kept_wallet_SomeD)
  have "(w_user_id w = u \<and> is_kept ws w) = (w_id w = w_id k)" if "w \<in> set ws" for w
  proof
    assume "w_user_id w = u \<and> is_kept ws w"
    with Some show "w_id w = w_id k" by (auto simp: is_kept_def)
  next
    assume "w_id w = w_id k"
    with that k assms have "w = k" by (auto simp: distinct_map dest: inj_onD)
    with Some k show "w_user_id w = u \<and> is_kept ws w" by (simp add: is_kept_def)
  qed
  then have "filter (\<lambda>w. w_user_id w = u \<and> is_kept ws w) ws = filter (\<lambda>w. w_id w = w_id k) ws"
    by (rule filter_cong [OF refl])
  with Some filter_key_single [OF assms k(1)] show ?thesis by simp
qed

definition onto_kept :: "wallet list \<Rightarrow> wallet \<Rightarrow> wallet" where
  "onto_kept ws w =
     (if is_kept ws w
      then w\<lparr>w_available_balance := held_by w_available_balance (w_user_id w) ws,
             w_escrow_balance := held_by w_escrow_balance (w_user_id w) ws\<rparr> else w)"

lemma onto_kept_keys [simp]:
  "w_id (onto_kept ws w) = w_id w" "w_user_id (onto_kept ws w) = w_user_id w"
  "w_created_at (onto_kept ws w) = w_created_at w"
  by (simp_all add: onto_kept_def)

lemma is_kept_onto: "is_kept (map (onto_kept vs) ws) (onto_kept vs w) = is_kept ws w"
proof -
  have "oldest_first (map (onto_kept vs) ws) = map (onto_kept vs) (oldest_first ws)"
    by (simp add: oldest_first_def sort_key_map)
  moreover have "map_option w_id (find_first P (map (onto_kept vs) xs)) =
      map_option w_id (find_first (\<lambda>w. P (onto_kept vs w)) xs)" for P xs
    by (induction xs) auto
  ultimately show ?thesis by (simp add: is_kept_def kept_wallet_def)
qed

lemma merged_eq:
  "drop_duplicates (sum_onto_kept ws) = map (onto_kept ws) (filter (is_kept ws) ws)"
proof -
  have "sum_onto_kept ws = map (onto_kept ws) ws" by (simp add: sum_onto_kept_def onto_kept_def)
  then show ?thesis by (simp add: drop_duplicates_def filter_map comp_def is_kept_onto)
qed

lemma onto_kept_balances:
  "is_kept ws w \<Longrightarrow> w_available_balance (onto_kept ws w) = held_by w_available_balance (w_user_id w) ws"
  "is_kept ws w \<Longrightarrow> w_escrow_balance (onto_kept ws w) = held_by w_escrow_balance (w_user_id w) ws"
  by (simp_all add: onto_kept_def)

text \<open>The two branches of \<open>merge_wallets\<close> are one description.\<close>

lemma merge_wallets_rows:
  assumes "distinct (map w_id ws)"
  shows "filter (\<lambda>v. w_user_id v = u) (merge_wallets ws) =
     (case kept_wallet ws u of None \<Rightarrow> [] | Some k \<Rightarrow> [onto_kept ws k])"
proof (cases "distinct (map w_user_id ws)")
  case True
  show ?thesis
  proof (cases "kept_wallet ws u")
    case None
    then have "u \<notin> w_user_id ` set ws" by (simp add: kept_wallet_None_iff)
    with None True show ?thesis by (auto simp: merge_wallets_def filter_empty_conv)
  next
    case (Some k)
    then have k: "k \<in> set ws" "w_user_id k = u" by (auto dest: kept_wallet_SomeD)
    with True filter_key_single [OF True k(1)] have one: "filter (\<lambda>v. w_user_id v = u) ws = [k]"
      by simp
    then have "onto_kept ws k = k" using k by (simp add: onto_kept_def held_by_def)
    with Some True one show ?thesis by (simp add: merge_wallets_def)
  qed
next
  case False
  with kept_rows [OF assms, of u] show ?thesis
    by (simp add: merge_wallets_def merged_eq filter_map comp_def conj_commute split: option.splits)
qed

lemma merge_wallets_distinct:
  assumes "distinct (map w_id ws)"
  shows "distinct (map w_id (merge_wallets ws))" "distinct (map w_user_id (merge_wallets ws))"
proof -
  show "distinct (map w_id (merge_wallets ws))"
    using assms by (auto simp: merge_wallets_def merged_eq comp_def distinct_map_filter)
  have single: "distinct (map key xs)" if "\<And>u. length (filter (\<lambda>v. key v = u) xs) \<le> 1"
    for key :: "wallet \<Rightarrow> id" and xs
    using that
  proof (induction xs)
    case (Cons x xs)
    from Cons.prems [of "key x"] have "filter (\<lambda>v. key v = key x) xs = []" by simp
    then have "key x \<notin> key ` set xs" by (auto simp: filter_empty_conv)
    moreover have "length (filter (\<lambda>v. key v = u) xs) \<le> 1" for u
      using Cons.prems [of u] by (simp split: if_splits)
    ultimately show ?case using Cons.IH by simp
  qed simp
  show "distinct (map w_user_id (merge_wallets ws))"
    by (rule single) (simp add: merge_wallets_rows [OF assms] split: option.splits)
qed

lemma merge_wallets_members:
  assumes "distinct (map w_id ws)" and "v \<in> set (merge_wallets ws)"
  obtains k where "kept_wallet ws (w_user_id v) = Some k" "v = onto_kept ws k" "is_kept ws k"
proof -
  from assms(2) have "v \<in> set (filter (\<lambda>x. w_user_id x = w_user_id v) (merge_wallets ws))" by simp
  then obtain k where k: "kept_wallet ws (w_user_id v) = Some k" "v = onto_kept ws k"
    unfolding merge_wallets_rows [OF assms(1)]
    by (cases "kept_wallet ws (w_user_id v)") auto
  moreover from k have "is_kept ws k" by (simp add: is_kept_def)
  ultimately show thesis by (rule that)
qed

section \<open>Rounding\<close>

lemma cents_list: "\<forall>w \<in> set ws. cents (f w) \<Longrightarrow> cents (sum_list (map f ws))"
  by (induction ws) (auto simp: cents_add, simp add: cents_def quantize2_def round_half_even_def)

lemma round2_near: "\<bar>round2 x - x\<bar> \<le> 1 / 200"
proof -
  have near: "\<bar>of_int \<lfloor>y * 100 + 1 / 2\<rfloor> / 100 - y\<bar> \<le> 1 / 200" for y :: money
  proof -
    have "\<bar>of_int \<lfloor>y * 100 + 1 / 2\<rfloor> - y * 100\<bar> \<le> 1 / 2"
      using floor_correct [of "y * 100 + 1 / 2"] by linarith
    then show ?thesis by linarith
  qed
  show ?thesis
  proof (cases "0 \<le> x")
    case False
    with near [of "- x"] show ?thesis unfolding round2_def by (simp only: if_False)
  qed (use near [of x] in \<open>simp add: round2_def\<close>)
qed

lemma round2_fits: "0 \<le> x \<Longrightarrow> x \<le> 9999999999 \<Longrightarrow> numeric_12_2 (round2 x)"
  using round2_near [of x] unfolding numeric_12_2_def by linarith

lemma round2_cents: "cents x \<Longrightarrow> round2 x = x"
proof -
  assume "cents x"
  then obtain n where x: "x = of_int n / 100" by (auto simp: cents_def quantize2_eq_iff)
  have "\<lfloor>of_int m + 1 / 2 :: rat\<rfloor> = m" for m :: int by linarith
  from this [of n] this [of "- n"] show ?thesis by (simp add: round2_def x)
qed

lemma round2_nonneg: "0 \<le> x \<Longrightarrow> 0 \<le> round2 x"
  by (simp add: round2_def)

lemma normalised_wallet_simps [simp]:
  "w_id (normalised_wallet w) = w_id w" "w_user_id (normalised_wallet w) = w_user_id w"
  "w_created_at (normalised_wallet w) = w_created_at w"
  "w_available_balance (normalised_wallet w) = round2 (w_available_balance w)"
  "w_escrow_balance (normalised_wallet w) = round2 (w_escrow_balance w)"
  by (simp_all add: normalised_wallet_def)

section \<open>Repointed references\<close>

lemma same_member_refl [simp]: "same_member p p"
  by (simp add: same_member_def)

lemma same_member_group: "same_member p q \<Longrightarrow> keep_id ps p = keep_id ps q"
proof -
  assume "same_member p q"
  then have "same_member p = same_member q" by (auto simp: same_member_def)
  then show ?thesis by (simp add: keep_id_def)
qed

lemma keep_id_member:
  assumes "p \<in> set ps"
  obtains k where "k \<in> set ps" "same_member p k" "p_id k = keep_id ps p"
proof -
  let ?ids = "sort (map p_id (filter (same_member p) ps))"
  from assms have "p_id p \<in> set ?ids" by auto
  then have "hd ?ids \<in> set ?ids" by (metis hd_in_set list.set_cases neq_Nil_conv)
  then have "keep_id ps p \<in> p_id ` {q \<in> set ps. same_member p q}" by (simp add: keep_id_def)
  with that show thesis by fastforce
qed

lemma dupes_lookup:
  assumes "distinct (map p_id ps)" and "p \<in> set ps"
  shows "map_of (participant_dupes ps) (p_id p) =
      (if p_id p = keep_id ps p then None else Some (keep_id ps p))"
proof -
  let ?P = "\<lambda>p. 1 < length (filter (same_member p) ps) \<and> p_id p \<noteq> keep_id ps p"
  have "distinct (map fst (participant_dupes ps))"
    using assms(1) by (simp add: participant_dupes_def comp_def distinct_map_filter)
  moreover have "?P p" if "p_id p \<noteq> keep_id ps p"
  proof -
    obtain k where k: "k \<in> set ps" "same_member p k" "p_id k = keep_id ps p"
      by (rule keep_id_member [OF assms(2)])
    with that assms(2) have "{p, k} \<subseteq> set (filter (same_member p) ps)" "p \<noteq> k" by auto
    then have "1 < card (set (filter (same_member p) ps))"
      by (metis card_2_iff card_mono finite_set one_less_numeral_iff order_less_le_trans semiring_norm(76))
    with that show ?thesis by (metis card_length order_less_le_trans)
  qed
  ultimately show ?thesis
  proof (cases "p_id p = keep_id ps p")
    case True
    have "p_id p \<notin> fst ` set (participant_dupes ps)"
    proof
      assume "p_id p \<in> fst ` set (participant_dupes ps)"
      then obtain q where q: "q \<in> set ps" "p_id q = p_id p" "p_id q \<noteq> keep_id ps q"
        by (auto simp: participant_dupes_def)
      with assms have "q = p" by (auto simp: distinct_map dest: inj_onD)
      with q True show False by simp
    qed
    with True show ?thesis by (simp add: map_of_eq_None_iff)
  next
    case False
    with \<open>p_id p \<noteq> keep_id ps p \<Longrightarrow> ?P p\<close> assms(2)
    have "(p_id p, keep_id ps p) \<in> set (participant_dupes ps)" by (auto simp: participant_dupes_def)
    with False \<open>distinct (map fst (participant_dupes ps))\<close> show ?thesis by simp
  qed
qed

lemma repoint_member:
  "distinct (map p_id ps) \<Longrightarrow> p \<in> set ps \<Longrightarrow> repoint (participant_dupes ps) (p_id p) = keep_id ps p"
  by (simp add: repoint_def dupes_lookup)

lemma loser_iff:
  assumes "distinct (map p_id ps)" and "p \<in> set ps"
  shows "p_id p \<in> fst ` set (participant_dupes ps) \<longleftrightarrow> p_id p \<noteq> keep_id ps p"
  using dupes_lookup [OF assms] map_of_eq_None_iff [of "participant_dupes ps" "p_id p"]
  by (metis option.distinct(1))

definition survivors :: "participant list \<Rightarrow> participant list" where
  "survivors ps = filter (\<lambda>p. p_id p \<notin> fst ` set (participant_dupes ps)) ps"

lemma survivor_iff:
  "distinct (map p_id ps) \<Longrightarrow> p \<in> set (survivors ps) \<longleftrightarrow> p \<in> set ps \<and> p_id p = keep_id ps p"
  using loser_iff [of ps p] by (cases "p \<in> set ps") (simp_all add: survivors_def)

lemma survivors_constraints:
  assumes "distinct (map p_id ps)"
  shows "participant_constraints (survivors ps)"
proof -
  have "p = q" if "p \<in> set (survivors ps)" "q \<in> set (survivors ps)"
    "(p_agreement_id p, p_user_id p) = (p_agreement_id q, p_user_id q)" for p q
  proof -
    from that(3) have "keep_id ps p = keep_id ps q"
      by (intro same_member_group) (simp add: same_member_def)
    with that(1,2) assms have "p \<in> set ps" "q \<in> set ps" "p_id p = p_id q"
      by (simp_all add: survivor_iff)
    with assms show ?thesis by (auto simp: distinct_map dest: inj_onD)
  qed
  moreover have ids: "distinct (map p_id (survivors ps))"
    using assms by (simp add: survivors_def distinct_map_filter)
  moreover from ids have "distinct (survivors ps)" by (simp add: distinct_map)
  ultimately show ?thesis unfolding participant_constraints_def distinct_map inj_on_def by blast
qed

text \<open>The membership a stored participant id stands for.\<close>

definition member_of :: "participant list \<Rightarrow> id \<Rightarrow> (id \<times> id) option" where
  "member_of ps x =
     map_option (\<lambda>p. (p_agreement_id p, p_user_id p)) (find_first (\<lambda>p. p_id p = x) ps)"

lemma member_of_key:
  "distinct (map p_id ps) \<Longrightarrow> p \<in> set ps \<Longrightarrow>
   member_of ps (p_id p) = Some (p_agreement_id p, p_user_id p)"
  by (simp add: member_of_def find_first_key)

lemma member_of_repoint:
  assumes "distinct (map p_id ps)"
  shows "member_of (survivors ps) (repoint (participant_dupes ps) x) = member_of ps x"
proof (cases "x \<in> p_id ` set ps")
  case True
  then obtain p where p: "p \<in> set ps" "x = p_id p" by auto
  obtain k where k: "k \<in> set ps" "same_member p k" "p_id k = keep_id ps p"
    by (rule keep_id_member [OF p(1)])
  with same_member_group [OF k(2)] assms have "k \<in> set (survivors ps)" by (simp add: survivor_iff)
  moreover have "distinct (map p_id (survivors ps))"
    using assms by (simp add: survivors_def distinct_map_filter)
  ultimately show ?thesis
    using assms p k member_of_key [of "survivors ps" k]
    by (simp add: repoint_member member_of_key same_member_def)
next
  case False
  then have "x \<notin> fst ` set (participant_dupes ps)" by (auto simp: participant_dupes_def)
  then have "repoint (participant_dupes ps) x = x"
    by (simp add: repoint_def map_of_eq_None_iff [symmetric])
  moreover from False have "find_first (\<lambda>p. p_id p = x) ps = None"
    "find_first (\<lambda>p. p_id p = x) (survivors ps) = None"
    by (auto simp: find_first_None_iff survivors_def)
  ultimately show ?thesis by (simp add: member_of_def)
qed

section \<open>Properties\<close>

text \<open>C35: When every user's balances together fit the column, the wallet revision succeeds, leaves one
  wallet per user and none without, namely a user's oldest, and moves no money between users: a
  user's escrow is kept to the kobo and the available balance up to the rounding of the new column.
\<close>

theorem wallet_merge_conserves:
  assumes "distinct (map w_id ws)"
    and "list_all (\<lambda>w. 0 \<le> w_available_balance w \<and> 0 \<le> w_escrow_balance w \<and>
           cents (w_escrow_balance w)) ws"
    and "list_all (\<lambda>w. held_by w_available_balance (w_user_id w) ws \<le> 9999999999 \<and>
           held_by w_escrow_balance (w_user_id w) ws \<le> 9999999999) ws"
  shows "\<exists>vs. normalise_wallets ws = Some vs \<and> wallet_constraints vs \<and>
     w_user_id ` set vs = w_user_id ` set ws \<and>
     (\<forall>u. held_by w_escrow_balance u vs = held_by w_escrow_balance u ws \<and>
          \<bar>held_by w_available_balance u vs - held_by w_available_balance u ws\<bar> \<le> 1 / 200) \<and>
     list_all (\<lambda>v. list_all (\<lambda>w. w_user_id w \<noteq> w_user_id v \<or> w_created_at v \<le> w_created_at w) ws) vs"
proof -
  let ?ms = "merge_wallets ws"
  let ?vs = "map normalised_wallet ?ms"
  have nonneg: "0 \<le> held_by w_available_balance u ws" "0 \<le> held_by w_escrow_balance u ws" for u
    using assms(2) by (auto simp: held_by_def list_all_iff intro!: sum_list_nonneg)
  have escrow_cents: "cents (held_by w_escrow_balance u ws)" for u
    using assms(2) by (auto simp: held_by_def list_all_iff intro!: cents_list)
  have row: "w_available_balance v = held_by w_available_balance (w_user_id v) ws"
    "w_escrow_balance v = held_by w_escrow_balance (w_user_id v) ws"
    "\<exists>k \<in> set ws. w_user_id k = w_user_id v"
    "\<forall>w \<in> set ws. w_user_id w = w_user_id v \<longrightarrow> w_created_at v \<le> w_created_at w"
    if "v \<in> set ?ms" for v
    by (rule merge_wallets_members [OF assms(1) that],
        auto simp: onto_kept_balances dest: kept_wallet_SomeD kept_wallet_oldest)+
  have "wallet_fits (normalised_wallet v)" if v: "v \<in> set ?ms" for v
  proof -
    from row(3) [OF v] assms(3) have
      "held_by w_available_balance (w_user_id v) ws \<le> 9999999999"
      "held_by w_escrow_balance (w_user_id v) ws \<le> 9999999999"
      by (auto simp: list_all_iff)
    with row(1,2) [OF v] nonneg [of "w_user_id v"] show ?thesis
      by (simp add: wallet_fits_def round2_fits)
  qed
  moreover have wc: "wallet_constraints ?vs"
    using merge_wallets_distinct [OF assms(1)] row nonneg
    by (simp add: wallet_constraints_def comp_def list_all_iff round2_nonneg)
  ultimately have some: "normalise_wallets ws = Some ?vs"
    by (simp add: normalise_wallets_def list_all_iff)
  have rows: "filter (\<lambda>v. w_user_id v = u) ?vs =
      (case kept_wallet ws u of None \<Rightarrow> [] | Some k \<Rightarrow> [normalised_wallet (onto_kept ws k)])" for u
    using merge_wallets_rows [OF assms(1), of u]
    by (simp add: filter_map comp_def split: option.splits)
  have "u \<in> w_user_id ` set ?vs \<longleftrightarrow> u \<in> w_user_id ` set ws" for u
  proof -
    have "u \<in> w_user_id ` set ?vs \<longleftrightarrow> filter (\<lambda>v. w_user_id v = u) ?vs \<noteq> []"
      by (auto simp: filter_empty_conv image_image)
    also have "\<dots> \<longleftrightarrow> kept_wallet ws u \<noteq> None" unfolding rows by (simp split: option.splits)
    finally show ?thesis by (simp add: kept_wallet_None_iff)
  qed
  then have users: "w_user_id ` set ?vs = w_user_id ` set ws" by blast
  have sums: "held_by w_escrow_balance u ?vs = held_by w_escrow_balance u ws \<and>
      \<bar>held_by w_available_balance u ?vs - held_by w_available_balance u ws\<bar> \<le> 1 / 200" for u
  proof (cases "kept_wallet ws u")
    case None
    then have "filter (\<lambda>w. w_user_id w = u) ws = []"
      by (auto simp: kept_wallet_None_iff filter_empty_conv)
    with None show ?thesis by (simp add: held_by_def rows del: filter_map)
  next
    case (Some k)
    then have "is_kept ws k" "w_user_id k = u" by (auto simp: is_kept_def dest: kept_wallet_SomeD)
    with Some have "held_by w_escrow_balance u ?vs = round2 (held_by w_escrow_balance u ws)"
      "held_by w_available_balance u ?vs = round2 (held_by w_available_balance u ws)"
      by (simp_all add: held_by_def [of _ u ?vs] rows onto_kept_balances del: filter_map)
    then show ?thesis using round2_near round2_cents [OF escrow_cents] by simp
  qed
  have "list_all (\<lambda>v. list_all (\<lambda>w. w_user_id w \<noteq> w_user_id v \<or> w_created_at v \<le> w_created_at w) ws) ?vs"
    using row(4) by (auto simp: list_all_iff)
  with some wc users sums show ?thesis by blast
qed

definition dup_wallets :: "wallet list" where
  "dup_wallets =
     [(new_wallet ''ua'' ''w2'' 9)\<lparr>w_available_balance := 5 / 4, w_escrow_balance := 1 / 2\<rparr>,
      (new_wallet ''ub'' ''w3'' 4)\<lparr>w_available_balance := 7\<rparr>,
      (new_wallet ''ua'' ''w1'' 3)\<lparr>w_available_balance := 10, w_escrow_balance := 5\<rparr>]"

theorem wallet_merge_conserves_witness:
  "\<exists>vs. normalise_wallets dup_wallets = Some vs \<and> wallet_constraints vs \<and>
     w_user_id ` set vs = {''ua'', ''ub''} \<and> held_by w_escrow_balance ''ua'' vs = 11 / 2"
proof -
  have "distinct (map w_id dup_wallets)"
    "list_all (\<lambda>w. 0 \<le> w_available_balance w \<and> 0 \<le> w_escrow_balance w \<and>
       cents (w_escrow_balance w)) dup_wallets"
    "list_all (\<lambda>w. held_by w_available_balance (w_user_id w) dup_wallets \<le> 9999999999 \<and>
       held_by w_escrow_balance (w_user_id w) dup_wallets \<le> 9999999999) dup_wallets"
    by code_simp+
  from wallet_merge_conserves [OF this] obtain vs where vs: "normalise_wallets dup_wallets = Some vs"
    "wallet_constraints vs" "w_user_id ` set vs = w_user_id ` set dup_wallets"
    "held_by w_escrow_balance ''ua'' vs = held_by w_escrow_balance ''ua'' dup_wallets"
    by blast
  moreover have "held_by w_escrow_balance ''ua'' dup_wallets = 11 / 2" by code_simp
  moreover have "w_user_id ` set dup_wallets = {''ua'', ''ub''}"
    by (auto simp: dup_wallets_def new_wallet_def)
  ultimately show ?thesis by simp
qed

lemma dedupe_fields:
  "participants (dedupe_participants d) = survivors (participants d)"
  "map c_participant_id (conditions (dedupe_participants d)) =
     map (\<lambda>c. repoint (participant_dupes (participants d)) (c_participant_id c)) (conditions d)"
  "map c_required_from_participant_id (conditions (dedupe_participants d)) =
     map (\<lambda>c. map_option (repoint (participant_dupes (participants d)))
                (c_required_from_participant_id c)) (conditions d)"
  "map s_uploaded_by (assets (dedupe_participants d)) =
     map (\<lambda>a. repoint (participant_dupes (participants d)) (s_uploaded_by a)) (assets d)"
  "map t_participant_id (transactions (dedupe_participants d)) =
     map (\<lambda>t. map_option (repoint (participant_dupes (participants d))) (t_participant_id t))
       (transactions d)"
  by (simp_all add: dedupe_participants_def survivors_def Let_def comp_def)

lemma survivors_memberships:
  assumes "distinct (map p_id ps)"
  shows "(\<lambda>p. (p_agreement_id p, p_user_id p)) ` set (survivors ps) =
    (\<lambda>p. (p_agreement_id p, p_user_id p)) ` set ps" (is "?f ` _ = _")
proof
  show "?f ` set (survivors ps) \<subseteq> ?f ` set ps" by (auto simp: survivors_def)
  show "?f ` set ps \<subseteq> ?f ` set (survivors ps)"
  proof
    fix m assume "m \<in> ?f ` set ps"
    then obtain p where p: "p \<in> set ps" "m = ?f p" by auto
    obtain k where k: "k \<in> set ps" "same_member p k" "p_id k = keep_id ps p"
      by (rule keep_id_member [OF p(1)])
    with same_member_group [OF k(2)] assms have "k \<in> set (survivors ps)" by (simp add: survivor_iff)
    moreover from p k(2) have "m = ?f k" by (simp add: same_member_def)
    ultimately show "m \<in> ?f ` set (survivors ps)" by blast
  qed
qed

text \<open>C36: The participant revision never fails: afterwards an agreement has one row per user, every
  membership still has its row, and every condition, uploaded file and ledger entry names the same
  member of the same agreement as before (through a surviving row).
\<close>

theorem participants_deduplicated:
  assumes "distinct (map p_id (participants d))"
  shows "\<exists>e. enforce_unique_participant d = Some e \<and> participant_constraints (participants e) \<and>
     (\<lambda>p. (p_agreement_id p, p_user_id p)) ` set (participants e) =
       (\<lambda>p. (p_agreement_id p, p_user_id p)) ` set (participants d) \<and>
     map (\<lambda>c. member_of (participants e) (c_participant_id c)) (conditions e) =
       map (\<lambda>c. member_of (participants d) (c_participant_id c)) (conditions d) \<and>
     map (\<lambda>c. map_option (member_of (participants e)) (c_required_from_participant_id c)) (conditions e) =
       map (\<lambda>c. map_option (member_of (participants d)) (c_required_from_participant_id c)) (conditions d) \<and>
     map (\<lambda>a. member_of (participants e) (s_uploaded_by a)) (assets e) =
       map (\<lambda>a. member_of (participants d) (s_uploaded_by a)) (assets d) \<and>
     map (\<lambda>t. map_option (member_of (participants e)) (t_participant_id t)) (transactions e) =
       map (\<lambda>t. map_option (member_of (participants d)) (t_participant_id t)) (transactions d)"
proof -
  let ?e = "dedupe_participants d"
  note same = member_of_repoint [OF assms]
  have through: "map (\<lambda>x. f (g x)) xs = map f (map g xs)" for f :: "'y \<Rightarrow> 'z" and g :: "'x \<Rightarrow> 'y" and xs
    by simp
  have "map (\<lambda>c. member_of (participants ?e) (c_participant_id c)) (conditions ?e) =
      map (\<lambda>c. member_of (participants d) (c_participant_id c)) (conditions d)"
    unfolding through [of "member_of (participants ?e)" c_participant_id] dedupe_fields(2)
    by (simp add: dedupe_fields(1) same)
  moreover have "map (\<lambda>c. map_option (member_of (participants ?e)) (c_required_from_participant_id c))
        (conditions ?e) =
      map (\<lambda>c. map_option (member_of (participants d)) (c_required_from_participant_id c)) (conditions d)"
    unfolding through [of "map_option (member_of (participants ?e))" c_required_from_participant_id]
      dedupe_fields(3)
    by (simp add: dedupe_fields(1) same option.map_comp comp_def)
  moreover have "map (\<lambda>a. member_of (participants ?e) (s_uploaded_by a)) (assets ?e) =
      map (\<lambda>a. member_of (participants d) (s_uploaded_by a)) (assets d)"
    unfolding through [of "member_of (participants ?e)" s_uploaded_by] dedupe_fields(4)
    by (simp add: dedupe_fields(1) same)
  moreover have "map (\<lambda>t. map_option (member_of (participants ?e)) (t_participant_id t))
        (transactions ?e) =
      map (\<lambda>t. map_option (member_of (participants d)) (t_participant_id t)) (transactions d)"
    unfolding through [of "map_option (member_of (participants ?e))" t_participant_id] dedupe_fields(5)
    by (simp add: dedupe_fields(1) same option.map_comp comp_def)
  moreover have pc: "participant_constraints (participants ?e)"
    by (simp add: dedupe_fields(1) survivors_constraints [OF assms])
  moreover from pc have "enforce_unique_participant d = Some ?e"
    by (simp add: enforce_unique_participant_def Let_def)
  moreover have "(\<lambda>p. (p_agreement_id p, p_user_id p)) ` set (participants ?e) =
      (\<lambda>p. (p_agreement_id p, p_user_id p)) ` set (participants d)"
    using survivors_memberships [OF assms] by (simp add: dedupe_fields(1))
  ultimately show ?thesis by blast
qed

text \<open>Bob was added twice, and the second row is the one a condition is required from.\<close>

definition dup_participant :: "id \<Rightarrow> id \<Rightarrow> invitation_status \<Rightarrow> participant" where
  "dup_participant i u st =
     \<lparr>p_id = i, p_agreement_id = ''ag'', p_user_id = u, p_role = BENEFICIARY, p_status = st,
      p_joined_at = 1\<rparr>"

definition dup_db :: db where
  "dup_db =
     empty_db\<lparr>participants := [dup_participant ''p2'' ''ub'' ACCEPTED, dup_participant ''p1'' ''ub'' INVITED,
                             dup_participant ''p0'' ''ua'' ACCEPTED],
       conditions := [\<lparr>c_id = ''c'', c_agreement_id = ''ag'', c_participant_id = ''p0'',
         c_invitation_id = None, c_title = [], c_description = [],
         c_required_from_participant_id = Some ''p2'', c_status = COND_PENDING,
         c_approved_at = None, c_rejected_reason = None, c_created_at = 2\<rparr>]\<rparr>"

theorem participants_deduplicated_witness:
  "\<exists>e. enforce_unique_participant dup_db = Some e \<and> participant_constraints (participants e) \<and>
     map (\<lambda>c. map_option (member_of (participants e)) (c_required_from_participant_id c)) (conditions e) =
       [Some (Some (''ag'', ''ub''))]"
proof -
  have "distinct (map p_id (participants dup_db))" by code_simp
  moreover have "map (\<lambda>c. map_option (member_of (participants dup_db))
      (c_required_from_participant_id c)) (conditions dup_db) = [Some (Some (''ag'', ''ub''))]"
    by code_simp
  ultimately show ?thesis using participants_deduplicated [of dup_db] by auto
qed

text \<open>
  The row kept is the one with the lowest key, whatever became of the invitation: here the accepted
  row of Bob is the one that goes.
\<close>

lemma accepted_duplicate_lost:
  "map (\<lambda>p. (p_id p, p_status p)) (participants (dedupe_participants dup_db)) =
     [(''p1'', INVITED), (''p0'', ACCEPTED)]"
  by code_simp

end
