(* ===== verification/Migrations.thy ===== *)
theory Migrations
  imports Prelude
begin

text \<open>
  \<^verbatim>\<open>src/alembic/versions\<close>: the schema history.  A schema is its tables (columns, primary key and
  constraints) and its indexes; an operation of \<^verbatim>\<open>alembic.op\<close> is a value of \<open>ddl\<close>, and \<open>exec\<close> is
  what PostgreSQL does with it, \<open>None\<close> when it refuses: a relation, column or constraint that is
  missing or already there, a foreign key to a column that does not exist, a table another table
  references, a \<^verbatim>\<open>NOT NULL\<close> column without a default on a table with rows.  Which tables have rows is
  the argument \<open>filled\<close> (data steps are in \<^verbatim>\<open>Backfill\<close> and \<^verbatim>\<open>DataMigrations\<close>; a \<^verbatim>\<open>SET NOT NULL\<close> on
  a table with rows is taken to meet no null).  Names PostgreSQL gives to unnamed foreign keys are
  written out.  Constraints, indexes and tables are kept in the order of their names, so that two
  schemas are equal when they have the same objects.
\<close>

section \<open>Schemas\<close>

datatype coltype =
    VARCHAR "nat option"
  | NUMERIC "(nat \<times> nat) option"
  | INTEGER | BIGINT | FLOAT | BOOLEAN | JSON | JSONB | TEXT
  | TIMESTAMP bool

datatype column = Column (col_name: string) (col_type: coltype) (col_null: bool) (col_default: "string option")

datatype sql_constraint =
    Unique "string list"
  | Check string
  | ForeignKey "string list" string "string list" "string option"

datatype index_element = Asc string | Desc string

datatype sql_index =
  Index (ix_name: string) (ix_table: string) (ix_elements: "index_element list") (ix_unique: bool)
    (ix_where: "string option")

datatype sql_table =
  Table (tb_name: string) (tb_columns: "column list") (tb_key: "string list")
    (tb_constraints: "(string \<times> sql_constraint) list")

datatype schema = Schema (sch_tables: "sql_table list") (sch_indexes: "sql_index list")

datatype ddl =
    create_table string "column list" "string list" "(string \<times> sql_constraint) list"
  | drop_table string
  | add_column string column "(string \<times> sql_constraint) option"
  | drop_column string string
  | alter_type string string coltype
  | alter_nullable string string bool
  | create_index string string "index_element list" bool "string option"
  | drop_index string
  | drop_index_if_exists string
  | create_constraint string string sql_constraint
  | drop_constraint string string
  | require_empty string

text \<open>\<^verbatim>\<open>sa.Column\<close>: not null, nullable, not null with a server default.\<close>

definition col :: "string \<Rightarrow> coltype \<Rightarrow> column" where
  "col n ty = Column n ty False None"

definition ncol :: "string \<Rightarrow> coltype \<Rightarrow> column" where
  "ncol n ty = Column n ty True None"

definition dcol :: "string \<Rightarrow> coltype \<Rightarrow> string \<Rightarrow> column" where
  "dcol n ty d = Column n ty False (Some d)"

definition str :: coltype where
  "str = VARCHAR None"

definition varchar :: "nat \<Rightarrow> coltype" where
  "varchar n = VARCHAR (Some n)"

definition money_col :: coltype where
  "money_col = NUMERIC (Some (12, 2))"

definition timestamp :: coltype where
  "timestamp = TIMESTAMP False"

definition timestamptz :: coltype where
  "timestamptz = TIMESTAMP True"

definition references :: "string \<Rightarrow> string \<Rightarrow> sql_constraint" where
  "references column_name tbl = ForeignKey [column_name] tbl [''id''] None"

definition index_on :: "string \<Rightarrow> string \<Rightarrow> string \<Rightarrow> ddl" where
  "index_on n tbl column_name = create_index n tbl [Asc column_name] False None"

definition unique_index_on :: "string \<Rightarrow> string \<Rightarrow> string \<Rightarrow> ddl" where
  "unique_index_on n tbl column_name = create_index n tbl [Asc column_name] True None"

section \<open>What the database does\<close>

fun element_column :: "index_element \<Rightarrow> string" where
  "element_column (Asc c) = c"
| "element_column (Desc c) = c"

fun constraint_columns :: "sql_constraint \<Rightarrow> string list" where
  "constraint_columns (Unique cs) = cs"
| "constraint_columns (Check _) = []"
| "constraint_columns (ForeignKey cs _ _ _) = cs"

definition find_table :: "schema \<Rightarrow> string \<Rightarrow> sql_table option" where
  "find_table s n = find_first (\<lambda>t. tb_name t = n) (sch_tables s)"

definition has_columns :: "sql_table \<Rightarrow> string list \<Rightarrow> bool" where
  "has_columns t cs \<longleftrightarrow> list_all (\<lambda>c. list_ex (\<lambda>x. col_name x = c) (tb_columns t)) cs"

text \<open>Tables, indexes and the indexes behind unique constraints share one name space.\<close>

definition relation_names :: "schema \<Rightarrow> string list" where
  "relation_names s =
     map tb_name (sch_tables s) @ map ix_name (sch_indexes s) @
     concat (map (\<lambda>t. map fst (filter (\<lambda>c. case snd c of Unique _ \<Rightarrow> True | _ \<Rightarrow> False) (tb_constraints t)))
              (sch_tables s))"

definition constraint_ok :: "schema \<Rightarrow> sql_table \<Rightarrow> string \<times> sql_constraint \<Rightarrow> bool" where
  "constraint_ok s t c \<longleftrightarrow>
     fst c \<notin> set (map fst (tb_constraints t)) \<and> has_columns t (constraint_columns (snd c)) \<and>
     (case snd c of
        Unique _ \<Rightarrow> fst c \<notin> set (relation_names s)
      | Check _ \<Rightarrow> True
      | ForeignKey _ r cs _ \<Rightarrow>
          (case (if r = tb_name t then Some t else find_table s r) of
             None \<Rightarrow> False | Some u \<Rightarrow> has_columns u cs))"

definition with_constraint :: "string \<times> sql_constraint \<Rightarrow> sql_table \<Rightarrow> sql_table" where
  "with_constraint c t = Table (tb_name t) (tb_columns t) (tb_key t) (insort_key fst c (tb_constraints t))"

fun with_constraints ::
  "schema \<Rightarrow> (string \<times> sql_constraint) list \<Rightarrow> sql_table \<Rightarrow> sql_table option"
where
  "with_constraints s [] t = Some t"
| "with_constraints s (c # cs) t =
     (if constraint_ok s t c then with_constraints s cs (with_constraint c t) else None)"

definition replace_table :: "sql_table \<Rightarrow> schema \<Rightarrow> schema" where
  "replace_table t s =
     Schema (replace_by tb_name t (sch_tables s)) (sch_indexes s)"

definition referenced_by_other :: "schema \<Rightarrow> string \<Rightarrow> bool" where
  "referenced_by_other s n \<longleftrightarrow>
     list_ex (\<lambda>t. tb_name t \<noteq> n \<and>
        list_ex (\<lambda>c. case snd c of ForeignKey _ r _ _ \<Rightarrow> r = n | _ \<Rightarrow> False) (tb_constraints t))
       (sch_tables s)"

definition update_column :: "string \<Rightarrow> (column \<Rightarrow> column) \<Rightarrow> sql_table \<Rightarrow> sql_table" where
  "update_column n f t =
     Table (tb_name t) (map (\<lambda>c. if col_name c = n then f c else c) (tb_columns t)) (tb_key t)
       (tb_constraints t)"

text \<open>Dropping a column takes its indexes and the table's constraints on it along.\<close>

definition without_column :: "string \<Rightarrow> sql_table \<Rightarrow> sql_table" where
  "without_column n t =
     Table (tb_name t) (filter (\<lambda>c. col_name c \<noteq> n) (tb_columns t)) (tb_key t)
       (filter (\<lambda>c. n \<notin> set (constraint_columns (snd c))) (tb_constraints t))"

fun exec :: "(string \<Rightarrow> bool) \<Rightarrow> ddl \<Rightarrow> schema \<Rightarrow> schema option" where
  "exec filled (create_table n cs k xs) s =
     (if n \<in> set (relation_names s) \<or> \<not> has_columns (Table n cs k []) k then None
      else case with_constraints s xs (Table n cs k []) of
        None \<Rightarrow> None
      | Some t \<Rightarrow> Some (Schema (insort_key tb_name t (sch_tables s)) (sch_indexes s)))"
| "exec filled (drop_table n) s =
     (case find_table s n of
        None \<Rightarrow> None
      | Some t \<Rightarrow>
          if referenced_by_other s n then None
          else Some (Schema (filter (\<lambda>t. tb_name t \<noteq> n) (sch_tables s))
                            (filter (\<lambda>i. ix_table i \<noteq> n) (sch_indexes s))))"
| "exec filled (add_column n c fk) s =
     (case find_table s n of
        None \<Rightarrow> None
      | Some t \<Rightarrow>
          if has_columns t [col_name c] then None
          else if \<not> col_null c \<and> col_default c = None \<and> filled n then None
          else case with_constraints s (case fk of None \<Rightarrow> [] | Some x \<Rightarrow> [x])
                      (Table n (tb_columns t @ [c]) (tb_key t) (tb_constraints t)) of
              None \<Rightarrow> None | Some u \<Rightarrow> Some (replace_table u s))"
| "exec filled (drop_column n c) s =
     (case find_table s n of
        None \<Rightarrow> None
      | Some t \<Rightarrow>
          if \<not> has_columns t [c] \<or> c \<in> set (tb_key t) then None
          else let u = replace_table (without_column c t) s
               in Some (Schema (sch_tables u)
                    (filter (\<lambda>i. \<not> (ix_table i = n \<and> c \<in> set (map element_column (ix_elements i))))
                      (sch_indexes u))))"
| "exec filled (alter_type n c ty) s =
     (case find_table s n of
        None \<Rightarrow> None
      | Some t \<Rightarrow>
          if has_columns t [c]
          then Some (replace_table
                 (update_column c (\<lambda>x. Column (col_name x) ty (col_null x) (col_default x)) t) s)
          else None)"
| "exec filled (alter_nullable n c b) s =
     (case find_table s n of
        None \<Rightarrow> None
      | Some t \<Rightarrow>
          if has_columns t [c]
          then Some (replace_table
                 (update_column c (\<lambda>x. Column (col_name x) (col_type x) b (col_default x)) t) s)
          else None)"
| "exec filled (create_index n tbl es u wh) s =
     (case find_table s tbl of
        None \<Rightarrow> None
      | Some t \<Rightarrow>
          if n \<in> set (relation_names s) \<or> \<not> has_columns t (map element_column es) then None
          else Some (Schema (sch_tables s) (insort_key ix_name (Index n tbl es u wh) (sch_indexes s))))"
| "exec filled (drop_index n) s =
     (if n \<in> set (map ix_name (sch_indexes s))
      then Some (Schema (sch_tables s) (filter (\<lambda>i. ix_name i \<noteq> n) (sch_indexes s))) else None)"
| "exec filled (drop_index_if_exists n) s =
     Some (Schema (sch_tables s) (filter (\<lambda>i. ix_name i \<noteq> n) (sch_indexes s)))"
| "exec filled (create_constraint n tbl c) s =
     (case find_table s tbl of
        None \<Rightarrow> None
      | Some t \<Rightarrow>
          if constraint_ok s t (n, c) then Some (replace_table (with_constraint (n, c) t) s) else None)"
| "exec filled (drop_constraint n tbl) s =
     (case find_table s tbl of
        None \<Rightarrow> None
      | Some t \<Rightarrow>
          if n \<in> set (map fst (tb_constraints t))
          then Some (replace_table (Table (tb_name t) (tb_columns t) (tb_key t)
                       (filter (\<lambda>c. fst c \<noteq> n) (tb_constraints t))) s)
          else None)"
| "exec filled (require_empty n) s = (if filled n then None else Some s)"

fun run_ddl :: "(string \<Rightarrow> bool) \<Rightarrow> ddl list \<Rightarrow> schema \<Rightarrow> schema option" where
  "run_ddl filled [] s = Some s"
| "run_ddl filled (x # xs) s =
     (case exec filled x s of None \<Rightarrow> None | Some t \<Rightarrow> run_ddl filled xs t)"

section \<open>The revisions\<close>

record revision =
  revision_id :: string
  down_revision :: "string option"
  upgrade :: "ddl list"
  downgrade :: "ddl list"

definition a00e50e985b6 :: revision where
  "a00e50e985b6 =
     \<lparr>revision_id = ''a00e50e985b6'', down_revision = None,
      upgrade =
        [create_table ''asset_file'' [col ''id'' str, col ''url'' str, col ''type'' str] [''id''] [],
         create_table ''user''
           [col ''id'' str, col ''email'' str, ncol ''phone_number'' str, col ''name'' str,
            ncol ''profile_picture_url'' str, col ''active'' INTEGER, col ''created_at'' timestamp] [''id''] [],
         unique_index_on ''ix_user_email'' ''user'' ''email'',
         index_on ''ix_user_phone_number'' ''user'' ''phone_number'',
         create_table ''agreement''
           [col ''id'' str, col ''user_id'' str, col ''title'' str, col ''description'' str,
            col ''amount'' (NUMERIC None), col ''status'' str, col ''created_at'' timestamp] [''id'']
           [(''agreement_user_id_fkey'', references ''user_id'' ''user'')],
         create_table ''agreement_participant''
           [col ''id'' str, col ''agreement_id'' str, col ''user_id'' str, col ''role'' str, col ''status'' str,
            col ''joined_at'' timestamp] [''id'']
           [(''agreement_participant_agreement_id_fkey'', references ''agreement_id'' ''agreement''),
            (''agreement_participant_user_id_fkey'', references ''user_id'' ''user'')],
         create_table ''invitation''
           [col ''id'' str, col ''email'' str, col ''token'' str, col ''agreement_id'' str, col ''role'' str,
            col ''invited_by'' str, ncol ''status'' str, col ''expires_at'' timestamp] [''id'']
           [(''invitation_agreement_id_fkey'', references ''agreement_id'' ''agreement''),
            (''invitation_invited_by_fkey'', references ''invited_by'' ''user'')],
         create_table ''condition''
           [col ''id'' str, col ''agreement_id'' str, col ''participant_id'' str, ncol ''invitation_id'' str,
            col ''title'' str, col ''description'' str, ncol ''required_from_participant_id'' str,
            col ''status'' str, ncol ''approved_at'' timestamp, ncol ''rejected_reason'' str,
            col ''created_at'' timestamp] [''id'']
           [(''condition_agreement_id_fkey'', references ''agreement_id'' ''agreement''),
            (''condition_invitation_id_fkey'', references ''invitation_id'' ''invitation''),
            (''condition_participant_id_fkey'', references ''participant_id'' ''agreement_participant''),
            (''condition_required_from_participant_id_fkey'',
             references ''required_from_participant_id'' ''agreement_participant'')],
         create_table ''transaction''
           [col ''id'' str, col ''agreement_id'' str, col ''participant_id'' str, ncol ''condition_id'' str,
            col ''amount'' (NUMERIC None), col ''type'' str, col ''status'' str, col ''created_at'' timestamp,
            ncol ''processed_at'' timestamp] [''id'']
           [(''transaction_agreement_id_fkey'', references ''agreement_id'' ''agreement''),
            (''transaction_participant_id_fkey'', references ''participant_id'' ''agreement_participant'')],
         create_table ''asset''
           [col ''id'' str, ncol ''condition_id'' str, col ''file_id'' str, col ''uploaded_by'' str,
            col ''is_approved'' BOOLEAN, col ''uploaded_at'' timestamp] [''id'']
           [(''asset_condition_id_fkey'', references ''condition_id'' ''condition''),
            (''asset_file_id_fkey'', references ''file_id'' ''asset_file''),
            (''asset_uploaded_by_fkey'', references ''uploaded_by'' ''agreement_participant'')]],
      downgrade =
        [drop_table ''asset'', drop_table ''transaction'', drop_table ''condition'',
         drop_table ''invitation'', drop_table ''agreement_participant'', drop_table ''agreement'',
         drop_index ''ix_user_phone_number'', drop_index ''ix_user_email'', drop_table ''user'',
         drop_table ''asset_file'']\<rparr>"

definition r35987cfa13e1 :: revision where
  "r35987cfa13e1 =
     \<lparr>revision_id = ''35987cfa13e1'', down_revision = Some ''a00e50e985b6'',
      upgrade =
        [create_table ''notification''
           [col ''id'' str, col ''user_id'' str, col ''type'' str, col ''title'' str, col ''message'' str,
            ncol ''metadata'' JSONB, col ''is_read'' BOOLEAN, col ''created_at'' timestamp] [''id'']
           [(''notification_user_id_fkey'', references ''user_id'' ''user'')],
         index_on ''ix_notification_user_id'' ''notification'' ''user_id''],
      downgrade = [drop_index ''ix_notification_user_id'', drop_table ''notification'']\<rparr>"

definition ddf1c9d2a5ca :: revision where
  "ddf1c9d2a5ca =
     \<lparr>revision_id = ''ddf1c9d2a5ca'', down_revision = Some ''35987cfa13e1'',
      upgrade = [add_column ''asset_file'' (col ''name'' str) None],
      downgrade = [drop_column ''asset_file'' ''name'']\<rparr>"

definition r58581e01bdc5 :: revision where
  "r58581e01bdc5 =
     \<lparr>revision_id = ''58581e01bdc5'', down_revision = Some ''ddf1c9d2a5ca'',
      upgrade = [add_column ''asset_file'' (col ''size'' FLOAT) None],
      downgrade = [drop_column ''asset_file'' ''size'']\<rparr>"

definition r0520b744fc63 :: revision where
  "r0520b744fc63 =
     \<lparr>revision_id = ''0520b744fc63'', down_revision = Some ''58581e01bdc5'',
      upgrade =
        [create_table ''wallet''
           [col ''id'' str, col ''user_id'' str, dcol ''escrow_balance'' money_col ''0.00'',
            col ''created_at'' timestamptz, col ''updated_at'' timestamptz] [''id'']
           [(''wallet_user_id_fkey'', references ''user_id'' ''user'')],
         index_on ''ix_wallet_id'' ''wallet'' ''id'', index_on ''ix_wallet_user_id'' ''wallet'' ''user_id''],
      downgrade = [drop_index ''ix_wallet_user_id'', drop_index ''ix_wallet_id'', drop_table ''wallet'']\<rparr>"

definition r6c819b8d4f12 :: revision where
  "r6c819b8d4f12 =
     \<lparr>revision_id = ''6c819b8d4f12'', down_revision = Some ''0520b744fc63'',
      upgrade =
        [create_table ''paystack_transaction''
           [col ''id'' str, col ''user_id'' str, col ''reference'' (varchar 100),
            ncol ''paystack_id'' BIGINT, col ''amount'' money_col, col ''currency'' (varchar 3),
            col ''status'' (varchar 50), col ''transaction_type'' (varchar 50),
            ncol ''payment_channel'' str, ncol ''gateway_response'' str, ncol ''raw_webhook_data'' JSON,
            dcol ''created_at'' timestamptz ''now()'', dcol ''updated_at'' timestamptz ''now()''] [''id'']
           [(''paystack_transaction_user_id_fkey'', references ''user_id'' ''user'')],
         index_on ''ix_paystack_transaction_id'' ''paystack_transaction'' ''id'',
         index_on ''ix_paystack_transaction_user_id'' ''paystack_transaction'' ''user_id'',
         unique_index_on ''ix_paystack_transaction_reference'' ''paystack_transaction'' ''reference'',
         index_on ''ix_paystack_transaction_paystack_id'' ''paystack_transaction'' ''paystack_id''],
      downgrade =
        [drop_index ''ix_paystack_transaction_paystack_id'',
         drop_index ''ix_paystack_transaction_reference'',
         drop_index ''ix_paystack_transaction_user_id'', drop_index ''ix_paystack_transaction_id'',
         drop_table ''paystack_transaction'']\<rparr>"

definition f33dc310e54d :: revision where
  "f33dc310e54d =
     \<lparr>revision_id = ''f33dc310e54d'', down_revision = Some ''6c819b8d4f12'',
      upgrade =
        [add_column ''transaction'' (ncol ''wallet_id'' str)
           (Some (''transaction_wallet_id_fkey'',
                  ForeignKey [''wallet_id''] ''wallet'' [''id''] (Some ''CASCADE''))),
         add_column ''transaction'' (ncol ''paystack_transaction_id'' str)
           (Some (''transaction_paystack_transaction_id_fkey'',
                  references ''paystack_transaction_id'' ''paystack_transaction''))],
      downgrade =
        [drop_column ''transaction'' ''wallet_id'',
         drop_column ''transaction'' ''paystack_transaction_id'']\<rparr>"

definition b83cb5fba960 :: revision where
  "b83cb5fba960 =
     \<lparr>revision_id = ''b83cb5fba960'', down_revision = Some ''f33dc310e54d'',
      upgrade = [add_column ''wallet'' (dcol ''available_balance'' (NUMERIC None) ''0.00'') None],
      downgrade = [drop_column ''wallet'' ''available_balance'']\<rparr>"

definition b807c382afe3 :: revision where
  "b807c382afe3 =
     \<lparr>revision_id = ''b807c382afe3'', down_revision = Some ''b83cb5fba960'',
      upgrade =
        [alter_type ''wallet'' ''available_balance'' money_col,
         alter_type ''wallet'' ''escrow_balance'' money_col,
         add_column ''wallet'' (dcol ''currency'' (varchar 3) ''NGN'') None,
         drop_index ''ix_wallet_user_id'',
         create_constraint ''uq_wallet_user_id'' ''wallet'' (Unique [''user_id'']),
         create_constraint ''ck_wallet_available_non_negative'' ''wallet'' (Check ''available_balance >= 0''),
         create_constraint ''ck_wallet_escrow_non_negative'' ''wallet'' (Check ''escrow_balance >= 0'')],
      downgrade =
        [drop_constraint ''ck_wallet_escrow_non_negative'' ''wallet'',
         drop_constraint ''ck_wallet_available_non_negative'' ''wallet'',
         drop_constraint ''uq_wallet_user_id'' ''wallet'',
         index_on ''ix_wallet_user_id'' ''wallet'' ''user_id'',
         drop_column ''wallet'' ''currency'',
         alter_type ''wallet'' ''available_balance'' (NUMERIC None)]\<rparr>"

definition d39cdb8297bf_upgrade :: "ddl list" where
  "d39cdb8297bf_upgrade =
     [require_empty ''transaction'',
      alter_nullable ''transaction'' ''agreement_id'' True,
      alter_nullable ''transaction'' ''participant_id'' True,
      add_column ''transaction'' (col ''user_id'' str) None,
      add_column ''transaction'' (col ''reference'' (varchar 120)) None,
      add_column ''transaction'' (ncol ''group_id'' (varchar 120)) None,
      add_column ''transaction'' (ncol ''counterparty_user_id'' str) None,
      add_column ''transaction'' (dcol ''currency'' (varchar 3) ''NGN'') None,
      add_column ''transaction'' (col ''available_delta'' money_col) None,
      add_column ''transaction'' (col ''escrow_delta'' money_col) None,
      add_column ''transaction'' (col ''balance_after'' money_col) None,
      add_column ''transaction'' (col ''escrow_after'' money_col) None,
      add_column ''transaction'' (col ''direction'' (varchar 10)) None,
      add_column ''transaction'' (ncol ''description'' (varchar 255)) None,
      add_column ''transaction'' (ncol ''metadata'' JSONB) None,
      alter_type ''transaction'' ''amount'' money_col,
      alter_type ''transaction'' ''type'' (varchar 32),
      alter_type ''transaction'' ''status'' (varchar 20),
      alter_type ''transaction'' ''created_at'' timestamptz,
      alter_type ''transaction'' ''processed_at'' timestamptz,
      alter_nullable ''transaction'' ''wallet_id'' False,
      drop_constraint ''transaction_wallet_id_fkey'' ''transaction'',
      create_constraint ''fk_transaction_wallet'' ''transaction''
        (ForeignKey [''wallet_id''] ''wallet'' [''id''] (Some ''RESTRICT'')),
      create_constraint ''fk_transaction_user'' ''transaction'' (references ''user_id'' ''user''),
      create_constraint ''fk_transaction_counterparty_user'' ''transaction''
        (references ''counterparty_user_id'' ''user''),
      create_constraint ''fk_transaction_condition'' ''transaction''
        (ForeignKey [''condition_id''] ''condition'' [''id''] (Some ''SET NULL'')),
      unique_index_on ''ux_transaction_reference'' ''transaction'' ''reference'',
      index_on ''ix_transaction_group_id'' ''transaction'' ''group_id'',
      create_index ''ix_transaction_user_created'' ''transaction''
        [Asc ''user_id'', Desc ''created_at''] False None,
      create_index ''ix_transaction_wallet_created'' ''transaction''
        [Asc ''wallet_id'', Desc ''created_at''] False None,
      index_on ''ix_transaction_agreement_id'' ''transaction'' ''agreement_id'',
      index_on ''ix_transaction_type'' ''transaction'' ''type'',
      index_on ''ix_transaction_status'' ''transaction'' ''status'',
      index_on ''ix_transaction_paystack_transaction_id'' ''transaction'' ''paystack_transaction_id'',
      create_constraint ''ck_transaction_amount_positive'' ''transaction'' (Check ''amount > 0'')]"

definition d39cdb8297bf_downgrade :: "ddl list" where
  "d39cdb8297bf_downgrade =
     [drop_constraint ''ck_transaction_amount_positive'' ''transaction'',
      drop_index ''ix_transaction_paystack_transaction_id'', drop_index ''ix_transaction_status'',
      drop_index ''ix_transaction_type'', drop_index ''ix_transaction_agreement_id'',
      drop_index ''ix_transaction_wallet_created'', drop_index ''ix_transaction_user_created'',
      drop_index ''ix_transaction_group_id'', drop_index ''ux_transaction_reference'',
      drop_constraint ''fk_transaction_condition'' ''transaction'',
      drop_constraint ''fk_transaction_counterparty_user'' ''transaction'',
      drop_constraint ''fk_transaction_user'' ''transaction'',
      drop_constraint ''fk_transaction_wallet'' ''transaction'',
      create_constraint ''transaction_wallet_id_fkey'' ''transaction''
        (ForeignKey [''wallet_id''] ''wallet'' [''id''] (Some ''CASCADE'')),
      alter_nullable ''transaction'' ''wallet_id'' True,
      alter_type ''transaction'' ''processed_at'' timestamp,
      alter_type ''transaction'' ''created_at'' timestamp,
      alter_type ''transaction'' ''status'' str, alter_type ''transaction'' ''type'' str,
      alter_type ''transaction'' ''amount'' (NUMERIC None)] @
     map (drop_column ''transaction'')
       [''metadata'', ''description'', ''direction'', ''escrow_after'', ''balance_after'', ''escrow_delta'',
        ''available_delta'', ''currency'', ''counterparty_user_id'', ''group_id'', ''reference'', ''user_id''] @
     [alter_nullable ''transaction'' ''participant_id'' False,
      alter_nullable ''transaction'' ''agreement_id'' False]"

definition d39cdb8297bf :: revision where
  "d39cdb8297bf =
     \<lparr>revision_id = ''d39cdb8297bf'', down_revision = Some ''b807c382afe3'',
      upgrade = d39cdb8297bf_upgrade, downgrade = d39cdb8297bf_downgrade\<rparr>"

definition r223902e70386 :: revision where
  "r223902e70386 =
     \<lparr>revision_id = ''223902e70386'', down_revision = Some ''d39cdb8297bf'',
      upgrade =
        [create_table ''bank_account''
           [col ''id'' str, col ''user_id'' str, col ''account_number'' (varchar 20),
            col ''bank_code'' (varchar 10), col ''bank_name'' (varchar 120),
            col ''account_name'' (varchar 120), col ''recipient_code'' (varchar 100),
            dcol ''currency'' (varchar 3) ''NGN'', dcol ''is_default'' BOOLEAN ''false'',
            dcol ''is_active'' BOOLEAN ''true'', col ''created_at'' timestamptz,
            col ''updated_at'' timestamptz] [''id'']
           [(''bank_account_user_id_fkey'', references ''user_id'' ''user'')],
         index_on ''ix_bank_account_user_id'' ''bank_account'' ''user_id'',
         unique_index_on ''ix_bank_account_recipient_code'' ''bank_account'' ''recipient_code'',
         create_index ''ux_bank_account_user_bank_acct'' ''bank_account''
           [Asc ''user_id'', Asc ''bank_code'', Asc ''account_number''] True (Some ''is_active''),
         create_index ''ux_bank_account_one_default'' ''bank_account'' [Asc ''user_id''] True
           (Some ''is_default AND is_active'')],
      downgrade =
        [drop_index_if_exists ''ux_bank_account_one_default'',
         drop_index_if_exists ''ux_bank_account_user_bank_acct'',
         drop_index ''ix_bank_account_recipient_code'', drop_index ''ix_bank_account_user_id'',
         drop_table ''bank_account'']\<rparr>"

definition c0b1ab165890 :: revision where
  "c0b1ab165890 =
     \<lparr>revision_id = ''c0b1ab165890'', down_revision = Some ''223902e70386'',
      upgrade =
        [create_table ''webhook_event''
           [col ''id'' str, dcol ''provider'' (varchar 32) ''paystack'', col ''dedupe_key'' (varchar 200),
            col ''event_type'' (varchar 64), ncol ''provider_event_id'' (varchar 64),
            ncol ''reference'' (varchar 120), col ''status'' (varchar 20), dcol ''attempts'' INTEGER ''1'',
            col ''payload'' JSONB, ncol ''error'' TEXT, col ''received_at'' timestamptz,
            ncol ''processed_at'' timestamptz] [''id''] [],
         unique_index_on ''ix_webhook_event_dedupe_key'' ''webhook_event'' ''dedupe_key'',
         index_on ''ix_webhook_event_event_type'' ''webhook_event'' ''event_type'',
         index_on ''ix_webhook_event_reference'' ''webhook_event'' ''reference'',
         index_on ''ix_webhook_event_status'' ''webhook_event'' ''status'',
         index_on ''ix_webhook_event_received_at'' ''webhook_event'' ''received_at''],
      downgrade =
        map drop_index
          [''ix_webhook_event_received_at'', ''ix_webhook_event_status'', ''ix_webhook_event_reference'',
           ''ix_webhook_event_event_type'', ''ix_webhook_event_dedupe_key''] @
        [drop_table ''webhook_event'']\<rparr>"

definition r52d0ec05beec :: revision where
  "r52d0ec05beec =
     \<lparr>revision_id = ''52d0ec05beec'', down_revision = Some ''c0b1ab165890'',
      upgrade =
        [create_table ''idempotency_key''
           [col ''id'' str, col ''user_id'' str, col ''key'' (varchar 120), col ''endpoint'' (varchar 120),
            col ''request_hash'' (varchar 64), col ''status'' (varchar 20),
            ncol ''response_status_code'' INTEGER, ncol ''response_body'' JSONB,
            ncol ''resource_reference'' (varchar 120), col ''created_at'' timestamptz,
            ncol ''completed_at'' timestamptz, col ''expires_at'' timestamptz] [''id'']
           [(''idempotency_key_user_id_fkey'', references ''user_id'' ''user''),
            (''ux_idempotency_user_endpoint_key'', Unique [''user_id'', ''endpoint'', ''key''])],
         index_on ''ix_idempotency_key_user_id'' ''idempotency_key'' ''user_id'',
         index_on ''ix_idempotency_key_status'' ''idempotency_key'' ''status'',
         index_on ''ix_idempotency_key_expires_at'' ''idempotency_key'' ''expires_at''],
      downgrade =
        map drop_index
          [''ix_idempotency_key_expires_at'', ''ix_idempotency_key_status'', ''ix_idempotency_key_user_id''] @
        [drop_table ''idempotency_key'']\<rparr>"

definition r0c6fbd8f4bd0 :: revision where
  "r0c6fbd8f4bd0 =
     \<lparr>revision_id = ''0c6fbd8f4bd0'', down_revision = Some ''52d0ec05beec'',
      upgrade =
        [add_column ''paystack_transaction'' (ncol ''transfer_code'' (varchar 100)) None,
         add_column ''paystack_transaction'' (ncol ''recipient_code'' (varchar 100)) None,
         add_column ''paystack_transaction'' (ncol ''bank_account_id'' str) None,
         add_column ''paystack_transaction'' (ncol ''failure_reason'' (varchar 255)) None,
         index_on ''ix_paystack_transaction_transfer_code'' ''paystack_transaction'' ''transfer_code'',
         create_constraint ''fk_paystack_transaction_bank_account'' ''paystack_transaction''
           (references ''bank_account_id'' ''bank_account'')],
      downgrade =
        [drop_constraint ''fk_paystack_transaction_bank_account'' ''paystack_transaction'',
         drop_index ''ix_paystack_transaction_transfer_code'',
         drop_column ''paystack_transaction'' ''failure_reason'',
         drop_column ''paystack_transaction'' ''bank_account_id'',
         drop_column ''paystack_transaction'' ''recipient_code'',
         drop_column ''paystack_transaction'' ''transfer_code'']\<rparr>"

definition r9fc5c9ab7a06 :: revision where
  "r9fc5c9ab7a06 =
     \<lparr>revision_id = ''9fc5c9ab7a06'', down_revision = Some ''0c6fbd8f4bd0'',
      upgrade =
        [drop_index ''ix_transaction_user_created'', drop_index ''ix_transaction_wallet_created'',
         create_index ''ix_transaction_user_created'' ''transaction''
           [Asc ''user_id'', Asc ''created_at''] False None,
         create_index ''ix_transaction_wallet_created'' ''transaction''
           [Asc ''wallet_id'', Asc ''created_at''] False None,
         drop_index ''ix_wallet_id'', drop_index ''ix_paystack_transaction_id''],
      downgrade =
        [index_on ''ix_paystack_transaction_id'' ''paystack_transaction'' ''id'',
         index_on ''ix_wallet_id'' ''wallet'' ''id'',
         drop_index ''ix_transaction_wallet_created'', drop_index ''ix_transaction_user_created'',
         create_index ''ix_transaction_user_created'' ''transaction''
           [Asc ''user_id'', Desc ''created_at''] False None,
         create_index ''ix_transaction_wallet_created'' ''transaction''
           [Asc ''wallet_id'', Desc ''created_at''] False None]\<rparr>"

text \<open>Data only (\<^verbatim>\<open>Backfill\<close>), and a revision whose two bodies are \<^verbatim>\<open>pass\<close>.\<close>

definition r93fd3622d2c5 :: revision where
  "r93fd3622d2c5 =
     \<lparr>revision_id = ''93fd3622d2c5'', down_revision = Some ''9fc5c9ab7a06'', upgrade = [], downgrade = []\<rparr>"

definition r8692a810a7b1 :: revision where
  "r8692a810a7b1 =
     \<lparr>revision_id = ''8692a810a7b1'', down_revision = Some ''93fd3622d2c5'', upgrade = [], downgrade = []\<rparr>"

definition active_dispute :: string where
  "active_dispute = ''status IN ('' @ [CHR 0x27] @ ''open'' @ [CHR 0x27] @ '', '' @ [CHR 0x27] @
     ''under_review'' @ [CHR 0x27] @ '')''"

definition single_parent :: string where
  "single_parent =
     ''(condition_id IS NOT NULL AND dispute_id IS NULL) '' @
     ''OR (condition_id IS NULL AND dispute_id IS NOT NULL)''"

definition r42098c496863 :: revision where
  "r42098c496863 =
     \<lparr>revision_id = ''42098c496863'', down_revision = Some ''8692a810a7b1'',
      upgrade =
        [add_column ''user'' (dcol ''is_admin'' BOOLEAN ''false'') None,
         create_table ''dispute''
           [col ''id'' str, col ''agreement_id'' str, col ''raised_by_user_id'' str,
            col ''against_user_id'' str, col ''category'' (varchar 32), col ''description'' str,
            col ''status'' (varchar 20), col ''agreement_status_before'' str,
            ncol ''resolution_outcome'' (varchar 32), ncol ''resolution_notes'' str,
            ncol ''resolved_by_user_id'' str, ncol ''resolved_at'' timestamptz,
            col ''created_at'' timestamptz, col ''updated_at'' timestamptz] [''id'']
           [(''dispute_agreement_id_fkey'', references ''agreement_id'' ''agreement''),
            (''dispute_raised_by_user_id_fkey'', references ''raised_by_user_id'' ''user''),
            (''dispute_against_user_id_fkey'', references ''against_user_id'' ''user''),
            (''dispute_resolved_by_user_id_fkey'', references ''resolved_by_user_id'' ''user'')],
         index_on ''ix_dispute_agreement_id'' ''dispute'' ''agreement_id'',
         index_on ''ix_dispute_status'' ''dispute'' ''status'',
         index_on ''ix_dispute_raised_by_user_id'' ''dispute'' ''raised_by_user_id'',
         index_on ''ix_dispute_against_user_id'' ''dispute'' ''against_user_id'',
         create_index ''ux_dispute_one_active_per_agreement'' ''dispute'' [Asc ''agreement_id''] True
           (Some active_dispute),
         add_column ''asset'' (ncol ''dispute_id'' str) None,
         create_constraint ''fk_asset_dispute_id'' ''asset'' (references ''dispute_id'' ''dispute''),
         index_on ''ix_asset_dispute_id'' ''asset'' ''dispute_id'',
         create_constraint ''ck_asset_single_parent'' ''asset'' (Check single_parent)],
      downgrade =
        [drop_constraint ''ck_asset_single_parent'' ''asset'', drop_index ''ix_asset_dispute_id'',
         drop_constraint ''fk_asset_dispute_id'' ''asset'', drop_column ''asset'' ''dispute_id'',
         drop_index_if_exists ''ux_dispute_one_active_per_agreement'',
         drop_index ''ix_dispute_against_user_id'', drop_index ''ix_dispute_raised_by_user_id'',
         drop_index ''ix_dispute_status'', drop_index ''ix_dispute_agreement_id'',
         drop_table ''dispute'', drop_column ''user'' ''is_admin'']\<rparr>"

definition c1a2b3d4e5f6 :: revision where
  "c1a2b3d4e5f6 =
     \<lparr>revision_id = ''c1a2b3d4e5f6'', down_revision = Some ''42098c496863'',
      upgrade =
        [create_constraint ''ux_agreement_participant_agreement_user'' ''agreement_participant''
           (Unique [''agreement_id'', ''user_id''])],
      downgrade =
        [drop_constraint ''ux_agreement_participant_agreement_user'' ''agreement_participant'']\<rparr>"

definition d2b3c4d5e6f7 :: revision where
  "d2b3c4d5e6f7 =
     \<lparr>revision_id = ''d2b3c4d5e6f7'', down_revision = Some ''c1a2b3d4e5f6'',
      upgrade =
        [create_table ''refresh_token''
           [col ''jti'' str, col ''user_id'' str, col ''issued_at'' timestamp, col ''expires_at'' timestamp,
            ncol ''revoked_at'' timestamp, ncol ''replaced_by_jti'' str] [''jti'']
           [(''refresh_token_user_id_fkey'', references ''user_id'' ''user'')],
         index_on ''ix_refresh_token_user_id'' ''refresh_token'' ''user_id'',
         index_on ''ix_refresh_token_expires_at'' ''refresh_token'' ''expires_at''],
      downgrade =
        [drop_index ''ix_refresh_token_expires_at'', drop_index ''ix_refresh_token_user_id'',
         drop_table ''refresh_token'']\<rparr>"

definition e3c4d5e6f7a8 :: revision where
  "e3c4d5e6f7a8 =
     \<lparr>revision_id = ''e3c4d5e6f7a8'', down_revision = Some ''d2b3c4d5e6f7'',
      upgrade =
        [unique_index_on ''ix_invitation_token'' ''invitation'' ''token'',
         index_on ''ix_invitation_email'' ''invitation'' ''email''],
      downgrade = [drop_index ''ix_invitation_email'', drop_index ''ix_invitation_token'']\<rparr>"

section \<open>The chain\<close>

text \<open>The directory's files, in the order of their names.\<close>

definition versions :: "revision list" where
  "versions =
     [r0520b744fc63, r0c6fbd8f4bd0, r223902e70386, r35987cfa13e1, r42098c496863, r52d0ec05beec,
      r58581e01bdc5, r6c819b8d4f12, r8692a810a7b1, r93fd3622d2c5, r9fc5c9ab7a06, a00e50e985b6,
      b807c382afe3, b83cb5fba960, c0b1ab165890, c1a2b3d4e5f6, d2b3c4d5e6f7, d39cdb8297bf,
      ddf1c9d2a5ca, e3c4d5e6f7a8, f33dc310e54d]"

text \<open>From a revision to the ones that revise it, as long as there is one.\<close>

fun successors :: "nat \<Rightarrow> revision list \<Rightarrow> string option \<Rightarrow> revision list" where
  "successors 0 rs k = []"
| "successors (Suc n) rs k =
     (case find_first (\<lambda>r. down_revision r = k) rs of
        None \<Rightarrow> [] | Some r \<Rightarrow> r # successors n rs (Some (revision_id r)))"

definition history :: "revision list" where
  "history = successors (length versions) versions None"

definition migrate :: "(string \<Rightarrow> bool) \<Rightarrow> revision list \<Rightarrow> schema \<Rightarrow> schema option" where
  "migrate filled rs = run_ddl filled (concat (map upgrade rs))"

definition unmigrate :: "(string \<Rightarrow> bool) \<Rightarrow> revision list \<Rightarrow> schema \<Rightarrow> schema option" where
  "unmigrate filled rs = run_ddl filled (concat (map downgrade (rev rs)))"

definition no_schema :: schema where
  "no_schema = Schema [] []"

section \<open>The order of the revisions\<close>

lemmas revision_defs =
  a00e50e985b6_def r35987cfa13e1_def ddf1c9d2a5ca_def r58581e01bdc5_def r0520b744fc63_def
  r6c819b8d4f12_def f33dc310e54d_def b83cb5fba960_def b807c382afe3_def d39cdb8297bf_def
  r223902e70386_def c0b1ab165890_def r52d0ec05beec_def r0c6fbd8f4bd0_def r9fc5c9ab7a06_def
  r93fd3622d2c5_def r8692a810a7b1_def r42098c496863_def c1a2b3d4e5f6_def d2b3c4d5e6f7_def
  e3c4d5e6f7a8_def

lemmas revision_ids [simp] =
  revision_defs [THEN arg_cong [where f = revision_id], simplified revision.simps]

lemmas down_revisions [simp] =
  revision_defs [THEN arg_cong [where f = down_revision], simplified revision.simps]

definition chain :: "revision list" where
  "chain =
     [a00e50e985b6, r35987cfa13e1, ddf1c9d2a5ca, r58581e01bdc5, r0520b744fc63, r6c819b8d4f12,
      f33dc310e54d, b83cb5fba960, b807c382afe3, d39cdb8297bf, r223902e70386, c0b1ab165890,
      r52d0ec05beec, r0c6fbd8f4bd0, r9fc5c9ab7a06, r93fd3622d2c5, r8692a810a7b1, r42098c496863,
      c1a2b3d4e5f6, d2b3c4d5e6f7, e3c4d5e6f7a8]"

text \<open>One line of revisions from the empty database, with none left over and one head.\<close>

lemma history_eq: "history = chain"
  by (simp add: history_def versions_def chain_def)

lemma history_linear:
  "length history = length versions"
  "filter (\<lambda>r. Some (revision_id r) \<notin> set (map down_revision versions)) versions = [e3c4d5e6f7a8]"
  by (simp_all add: history_eq chain_def versions_def)

section \<open>Running a list of operations\<close>

lemma run_ddl_append:
  "run_ddl f (xs @ ys) s = (case run_ddl f xs s of None \<Rightarrow> None | Some t \<Rightarrow> run_ddl f ys t)"
  by (induction xs arbitrary: s) (auto split: option.splits)

lemma migrate_Cons:
  "migrate f (r # rs) s = (case migrate f [r] s of None \<Rightarrow> None | Some t \<Rightarrow> migrate f rs t)"
  unfolding migrate_def by (simp add: run_ddl_append)

text \<open>The tables an operation needs to be without rows.\<close>

fun needs_empty :: "ddl \<Rightarrow> string list" where
  "needs_empty (add_column n c fk) = (if \<not> col_null c \<and> col_default c = None then [n] else [])"
| "needs_empty (require_empty n) = [n]"
| "needs_empty _ = []"

lemma exec_filled:
  "exec f x s = (if list_ex f (needs_empty x) then None else exec (\<lambda>_. False) x s)"
  by (cases x) (auto split: option.splits)

lemma run_filled:
  "run_ddl f xs s =
     (if list_ex f (concat (map needs_empty xs)) then None else run_ddl (\<lambda>_. False) xs s)"
proof (induction xs arbitrary: s)
  case (Cons x xs)
  show ?case
  proof (cases "list_ex f (needs_empty x)")
    case False
    with exec_filled [of f x s] have "exec f x s = exec (\<lambda>_. False) x s" by simp
    with False Cons show ?thesis by (auto split: option.splits)
  qed (simp add: exec_filled [of f])
qed simp

text \<open>
  Revision by revision, going on only while the downgrade of what has just been applied gives the
  schema before it.
\<close>

fun reversibly :: "revision list \<Rightarrow> schema \<Rightarrow> schema option" where
  "reversibly [] s = Some s"
| "reversibly (r # rs) s =
     (case migrate (\<lambda>_. False) [r] s of
        None \<Rightarrow> None
      | Some t \<Rightarrow> if unmigrate (\<lambda>_. False) [r] t = Some s then reversibly rs t else None)"

lemma reversibly_migrates: "reversibly rs s = Some t \<Longrightarrow> migrate (\<lambda>_. False) rs s = Some t"
proof (induction rs arbitrary: s)
  case Nil
  then show ?case by (simp add: migrate_def)
next
  case (Cons r rs)
  then show ?case by (subst migrate_Cons) (auto split: option.splits if_splits)
qed

lemma reversibly_back:
  assumes "reversibly rs s = Some t" and "rs = xs @ r # ys"
  shows "\<exists>a b. migrate (\<lambda>_. False) xs s = Some a \<and> migrate (\<lambda>_. False) [r] a = Some b \<and>
           unmigrate (\<lambda>_. False) [r] b = Some a"
  using assms
proof (induction xs arbitrary: rs s)
  case Nil
  then show ?case by (auto simp: migrate_def split: option.splits if_splits)
next
  case (Cons x xs)
  then obtain u where u: "migrate (\<lambda>_. False) [x] s = Some u" "reversibly (xs @ r # ys) u = Some t"
    by (auto split: option.splits if_splits)
  with Cons.IH [OF u(2) refl] show ?case by (subst migrate_Cons) simp
qed

end
