(* ===== verification/Metadata.thy ===== *)
theory Metadata
  imports Migrations
begin

text \<open>
  What the table classes of \<^verbatim>\<open>src/app/models\<close> declare (\<^verbatim>\<open>SQLModel.metadata\<close>, the target of
  \<^verbatim>\<open>alembic/env.py\<close>), compared with the schema the migrations of \<^verbatim>\<open>Migrations\<close> build.

  A \<^verbatim>\<open>str\<close> field is an unbounded \<^verbatim>\<open>VARCHAR\<close>, \<^verbatim>\<open>max_length\<close> bounds it, a \<^verbatim>\<open>datetime\<close> field has no
  time zone unless its column says so, \<^verbatim>\<open>X | None\<close> is nullable; \<^verbatim>\<open>index=True\<close> is the index
  \<^verbatim>\<open>ix_<table>_<column>\<close>, unique with \<^verbatim>\<open>unique=True\<close>.  Foreign keys are compared by their columns,
  since the models leave them unnamed.  The schema of the migrations is computed by the kernel's
  simplifier, once, in \<open>history_runs\<close>.
\<close>

section \<open>The models\<close>

definition fkeys :: "string \<Rightarrow> (string \<times> string) list \<Rightarrow> (string \<times> sql_constraint) list" where
  "fkeys tbl xs = map (\<lambda>(c, t). (tbl @ ''_'' @ c @ ''_fkey'', references c t)) xs"

definition plain_index :: "string \<Rightarrow> string \<Rightarrow> string list \<Rightarrow> sql_index" where
  "plain_index n tbl cs = Index n tbl (map Asc cs) False None"

definition unique_index :: "string \<Rightarrow> string \<Rightarrow> string list \<Rightarrow> string option \<Rightarrow> sql_index" where
  "unique_index n tbl cs wh = Index n tbl (map Asc cs) True wh"

definition field_index :: "string \<Rightarrow> string \<Rightarrow> sql_index" where
  "field_index tbl c = plain_index (''ix_'' @ tbl @ ''_'' @ c) tbl [c]"

definition unique_field_index :: "string \<Rightarrow> string \<Rightarrow> sql_index" where
  "unique_field_index tbl c = unique_index (''ix_'' @ tbl @ ''_'' @ c) tbl [c] None"

type_synonym model = "sql_table \<times> sql_index list"

definition user_model :: model where
  "user_model =
     (Table ''user''
        [col ''id'' str, col ''email'' str, ncol ''phone_number'' str, col ''name'' str,
         ncol ''profile_picture_url'' str, col ''active'' INTEGER, col ''is_admin'' BOOLEAN,
         col ''created_at'' timestamp] [''id''] [],
      [unique_field_index ''user'' ''email'', field_index ''user'' ''phone_number''])"

definition agreement_model :: model where
  "agreement_model =
     (Table ''agreement''
        [col ''id'' str, col ''user_id'' str, col ''title'' str, col ''description'' str,
         col ''amount'' (NUMERIC None), col ''status'' str, col ''created_at'' timestamp] [''id'']
        (fkeys ''agreement'' [(''user_id'', ''user'')]), [])"

definition participant_model :: model where
  "participant_model =
     (Table ''agreement_participant''
        [col ''id'' str, col ''agreement_id'' str, col ''user_id'' str, col ''role'' str, col ''status'' str,
         col ''joined_at'' timestamp] [''id'']
        ((''ux_agreement_participant_agreement_user'', Unique [''agreement_id'', ''user_id'']) #
         fkeys ''agreement_participant'' [(''agreement_id'', ''agreement''), (''user_id'', ''user'')]), [])"

definition invitation_model :: model where
  "invitation_model =
     (Table ''invitation''
        [col ''id'' str, col ''email'' str, col ''token'' str, col ''agreement_id'' str, col ''role'' str,
         col ''invited_by'' str, ncol ''status'' str, col ''expires_at'' timestamp] [''id'']
        (fkeys ''invitation'' [(''agreement_id'', ''agreement''), (''invited_by'', ''user'')]),
      [field_index ''invitation'' ''email'', unique_field_index ''invitation'' ''token''])"

definition condition_model :: model where
  "condition_model =
     (Table ''condition''
        [col ''id'' str, col ''agreement_id'' str, col ''participant_id'' str, ncol ''invitation_id'' str,
         col ''title'' str, col ''description'' str, ncol ''required_from_participant_id'' str,
         col ''status'' str, ncol ''approved_at'' timestamp, ncol ''rejected_reason'' str,
         col ''created_at'' timestamp] [''id'']
        (fkeys ''condition''
           [(''agreement_id'', ''agreement''), (''participant_id'', ''agreement_participant''),
            (''invitation_id'', ''invitation''),
            (''required_from_participant_id'', ''agreement_participant'')]), [])"

definition asset_file_model :: model where
  "asset_file_model =
     (Table ''asset_file''
        [col ''id'' str, col ''url'' str, col ''type'' str, col ''name'' str, col ''size'' FLOAT] [''id''] [], [])"

definition asset_model :: model where
  "asset_model =
     (Table ''asset''
        [col ''id'' str, ncol ''condition_id'' str, ncol ''dispute_id'' str, col ''file_id'' str,
         col ''uploaded_by'' str, col ''is_approved'' BOOLEAN, col ''uploaded_at'' timestamp] [''id'']
        ((''ck_asset_single_parent'', Check single_parent) #
         fkeys ''asset''
           [(''condition_id'', ''condition''), (''dispute_id'', ''dispute''), (''file_id'', ''asset_file''),
            (''uploaded_by'', ''agreement_participant'')]),
      [plain_index ''ix_asset_dispute_id'' ''asset'' [''dispute_id'']])"

definition dispute_model :: model where
  "dispute_model =
     (Table ''dispute''
        [col ''id'' str, col ''agreement_id'' str, col ''raised_by_user_id'' str,
         col ''against_user_id'' str, col ''category'' (varchar 32), col ''description'' (varchar 2000),
         col ''status'' (varchar 20), col ''agreement_status_before'' (varchar 20),
         ncol ''resolution_outcome'' (varchar 32), ncol ''resolution_notes'' (varchar 2000),
         ncol ''resolved_by_user_id'' str, ncol ''resolved_at'' timestamptz,
         col ''created_at'' timestamptz, col ''updated_at'' timestamptz] [''id'']
        (fkeys ''dispute''
           [(''agreement_id'', ''agreement''), (''raised_by_user_id'', ''user''),
            (''against_user_id'', ''user''), (''resolved_by_user_id'', ''user'')]),
      [plain_index ''ix_dispute_agreement_id'' ''dispute'' [''agreement_id''],
       plain_index ''ix_dispute_status'' ''dispute'' [''status''],
       plain_index ''ix_dispute_raised_by_user_id'' ''dispute'' [''raised_by_user_id''],
       plain_index ''ix_dispute_against_user_id'' ''dispute'' [''against_user_id''],
       unique_index ''ux_dispute_one_active_per_agreement'' ''dispute'' [''agreement_id'']
         (Some active_dispute)])"

definition wallet_model :: model where
  "wallet_model =
     (Table ''wallet''
        [col ''id'' str, col ''user_id'' str, col ''available_balance'' money_col,
         col ''escrow_balance'' money_col, col ''currency'' (varchar 3), col ''created_at'' timestamptz,
         col ''updated_at'' timestamptz] [''id'']
        ([(''uq_wallet_user_id'', Unique [''user_id'']),
          (''ck_wallet_available_non_negative'', Check ''available_balance >= 0''),
          (''ck_wallet_escrow_non_negative'', Check ''escrow_balance >= 0'')] @
         fkeys ''wallet'' [(''user_id'', ''user'')]), [])"

definition transaction_model :: model where
  "transaction_model =
     (Table ''transaction''
        [col ''id'' str, col ''user_id'' str, col ''wallet_id'' str, col ''reference'' (varchar 120),
         ncol ''group_id'' (varchar 120), ncol ''agreement_id'' str, ncol ''participant_id'' str,
         ncol ''condition_id'' str, ncol ''paystack_transaction_id'' str, ncol ''counterparty_user_id'' str,
         col ''amount'' money_col, col ''currency'' (varchar 3), col ''available_delta'' money_col,
         col ''escrow_delta'' money_col, col ''balance_after'' money_col, col ''escrow_after'' money_col,
         col ''type'' (varchar 32), col ''direction'' (varchar 10), col ''status'' (varchar 20),
         ncol ''description'' (varchar 255), ncol ''metadata'' JSONB, col ''created_at'' timestamptz,
         ncol ''processed_at'' timestamptz] [''id'']
        ([(''ck_transaction_amount_positive'', Check ''amount > 0''),
          (''transaction_wallet_id_fkey'',
           ForeignKey [''wallet_id''] ''wallet'' [''id''] (Some ''RESTRICT'')),
          (''transaction_condition_id_fkey'',
           ForeignKey [''condition_id''] ''condition'' [''id''] (Some ''SET NULL''))] @
         fkeys ''transaction''
           [(''user_id'', ''user''), (''agreement_id'', ''agreement''),
            (''participant_id'', ''agreement_participant''),
            (''paystack_transaction_id'', ''paystack_transaction''),
            (''counterparty_user_id'', ''user'')]),
      [unique_index ''ux_transaction_reference'' ''transaction'' [''reference''] None,
       plain_index ''ix_transaction_group_id'' ''transaction'' [''group_id''],
       plain_index ''ix_transaction_user_created'' ''transaction'' [''user_id'', ''created_at''],
       plain_index ''ix_transaction_wallet_created'' ''transaction'' [''wallet_id'', ''created_at''],
       plain_index ''ix_transaction_agreement_id'' ''transaction'' [''agreement_id''],
       plain_index ''ix_transaction_type'' ''transaction'' [''type''],
       plain_index ''ix_transaction_status'' ''transaction'' [''status''],
       plain_index ''ix_transaction_paystack_transaction_id'' ''transaction'' [''paystack_transaction_id'']])"

definition paystack_transaction_model :: model where
  "paystack_transaction_model =
     (Table ''paystack_transaction''
        [col ''id'' str, col ''user_id'' str, col ''reference'' (varchar 100), ncol ''paystack_id'' BIGINT,
         col ''amount'' money_col, col ''currency'' (varchar 3), col ''status'' (varchar 50),
         col ''transaction_type'' (varchar 50), ncol ''transfer_code'' (varchar 100),
         ncol ''recipient_code'' (varchar 100), ncol ''bank_account_id'' str,
         ncol ''failure_reason'' (varchar 255), ncol ''payment_channel'' str, ncol ''gateway_response'' str,
         ncol ''raw_webhook_data'' JSON, col ''created_at'' timestamptz, col ''updated_at'' timestamptz]
        [''id'']
        (fkeys ''paystack_transaction'' [(''user_id'', ''user''), (''bank_account_id'', ''bank_account'')]),
      [field_index ''paystack_transaction'' ''user_id'',
       unique_field_index ''paystack_transaction'' ''reference'',
       field_index ''paystack_transaction'' ''paystack_id'',
       field_index ''paystack_transaction'' ''transfer_code''])"

definition bank_account_model :: model where
  "bank_account_model =
     (Table ''bank_account''
        [col ''id'' str, col ''user_id'' str, col ''account_number'' (varchar 20),
         col ''bank_code'' (varchar 10), col ''bank_name'' (varchar 120), col ''account_name'' (varchar 120),
         col ''recipient_code'' (varchar 100), col ''currency'' (varchar 3), col ''is_default'' BOOLEAN,
         col ''is_active'' BOOLEAN, col ''created_at'' timestamptz, col ''updated_at'' timestamptz] [''id'']
        (fkeys ''bank_account'' [(''user_id'', ''user'')]),
      [plain_index ''ix_bank_account_user_id'' ''bank_account'' [''user_id''],
       unique_index ''ix_bank_account_recipient_code'' ''bank_account'' [''recipient_code''] None,
       unique_index ''ux_bank_account_user_bank_acct'' ''bank_account''
         [''user_id'', ''bank_code'', ''account_number''] (Some ''is_active''),
       unique_index ''ux_bank_account_one_default'' ''bank_account'' [''user_id'']
         (Some ''is_default AND is_active'')])"

definition webhook_event_model :: model where
  "webhook_event_model =
     (Table ''webhook_event''
        [col ''id'' str, col ''provider'' (varchar 32), col ''dedupe_key'' (varchar 200),
         col ''event_type'' (varchar 64), ncol ''provider_event_id'' (varchar 64),
         ncol ''reference'' (varchar 120), col ''status'' (varchar 20), col ''attempts'' INTEGER,
         col ''payload'' JSONB, ncol ''error'' TEXT, col ''received_at'' timestamptz,
         ncol ''processed_at'' timestamptz] [''id''] [],
      [unique_field_index ''webhook_event'' ''dedupe_key'', field_index ''webhook_event'' ''event_type'',
       field_index ''webhook_event'' ''reference'', field_index ''webhook_event'' ''status'',
       field_index ''webhook_event'' ''received_at''])"

definition idempotency_key_model :: model where
  "idempotency_key_model =
     (Table ''idempotency_key''
        [col ''id'' str, col ''user_id'' str, col ''key'' (varchar 120), col ''endpoint'' (varchar 120),
         col ''request_hash'' (varchar 64), col ''status'' (varchar 20),
         ncol ''response_status_code'' INTEGER, ncol ''response_body'' JSONB,
         ncol ''resource_reference'' (varchar 120), col ''created_at'' timestamptz,
         ncol ''completed_at'' timestamptz, col ''expires_at'' timestamptz] [''id'']
        ((''ux_idempotency_user_endpoint_key'', Unique [''user_id'', ''endpoint'', ''key'']) #
         fkeys ''idempotency_key'' [(''user_id'', ''user'')]),
      [field_index ''idempotency_key'' ''user_id'', field_index ''idempotency_key'' ''status'',
       field_index ''idempotency_key'' ''expires_at''])"

definition notification_model :: model where
  "notification_model =
     (Table ''notification''
        [col ''id'' str, col ''user_id'' str, col ''type'' str, col ''title'' str, col ''message'' str,
         ncol ''metadata'' JSONB, col ''is_read'' BOOLEAN, col ''created_at'' timestamp] [''id'']
        (fkeys ''notification'' [(''user_id'', ''user'')]),
      [field_index ''notification'' ''user_id''])"

definition refresh_token_model :: model where
  "refresh_token_model =
     (Table ''refresh_token''
        [col ''jti'' str, col ''user_id'' str, col ''issued_at'' timestamp, col ''expires_at'' timestamp,
         ncol ''revoked_at'' timestamp, ncol ''replaced_by_jti'' str] [''jti'']
        (fkeys ''refresh_token'' [(''user_id'', ''user'')]),
      [field_index ''refresh_token'' ''user_id'', field_index ''refresh_token'' ''expires_at''])"

definition models :: "model list" where
  "models =
     [agreement_model, participant_model, asset_model, asset_file_model, bank_account_model,
      condition_model, dispute_model, idempotency_key_model, invitation_model, notification_model,
      paystack_transaction_model, refresh_token_model, transaction_model, wallet_model,
      webhook_event_model, user_model]"

section \<open>Comparing\<close>

text \<open>A length or precision is compared where both sides give one.\<close>

fun same_type :: "coltype \<Rightarrow> coltype \<Rightarrow> bool" where
  "same_type (VARCHAR (Some m)) (VARCHAR (Some n)) \<longleftrightarrow> m = n"
| "same_type (VARCHAR _) (VARCHAR _) \<longleftrightarrow> True"
| "same_type (NUMERIC (Some m)) (NUMERIC (Some n)) \<longleftrightarrow> m = n"
| "same_type (NUMERIC _) (NUMERIC _) \<longleftrightarrow> True"
| "same_type a b \<longleftrightarrow> a = b"

definition same_column :: "column \<Rightarrow> column \<Rightarrow> bool" where
  "same_column c d \<longleftrightarrow>
     col_name c = col_name d \<and> same_type (col_type c) (col_type d) \<and> col_null c = col_null d"

fun same_constraint :: "string \<times> sql_constraint \<Rightarrow> string \<times> sql_constraint \<Rightarrow> bool" where
  "same_constraint (m, ForeignKey cs t rs d) (n, ForeignKey cs' t' rs' d') \<longleftrightarrow>
     cs = cs' \<and> t = t' \<and> rs = rs' \<and> d = d'"
| "same_constraint (m, c) (n, d) \<longleftrightarrow> m = n \<and> c = d"

definition covers :: "('x \<Rightarrow> 'x \<Rightarrow> bool) \<Rightarrow> 'x list \<Rightarrow> 'x list \<Rightarrow> bool" where
  "covers eq xs ys \<longleftrightarrow> list_all (\<lambda>x. list_ex (eq x) ys) xs"

text \<open>The tables that differ, with what the models declare and the schema has.\<close>

definition table_matches :: "schema \<Rightarrow> model \<Rightarrow> bool" where
  "table_matches s m \<longleftrightarrow>
     (case find_table s (tb_name (fst m)) of
        None \<Rightarrow> False
      | Some t \<Rightarrow>
          covers same_column (tb_columns (fst m)) (tb_columns t) \<and>
          length (tb_columns t) = length (tb_columns (fst m)) \<and>
          tb_key t = tb_key (fst m) \<and>
          covers same_constraint (tb_constraints (fst m)) (tb_constraints t) \<and>
          length (tb_constraints t) = length (tb_constraints (fst m)) \<and>
          (let ixs = filter (\<lambda>i. ix_table i = tb_name t) (sch_indexes s)
           in covers (=) (snd m) ixs \<and> length ixs = length (snd m)))"

definition schema_drift :: "schema \<Rightarrow> string list" where
  "schema_drift s =
     map (\<lambda>m. tb_name (fst m)) (filter (\<lambda>m. \<not> table_matches s m) models) @
     filter (\<lambda>n. n \<notin> set (map (\<lambda>m. tb_name (fst m)) models)) (map tb_name (sch_tables s))"

text \<open>Columns the models bound and the schema does not, or the other way round.\<close>

definition bound_differs :: "schema \<Rightarrow> model \<Rightarrow> (string \<times> string) list" where
  "bound_differs s m =
     (case find_table s (tb_name (fst m)) of
        None \<Rightarrow> []
      | Some t \<Rightarrow>
          map (\<lambda>c. (tb_name (fst m), col_name c))
            (filter (\<lambda>c. \<not> list_ex (\<lambda>d. col_name d = col_name c \<and> col_type d = col_type c) (tb_columns t))
              (tb_columns (fst m))))"

section \<open>The run of the history\<close>

text \<open>
  The one computation: every revision applies to what the ones before it built, its downgrade gives
  that back, and the schema reached is the models'.
\<close>

definition audit :: "schema option \<Rightarrow> (string list \<times> (string \<times> string) list) option" where
  "audit x = map_option (\<lambda>s. (schema_drift s, concat (map (bound_differs s) models))) x"

lemma history_runs:
  "audit (reversibly chain no_schema) =
     Some ([], [(''dispute'', ''description''), (''dispute'', ''agreement_status_before''),
                (''dispute'', ''resolution_notes'')])"
  by code_simp

lemma history_head:
  obtains s where "reversibly chain no_schema = Some s" "schema_drift s = []"
    "concat (map (bound_differs s) models) =
       [(''dispute'', ''description''), (''dispute'', ''agreement_status_before''),
        (''dispute'', ''resolution_notes'')]"
  using history_runs by (auto simp: audit_def)

lemma chain_needs_empty:
  "list_ex f (concat (map needs_empty (concat (map upgrade (tl chain))))) \<longleftrightarrow>
     f ''asset_file'' \<or> f ''transaction''"
  by (simp add: chain_def revision_defs d39cdb8297bf_upgrade_def col_def ncol_def dcol_def index_on_def unique_index_on_def)

section \<open>Properties\<close>

text \<open>C20: The schema the migrations build from nothing is the one the models declare: the same tables,
  columns, nullability and types, keys, unique, check and foreign-key constraints, and indexes with
  their partial conditions; a bound that only one side gives is found on three columns of
  \<open>dispute\<close> alone.
\<close>

theorem migrations_build_models:
  "\<exists>s. migrate (\<lambda>_. False) history no_schema = Some s \<and> schema_drift s = [] \<and>
     concat (map (bound_differs s) models) =
       [(''dispute'', ''description''), (''dispute'', ''agreement_status_before''),
        (''dispute'', ''resolution_notes'')]"
proof -
  obtain s where "reversibly chain no_schema = Some s" "schema_drift s = []"
    "concat (map (bound_differs s) models) =
       [(''dispute'', ''description''), (''dispute'', ''agreement_status_before''),
        (''dispute'', ''resolution_notes'')]"
    by (rule history_head)
  then show ?thesis using reversibly_migrates [of chain no_schema s] by (auto simp: history_eq)
qed



text \<open>On a database at the first revision that already has rows, the upgrade to the head goes
  through exactly when the tables of uploaded files and of transactions are empty: two revisions add
  a mandatory column without a default to \<open>asset_file\<close>, and the ledger revision refuses a
  \<open>transaction\<close> table with rows.
\<close>

theorem upgrade_needs_empty_tables:
  "\<exists>s. migrate filled [a00e50e985b6] no_schema = Some s \<and>
     (migrate filled (tl history) s = None \<longleftrightarrow> filled ''asset_file'' \<or> filled ''transaction'')"
proof -
  obtain t where "reversibly chain no_schema = Some t" by (rule history_head)
  moreover have chain: "chain = a00e50e985b6 # tl chain" by (simp add: chain_def)
  ultimately obtain s where s: "migrate (\<lambda>_. False) [a00e50e985b6] no_schema = Some s"
    "migrate (\<lambda>_. False) (tl chain) s = Some t"
    using reversibly_migrates [of chain no_schema t] migrate_Cons [of _ a00e50e985b6 "tl chain"]
    by (auto split: option.splits)
  have "\<not> list_ex filled (concat (map needs_empty (concat (map upgrade [a00e50e985b6]))))"
    by (simp add: a00e50e985b6_def index_on_def unique_index_on_def)
  with s(1) have "migrate filled [a00e50e985b6] no_schema = Some s"
    using run_filled [of filled "concat (map upgrade [a00e50e985b6])" no_schema]
    by (auto simp: migrate_def)
  moreover have "migrate filled (tl chain) s =
      (if filled ''asset_file'' \<or> filled ''transaction'' then None else Some t)"
    using run_filled [of filled "concat (map upgrade (tl chain))" s] s(2)
    unfolding chain_needs_empty by (simp add: migrate_def)
  ultimately show ?thesis by (auto simp: history_eq)
qed

end
