(* ===== verification/Canonical.thy ===== *)
theory Canonical
  imports Webhook
begin

text \<open>
  \<^verbatim>\<open>_canonical_hash\<close> of \<^verbatim>\<open>src/app/core/idempotency.py\<close>: the text \<^verbatim>\<open>json.dumps\<close> gives a request body
  (\<^verbatim>\<open>sort_keys=True\<close>, no spaces, \<^verbatim>\<open>ensure_ascii\<close>, \<^verbatim>\<open>default=str\<close>) and its SHA-256, a parameter.  The
  characters of the model are code points up to 255, so every escape is one \<^verbatim>\<open>\u00xx\<close>.  A decimal is
  written as its \<^verbatim>\<open>str\<close> in quotes: \<open>dec\<close>, a parameter, since the model's rationals do not keep how
  many digits were given.
\<close>

section \<open>The text of a body\<close>

definition short_escapes :: "(char \<times> char) list" where
  "short_escapes =
     [(CHR 0x22, CHR 0x22), (CHR 0x5C, CHR 0x5C), (CHR 0x0A, CHR ''n''), (CHR 0x0D, CHR ''r''),
      (CHR 0x09, CHR ''t''), (CHR 0x0C, CHR ''f''), (CHR 0x08, CHR ''b'')]"

definition hex_lower :: "nat \<Rightarrow> char" where
  "hex_lower n = char_of (if n < 10 then 48 + n else 87 + n)"

definition escaped :: "char \<Rightarrow> string" where
  "escaped c =
     (case map_of short_escapes c of
        Some d \<Rightarrow> [CHR 0x5C, d]
      | None \<Rightarrow>
          if CHR '' '' \<le> c \<and> c \<le> CHR ''~'' then [c]
          else [CHR 0x5C, CHR ''u'', CHR ''0'', CHR ''0'', hex_lower (of_char c div 16),
                hex_lower (of_char c mod 16)])"

definition quoted :: "string \<Rightarrow> string" where
  "quoted s = CHR 0x22 # concat (map escaped s) @ [CHR 0x22]"

fun members :: "('x \<Rightarrow> string) \<Rightarrow> 'x list \<Rightarrow> string" where
  "members f [] = ''''"
| "members f (x # xs) = f x @ concat (map (\<lambda>y. '','' @ f y) xs)"

lemma members_cong [fundef_cong]:
  "xs = ys \<Longrightarrow> (\<And>x. x \<in> set ys \<Longrightarrow> f x = g x) \<Longrightarrow> members f xs = members g ys"
  by (cases ys) (auto intro!: arg_cong [where f = concat])

lemma member_smaller: "(k, v) \<in> set kvs \<Longrightarrow> size v < size (JObj kvs)"
  by (induction kvs) auto

function canonical_text :: "(rat \<Rightarrow> string) \<Rightarrow> json \<Rightarrow> string" where
  "canonical_text dec JNull = ''null''"
| "canonical_text dec (JBool b) = (if b then ''true'' else ''false'')"
| "canonical_text dec (JInt i) = int_str i"
| "canonical_text dec (JDec d) = quoted (dec d)"
| "canonical_text dec (JStr s) = quoted s"
| "canonical_text dec (JObj kvs) =
     ''{'' @ members (\<lambda>(k, v). quoted k @ '':'' @ canonical_text dec v) (sort_key fst kvs) @ ''}''"
  by pat_completeness auto
termination by (relation "measure (\<lambda>(dec, x). size x)") (auto dest: member_smaller)

definition canonical_hash :: "(string \<Rightarrow> string) \<Rightarrow> (rat \<Rightarrow> string) \<Rightarrow> json \<Rightarrow> string" where
  "canonical_hash sha256 dec payload = sha256 (canonical_text dec payload)"

text \<open>What is written: members in the order of their names, decimals as strings.\<close>

function wire :: "(rat \<Rightarrow> string) \<Rightarrow> json \<Rightarrow> json" where
  "wire dec (JDec d) = JStr (dec d)"
| "wire dec (JObj kvs) = JObj (map (\<lambda>(k, v). (k, wire dec v)) (sort_key fst kvs))"
| "wire dec JNull = JNull"
| "wire dec (JBool b) = JBool b"
| "wire dec (JInt i) = JInt i"
| "wire dec (JStr s) = JStr s"
  by pat_completeness auto
termination by (relation "measure (\<lambda>(dec, x). size x)") (auto dest: member_smaller)

section \<open>A text says which body it is of\<close>

lemma hex_lower_eq: "m < 16 \<Longrightarrow> n < 16 \<Longrightarrow> hex_lower m = hex_lower n \<longleftrightarrow> m = n"
proof -
  have point: "of_char (hex_lower k) = (if k < 10 then 48 + k else 87 + k)" if "k < 16" for k
    using that by (simp add: hex_lower_def)
  assume less: "m < 16" "n < 16"
  have "m = n" if "hex_lower m = hex_lower n"
  proof -
    from that point [OF less(1)] point [OF less(2)]
    have "(if m < 10 then 48 + m else 87 + m) = (if n < 10 then 48 + n else 87 + n)" by metis
    then show ?thesis using less by presburger
  qed
  then show ?thesis by metis
qed

lemma short_escape_eq:
  assumes "map_of short_escapes c = Some x" and "map_of short_escapes d = Some x"
  shows "c = d"
proof -
  have "distinct (map snd short_escapes)" by (simp add: short_escapes_def)
  then have "inj_on snd (set short_escapes)" by (simp add: distinct_map)
  with map_of_SomeD [OF assms(1)] map_of_SomeD [OF assms(2)] inj_onD [of snd "set short_escapes" "(c, x)" "(d, x)"] show ?thesis by simp
qed

lemma short_escape_not_u: "map_of short_escapes c \<noteq> Some (CHR ''u'')"
proof
  assume "map_of short_escapes c = Some (CHR ''u'')"
  then have "CHR ''u'' \<in> set (map snd short_escapes)" by (force dest: map_of_SomeD)
  then show False by (simp add: short_escapes_def)
qed

lemma plain_not_escape:
  "map_of short_escapes c = None \<Longrightarrow> c \<noteq> CHR 0x5C \<and> c \<noteq> CHR 0x22"
  by (auto simp: short_escapes_def)

lemma code_point_eq:
  assumes "hex_lower (of_char c div 16) = hex_lower (of_char d div 16)"
    and "hex_lower (of_char c mod 16) = hex_lower (of_char d mod 16)"
  shows "c = d"
proof -
  have "of_char c div 16 < (16 :: nat)" "of_char d div 16 < (16 :: nat)"
    using nat_of_char_less_256 [of c] nat_of_char_less_256 [of d] by (simp_all only: less_mult_imp_div_less)
  with assms have "of_char c div 16 = (of_char d div 16 :: nat)" "of_char c mod 16 = (of_char d mod 16 :: nat)"
    by (simp_all add: hex_lower_eq)
  then have "of_char c = (of_char d :: nat)" by (metis div_mult_mod_eq)
  then show ?thesis by simp
qed

lemma escaped_cases:
  obtains (short) d where "map_of short_escapes c = Some d" "escaped c = [CHR 0x5C, d]"
  | (plain) "c \<noteq> CHR 0x5C" "c \<noteq> CHR 0x22" "escaped c = [c]"
  | (point) "escaped c = [CHR 0x5C, CHR ''u'', CHR ''0'', CHR ''0'',
      hex_lower (of_char c div 16), hex_lower (of_char c mod 16)]"
proof (cases "map_of short_escapes c")
  case None
  with plain_not_escape [OF None] plain point show ?thesis
    by (cases "CHR '' '' \<le> c \<and> c \<le> CHR ''~''") (simp_all add: escaped_def)
next
  case (Some d)
  with short show ?thesis by (simp add: escaped_def)
qed

lemma escaped_prefix_free:
  assumes "escaped c @ r = escaped d @ r'"
  shows "c = d \<and> r = r'"
proof (cases c rule: escaped_cases)
  case (short x)
  with assms short_escape_eq [OF short(1), of d] short_escape_not_u [of c] show ?thesis
    by (cases d rule: escaped_cases) auto
next
  case plain
  with assms show ?thesis by (cases d rule: escaped_cases) auto
next
  case point
  with assms short_escape_not_u [of d] show ?thesis
    by (cases d rule: escaped_cases) (auto intro: code_point_eq)
qed

lemma escaped_not_quote: "\<exists>x xs. escaped c = x # xs \<and> x \<noteq> CHR 0x22"
  by (cases c rule: escaped_cases) auto

lemma quoted_prefix_free: "quoted s @ r = quoted s' @ r' \<Longrightarrow> s = s' \<and> r = r'"
proof -
  have "concat (map escaped s) @ CHR 0x22 # r = concat (map escaped s') @ CHR 0x22 # r' \<Longrightarrow>
      s = s' \<and> r = r'"
  proof (induction s arbitrary: s')
    case Nil
    then show ?case using escaped_not_quote by (cases s') (auto, metis append_Cons list.inject)
  next
    case (Cons c s)
    then show ?case
    proof (cases s')
      case Nil
      with Cons.prems show ?thesis
        using escaped_not_quote [of c] by auto
    next
      case (Cons d t)
      with Cons.prems have "escaped c @ concat (map escaped s) @ CHR 0x22 # r =
          escaped d @ concat (map escaped t) @ CHR 0x22 # r'" by simp
      from escaped_prefix_free [OF this] Cons.IH [of t] Cons show ?thesis by auto
    qed
  qed
  then show "quoted s @ r = quoted s' @ r' \<Longrightarrow> s = s' \<and> r = r'" by (simp add: quoted_def)
qed

definition closes :: "string \<Rightarrow> bool" where
  "closes r \<longleftrightarrow> r = '''' \<or> hd r = CHR '','' \<or> hd r = CHR ''}''"

definition numeral_char :: "char \<Rightarrow> bool" where
  "numeral_char c \<longleftrightarrow> 48 \<le> (of_char c :: nat) \<and> (of_char c :: nat) < 58"

definition decimal_value :: "string \<Rightarrow> nat" where
  "decimal_value s = foldl (\<lambda>a c. 10 * a + (of_char c - 48)) 0 s"

lemma digit_facts: "d < 10 \<Longrightarrow> of_char (digit d) = 48 + d \<and> numeral_char (digit d)"
  by (simp add: digit_def numeral_char_def)

lemma nat_str_numerals: "list_all numeral_char (nat_str n)"
  by (induction n rule: nat_str.induct) (subst nat_str.simps, simp add: digit_facts)

lemma nat_str_value: "decimal_value (nat_str n) = n"
proof (induction n rule: nat_str.induct)
  case (1 n)
  then show ?case by (subst nat_str.simps) (auto simp: decimal_value_def digit_facts)
qed

lemma nat_str_nonempty: "nat_str n \<noteq> ''''"
  by (subst nat_str.simps) simp

lemma nat_str_prefix_free:
  assumes "nat_str m @ r = nat_str n @ r'" and "closes r" and "closes r'"
  shows "m = n \<and> r = r'"
proof -
  have "takeWhile numeral_char (nat_str k @ q) = nat_str k" if "closes q" for k q
  proof -
    have "takeWhile numeral_char q = ''''"
      using that by (cases q) (auto simp: closes_def numeral_char_def)
    with nat_str_numerals [of k] show ?thesis by (simp add: takeWhile_append2 list_all_iff)
  qed
  from this [OF assms(2), of m] this [OF assms(3), of n] assms(1) have "nat_str m = nat_str n" by simp
  moreover from this have "m = n" using nat_str_value by metis
  ultimately show ?thesis using assms(1) by simp
qed

lemma nat_str_hd: "\<exists>c cs. nat_str n = c # cs \<and> numeral_char c"
  using nat_str_nonempty [of n] nat_str_numerals [of n] by (cases "nat_str n") auto

lemma int_str_prefix_free:
  assumes "int_str i @ r = int_str j @ r'" and "closes r" and "closes r'"
  shows "i = j \<and> r = r'"
proof -
  have minus: "\<not> numeral_char (CHR ''-'')" by (simp add: numeral_char_def)
  have same: "(i < 0) = (j < 0)"
    using assms(1) nat_str_hd [of "nat i"] nat_str_hd [of "nat j"] minus
    by (auto simp: int_str_def split: if_splits)
  show ?thesis
  proof (cases "i < 0")
    case True
    with same assms(1) have "nat_str (nat (- i)) @ r = nat_str (nat (- j)) @ r'"
      by (simp add: int_str_def)
    from nat_str_prefix_free [OF this assms(2,3)] True same show ?thesis by auto
  next
    case False
    with same assms(1) have "nat_str (nat i) @ r = nat_str (nat j) @ r'" by (simp add: int_str_def)
    from nat_str_prefix_free [OF this assms(2,3)] False same show ?thesis by auto
  qed
qed

text \<open>The members of an object, up to the closing brace.\<close>

lemma members_prefix_free:
  assumes each: "\<And>x y q q'. x \<in> set xs \<Longrightarrow> f x @ q = f y @ q' \<Longrightarrow> closes q \<Longrightarrow> closes q' \<Longrightarrow>
      g x = g y \<and> q = q'"
    and start: "\<And>x. \<exists>cs. f x = CHR 0x22 # cs"
    and eq: "members f xs @ CHR ''}'' # r = members f ys @ CHR ''}'' # r'"
  shows "map g xs = map g ys \<and> r = r'"
proof -
  let ?rest = "\<lambda>zs. concat (map (\<lambda>y. CHR '','' # f y) zs)"
  have tails: "?rest xs @ CHR ''}'' # r = ?rest ys @ CHR ''}'' # r' \<Longrightarrow> map g xs = map g ys \<and> r = r'"
    if "\<And>x y q q'. x \<in> set xs \<Longrightarrow> f x @ q = f y @ q' \<Longrightarrow> closes q \<Longrightarrow> closes q' \<Longrightarrow>
      g x = g y \<and> q = q'" for xs ys
    using that
  proof (induction xs arbitrary: ys)
    case Nil
    then show ?case by (cases ys) auto
  next
    case (Cons x xs)
    have closed: "closes (?rest zs @ CHR ''}'' # q)" for zs q
      by (cases zs) (simp_all add: closes_def)
    from Cons.prems(1) obtain y zs where ys: "ys = y # zs" by (cases ys) auto
    with Cons.prems(1) have "f x @ ?rest xs @ CHR ''}'' # r = f y @ ?rest zs @ CHR ''}'' # r'" by simp
    from Cons.prems(2) [OF _ this closed closed]
    have head: "g x = g y" and "?rest xs @ CHR ''}'' # r = ?rest zs @ CHR ''}'' # r'" by simp_all
    from this(2) have "map g xs = map g zs \<and> r = r'"
      by (rule Cons.IH) (rule Cons.prems(2), simp_all)
    with head ys show ?case by simp
  qed
  show ?thesis
  proof (cases "xs = [] \<or> ys = []")
    case True
    with eq start [of "hd xs"] start [of "hd ys"] show ?thesis by (cases xs; cases ys) auto
  next
    case False
    have "?rest zs = CHR '','' # members f zs" if "zs \<noteq> []" for zs
      using that by (cases zs) simp_all
    with False eq have "?rest xs @ CHR ''}'' # r = ?rest ys @ CHR ''}'' # r'" by simp
    from tails [OF each this] show ?thesis by simp
  qed
qed

lemma text_start:
  obtains c cs where "canonical_text dec x = c # cs"
    "case x of JNull \<Rightarrow> c = CHR ''n'' | JBool b \<Rightarrow> c = (if b then CHR ''t'' else CHR ''f'')
      | JInt _ \<Rightarrow> c = CHR ''-'' \<or> numeral_char c | JDec _ \<Rightarrow> c = CHR 0x22 | JStr _ \<Rightarrow> c = CHR 0x22
      | JObj _ \<Rightarrow> c = CHR ''{''"
proof (cases x)
  case (JInt i)
  with nat_str_hd [of "nat i"] show ?thesis by (cases "i < 0") (auto simp: int_str_def intro: that)
next
  case (JBool b)
  then show ?thesis by (cases b) (auto intro: that)
qed (auto simp: quoted_def intro: that)


lemma member_start: "\<exists>cs. (case m of (k, v) \<Rightarrow> quoted k @ CHR '':'' # canonical_text dec v) = CHR 0x22 # cs"
  by (cases m) (simp add: quoted_def)

lemma minus_not_numeral: "\<not> numeral_char (CHR ''-'')" "\<not> numeral_char (CHR ''n'')"
  "\<not> numeral_char (CHR ''t'')" "\<not> numeral_char (CHR ''f'')" "\<not> numeral_char (CHR 0x22)"
  "\<not> numeral_char (CHR ''{'')"
  by (simp_all add: numeral_char_def)

text \<open>A text that begins like that of another body is of the same kind.\<close>

fun kind :: "json \<Rightarrow> nat" where
  "kind JNull = 0"
| "kind (JBool b) = (if b then 1 else 2)"
| "kind (JInt i) = 3"
| "kind (JDec d) = 4"
| "kind (JStr s) = 4"
| "kind (JObj kvs) = 5"

lemma text_kind:
  assumes "canonical_text dec x @ r = canonical_text dec y @ r'"
  shows "kind x = kind y"
proof -
  obtain c cs where c: "canonical_text dec x = c # cs"
    "case x of JNull \<Rightarrow> c = CHR ''n'' | JBool b \<Rightarrow> c = (if b then CHR ''t'' else CHR ''f'')
      | JInt _ \<Rightarrow> c = CHR ''-'' \<or> numeral_char c | JDec _ \<Rightarrow> c = CHR 0x22 | JStr _ \<Rightarrow> c = CHR 0x22
      | JObj _ \<Rightarrow> c = CHR ''{''" by (rule text_start)
  obtain d ds where d: "canonical_text dec y = d # ds"
    "case y of JNull \<Rightarrow> d = CHR ''n'' | JBool b \<Rightarrow> d = (if b then CHR ''t'' else CHR ''f'')
      | JInt _ \<Rightarrow> d = CHR ''-'' \<or> numeral_char d | JDec _ \<Rightarrow> d = CHR 0x22 | JStr _ \<Rightarrow> d = CHR 0x22
      | JObj _ \<Rightarrow> d = CHR ''{''" by (rule text_start)
  from assms c(1) d(1) have "c = d" by simp
  with c(2) d(2) minus_not_numeral show ?thesis by (cases x; cases y) (auto split: if_splits)
qed

lemma text_prefix_free:
  "canonical_text dec x @ r = canonical_text dec y @ r' \<Longrightarrow> closes r \<Longrightarrow> closes r' \<Longrightarrow>
   wire dec x = wire dec y \<and> r = r'"
proof (induction x arbitrary: y r r' rule: measure_induct_rule [where f = size])
  case (less x)
  from text_kind [OF less.prems(1)] have kind: "kind x = kind y" .
  show ?case
  proof (cases x)
    case (JInt i)
    with kind obtain j where "y = JInt j" by (cases y) (auto split: if_splits)
    with JInt less.prems int_str_prefix_free [of i r j r'] show ?thesis by simp
  next
    case (JDec d)
    with kind less.prems(1) show ?thesis
      by (cases y) (auto split: if_splits dest: quoted_prefix_free)
  next
    case (JStr s)
    with kind less.prems(1) show ?thesis
      by (cases y) (auto split: if_splits dest: quoted_prefix_free)
  next
    case (JObj kvs)
    with kind obtain lvs where y: "y = JObj lvs" by (cases y) (auto split: if_splits)
    let ?f = "\<lambda>(k, v). quoted k @ CHR '':'' # canonical_text dec v"
    let ?g = "\<lambda>(k, v). (k, wire dec v)"
    have each: "?g m = ?g n \<and> q = q'"
      if "m \<in> set (sort_key fst kvs)" "?f m @ q = ?f n @ q'" "closes q" "closes q'" for m n q q'
    proof -
      obtain k v l w where mn: "m = (k, v)" "n = (l, w)" by fastforce
      with that(2) have "quoted k @ CHR '':'' # canonical_text dec v @ q =
          quoted l @ CHR '':'' # canonical_text dec w @ q'" by simp
      from quoted_prefix_free [OF this] have "k = l" "canonical_text dec v @ q = canonical_text dec w @ q'"
        by simp_all
      moreover have "size v < size x" using that(1) mn JObj member_smaller [of k v kvs] by simp
      ultimately show ?thesis using less.IH [of v q w q'] that(3,4) mn by simp
    qed
    from less.prems(1) JObj y have "members ?f (sort_key fst kvs) @ CHR ''}'' # r =
        members ?f (sort_key fst lvs) @ CHR ''}'' # r'" by simp
    from members_prefix_free [OF each member_start this] JObj y show ?thesis by simp
  next
    case (JBool b)
    with kind less.prems(1) show ?thesis by (cases y) (auto split: if_splits)
  next
    case JNull
    with kind less.prems(1) show ?thesis by (cases y) (auto split: if_splits)
  qed
qed

lemma members_map: "members f (map g xs) = members (f \<circ> g) xs"
  by (cases xs) (auto intro!: arg_cong [where f = concat])

lemma text_of_wire: "canonical_text dec (wire dec x) = canonical_text dec x"
proof (induction x rule: measure_induct_rule [where f = size])
  case (less x)
  show ?case
  proof (cases x)
    case (JObj kvs)
    let ?w = "\<lambda>(k, v). (k, wire dec v)"
    have "sort_key fst (map ?w (sort_key fst kvs)) = map ?w (sort_key fst kvs)"
    proof (rule sort_key_id_if_sorted)
      have "map fst (map ?w (sort_key fst kvs)) = map fst (sort_key fst kvs)" by (simp add: case_prod_beta)
      then show "sorted (map fst (map ?w (sort_key fst kvs)))" by (metis sorted_sort_key)
    qed
    moreover have "canonical_text dec (wire dec v) = canonical_text dec v" if "(k, v) \<in> set kvs" for k v
      using less JObj member_smaller [OF that] by simp
    then have "members (\<lambda>(k, v). quoted k @ CHR '':'' # canonical_text dec v) (map ?w (sort_key fst kvs)) =
        members (\<lambda>(k, v). quoted k @ CHR '':'' # canonical_text dec v) (sort_key fst kvs)"
      unfolding members_map by (intro members_cong) auto
    ultimately show ?thesis using JObj by simp
  qed simp_all
qed

lemma same_text_iff: "canonical_text dec x = canonical_text dec y \<longleftrightarrow> wire dec x = wire dec y"
  using text_prefix_free [of dec x "[]" y "[]"] text_of_wire [of dec x] text_of_wire [of dec y]
  by (auto simp: closes_def)


section \<open>Properties\<close>

text \<open>C25: An \<open>Idempotency-Key\<close> binds the request body by content: once a route guarded by the context
  has answered, the same user's next request on that endpoint with that key is answered from the
  stored response (marked as a replay) exactly when its body is the same JSON value, in whatever
  order its members come, and refused as a reused key when anything in it differs; the route's
  operation does not run again, and nothing in the session changes but a drawn id.  The one thing
  asked of SHA-256 is that it tells the two texts at hand apart.\<close>

theorem key_binds_the_body:
  assumes "idempotency_key_constraints (idempotency_keys (work s))"
    and "0 \<le> idempotency_ttl_hours cfg"
    and "key \<noteq> []" and "length key \<le> max_key_length"
    and "stays (table_frame idempotency_key_t) operation"
    and "with_idempotency cfg sweep (canonical_hash sha256 dec) u (Some key) ep p operation s = (Inr r, t)"
    and "\<not> hr_replayed r" and "hr_status r \<noteq> 0"
    and "inj_on sha256 {canonical_text dec p, canonical_text dec p'}"
  shows "with_idempotency cfg sweep' (canonical_hash sha256 dec) u (Some key) ep p' operation' t =
     (if wire dec p' = wire dec p then Inr (r\<lparr>hr_replayed := True\<rparr>) else Inl IdempotencyKeyReusedError,
      t\<lparr>uuid_next := Suc (uuid_next t)\<rparr>)"
proof -
  have "canonical_hash sha256 dec p' = canonical_hash sha256 dec p \<longleftrightarrow> wire dec p' = wire dec p"
    using assms(9) by (auto simp: canonical_hash_def inj_on_def simp flip: same_text_iff)
  with idempotent_request_is_replayed [OF assms(1-8), of sweep' p' operation'] show ?thesis by simp
qed

text \<open>Alice funds her wallet: the retry has its members in another order, the third request another
  amount.\<close>

definition fund_body :: "rat \<Rightarrow> json" where
  "fund_body x = JObj [(''channel'', JStr ''card''), (''amount'', JDec x)]"

definition decimal_text :: "rat \<Rightarrow> string" where
  "decimal_text x = int_str \<lfloor>x\<rfloor>"


lemma fund_bodies:
  "wire decimal_text (JObj [(''amount'', JDec 40), (''channel'', JStr ''card'')]) =
     wire decimal_text (fund_body 40)"
  "wire decimal_text (fund_body 41) \<noteq> wire decimal_text (fund_body 40)"
  by code_simp+

theorem key_binds_the_body_witness:
  "\<exists>t. with_idempotency sample_settings False (canonical_hash id decimal_text) ''ua'' (Some ''k1'')
       ''POST /wallet/fund'' (fund_body 40) sample_answer (sample_session empty_db) =
       (Inr (success_response 201 (JStr ''done'')), t) \<and>
     fst (with_idempotency sample_settings False (canonical_hash id decimal_text) ''ua'' (Some ''k1'')
       ''POST /wallet/fund'' (JObj [(''amount'', JDec 40), (''channel'', JStr ''card'')]) (raise TypeError) t) =
       Inr ((success_response 201 (JStr ''done''))\<lparr>hr_replayed := True\<rparr>) \<and>
     fst (with_idempotency sample_settings False (canonical_hash id decimal_text) ''ua'' (Some ''k1'')
       ''POST /wallet/fund'' (fund_body 41) (raise TypeError) t) = Inl IdempotencyKeyReusedError"
proof -
  let ?s = "sample_session empty_db" and ?h = "canonical_hash id decimal_text"
  have c: "idempotency_key_constraints (idempotency_keys (work ?s))"
    by (simp add: sample_defs idempotency_key_constraints_def)
  have frame: "stays (table_frame idempotency_key_t) sample_answer"
    unfolding sample_answer_def by (intro stays_intros)
  have "\<exists>t. with_idempotency sample_settings False ?h ''ua'' (Some ''k1'') ''POST /wallet/fund''
      (fund_body 40) sample_answer ?s = (Inr (success_response 201 (JStr ''done'')), t)"
    by (simp add: with_idempotency_def begin_request_def reserve_def sample_answer_def
        sample_settings_def sample_defs max_key_length_def step run_try idempotency_key_constraints_def
        bind_reference_def bind_key_reference_def complete_def complete_key_def run_best_effort
        Let_def)
  then obtain t where t: "with_idempotency sample_settings False ?h ''ua'' (Some ''k1'')
      ''POST /wallet/fund'' (fund_body 40) sample_answer ?s =
      (Inr (success_response 201 (JStr ''done'')), t)" ..
  have "with_idempotency sample_settings False ?h ''ua'' (Some ''k1'') ''POST /wallet/fund'' p'
      (raise TypeError) t =
    (if wire decimal_text p' = wire decimal_text (fund_body 40)
     then Inr ((success_response 201 (JStr ''done''))\<lparr>hr_replayed := True\<rparr>)
     else Inl IdempotencyKeyReusedError, t\<lparr>uuid_next := Suc (uuid_next t)\<rparr>)" for p'
    by (rule key_binds_the_body [OF c _ _ _ frame t])
      (simp_all add: sample_settings_def max_key_length_def success_response_def)
  with t fund_bodies show ?thesis by auto
qed

end
