(* ===== verification/Startup.thy ===== *)
theory Startup
  imports PublicPages Webhook
begin

text \<open>
  Start of the process: \<^verbatim>\<open>src/app/config.py\<close> (which dotenv file is read, the validators, the checks
  at import) and what \<^verbatim>\<open>src/app/main.py\<close> builds from the settings.  Parameters: \<open>is_file\<close> is the file
  system, \<open>certificate\<close> whether Firebase takes the service account; \<open>raw_settings\<close> is what
  \<^verbatim>\<open>pydantic-settings\<close> has read and converted before the validators of the class run (a list field
  arrives as the string or the list that the decoded value is).  Only \<open>environment\<close> distinguishes
  absent from given: a default is not validated.  Sentry, Cloudinary and the log lines are left out.
\<close>

section \<open>Which environment\<close>

definition env_files :: "(string \<times> string list) list" where
  "env_files =
     [(''development'', [''.env.local'', ''.env.development'']), (''test'', [''.env.test'']),
      (''production'', [''.env.production''])]"

definition current_environment :: "string option \<Rightarrow> string" where
  "current_environment env =
     (let value = lower (strip (case env of None \<Rightarrow> ''development'' | Some v \<Rightarrow> v))
      in if value \<in> fst ` set env_files then value else ''development'')"

definition resolve_env_file :: "(string \<Rightarrow> bool) \<Rightarrow> string option \<Rightarrow> string option" where
  "resolve_env_file is_file env =
     (case map_of env_files (current_environment env) of
        None \<Rightarrow> None | Some candidates \<Rightarrow> find_first is_file candidates)"

definition default_environment :: "string option \<Rightarrow> string \<Rightarrow> string" where
  "default_environment env value = lower (strip (if value = [] then current_environment env else value))"

section \<open>Settings\<close>

record raw_settings =
  raw_environment :: "string option"
  raw_debug :: bool
  raw_secret_key :: string
  raw_cors_origins :: "string + string list"
  raw_android_cert_sha256 :: "string + string list"
  raw_firebase_service_account_json :: string
  raw_paystack_test_public_key :: string
  raw_paystack_public_key :: "string option"
  raw_payments :: settings

record app_settings =
  environment :: string
  debug :: bool
  secret_key :: string
  cors_origins :: "string list"
  android_cert_sha256 :: "string list"
  firebase_service_account_json :: string
  paystack_test_public_key :: string
  paystack_public_key :: "string option"
  payments :: settings

definition split_list :: "string + string list \<Rightarrow> string list" where
  "split_list value = (case value of Inl s \<Rightarrow> split_csv s | Inr items \<Rightarrow> items)"

definition validate_environment :: "string option \<Rightarrow> string option \<Rightarrow> string option" where
  "validate_environment env given =
     (case given of
        None \<Rightarrow> Some ''development''
      | Some v \<Rightarrow>
          (let e = default_environment env v
           in if e \<in> {''development'', ''test'', ''production''} then Some e else None))"

definition load_settings :: "string option \<Rightarrow> raw_settings \<Rightarrow> exn + app_settings" where
  "load_settings env raw =
     (case (validate_environment env (raw_environment raw), validate_secret_key (raw_secret_key raw)) of
        (Some e, Some k) \<Rightarrow>
          Inr \<lparr>environment = e, debug = raw_debug raw, secret_key = k,
               cors_origins = split_list (raw_cors_origins raw),
               android_cert_sha256 = split_list (raw_android_cert_sha256 raw),
               firebase_service_account_json = raw_firebase_service_account_json raw,
               paystack_test_public_key = raw_paystack_test_public_key raw,
               paystack_public_key = raw_paystack_public_key raw, payments = raw_payments raw\<rparr>
      | _ \<Rightarrow> Inl ValueError)"

definition is_production :: "app_settings \<Rightarrow> bool" where
  "is_production st \<longleftrightarrow> environment st = ''production''"

definition paystack_active_public_key :: "app_settings \<Rightarrow> string" where
  "paystack_active_public_key st =
     (case paystack_public_key st of
        Some k \<Rightarrow> if paystack_live_mode (payments st) \<and> k \<noteq> [] then k else paystack_test_public_key st
      | None \<Rightarrow> paystack_test_public_key st)"

text \<open>The module: the settings, and the refusal to run in production with \<^verbatim>\<open>DEBUG\<close>.\<close>

definition import_config :: "string option \<Rightarrow> raw_settings \<Rightarrow> exn + app_settings" where
  "import_config env raw =
     (case load_settings env raw of
        Inl e \<Rightarrow> Inl e
      | Inr st \<Rightarrow> if is_production st \<and> debug st then Inl RuntimeError else Inr st)"

section \<open>The application\<close>

record web_app =
  docs_url :: "string option"
  redoc_url :: "string option"
  openapi_url :: "string option"
  cors_middleware :: "string list option"
  included_routers :: "string list"

definition docs_enabled :: "app_settings \<Rightarrow> bool" where
  "docs_enabled st \<longleftrightarrow> debug st \<and> \<not> is_production st"

definition create_app :: "app_settings \<Rightarrow> web_app" where
  "create_app st =
     \<lparr>docs_url = (if docs_enabled st then Some ''/docs'' else None),
      redoc_url = (if docs_enabled st then Some ''/redoc'' else None),
      openapi_url = (if docs_enabled st then Some ''/openapi.json'' else None),
      cors_middleware = (if cors_origins st = [] then None else Some (cors_origins st)),
      included_routers =
        [''auth'', ''user'', ''wallet'', ''agreement'', ''condition'', ''asset'', ''stats'', ''notification'',
         ''transaction'', ''bank_account'', ''dispute'', ''admin_dispute'', ''invitation''] @
        (if debug st \<and> \<not> is_production st then [''dev''] else [])\<rparr>"

text \<open>Whether Firebase is set up afterwards: it was, or the service account is given and taken.\<close>

definition init_firebase :: "(string \<Rightarrow> bool) \<Rightarrow> app_settings \<Rightarrow> bool \<Rightarrow> bool" where
  "init_firebase certificate st initialized \<longleftrightarrow>
     (let raw = strip (firebase_service_account_json st)
      in initialized \<or> raw \<notin> {'''', ''{}''} \<and> certificate raw)"

text \<open>
  Importing \<^verbatim>\<open>app.main\<close>: the configuration, the Paystack client (which asks for the active secret
  key) and the application.
\<close>

definition start :: "string option \<Rightarrow> raw_settings \<Rightarrow> exn + app_settings \<times> web_app" where
  "start env raw =
     (case import_config env raw of
        Inl e \<Rightarrow> Inl e
      | Inr st \<Rightarrow>
          (case paystack_active_secret_key (payments st) of
             Inl e \<Rightarrow> Inl e
           | Inr _ \<Rightarrow> Inr (st, create_app st)))"

section \<open>Answers without a session\<close>

definition root :: json where
  "root = JObj [(''status'', JStr ''ok''), (''service'', JStr ''adehun-api'')]"

definition health :: json where
  "health = JObj [(''status'', JStr ''ok'')]"

definition validation_exception_handler :: error_reply where
  "validation_exception_handler = error_response ''VALIDATION_ERROR'' 422"

text \<open>A request that fails validation is \<open>HTTPException 422\<close> in the routes of this model.\<close>

lemma validation_reply: "reply_to (HTTPException 422) = validation_exception_handler"
  by (simp add: reply_to_def http_exception_handler_def validation_exception_handler_def
      http_status_error_codes_def app_error_def)

section \<open>What a started process has checked\<close>

lemma production_file:
  "current_environment env = ''production'' \<Longrightarrow>
   resolve_env_file is_file env \<in> {None, Some ''.env.production''}"
  by (simp add: resolve_env_file_def env_files_def)

lemma current_environment_listed: "current_environment env \<in> fst ` set env_files"
  by (simp add: current_environment_def env_files_def Let_def)

lemma split_comma_free: "\<not> list_ex (\<lambda>c. c = CHR '','') w \<Longrightarrow>
    list_all (\<lambda>item. CHR '','' \<notin> set item) (split_comma w s)"
  by (induction w s rule: split_comma.induct) (auto simp: list_ex_iff)

lemma set_strip: "set (strip s) \<subseteq> set s"
proof -
  have drop: "set (dropWhile is_space t) \<subseteq> set t" for t by (auto dest: set_dropWhileD)
  from drop [of "rev (dropWhile is_space s)"] drop [of s] show ?thesis by (auto simp: strip_def)
qed

lemma split_csv_items:
  "list_all (\<lambda>item. item \<noteq> [] \<and> CHR '','' \<notin> set item) (split_csv s)"
  using split_comma_free [of "[]" s] set_strip by (fastforce simp: split_csv_def list_all_iff)

lemma import_config_Inr:
  "import_config env raw = Inr st \<Longrightarrow>
     validate_secret_key (raw_secret_key raw) = Some (secret_key st) \<and>
     cors_origins st = split_list (raw_cors_origins raw) \<and> payments st = raw_payments raw \<and>
     environment st \<in> {''development'', ''test'', ''production''} \<and> \<not> (is_production st \<and> debug st)"
  by (auto simp: import_config_def load_settings_def validate_environment_def Let_def
      split: option.splits sum.splits if_splits)

lemma active_key_Inr:
  "paystack_active_secret_key cfg = Inr k \<Longrightarrow>
     (if paystack_live_mode cfg then paystack_secret_key cfg = Some k \<and> k \<noteq> []
      else k = paystack_test_secret_key cfg)"
  by (auto simp: paystack_active_secret_key_def split: option.splits if_splits)

section \<open>Properties\<close>

text \<open>C40: A process that starts has passed its checks: the signing secret has at least 32 characters;
  in production debugging is off and neither the interactive documentation nor the developer routes
  exist, and the latter exist nowhere unless debugging is on; browsers are let in only from origins
  that were configured, none of them empty when they come as a comma-separated list; and in live
  mode the one key that outgoing calls and webhook signatures use is the live secret, never the test
  one.
\<close>

theorem started_process_is_hardened:
  assumes "start env raw = Inr (st, app)"
  shows "32 \<le> length (secret_key st) \<and> environment st \<in> {''development'', ''test'', ''production''} \<and>
     (environment st = ''production'' \<longrightarrow>
        \<not> debug st \<and> docs_url app = None \<and> redoc_url app = None \<and> openapi_url app = None) \<and>
     (''dev'' \<in> set (included_routers app) \<longleftrightarrow> debug st \<and> environment st \<noteq> ''production'') \<and>
     (case cors_middleware app of
        None \<Rightarrow> split_list (raw_cors_origins raw) = []
      | Some origins \<Rightarrow> origins = split_list (raw_cors_origins raw) \<and> origins \<noteq> [] \<and>
          (isl (raw_cors_origins raw) \<longrightarrow> list_all (\<lambda>o'. o' \<noteq> [] \<and> CHR '','' \<notin> set o') origins)) \<and>
     (\<exists>k. paystack_active_secret_key (payments st) = Inr k \<and> paystack_webhook_secret (payments st) = Inr k \<and>
        (if paystack_live_mode (payments st) then paystack_secret_key (payments st) = Some k \<and> k \<noteq> []
         else k = paystack_test_secret_key (payments st)))"
proof -
  from assms obtain k where cfg: "import_config env raw = Inr st" and app: "app = create_app st"
    and k: "paystack_active_secret_key (payments st) = Inr k"
    by (auto simp: start_def split: sum.splits)
  note facts = import_config_Inr [OF cfg]
  from facts have "32 \<le> length (secret_key st)"
    by (auto simp: validate_secret_key_def Let_def split: if_splits)
  moreover have "case cors_middleware app of
        None \<Rightarrow> split_list (raw_cors_origins raw) = []
      | Some origins \<Rightarrow> origins = split_list (raw_cors_origins raw) \<and> origins \<noteq> [] \<and>
          (isl (raw_cors_origins raw) \<longrightarrow> list_all (\<lambda>o'. o' \<noteq> [] \<and> CHR '','' \<notin> set o') origins)"
    using facts split_csv_items
    by (cases "raw_cors_origins raw") (auto simp: app create_app_def split_list_def)
  moreover have "(environment st = ''production'' \<longrightarrow>
        \<not> debug st \<and> docs_url app = None \<and> redoc_url app = None \<and> openapi_url app = None) \<and>
     (''dev'' \<in> set (included_routers app) \<longleftrightarrow> debug st \<and> environment st \<noteq> ''production'')"
    using facts by (auto simp: app create_app_def docs_enabled_def is_production_def)
  ultimately show ?thesis
    using facts k active_key_Inr [OF k] by (auto simp: paystack_webhook_secret_def)
qed

definition live_settings :: raw_settings where
  "live_settings =
     \<lparr>raw_environment = Some '' Production '', raw_debug = False,
      raw_secret_key = ''0123456789abcdef0123456789abcdef'',
      raw_cors_origins = Inl ''https://a.example, ,https://b.example'', raw_android_cert_sha256 = Inr [],
      raw_firebase_service_account_json = ''{}'', raw_paystack_test_public_key = ''pk_test'',
      raw_paystack_public_key = None,
      raw_payments = sample_settings\<lparr>paystack_live_mode := True, paystack_secret_key := Some ''sk_live''\<rparr>\<rparr>"

lemma live_settings_start:
  "map_sum id (\<lambda>(st, app). (environment st, cors_middleware app, length (secret_key st)))
     (start None live_settings) =
   Inr (''production'', Some [''https://a.example'', ''https://b.example''], 32)"
  by code_simp

theorem started_process_is_hardened_witness:
  "\<exists>st app. start None live_settings = Inr (st, app) \<and> environment st = ''production'' \<and>
     docs_url app = None \<and> ''dev'' \<notin> set (included_routers app) \<and>
     cors_middleware app = Some [''https://a.example'', ''https://b.example''] \<and>
     32 \<le> length (secret_key st)"
proof -
  from live_settings_start obtain st app where start: "start None live_settings = Inr (st, app)"
    and st: "environment st = ''production''"
      "cors_middleware app = Some [''https://a.example'', ''https://b.example'']"
    by (cases "start None live_settings") auto
  from started_process_is_hardened [OF start] st show ?thesis using start by auto
qed

end
