(* ===== verification/Dependencies.thy ===== *)
theory Dependencies
  imports Startup Auth
begin

text \<open>
  \<^verbatim>\<open>src/app/dependencies.py\<close> and the signatures of the routes under \<^verbatim>\<open>src/app/routers\<close>: which objects a
  handler is given, and which request reaches which handler.  A provider is a node with the providers
  it needs and the program its body is; FastAPI resolves them before the handler.  Of FastAPI the
  documented behaviour is used and nothing else: a provider is called once per request, after those it
  needs (\<open>schedule\<close>, every order with this property), the handler runs when all of them have
  returned, and the generators among them are closed after it in the opposite order.  A provider whose
  header is missing is one that fails: FastAPI answers 422 without the handler.  The documentation
  pages that FastAPI adds in debug mode and the redirect of a path that matches no route are left out.
\<close>

section \<open>Providers\<close>

text \<open>What a provider gives: an object is its class with the arguments of its constructor.\<close>

datatype given =
    DatabaseSession
  | RedisConnection
  | Token string
  | Person user
  | Made string "given list"
  | ContextOf given id "string option"

text \<open>What the request brings: the token of the bearer header and the \<^verbatim>\<open>Idempotency-Key\<close> header.\<close>

record environ =
  env_jwt :: "string jwt"
  env_token :: "string option"
  env_key :: "string option"

datatype dependency =
  Depends (dep_name: string) (dep_needs: "dependency list") (dep_yields: bool)
    (dep_call: "environ \<Rightarrow> given list \<Rightarrow> given handler")

definition makes :: "string \<Rightarrow> environ \<Rightarrow> given list \<Rightarrow> given handler" where
  "makes cls e args = return (Made cls args)"

definition get_session :: dependency where
  "get_session = Depends ''get_session'' [] True (\<lambda>e args. return DatabaseSession)"

definition get_redis_dep :: dependency where
  "get_redis_dep = Depends ''get_redis_dep'' [] True (\<lambda>e args. return RedisConnection)"

definition oauth2_scheme :: dependency where
  "oauth2_scheme = Depends ''oauth2_scheme'' [] False
     (\<lambda>e args. case env_token e of None \<Rightarrow> raise (HTTPException 401) | Some t \<Rightarrow> return (Token t))"

definition current_user :: dependency where
  "current_user = Depends ''get_current_user'' [oauth2_scheme, get_session] False
     (\<lambda>e args. case args of
        [Token t, _] \<Rightarrow> bnd (get_current_user (env_jwt e) t) (\<lambda>u. return (Person u))
      | _ \<Rightarrow> raise TypeError)"

definition active_user :: dependency where
  "active_user = Depends ''get_active_user'' [oauth2_scheme, get_session] False
     (\<lambda>e args. case args of
        [Token t, _] \<Rightarrow> bnd (get_active_user (env_jwt e) t) (\<lambda>u. return (Person u))
      | _ \<Rightarrow> raise TypeError)"

definition admin_user :: dependency where
  "admin_user = Depends ''get_admin_user'' [active_user] False
     (\<lambda>e args. case args of
        [Person u] \<Rightarrow> bnd (get_admin_user u) (\<lambda>u. return (Person u))
      | _ \<Rightarrow> raise TypeError)"

definition get_user_repository :: dependency where
  "get_user_repository = Depends ''get_user_repository'' [get_session, get_redis_dep] False (makes ''UserRepository'')"

definition get_user_service :: dependency where
  "get_user_service = Depends ''get_user_service'' [get_user_repository] False (makes ''UserService'')"

definition get_agreement_repository :: dependency where
  "get_agreement_repository = Depends ''get_agreement_repository'' [get_session, get_redis_dep] False (makes ''AgreementRepository'')"

definition get_notification_repository :: dependency where
  "get_notification_repository = Depends ''get_notification_repository'' [get_session, get_redis_dep] False (makes ''NotificationRepository'')"

definition get_notification_service :: dependency where
  "get_notification_service = Depends ''get_notification_service'' [get_notification_repository] False (makes ''NotificationService'')"

definition get_refresh_token_repository :: dependency where
  "get_refresh_token_repository = Depends ''get_refresh_token_repository'' [get_session] False (makes ''RefreshTokenRepository'')"

definition get_auth_service :: dependency where
  "get_auth_service = Depends ''get_auth_service'' [get_user_repository, get_refresh_token_repository, get_notification_service] False (makes ''AuthService'')"

definition get_condition_repository :: dependency where
  "get_condition_repository = Depends ''get_condition_repository'' [get_session, get_redis_dep] False (makes ''ConditionRepository'')"

definition get_asset_repository :: dependency where
  "get_asset_repository = Depends ''get_asset_repository'' [get_session, get_redis_dep] False (makes ''AssetRepository'')"

definition get_asset_service :: dependency where
  "get_asset_service = Depends ''get_asset_service'' [get_asset_repository] False (makes ''AssetService'')"

definition get_agreement_service :: dependency where
  "get_agreement_service = Depends ''get_agreement_service'' [get_agreement_repository] False (makes ''AgreementService'')"

definition get_condition_service :: dependency where
  "get_condition_service = Depends ''get_condition_service'' [get_condition_repository] False (makes ''ConditionService'')"

definition get_stats_repository :: dependency where
  "get_stats_repository = Depends ''get_stats_repository'' [get_session] False (makes ''StatsRepository'')"

definition get_stats_service :: dependency where
  "get_stats_service = Depends ''get_stats_service'' [get_stats_repository] False (makes ''StatsService'')"

definition get_wallet_repository :: dependency where
  "get_wallet_repository = Depends ''get_wallet_repository'' [get_session, get_redis_dep] False (makes ''WalletRepository'')"

definition get_bank_account_repository :: dependency where
  "get_bank_account_repository = Depends ''get_bank_account_repository'' [get_session, get_redis_dep] False (makes ''BankAccountRepository'')"

definition get_bank_account_service :: dependency where
  "get_bank_account_service = Depends ''get_bank_account_service'' [get_bank_account_repository] False (makes ''BankAccountService'')"

definition get_wallet_service :: dependency where
  "get_wallet_service = Depends ''get_wallet_service'' [get_wallet_repository, get_bank_account_repository] False (makes ''WalletService'')"

definition get_transaction_repository :: dependency where
  "get_transaction_repository = Depends ''get_transaction_repository'' [get_session, get_redis_dep] False (makes ''TransactionRepository'')"

definition get_transaction_service :: dependency where
  "get_transaction_service = Depends ''get_transaction_service'' [get_transaction_repository] False (makes ''TransactionService'')"

definition get_webhook_event_repository :: dependency where
  "get_webhook_event_repository = Depends ''get_webhook_event_repository'' [get_session, get_redis_dep] False (makes ''WebhookEventRepository'')"

definition get_paystack_webhook_service :: dependency where
  "get_paystack_webhook_service =
     Depends ''get_paystack_webhook_service'' [get_wallet_repository, get_webhook_event_repository] False
       (\<lambda>e args. makes ''PaystackWebhookService'' e (args @ [Made ''PaystackClient'' []]))"

definition get_idempotency_repository :: dependency where
  "get_idempotency_repository = Depends ''get_idempotency_repository'' [get_session, get_redis_dep] False (makes ''IdempotencyRepository'')"

text \<open>Both contexts; the second refuses a request without the header (422).\<close>

definition get_idempotency_context :: dependency where
  "get_idempotency_context = Depends ''get_idempotency_context'' [get_idempotency_repository, active_user] True
     (\<lambda>e args. case args of
        [repo, Person u] \<Rightarrow> return (ContextOf repo (u_id u) (env_key e))
      | _ \<Rightarrow> raise TypeError)"

definition get_required_idempotency_context :: dependency where
  "get_required_idempotency_context =
     Depends ''get_required_idempotency_context'' [get_idempotency_repository, active_user] True
     (\<lambda>e args. case (args, env_key e) of
        (_, None) \<Rightarrow> raise (HTTPException 422)
      | ([repo, Person u], Some k) \<Rightarrow> return (ContextOf repo (u_id u) (Some k))
      | _ \<Rightarrow> raise TypeError)"

definition get_dispute_repository :: dependency where
  "get_dispute_repository = Depends ''get_dispute_repository'' [get_session, get_redis_dep] False (makes ''DisputeRepository'')"

definition get_dispute_service :: dependency where
  "get_dispute_service = Depends ''get_dispute_service'' [get_dispute_repository] False (makes ''DisputeService'')"

lemmas provider_defs =
  get_session_def get_redis_dep_def oauth2_scheme_def
  current_user_def active_user_def admin_user_def
  get_user_repository_def get_user_service_def get_agreement_repository_def
  get_notification_repository_def get_notification_service_def get_refresh_token_repository_def
  get_auth_service_def get_condition_repository_def get_asset_repository_def
  get_asset_service_def get_agreement_service_def get_condition_service_def
  get_stats_repository_def get_stats_service_def get_wallet_repository_def
  get_bank_account_repository_def get_bank_account_service_def get_wallet_service_def
  get_transaction_repository_def get_transaction_service_def get_webhook_event_repository_def
  get_paystack_webhook_service_def get_idempotency_repository_def get_idempotency_context_def
  get_required_idempotency_context_def get_dispute_repository_def get_dispute_service_def
section \<open>Resolution\<close>

fun gather :: "(exn + given) list \<Rightarrow> exn + given list" where
  "gather [] = Inr []"
| "gather (x # xs) =
     (case x of
        Inl err \<Rightarrow> Inl err
      | Inr v \<Rightarrow> (case gather xs of Inl err \<Rightarrow> Inl err | Inr vs \<Rightarrow> Inr (v # vs)))"

text \<open>The plain reading of the signatures: build the arguments, then call the provider.\<close>

fun wired :: "environ \<Rightarrow> session \<Rightarrow> dependency \<Rightarrow> exn + given" where
  "wired e s (Depends n ds y p) =
     (case gather (map (wired e s) ds) of Inl err \<Rightarrow> Inl err | Inr vs \<Rightarrow> fst (p e vs s))"

fun closure :: "dependency \<Rightarrow> dependency list" where
  "closure (Depends n ds y p) = Depends n ds y p # concat (map closure ds)"

definition needed :: "dependency list \<Rightarrow> dependency list" where
  "needed ds = concat (map closure ds)"

fun feasible :: "dependency list \<Rightarrow> dependency list \<Rightarrow> bool" where
  "feasible before [] \<longleftrightarrow> True"
| "feasible before (d # ds) \<longleftrightarrow> set (dep_needs d) \<subseteq> set before \<and> feasible (before @ [d]) ds"

definition schedule :: "dependency list \<Rightarrow> dependency list \<Rightarrow> bool" where
  "schedule ds order \<longleftrightarrow>
     set order = set (needed ds) \<and> distinct (map dep_name order) \<and> feasible [] order"

text \<open>What happens, in order: providers called, the handler with its arguments, generators closed.\<close>

datatype event = Called string | Refused string exn | Handled "given list" | Closed string

definition arguments :: "(string \<Rightarrow> given option) \<Rightarrow> dependency list \<Rightarrow> given list" where
  "arguments got ds = map (\<lambda>n. the (got (dep_name n))) ds"

fun serve ::
  "environ \<Rightarrow> dependency list \<Rightarrow> (string \<Rightarrow> given option) \<Rightarrow> dependency list \<Rightarrow> session \<Rightarrow> event list"
where
  "serve e ds got [] s = [Handled (arguments got ds)]"
| "serve e ds got (d # order) s =
     (case dep_call d e (arguments got (dep_needs d)) s of
        (Inl err, _) \<Rightarrow> [Refused (dep_name d) err]
      | (Inr v, t) \<Rightarrow>
          Called (dep_name d) # serve e ds (got(dep_name d \<mapsto> v)) order t @
          (if dep_yields d then [Closed (dep_name d)] else []))"

subsection \<open>Any order gives what the signatures say\<close>

definition repeatable :: "dependency \<Rightarrow> bool" where
  "repeatable d \<longleftrightarrow> (\<forall>e vs s. snd (dep_call d e vs s) = s)"

lemma gather_map: "gather (map Inr vs) = Inr vs"
  by (induction vs) auto

lemma gather_Inr: "gather xs = Inr vs \<longleftrightarrow> xs = map Inr vs"
  by (induction xs arbitrary: vs) (auto split: sum.splits simp: gather_map)

lemma closure_self: "d \<in> set (closure d)"
  by (cases d) simp

lemma needed_parts: "d \<in> set ds \<Longrightarrow> set (closure d) \<subseteq> set (needed ds)"
  by (auto simp: needed_def)

text \<open>\<open>settled_all\<close>: what has been called so far is cached with the value the signatures give.\<close>

definition settled_all :: "environ \<Rightarrow> session \<Rightarrow> (string \<Rightarrow> given option) \<Rightarrow> dependency list \<Rightarrow> bool" where
  "settled_all e s got us \<longleftrightarrow>
     (\<forall>d \<in> set us. \<exists>v. wired e s d = Inr v \<and> got (dep_name d) = Some v)"

lemma arguments_wired:
  assumes "settled_all e s got us" and "set ds \<subseteq> set us"
  shows "gather (map (wired e s) ds) = Inr (arguments got ds)"
proof -
  have "map (wired e s) ds = map Inr (arguments got ds)"
    using assms by (force simp: settled_all_def arguments_def)
  then show ?thesis by (simp add: gather_Inr)
qed

lemma wired_call:
  "wired e s d =
   (case gather (map (wired e s) (dep_needs d)) of Inl err \<Rightarrow> Inl err | Inr vs \<Rightarrow> fst (dep_call d e vs s))"
  by (cases d) (simp split: sum.split)

lemma settled_more:
  assumes "settled_all e s got us" and "wired e s d = Inr v" and "dep_name d \<notin> dep_name ` set us"
  shows "settled_all e s (got(dep_name d \<mapsto> v)) (us @ [d])"
  using assms by (auto simp: settled_all_def image_iff)

lemma serve_wired:
  assumes "feasible us order" and "distinct (map dep_name (us @ order))" and "settled_all e s got us"
    and "set ds \<subseteq> set (us @ order)" and "\<forall>d \<in> set order. repeatable d"
  shows "Handled vs \<in> set (serve e ds got order s) \<longleftrightarrow>
     (\<forall>d \<in> set order. isl (wired e s d) = False) \<and> gather (map (wired e s) ds) = Inr vs"
  using assms
proof (induction order arbitrary: us got)
  case Nil
  then have "gather (map (wired e s) ds) = Inr (arguments got ds)" by (intro arguments_wired) auto
  then show ?case by auto
next
  case (Cons d order)
  let ?as = "arguments got (dep_needs d)"
  have "gather (map (wired e s) (dep_needs d)) = Inr ?as"
    using Cons.prems by (intro arguments_wired) auto
  then have d: "wired e s d = fst (dep_call d e ?as s)" by (subst wired_call) simp
  from Cons.prems(5) have q: "snd (dep_call d e ?as s) = s" by (simp add: repeatable_def)
  show ?case
  proof (cases "fst (dep_call d e ?as s)")
    case (Inl err)
    with d q show ?thesis by (cases "dep_call d e ?as s") auto
  next
    case (Inr v)
    with d have v: "wired e s d = Inr v" by simp
    have "dep_name d \<notin> dep_name ` set us" using Cons.prems(2) by simp
    note more = settled_more [OF Cons.prems(3) v this]
    have "Handled vs \<in> set (serve e ds (got(dep_name d \<mapsto> v)) order s) \<longleftrightarrow>
        (\<forall>d \<in> set order. isl (wired e s d) = False) \<and> gather (map (wired e s) ds) = Inr vs"
      by (rule Cons.IH [OF _ _ more]) (use Cons.prems in auto)
    moreover have "dep_call d e ?as s = (Inr v, s)" using Inr q by (cases "dep_call d e ?as s") auto
    ultimately show ?thesis using v by auto
  qed
qed

lemma schedule_wired:
  assumes "schedule ds order" and "\<forall>d \<in> set order. repeatable d" and "Handled vs \<in> set (serve e ds Map.empty order s)"
  shows "gather (map (wired e s) ds) = Inr vs" "d \<in> set (needed ds) \<Longrightarrow> \<exists>v. wired e s d = Inr v"
proof -
  have "set ds \<subseteq> set order" using assms(1) closure_self by (auto simp: schedule_def needed_def)
  then have all: "(\<forall>d \<in> set order. isl (wired e s d) = False) \<and> gather (map (wired e s) ds) = Inr vs"
    using assms serve_wired [of "[]" order e s Map.empty ds vs] by (simp add: schedule_def settled_all_def)
  then show "gather (map (wired e s) ds) = Inr vs" by simp
  assume "d \<in> set (needed ds)"
  with assms(1) all show "\<exists>v. wired e s d = Inr v"
    by (cases "wired e s d") (auto simp: schedule_def)
qed

subsection \<open>Generators are closed in the opposite order\<close>

lemma serve_shape:
  "\<exists>called rest outcome. order = called @ rest \<and>
     serve e ds got order s =
       map (Called \<circ> dep_name) called @ [outcome] @ map (Closed \<circ> dep_name) (rev (filter dep_yields called)) \<and>
     (\<forall>n. outcome \<noteq> Called n \<and> outcome \<noteq> Closed n)"
proof (induction order arbitrary: got s)
  case Nil
  show ?case by (intro exI [of _ "[]"]) simp
next
  case (Cons d order)
  show ?case
  proof (cases "dep_call d e (arguments got (dep_needs d)) s")
    case (Pair r t)
    show ?thesis
    proof (cases r)
      case (Inl err)
      with Pair show ?thesis by (intro exI [of _ "[]"] exI [of _ "d # order"]) simp
    next
      case (Inr v)
      from Cons.IH [of "got(dep_name d \<mapsto> v)" t] obtain called rest outcome where
        "order = called @ rest"
        "serve e ds (got(dep_name d \<mapsto> v)) order t =
           map (Called \<circ> dep_name) called @ [outcome] @ map (Closed \<circ> dep_name) (rev (filter dep_yields called))"
        "\<forall>n. outcome \<noteq> Called n \<and> outcome \<noteq> Closed n" by blast
      with Pair Inr show ?thesis
        by (intro exI [of _ "d # called"] exI [of _ rest] exI [of _ outcome]) simp
    qed
  qed
qed

section \<open>Routes\<close>

datatype verb = GET | POST | PATCH | DELETE | WEBSOCKET

datatype segment = Lit string | Param string

record route =
  rt_verb :: verb
  rt_path :: "segment list"
  rt_handler :: string
  rt_needs :: "dependency list"

definition route :: "verb \<Rightarrow> segment list \<Rightarrow> string \<Rightarrow> dependency list \<Rightarrow> route" where
  "route v p h ds = \<lparr>rt_verb = v, rt_path = p, rt_handler = h, rt_needs = ds\<rparr>"

text \<open>
  The routes of each router in the order of its file: the verb, the path below the router's prefix
  (split at the slashes; a path that ends in one has an empty last segment), the handler and what its
  signature asks for.
\<close>

definition auth_routes :: "route list" where
  "auth_routes =
    [route POST [Lit ''auth'', Lit ''register''] ''auth.register_user''
       [current_user, get_auth_service],
     route POST [Lit ''auth'', Lit ''register-from-invite''] ''auth.invite_register''
       [get_auth_service],
     route POST [Lit ''auth'', Lit ''login''] ''auth.login'' [get_auth_service],
     route POST [Lit ''auth'', Lit ''refresh''] ''auth.refresh_token'' [get_auth_service],
     route POST [Lit ''auth'', Lit ''logout''] ''auth.logout'' [get_auth_service]]"

definition user_routes :: "route list" where
  "user_routes =
    [route GET [Lit ''users'', Lit ''current''] ''user.get_current_user''
       [active_user, get_user_service],
     route GET [Lit ''users'', Lit ''upload-signature''] ''user.get_profile_upload_signature''
       [active_user],
     route PATCH [Lit ''users'', Param ''user_id''] ''user.update_user''
       [active_user, get_user_service]]"

definition wallet_routes :: "route list" where
  "wallet_routes =
    [route GET [Lit ''wallet''] ''wallet.get_wallet'' [active_user, get_wallet_service],
     route POST [Lit ''wallet'', Lit ''fund''] ''wallet.fund_wallet''
       [active_user, get_wallet_service, get_idempotency_context],
     route POST [Lit ''wallet'', Lit ''withdraw''] ''wallet.withdraw''
       [active_user, get_wallet_service, get_required_idempotency_context],
     route GET [Lit ''wallet'', Lit ''withdrawals'', Param ''reference''] ''wallet.get_withdrawal''
       [active_user, get_wallet_service],
     route WEBSOCKET [Lit ''wallet'', Lit ''ws''] ''wallet.wallet_websocket''
       [get_wallet_service, get_session],
     route POST [Lit ''wallet'', Lit ''webhook'', Lit ''paystack''] ''wallet.paystack_webhook''
       [get_paystack_webhook_service, get_notification_service]]"

definition agreement_routes :: "route list" where
  "agreement_routes =
    [route GET [Lit ''agreements'', Lit ''''] ''agreement.get_all_user_agreements''
       [active_user, get_agreement_service],
     route GET [Lit ''agreements'', Lit ''invited''] ''agreement.get_invited_agreements''
       [active_user, get_agreement_service],
     route WEBSOCKET [Lit ''agreements'', Lit ''ws''] ''agreement.agreement_websocket''
       [get_agreement_service, get_session],
     route POST [Lit ''agreements'', Lit ''''] ''agreement.create_agreement''
       [active_user, get_agreement_service, get_notification_service, get_user_repository],
     route POST [Lit ''agreements'', Param ''agreement_id'', Lit ''accept'']
       ''agreement.accept_agreement''
       [active_user, get_agreement_service, get_notification_service, get_idempotency_context],
     route POST [Lit ''agreements'', Param ''agreement_id'', Lit ''reject'']
       ''agreement.reject_agreement''
       [active_user, get_agreement_service, get_transaction_service,
        get_notification_service, get_idempotency_context],
     route GET [Lit ''agreements'', Param ''agreement_id''] ''agreement.get_agreement''
       [active_user, get_agreement_service, get_session],
     route GET [Lit ''agreements'', Param ''agreement_id'', Lit ''invitation'']
       ''agreement.get_agreement_invitation''
       [active_user, get_agreement_service],
     route POST [Lit ''agreements'', Param ''agreement_id'', Lit ''fund''] ''agreement.fund_agreement''
       [active_user, get_agreement_service, get_wallet_service, get_transaction_service,
        get_notification_service, get_required_idempotency_context],
     route POST [Lit ''agreements'', Param ''agreement_id'', Lit ''release'']
       ''agreement.release_agreement_escrow''
       [active_user, get_agreement_service, get_condition_service, get_wallet_service,
        get_transaction_service, get_notification_service, get_required_idempotency_context],
     route POST [Lit ''agreements'', Param ''agreement_id'', Lit ''cancel'']
       ''agreement.cancel_agreement''
       [active_user, get_agreement_service, get_transaction_service, get_notification_service],
     route POST [Lit ''agreements'', Param ''agreement_id'', Lit ''refund'']
       ''agreement.refund_agreement_escrow''
       [admin_user, get_agreement_service, get_wallet_service, get_transaction_service,
        get_notification_service, get_required_idempotency_context]]"

definition condition_routes :: "route list" where
  "condition_routes =
    [route POST [Lit ''agreements'', Param ''agreement_id'', Lit ''conditions'']
       ''condition.add_condition_to_agreement''
       [active_user, get_condition_service, get_agreement_service, get_notification_service,
        get_session],
     route GET [Lit ''agreements'', Param ''agreement_id'', Lit ''conditions'']
       ''condition.get_agreement_conditions''
       [active_user, get_condition_service, get_session],
     route GET [Lit ''conditions'', Param ''condition_id''] ''condition.get_condition_details''
       [active_user, get_condition_service, get_session],
     route POST [Lit ''conditions'', Param ''condition_id'', Lit ''approve'']
       ''condition.approve_condition''
       [active_user, get_condition_service, get_agreement_service, get_notification_service,
        get_wallet_service, get_transaction_service],
     route POST [Lit ''conditions'', Param ''condition_id'', Lit ''reject'']
       ''condition.reject_condition''
       [active_user, get_condition_service, get_agreement_service, get_notification_service]]"

definition asset_routes :: "route list" where
  "asset_routes =
    [route GET [Lit ''agreement'', Param ''agreement_id'', Lit ''assets'', Lit '''']
       ''asset.get_assets_for_agreement''
       [get_asset_service, active_user, get_session],
     route POST [Lit ''conditions'', Param ''condition_id'', Lit ''assets'']
       ''asset.add_asset_to_condition''
       [get_asset_service, active_user, get_session],
     route POST [Lit ''conditions'', Param ''condition_id'', Lit ''assets'', Param ''asset_id'', Lit ''approve'']
       ''asset.approve_asset''
       [get_asset_service, active_user],
     route POST [Lit ''conditions'', Param ''condition_id'', Lit ''assets'', Param ''asset_id'', Lit ''reject'']
       ''asset.reject_asset''
       [get_asset_service, active_user],
     route GET [Lit ''conditions'', Param ''condition_id'', Lit ''assets'']
       ''asset.get_assets_for_condition''
       [get_asset_service, active_user, get_session],
     route GET [Lit ''conditions'', Param ''condition_id'', Lit ''assets'', Lit ''upload-signature'']
       ''asset.get_upload_signature''
       [get_asset_service, active_user, get_session]]"

definition stats_routes :: "route list" where
  "stats_routes =
    [route GET [Lit ''stats'', Lit ''agreements'', Lit ''''] ''stats.get_user_agreement_stats''
       [active_user, get_stats_service]]"

definition notification_routes :: "route list" where
  "notification_routes =
    [route GET [Lit ''notifications''] ''notification.get_notifications''
       [active_user, get_notification_service],
     route GET [Lit ''notifications'', Lit ''unread-count''] ''notification.get_unread_count''
       [active_user, get_notification_service],
     route PATCH [Lit ''notifications'', Lit ''read''] ''notification.mark_notifications_read''
       [active_user, get_notification_service],
     route PATCH [Lit ''notifications'', Lit ''read-all''] ''notification.mark_all_notifications_read''
       [active_user, get_notification_service]]"

definition transaction_routes :: "route list" where
  "transaction_routes =
    [route GET [Lit ''transactions''] ''transaction.get_transactions''
       [active_user, get_transaction_service],
     route GET [Lit ''transactions'', Lit ''summary''] ''transaction.get_transaction_summary''
       [active_user, get_transaction_service],
     route GET [Lit ''transactions'', Param ''transaction_id''] ''transaction.get_transaction''
       [active_user, get_transaction_service]]"

definition bank_account_routes :: "route list" where
  "bank_account_routes =
    [route GET [Lit ''bank-accounts'', Lit ''banks''] ''bank_account.list_banks''
       [active_user, get_bank_account_service],
     route POST [Lit ''bank-accounts'', Lit ''resolve''] ''bank_account.resolve_account''
       [active_user, get_bank_account_service],
     route GET [Lit ''bank-accounts''] ''bank_account.get_bank_accounts''
       [active_user, get_bank_account_service],
     route POST [Lit ''bank-accounts''] ''bank_account.add_bank_account''
       [active_user, get_bank_account_service],
     route PATCH [Lit ''bank-accounts'', Param ''bank_account_id'', Lit ''default'']
       ''bank_account.set_default_bank_account''
       [active_user, get_bank_account_service],
     route DELETE [Lit ''bank-accounts'', Param ''bank_account_id'']
       ''bank_account.remove_bank_account''
       [active_user, get_bank_account_service]]"

definition dispute_routes :: "route list" where
  "dispute_routes =
    [route GET [Lit ''agreements'', Param ''agreement_id'', Lit ''disputes'', Lit ''upload-signature'']
       ''dispute.get_dispute_upload_signature''
       [active_user, get_dispute_service],
     route POST [Lit ''agreements'', Param ''agreement_id'', Lit ''disputes'']
       ''dispute.raise_dispute''
       [active_user, get_dispute_service, get_agreement_service, get_notification_service],
     route GET [Lit ''agreements'', Param ''agreement_id'', Lit ''disputes'']
       ''dispute.get_agreement_disputes''
       [active_user, get_dispute_service],
     route GET [Lit ''disputes''] ''dispute.get_my_disputes'' [active_user, get_dispute_service],
     route GET [Lit ''disputes'', Param ''dispute_id''] ''dispute.get_dispute''
       [active_user, get_dispute_service],
     route POST [Lit ''disputes'', Param ''dispute_id'', Lit ''evidence'']
       ''dispute.add_dispute_evidence''
       [active_user, get_dispute_service, get_notification_service]]"

definition admin_dispute_routes :: "route list" where
  "admin_dispute_routes =
    [route GET [Lit ''admin'', Lit ''disputes''] ''admin_dispute.list_disputes''
       [admin_user, get_dispute_service],
     route GET [Lit ''admin'', Lit ''disputes'', Param ''dispute_id''] ''admin_dispute.get_dispute''
       [admin_user, get_dispute_service],
     route PATCH [Lit ''admin'', Lit ''disputes'', Param ''dispute_id'', Lit ''review'']
       ''admin_dispute.mark_under_review''
       [admin_user, get_dispute_service, get_notification_service],
     route POST [Lit ''admin'', Lit ''disputes'', Param ''dispute_id'', Lit ''resolve'']
       ''admin_dispute.resolve_dispute''
       [admin_user, get_dispute_service, get_agreement_service, get_notification_service,
        get_wallet_service, get_transaction_service]]"

definition invitation_routes :: "route list" where
  "invitation_routes =
    [route GET [Lit ''invitations'', Param ''token''] ''invitation.lookup_invitation'' [get_session],
     route GET [Lit ''invite''] ''invitation.invite_page'' [get_session],
     route GET [Lit ''.well-known'', Lit ''assetlinks.json''] ''invitation.assetlinks'' []]"

definition dev_routes :: "route list" where
  "dev_routes =
    [route POST [Lit ''auth'', Lit ''dev-login''] ''dev.dev_login'' [get_session],
     route POST [Lit ''auth'', Lit ''dev-promote-admin''] ''dev.dev_promote_admin'' [get_session]]"

definition main_routes :: "route list" where
  "main_routes =
    [route GET [Lit ''''] ''main.root'' [],
     route GET [Lit ''health''] ''main.health'' []]"

lemmas route_tables =
  auth_routes_def user_routes_def wallet_routes_def agreement_routes_def
  condition_routes_def asset_routes_def stats_routes_def notification_routes_def
  transaction_routes_def bank_account_routes_def dispute_routes_def admin_dispute_routes_def
  invitation_routes_def dev_routes_def main_routes_def

definition router_of :: "string \<Rightarrow> route list" where
  "router_of name =
     (case map_of
        [(''auth'', auth_routes), (''user'', user_routes), (''wallet'', wallet_routes),
         (''agreement'', agreement_routes), (''condition'', condition_routes), (''asset'', asset_routes),
         (''stats'', stats_routes), (''notification'', notification_routes),
         (''transaction'', transaction_routes), (''bank_account'', bank_account_routes),
         (''dispute'', dispute_routes), (''admin_dispute'', admin_dispute_routes),
         (''invitation'', invitation_routes), (''dev'', dev_routes)] name of
        None \<Rightarrow> []
      | Some rs \<Rightarrow> rs)"

definition app_routes :: "web_app \<Rightarrow> route list" where
  "app_routes app = concat (map router_of (included_routers app)) @ main_routes"

text \<open>A path parameter takes one segment, which is not empty; the first route that fits is taken.\<close>

fun fits :: "segment list \<Rightarrow> string list \<Rightarrow> bool" where
  "fits [] [] \<longleftrightarrow> True"
| "fits (Lit l # p) (x # xs) \<longleftrightarrow> x = l \<and> fits p xs"
| "fits (Param n # p) (x # xs) \<longleftrightarrow> x \<noteq> '''' \<and> fits p xs"
| "fits _ _ \<longleftrightarrow> False"

definition dispatch :: "verb \<Rightarrow> string list \<Rightarrow> route list \<Rightarrow> route option" where
  "dispatch v xs rs = find_first (\<lambda>r. rt_verb r = v \<and> fits (rt_path r) xs) rs"

subsection \<open>No route hides another\<close>

definition words :: "segment list \<Rightarrow> string list" where
  "words p = concat (map (\<lambda>s. case s of Lit l \<Rightarrow> [l] | Param _ \<Rightarrow> []) p)"

definition reserved :: "web_app \<Rightarrow> string list" where
  "reserved app = concat (map (words \<circ> rt_path) (app_routes app))"

text \<open>The paths of a route whose parameters are none of the words that occur in routes.\<close>

fun fills :: "string list \<Rightarrow> segment list \<Rightarrow> string list \<Rightarrow> bool" where
  "fills ws [] [] \<longleftrightarrow> True"
| "fills ws (Lit l # p) (x # xs) \<longleftrightarrow> x = l \<and> fills ws p xs"
| "fills ws (Param n # p) (x # xs) \<longleftrightarrow> x \<noteq> '''' \<and> \<not> List.member ws x \<and> fills ws p xs"
| "fills ws _ _ \<longleftrightarrow> False"

fun apart :: "segment list \<Rightarrow> segment list \<Rightarrow> bool" where
  "apart [] [] \<longleftrightarrow> False"
| "apart (Lit l # q) (Lit m # p) \<longleftrightarrow> l \<noteq> m \<or> apart q p"
| "apart (Lit l # q) (Param n # p) \<longleftrightarrow> True"
| "apart (Param m # q) (s # p) \<longleftrightarrow> apart q p"
| "apart _ _ \<longleftrightarrow> True"

definition side_by_side :: "route \<Rightarrow> route \<Rightarrow> bool" where
  "side_by_side q r \<longleftrightarrow> rt_verb q \<noteq> rt_verb r \<or> apart (rt_path q) (rt_path r)"

lemma fills_fits: "fills ws p xs \<Longrightarrow> fits p xs"
  by (induction ws p xs rule: fills.induct) auto

lemma fits_Nil [simp]: "fits [] xs \<longleftrightarrow> xs = []" "fits p [] \<longleftrightarrow> p = []"
  by (cases xs; simp) (cases p rule: list.exhaust; simp; metis fits.simps(5,6) segment.exhaust)

lemma fills_Nil [simp]: "fills ws [] xs \<longleftrightarrow> xs = []" "fills ws p [] \<longleftrightarrow> p = []"
  by (cases xs; simp) (cases p rule: list.exhaust; simp; metis fills.simps segment.exhaust)

lemma apart_not_fits: "apart q p \<Longrightarrow> set (words q) \<subseteq> set ws \<Longrightarrow> fills ws p xs \<Longrightarrow> \<not> fits q xs"
proof (induction q p arbitrary: xs rule: apart.induct)
  case (2 l q m p)
  then show ?case by (cases xs) (auto simp: words_def)
next
  case (3 l q n p)
  then show ?case by (cases xs) (auto simp: words_def)
next
  case (4 m q s p)
  then show ?case by (cases xs; cases s) (auto simp: words_def)
qed auto

lemma dispatch_first:
  assumes "sorted_wrt side_by_side rs" and "r \<in> set rs" and "fills ws (rt_path r) xs"
    and "\<forall>q \<in> set rs. set (words (rt_path q)) \<subseteq> set ws"
  shows "dispatch (rt_verb r) xs rs = Some r"
  using assms
proof (induction rs)
  case (Cons q rs)
  show ?case
  proof (cases "q = r")
    case True
    then show ?thesis using fills_fits [OF Cons.prems(3)] by (simp add: dispatch_def)
  next
    case False
    with Cons.prems have "side_by_side q r" by auto
    then have "\<not> (rt_verb q = rt_verb r \<and> fits (rt_path q) xs)"
      using apart_not_fits [of "rt_path q" "rt_path r" ws xs] Cons.prems by (auto simp: side_by_side_def)
    with Cons False show ?thesis by (auto simp: dispatch_def)
  qed
qed simp

definition service_routes :: "route list" where
  "service_routes =
     auth_routes @ user_routes @ wallet_routes @ agreement_routes @ condition_routes @ asset_routes @
     stats_routes @ notification_routes @ transaction_routes @ bank_account_routes @ dispute_routes @
     admin_dispute_routes @ invitation_routes"

lemma app_routes_create:
  "app_routes (create_app st) =
     service_routes @ (if debug st \<and> \<not> is_production st then dev_routes else []) @ main_routes"
  by (cases "debug st"; cases "is_production st")
    (simp_all add: app_routes_def create_app_def service_routes_def router_of_def)

text \<open>Tables whose paths begin with different words need no comparison of their routes.\<close>

definition begin_with :: "string set \<Rightarrow> route list \<Rightarrow> bool" where
  "begin_with hs rs \<longleftrightarrow> list_all (\<lambda>r. case rt_path r of Lit l # _ \<Rightarrow> l \<in> hs | _ \<Rightarrow> False) rs"

definition next_to :: "route list \<Rightarrow> route list \<Rightarrow> bool" where
  "next_to as bs \<longleftrightarrow> list_all (\<lambda>q. list_all (side_by_side q) bs) as"

lemma next_to_simps [simp]:
  "next_to [] bs" "next_to as []"
  "next_to (a # as) (b # bs) \<longleftrightarrow> side_by_side a b \<and> next_to [a] bs \<and> next_to as (b # bs)"
  by (auto simp: next_to_def list_all_iff)

lemma next_to_append: "next_to as (bs @ cs) \<longleftrightarrow> next_to as bs \<and> next_to as cs"
  by (auto simp: next_to_def list_all_iff)

lemma sorted_tables:
  "sorted_wrt side_by_side (as @ bs) \<longleftrightarrow>
     sorted_wrt side_by_side as \<and> sorted_wrt side_by_side bs \<and> next_to as bs"
  by (auto simp: sorted_wrt_append next_to_def list_all_iff)

lemma sorted_table_Cons:
  "sorted_wrt side_by_side (a # as) \<longleftrightarrow> next_to [a] as \<and> sorted_wrt side_by_side as"
  by (auto simp: next_to_def list_all_iff)

lemma begin_withD: "begin_with hs rs \<Longrightarrow> r \<in> set rs \<Longrightarrow> \<exists>l p. rt_path r = Lit l # p \<and> l \<in> hs"
  unfolding begin_with_def list_all_iff by (drule (1) bspec) (auto split: list.splits segment.splits)

lemma next_to_heads:
  assumes "begin_with hs as" and "begin_with ks bs" and "hs \<inter> ks = {}"
  shows "next_to as bs"
proof -
  have "side_by_side q r" if "q \<in> set as" "r \<in> set bs" for q r
  proof -
    from begin_withD [OF assms(1) that(1)] begin_withD [OF assms(2) that(2)] obtain l p m p' where
      "rt_path q = Lit l # p" "rt_path r = Lit m # p'" "l \<in> hs" "m \<in> ks" by blast
    with assms(3) show ?thesis by (auto simp: side_by_side_def)
  qed
  then show ?thesis by (simp add: next_to_def list_all_iff)
qed

lemma side_by_side_route [simp]:
  "side_by_side (route v q h ds) (route w p k es) \<longleftrightarrow> v \<noteq> w \<or> apart q p"
  by (simp add: side_by_side_def route_def)

lemma route_simps [simp]:
  "rt_verb (route v p h ds) = v" "rt_path (route v p h ds) = p" "rt_handler (route v p h ds) = h"
  "rt_needs (route v p h ds) = ds"
  by (simp_all add: route_def)

lemma table_heads:
  "begin_with {''auth''} auth_routes" "begin_with {''users''} user_routes"
  "begin_with {''wallet''} wallet_routes" "begin_with {''agreements''} agreement_routes"
  "begin_with {''agreements'', ''conditions''} condition_routes"
  "begin_with {''agreement'', ''conditions''} asset_routes" "begin_with {''stats''} stats_routes"
  "begin_with {''notifications''} notification_routes" "begin_with {''transactions''} transaction_routes"
  "begin_with {''bank-accounts''} bank_account_routes"
  "begin_with {''agreements'', ''disputes''} dispute_routes" "begin_with {''admin''} admin_dispute_routes"
  "begin_with {''invitations'', ''invite'', ''.well-known''} invitation_routes"
  "begin_with {''auth''} dev_routes" "begin_with {'''', ''health''} main_routes"
  by (simp_all add: begin_with_def route_tables)

lemma tables_sorted:
  "sorted_wrt side_by_side auth_routes" "sorted_wrt side_by_side user_routes"
  "sorted_wrt side_by_side wallet_routes" "sorted_wrt side_by_side agreement_routes"
  "sorted_wrt side_by_side condition_routes" "sorted_wrt side_by_side asset_routes"
  "sorted_wrt side_by_side stats_routes" "sorted_wrt side_by_side notification_routes"
  "sorted_wrt side_by_side transaction_routes" "sorted_wrt side_by_side bank_account_routes"
  "sorted_wrt side_by_side dispute_routes" "sorted_wrt side_by_side admin_dispute_routes"
  "sorted_wrt side_by_side invitation_routes" "sorted_wrt side_by_side dev_routes"
  "sorted_wrt side_by_side main_routes"
  by (simp_all add: route_tables sorted_table_Cons del: sorted_wrt.simps(2))

lemma tables_shared:
  "next_to agreement_routes condition_routes" "next_to agreement_routes dispute_routes"
  "next_to condition_routes asset_routes" "next_to condition_routes dispute_routes"
  "next_to auth_routes dev_routes"
  by (simp_all add: route_tables)

lemma routes_side_by_side:
  "sorted_wrt side_by_side (service_routes @ (if dev then dev_routes else []) @ main_routes)"
proof -
  have "sorted_wrt side_by_side (service_routes @ dev_routes @ main_routes)"
    unfolding service_routes_def append_assoc sorted_tables next_to_append
    by (intro conjI;
        (rule tables_sorted | rule tables_shared | (rule next_to_heads, rule table_heads, rule table_heads, simp)))
  then show ?thesis by (auto simp: sorted_tables next_to_append)
qed

section \<open>Every request reaches its route\<close>

lemma started_app: "start env raw = Inr (st, app) \<Longrightarrow> app = create_app st"
  by (auto simp: start_def split: sum.splits)

lemma reserved_words: "r \<in> set (app_routes app) \<Longrightarrow> set (words (rt_path r)) \<subseteq> set (reserved app)"
  by (auto simp: reserved_def)

text \<open>C30: In a started process no route hides another: for every route and every path that fills its
  parameters with values that are not themselves words of some route's path, the first route that fits
  the request's verb and path is this one.\<close>

theorem every_route_is_reached:
  assumes "start env raw = Inr (st, app)" and "r \<in> set (app_routes app)"
    and "fills (reserved app) (rt_path r) xs"
  shows "dispatch (rt_verb r) xs (app_routes app) = Some r"
proof (rule dispatch_first)
  show "sorted_wrt side_by_side (app_routes app)"
    using started_app [OF assms(1)] routes_side_by_side by (simp only: app_routes_create)
  show "r \<in> set (app_routes app)" by (rule assms(2))
  show "fills (reserved app) (rt_path r) xs" by (rule assms(3))
  show "\<forall>q \<in> set (app_routes app). set (words (rt_path q)) \<subseteq> set (reserved app)"
    using reserved_words by blast
qed

section \<open>Who gets through\<close>

text \<open>Calling a provider leaves the session as it is; the identity of the caller is what it reads.\<close>

definition calm :: "dependency \<Rightarrow> bool" where
  "calm d \<longleftrightarrow> (\<forall>x \<in> set (closure d). repeatable x)"

lemma calm_step [simp]:
  "calm (Depends n ds y p) \<longleftrightarrow> (\<forall>e vs s. snd (p e vs s) = s) \<and> list_all calm ds"
  by (auto simp: calm_def repeatable_def list_all_iff)

lemma snd_identity [simp]:
  "snd (get_current_user J t s) = s" "snd (get_active_user J t s) = s" "snd (get_admin_user u s) = s"
  by (auto simp: get_current_user_def get_active_user_def get_admin_user_def verify_token_def load_user_def
      step split: option.splits)

lemma snd_quiet [simp]:
  "snd (return x s) = s" "snd (raise err s) = s"
  "snd (bnd m (\<lambda>u. return (f u)) s) = snd (m s)"
  by (auto simp: return_def raise_def bnd_def split: prod.splits sum.splits)

lemma providers_calm [simp]:
  "calm get_session" "calm get_redis_dep" "calm oauth2_scheme" "calm current_user" "calm active_user"
  "calm admin_user" "calm get_user_repository" "calm get_user_service" "calm get_agreement_repository"
  "calm get_notification_repository" "calm get_notification_service" "calm get_refresh_token_repository"
  "calm get_auth_service" "calm get_condition_repository" "calm get_asset_repository"
  "calm get_asset_service" "calm get_agreement_service" "calm get_condition_service"
  "calm get_stats_repository" "calm get_stats_service" "calm get_wallet_repository"
  "calm get_bank_account_repository" "calm get_bank_account_service" "calm get_wallet_service"
  "calm get_transaction_repository" "calm get_transaction_service" "calm get_webhook_event_repository"
  "calm get_paystack_webhook_service" "calm get_idempotency_repository" "calm get_idempotency_context"
  "calm get_required_idempotency_context" "calm get_dispute_repository" "calm get_dispute_service"
  by (simp_all add: provider_defs makes_def split: option.split list.split given.split)

lemma routes_calm: "list_all (\<lambda>r. list_all calm (rt_needs r)) (service_routes @ dev_routes @ main_routes)"
  by (simp add: service_routes_def route_tables)

text \<open>The routes that ask for no user, those for administrators, and those that insist on a key.\<close>

definition public_handlers :: "string list" where
  "public_handlers =
     [''auth.invite_register'', ''auth.login'', ''auth.refresh_token'', ''auth.logout'',
      ''wallet.wallet_websocket'', ''agreement.agreement_websocket'', ''wallet.paystack_webhook'',
      ''invitation.lookup_invitation'', ''invitation.invite_page'', ''invitation.assetlinks'',
      ''main.root'', ''main.health'']"

definition admin_handlers :: "string list" where
  "admin_handlers =
     [''admin_dispute.list_disputes'', ''admin_dispute.get_dispute'', ''admin_dispute.mark_under_review'',
      ''admin_dispute.resolve_dispute'', ''agreement.refund_agreement_escrow'']"

definition keyed_handlers :: "string list" where
  "keyed_handlers =
     [''wallet.withdraw'', ''agreement.fund_agreement'', ''agreement.release_agreement_escrow'',
      ''agreement.refund_agreement_escrow'']"

definition guarded :: "route \<Rightarrow> bool" where
  "guarded r \<longleftrightarrow>
     (list_ex (\<lambda>d. d \<in> set (rt_needs r)) [current_user, active_user, admin_user]) \<and>
     (List.member admin_handlers (rt_handler r) \<longrightarrow> admin_user \<in> set (rt_needs r)) \<and>
     (List.member keyed_handlers (rt_handler r) \<longrightarrow> get_required_idempotency_context \<in> set (rt_needs r))"

lemma routes_guarded:
  "list_all (\<lambda>r. List.member public_handlers (rt_handler r) \<or> guarded r) (service_routes @ main_routes)"
  by (simp add: service_routes_def route_tables guarded_def public_handlers_def admin_handlers_def
      keyed_handlers_def)

definition caller :: "environ \<Rightarrow> session \<Rightarrow> user \<Rightarrow> bool" where
  "caller e s u \<longleftrightarrow>
     (case env_token e of None \<Rightarrow> False | Some t \<Rightarrow> fst (get_active_user (env_jwt e) t s) = Inr u)"

lemma wired_user:
  "wired e s current_user = Inr g \<longleftrightarrow> (\<exists>u. caller e s u \<and> g = Person u)"
  "wired e s active_user = Inr g \<longleftrightarrow> (\<exists>u. caller e s u \<and> g = Person u)"
  "wired e s admin_user = Inr g \<longleftrightarrow> (\<exists>u. caller e s u \<and> u_is_admin u \<and> g = Person u)"
  by (auto simp: provider_defs caller_def get_current_user_def get_active_user_def get_admin_user_def
      return_def raise_def bnd_def split: option.splits sum.splits prod.splits)

lemma wired_context:
  assumes "wired e s get_required_idempotency_context = Inr g"
  shows "\<exists>u k repo. caller e s u \<and> env_key e = Some k \<and> g = ContextOf repo (u_id u) (Some k)"
proof -
  from assms obtain repo v where "wired e s active_user = Inr v"
    and g: "fst (dep_call get_required_idempotency_context e [repo, v] s) = Inr g"
    by (auto simp: wired_call [of e s get_required_idempotency_context] get_required_idempotency_context_def
        split: sum.splits)
  from wired_user(2) [THEN iffD1, OF this(1)] obtain u where "caller e s u" "v = Person u" by blast
  with g show ?thesis
    by (auto simp: get_required_idempotency_context_def return_def raise_def split: option.splits)
qed

lemma routes_repeatable:
  assumes "r \<in> set (app_routes (create_app st))"
  shows "d \<in> set (needed (rt_needs r)) \<Longrightarrow> repeatable d"
  using assms routes_calm
  by (auto simp: app_routes_create list_all_iff calm_def needed_def split: if_splits)

lemma handed_over:
  assumes "r \<in> set (app_routes (create_app st))" and "schedule (rt_needs r) order"
    and "Handled vs \<in> set (serve e (rt_needs r) Map.empty order s)" and "d \<in> set (rt_needs r)"
  shows "\<exists>v \<in> set vs. wired e s d = Inr v"
proof -
  have "\<forall>d \<in> set order. repeatable d"
    using routes_repeatable [OF assms(1)] assms(2) by (simp add: schedule_def)
  from schedule_wired(1) [OF assms(2) this assms(3)] have "map (wired e s) (rt_needs r) = map Inr vs"
    by (simp add: gather_Inr)
  from arg_cong [OF this, of set] assms(4) show ?thesis by auto
qed


section \<open>Teardown\<close>

lemma feasible_position:
  "feasible bs (us @ d # vs) \<Longrightarrow> set (dep_needs d) \<subseteq> set (bs @ us)"
proof (induction us arbitrary: bs)
  case (Cons a us)
  from Cons.IH [of "bs @ [a]"] Cons.prems show ?case by auto
qed simp

lemma feasible_closure:
  "feasible [] (us @ d # vs) \<Longrightarrow> set (closure d) \<subseteq> set (us @ [d])"
proof (induction d arbitrary: us vs rule: closure.induct)
  case (1 n ds y p)
  have "set (closure x) \<subseteq> set us" if "x \<in> set ds" for x
  proof -
    from feasible_position [OF "1.prems"] that have "x \<in> set us" by auto
    then obtain as bs where us: "us = as @ x # bs" by (auto simp: in_set_conv_decomp)
    from "1.IH" [OF that, of as "bs @ Depends n ds y p # vs"] "1.prems" us show ?thesis by auto
  qed
  then show ?case by auto
qed

lemma session_needed:
  "get_session \<in> set (closure get_idempotency_context)"
  "get_session \<in> set (closure get_required_idempotency_context)"
  by (simp_all add: get_idempotency_context_def get_required_idempotency_context_def
      get_idempotency_repository_def closure_self)

lemma called_once:
  "distinct (map dep_name ds) \<Longrightarrow>
   filter (\<lambda>x. x = Called n) (map (Called \<circ> dep_name) ds) = (if n \<in> dep_name ` set ds then [Called n] else [])"
  by (induction ds) auto

lemma closed_only: "filter (\<lambda>x. x = Called n) (map (Closed \<circ> dep_name) ds) = []"
  by (induction ds) auto

text \<open>A request has one database session, and a reservation of its idempotency key is let go
  within it: in every order in which the providers may be called, the session is opened once, and the
  context that has been built is closed before the session is.\<close>

theorem reservation_let_go_in_session:
  assumes "schedule ds order" and "c \<in> {get_idempotency_context, get_required_idempotency_context}"
    and "c \<in> set order" and "Called (dep_name c) \<in> set (serve e ds Map.empty order s)"
  shows "length (filter (\<lambda>x. x = Called ''get_session'') (serve e ds Map.empty order s)) = 1 \<and>
     (\<exists>us vs ws. serve e ds Map.empty order s =
        us @ Closed (dep_name c) # vs @ Closed ''get_session'' # ws)"
proof -
  obtain called rest outcome where order: "order = called @ rest"
    and trace: "serve e ds Map.empty order s =
       map (Called \<circ> dep_name) called @ [outcome] @ map (Closed \<circ> dep_name) (rev (filter dep_yields called))"
    and out: "\<forall>n. outcome \<noteq> Called n \<and> outcome \<noteq> Closed n"
    using serve_shape [of order e ds Map.empty s] by auto
  from assms(1) have names: "distinct (map dep_name order)" and fe: "feasible [] order"
    by (simp_all add: schedule_def)
  have "Called (dep_name c) \<in> set (map (Called \<circ> dep_name) called)"
    using assms(4) out unfolding trace by auto
  then obtain d where d: "d \<in> set called" "dep_name d = dep_name c" by auto
  from names have "inj_on dep_name (set order)" by (simp add: distinct_map)
  from inj_onD [OF this d(2) _ assms(3)] d(1) order have "c \<in> set called" by auto
  then obtain us vs where called: "called = us @ c # vs" by (auto simp: in_set_conv_decomp)
  have "distinct (map dep_name called)" using names order by simp
  have "get_session \<noteq> c" using assms(2) by (auto simp: provider_defs)
  moreover have "get_session \<in> set (closure c)" using assms(2) session_needed by auto
  moreover have "feasible [] (us @ c # (vs @ rest))" using fe order called by simp
  ultimately have "get_session \<in> set us" using feasible_closure by fastforce
  then obtain as bs where us: "us = as @ get_session # bs" by (auto simp: in_set_conv_decomp)
  have yields: "dep_yields c" "dep_yields get_session" "dep_name get_session = ''get_session''"
    using assms(2) by (auto simp: provider_defs)
  have "\<exists>us vs ws. serve e ds Map.empty order s =
      us @ Closed (dep_name c) # vs @ Closed ''get_session'' # ws"
    unfolding trace called us using yields
    by (intro exI [of _ "map (Called \<circ> dep_name) (as @ get_session # bs @ c # vs) @ [outcome] @
        map (Closed \<circ> dep_name) (rev (filter dep_yields vs))"]
      exI [of _ "map (Closed \<circ> dep_name) (rev (filter dep_yields bs))"]
      exI [of _ "map (Closed \<circ> dep_name) (rev (filter dep_yields as))"]) simp
  moreover have "''get_session'' \<in> dep_name ` set called" using called us yields(3) by force
  then have "filter (\<lambda>x. x = Called ''get_session'') (serve e ds Map.empty order s) = [Called ''get_session'']"
    using \<open>distinct (map dep_name called)\<close> out unfolding trace by (simp add: called_once closed_only)
  ultimately show ?thesis by simp
qed

section \<open>Samples\<close>

text \<open>A withdrawal by Alice in a production process: her token is \<open>t\<close>, her key \<open>k1\<close>.\<close>

definition token_jwt :: "string jwt" where
  "token_jwt =
     \<lparr>jwt_encode = (\<lambda>c. ''t''),
      jwt_decode = (\<lambda>now x.
        if x = ''t''
        then Some \<lparr>cl_sub = ''ua'', cl_type = ACCESS, cl_iat = 0, cl_exp = 5000, cl_jti = ''j''\<rparr> else None)\<rparr>"

definition withdrawing :: environ where
  "withdrawing = \<lparr>env_jwt = token_jwt, env_token = Some ''t'', env_key = Some ''k1''\<rparr>"

definition withdraw_route :: route where
  "withdraw_route =
     route POST [Lit ''wallet'', Lit ''withdraw''] ''wallet.withdraw''
       [active_user, get_wallet_service, get_required_idempotency_context]"

definition withdraw_order :: "dependency list" where
  "withdraw_order =
     [get_session, oauth2_scheme, get_redis_dep, get_bank_account_repository, get_wallet_repository,
      active_user, get_idempotency_repository, get_required_idempotency_context, get_wallet_service]"

lemma provider_names:
  "dep_name get_session = ''get_session''" "dep_name oauth2_scheme = ''oauth2_scheme''"
  "dep_name get_redis_dep = ''get_redis_dep''"
  "dep_name get_bank_account_repository = ''get_bank_account_repository''"
  "dep_name get_wallet_repository = ''get_wallet_repository''" "dep_name active_user = ''get_active_user''"
  "dep_name get_idempotency_repository = ''get_idempotency_repository''"
  "dep_name get_required_idempotency_context = ''get_required_idempotency_context''"
  "dep_name get_wallet_service = ''get_wallet_service''"
  by (simp_all add: provider_defs)

lemma closure_unfold: "closure d = d # concat (map closure (dep_needs d))"
  by (cases d) simp

lemma provider_needs:
  "dep_needs get_session = []" "dep_needs oauth2_scheme = []" "dep_needs get_redis_dep = []"
  "dep_needs get_bank_account_repository = [get_session, get_redis_dep]"
  "dep_needs get_wallet_repository = [get_session, get_redis_dep]"
  "dep_needs active_user = [oauth2_scheme, get_session]"
  "dep_needs get_idempotency_repository = [get_session, get_redis_dep]"
  "dep_needs get_required_idempotency_context = [get_idempotency_repository, active_user]"
  "dep_needs get_wallet_service = [get_wallet_repository, get_bank_account_repository]"
  by (simp_all add: get_session_def oauth2_scheme_def get_redis_dep_def get_bank_account_repository_def
      get_wallet_repository_def active_user_def get_idempotency_repository_def
      get_required_idempotency_context_def get_wallet_service_def)

lemma provider_closures:
  "closure get_session = [get_session]" "closure oauth2_scheme = [oauth2_scheme]"
  "closure get_redis_dep = [get_redis_dep]"
  "closure get_bank_account_repository = [get_bank_account_repository, get_session, get_redis_dep]"
  "closure get_wallet_repository = [get_wallet_repository, get_session, get_redis_dep]"
  "closure active_user = [active_user, oauth2_scheme, get_session]"
  "closure get_idempotency_repository = [get_idempotency_repository, get_session, get_redis_dep]"
  by (simp_all add: closure_unfold [of get_session] closure_unfold [of oauth2_scheme]
      closure_unfold [of get_redis_dep] closure_unfold [of get_bank_account_repository]
      closure_unfold [of get_wallet_repository] closure_unfold [of active_user]
      closure_unfold [of get_idempotency_repository] provider_needs)

lemma withdraw_schedule: "schedule (rt_needs withdraw_route) withdraw_order"
proof -
  have "set withdraw_order = set (needed (rt_needs withdraw_route))"
    by (auto simp: withdraw_order_def withdraw_route_def needed_def provider_closures
        closure_unfold [of get_required_idempotency_context] closure_unfold [of get_wallet_service]
        provider_needs)
  then show ?thesis
    by (simp add: schedule_def withdraw_order_def provider_names provider_needs)
qed

lemma withdraw_served:
  "serve withdrawing (rt_needs withdraw_route) Map.empty withdraw_order escrow_session =
     map Called [''get_session'', ''oauth2_scheme'', ''get_redis_dep'', ''get_bank_account_repository'',
       ''get_wallet_repository'', ''get_active_user'', ''get_idempotency_repository'',
       ''get_required_idempotency_context'', ''get_wallet_service''] @
     [Handled
       [Person alice,
        Made ''WalletService''
          [Made ''WalletRepository'' [DatabaseSession, RedisConnection],
           Made ''BankAccountRepository'' [DatabaseSession, RedisConnection]],
        ContextOf (Made ''IdempotencyRepository'' [DatabaseSession, RedisConnection]) ''ua'' (Some ''k1'')]] @
     map Closed [''get_required_idempotency_context'', ''get_redis_dep'', ''get_session'']"
  by (simp add: withdraw_route_def withdraw_order_def provider_defs makes_def arguments_def withdrawing_def
      token_jwt_def get_active_user_def verify_token_def load_user_def step sample_defs escrow_defs)

lemma live_app:
  "\<exists>st app. start None live_settings = Inr (st, app) \<and> environment st = ''production'' \<and>
     app_routes app = service_routes @ main_routes"
proof -
  from live_settings_start obtain st app where start: "start None live_settings = Inr (st, app)"
    and "environment st = ''production''" by (cases "start None live_settings") auto
  then show ?thesis using started_app [OF start] by (simp add: app_routes_create is_production_def)
qed

lemma sample_fills:
  "fills (concat (map (words \<circ> rt_path) (service_routes @ main_routes)))
     [Lit ''agreements'', Param ''agreement_id'', Lit ''fund''] [''agreements'', ''a1'', ''fund'']"
  by (simp add: service_routes_def route_tables words_def)

theorem every_route_is_reached_witness:
  "\<exists>st app r. start None live_settings = Inr (st, app) \<and> rt_handler r = ''agreement.fund_agreement'' \<and>
     dispatch POST [''agreements'', ''a1'', ''fund''] (app_routes app) = Some r"
proof -
  from live_app obtain st app where start: "start None live_settings = Inr (st, app)"
    and routes: "app_routes app = service_routes @ main_routes" by blast
  have "\<exists>r \<in> set agreement_routes. rt_handler r = ''agreement.fund_agreement'' \<and> rt_verb r = POST \<and>
      rt_path r = [Lit ''agreements'', Param ''agreement_id'', Lit ''fund'']"
    by (simp add: agreement_routes_def)
  then obtain r where r: "r \<in> set agreement_routes" "rt_handler r = ''agreement.fund_agreement''"
    "rt_verb r = POST" "rt_path r = [Lit ''agreements'', Param ''agreement_id'', Lit ''fund'']" by blast
  then have "r \<in> set (app_routes app)" by (simp add: routes service_routes_def)
  from every_route_is_reached [OF start this] r sample_fills have
    "dispatch POST [''agreements'', ''a1'', ''fund''] (app_routes app) = Some r"
    by (simp add: reserved_def routes)
  with start r(2) show ?thesis by blast
qed


theorem reservation_let_go_in_session_witness:
  "\<exists>us vs ws. serve withdrawing (rt_needs withdraw_route) Map.empty withdraw_order escrow_session =
     us @ Closed ''get_required_idempotency_context'' # vs @ Closed ''get_session'' # ws"
proof -
  have "Called (dep_name get_required_idempotency_context) \<in>
      set (serve withdrawing (rt_needs withdraw_route) Map.empty withdraw_order escrow_session)"
    by (simp add: withdraw_served provider_names)
  from reservation_let_go_in_session [OF withdraw_schedule _ _ this] show ?thesis
    by (simp add: withdraw_order_def provider_names)
qed

end
