(* ===== verification/Connections.thy ===== *)
theory Connections
  imports Validators
begin

text \<open>
  What a process keeps between requests: the Redis connection of \<^verbatim>\<open>src/app/redis.py\<close>, made at the first
  use and retried until it answers; the storage of the rate limiter, chosen once
  (\<^verbatim>\<open>src/app/rate_limiting.py\<close>); the HTTP client of \<^verbatim>\<open>src/app/service/paystack_client.py\<close>, one at a
  time, closed when the application ends (\<^verbatim>\<open>src/app/main.py\<close>).  Whether a server answers is a parameter
  (\<open>pings\<close>, \<open>reachable\<close>).
\<close>

section \<open>The Redis connection\<close>

record redis_settings =
  redis_database_host :: string
  redis_database_port :: string
  redis_database_password :: string

record redis_client =
  rc_host :: string
  rc_port :: int
  rc_username :: string
  rc_password :: string

text \<open>Python's \<open>int\<close> of a string: blanks around it, a sign, digits with single underscores between them.\<close>

fun digits_from :: "int \<Rightarrow> bool \<Rightarrow> string \<Rightarrow> int option" where
  "digits_from n after_digit [] = (if after_digit then Some n else None)"
| "digits_from n after_digit (c # cs) =
     (if is_digit c then digits_from (10 * n + (of_char c - 48)) True cs
      else if c = CHR ''_'' \<and> after_digit then digits_from n False cs
      else None)"

definition int_of_string :: "string \<Rightarrow> int option" where
  "int_of_string s =
     (case strip s of
        [] \<Rightarrow> None
      | c # cs \<Rightarrow>
          if c = CHR ''-'' then map_option uminus (digits_from 0 False cs)
          else if c = CHR ''+'' then digits_from 0 False cs
          else digits_from 0 False (c # cs))"

definition redis_client_of :: "redis_settings \<Rightarrow> int \<Rightarrow> redis_client" where
  "redis_client_of rs port =
     \<lparr>rc_host = redis_database_host rs, rc_port = port, rc_username = ''default'',
      rc_password = redis_database_password rs\<rparr>"

text \<open>The connection kept afterwards, which is also the one returned; an error leaves none.\<close>

definition get_redis_client ::
  "(redis_client \<Rightarrow> bool) \<Rightarrow> redis_settings \<Rightarrow> redis_client option \<Rightarrow> redis_client option"
where
  "get_redis_client pings rs kept =
     (case kept of
        Some c \<Rightarrow> Some c
      | None \<Rightarrow>
          (case int_of_string (redis_database_port rs) of
             None \<Rightarrow> None
           | Some port \<Rightarrow>
               (let c = redis_client_of rs port in if pings c then Some c else None)))"

text \<open>Over any number of uses the connection is made at the first answer and kept from then on.\<close>

lemma redis_connects_once:
  assumes "int_of_string (redis_database_port rs) = Some port"
  shows "fold (\<lambda>pings. get_redis_client pings rs) tries None =
     (if list_ex (\<lambda>pings. pings (redis_client_of rs port)) tries then Some (redis_client_of rs port) else None)"
proof -
  have "fold (\<lambda>pings. get_redis_client pings rs) tries (Some c) = Some c" for c
    by (induction tries) (auto simp: get_redis_client_def)
  then show ?thesis using assms by (induction tries) (auto simp: get_redis_client_def Let_def)
qed

section \<open>The storage of the rate limiter\<close>

definition redis_url :: "redis_settings \<Rightarrow> string" where
  "redis_url rs =
     ''redis://default:'' @ redis_database_password rs @ ''@'' @ redis_database_host rs @ '':'' @
     redis_database_port rs"

definition memory_url :: string where
  "memory_url = ''memory://''"

definition resolve_storage_uri :: "(string \<Rightarrow> bool) \<Rightarrow> string \<Rightarrow> redis_settings \<Rightarrow> string" where
  "resolve_storage_uri reachable env rs =
     (if env = ''test'' then memory_url
      else if reachable (redis_url rs) then redis_url rs else memory_url)"

text \<open>
  The password is not quoted in this URL, as it is in the one of the database: without a delimiter in
  the settings the URL names the server, with a \<^verbatim>\<open>/\<close>, \<^verbatim>\<open>?\<close> or \<^verbatim>\<open>#\<close> in the password the part that names
  the server ends inside it.
\<close>

definition plain :: "string \<Rightarrow> bool" where
  "plain s \<longleftrightarrow> list_all (\<lambda>c. c \<notin> set ''/?#'' \<and> (of_char c :: nat) \<notin> {9, 10, 13}) s"

definition server_part :: "string \<Rightarrow> string" where
  "server_part s = takeWhile (\<lambda>c. c \<notin> set ''/?#'') (filter (\<lambda>c. (of_char c :: nat) \<notin> {9, 10, 13}) s)"

lemma server_part_append: "plain s \<Longrightarrow> server_part (s @ t) = s @ server_part t"
  by (induction s) (auto simp: plain_def server_part_def)

lemma server_part_plain: "plain s \<Longrightarrow> server_part s = s"
  using server_part_append [of s "[]"] by (simp add: server_part_def)

lemma server_part_ends: "d \<in> set ''/?#'' \<Longrightarrow> server_part (d # t) = []"
  by (auto simp: server_part_def)

lemma redis_netloc: "us_netloc (urlsplit (''redis://'' @ s)) = server_part s"
proof -
  have "url_cleaned (''redis://'' @ s) = ''redis://'' @ filter (\<lambda>c. (of_char c :: nat) \<notin> {9, 10, 13}) s"
    by (simp add: url_cleaned_def)
  then show ?thesis
    by (simp add: urlsplit_def Let_def scheme_char_def alphabetic_def server_part_def)
qed

lemma redis_url_server:
  assumes "plain (redis_database_password rs)" and "plain (redis_database_host rs)"
    and "plain (redis_database_port rs)"
  shows "us_netloc (urlsplit (redis_url rs)) =
     ''default:'' @ redis_database_password rs @ ''@'' @ redis_database_host rs @ '':'' @ redis_database_port rs"
proof -
  have "plain (''default:'' @ redis_database_password rs @ ''@'' @ redis_database_host rs @ '':'' @
      redis_database_port rs)"
    using assms by (simp add: plain_def)
  from server_part_plain [OF this] have "us_netloc (urlsplit (''redis://'' @ ''default:'' @
      redis_database_password rs @ ''@'' @ redis_database_host rs @ '':'' @ redis_database_port rs)) =
      ''default:'' @ redis_database_password rs @ ''@'' @ redis_database_host rs @ '':'' @ redis_database_port rs"
    by (simp only: redis_netloc)
  then show ?thesis by (simp add: redis_url_def)
qed

lemma redis_url_cut_short:
  assumes "redis_database_password rs = a @ d # b" and "plain a" and "d \<in> set ''/?#''"
  shows "us_netloc (urlsplit (redis_url rs)) = ''default:'' @ a"
proof -
  have "redis_url rs = ''redis://'' @ (''default:'' @ a) @ d # b @ ''@'' @ redis_database_host rs @ '':'' @
      redis_database_port rs"
    by (simp add: redis_url_def assms(1))
  moreover have "plain (''default:'' @ a)" using assms(2) by (simp add: plain_def)
  ultimately show ?thesis
    using assms(3) by (simp only: redis_netloc server_part_append server_part_ends append_Nil2)
qed

section \<open>The HTTP client of the provider\<close>

text \<open>Clients are numbered in the order in which they are made; \<open>pool_open\<close> are those not closed.\<close>

record http_pool =
  pool_base_url :: string
  pool_client :: "nat option"
  pool_open :: "nat list"
  pool_made :: nat

definition new_pool :: "string \<Rightarrow> http_pool" where
  "new_pool base_url =
     \<lparr>pool_base_url = rev (dropWhile (\<lambda>c. c = CHR ''/'') (rev base_url)), pool_client = None,
      pool_open = [], pool_made = 0\<rparr>"

definition is_open :: "http_pool \<Rightarrow> bool" where
  "is_open p \<longleftrightarrow> (case pool_client p of None \<Rightarrow> False | Some i \<Rightarrow> List.member (pool_open p) i)"

definition get_client :: "http_pool \<Rightarrow> http_pool" where
  "get_client p =
     (if is_open p then p
      else p\<lparr>pool_client := Some (pool_made p), pool_open := pool_made p # pool_open p,
             pool_made := Suc (pool_made p)\<rparr>)"

definition aclose :: "http_pool \<Rightarrow> http_pool" where
  "aclose p =
     (let q = (case pool_client p of
                 Some i \<Rightarrow> if is_open p then p\<lparr>pool_open := removeAll i (pool_open p)\<rparr> else p
               | None \<Rightarrow> p)
      in q\<lparr>pool_client := None\<rparr>)"

text \<open>What the application does with it: requests at the provider, and the end of \<^verbatim>\<open>lifespan\<close>.\<close>

definition lifespan :: "nat \<Rightarrow> http_pool \<Rightarrow> http_pool" where
  "lifespan calls p = aclose ((get_client ^^ calls) p)"

text \<open>One client serves any number of requests, and none is left open at the end.\<close>

definition tidy :: "http_pool \<Rightarrow> bool" where
  "tidy p \<longleftrightarrow> pool_open p = (case pool_client p of None \<Rightarrow> [] | Some i \<Rightarrow> [i])"

lemma tidy_new: "tidy (new_pool url)"
  by (simp add: tidy_def new_pool_def)

lemma tidy_get_client: "tidy p \<Longrightarrow> tidy (get_client p) \<and> is_open (get_client p)"
  by (auto simp: tidy_def get_client_def is_open_def split: option.splits)

lemma tidy_aclose: "tidy p \<Longrightarrow> tidy (aclose p) \<and> pool_open (aclose p) = []"
  by (auto simp: tidy_def aclose_def is_open_def Let_def split: option.splits)

lemma get_client_again: "is_open p \<Longrightarrow> get_client p = p"
  by (simp add: get_client_def)

lemma lifespan_closes:
  "pool_open (lifespan calls (new_pool url)) = [] \<and> pool_made (lifespan calls (new_pool url)) \<le> 1"
proof -
  have "tidy ((get_client ^^ n) (new_pool url)) \<and> pool_made ((get_client ^^ n) (new_pool url)) = (if n = 0 then 0 else 1)
      \<and> (is_open ((get_client ^^ n) (new_pool url)) \<longleftrightarrow> n \<noteq> 0)" for n
  proof (induction n)
    case 0
    show ?case by (simp add: tidy_new) (simp add: new_pool_def is_open_def)
  next
    case (Suc n)
    then show ?case
      using tidy_get_client [of "(get_client ^^ n) (new_pool url)"]
      by (cases n) (auto simp: get_client_again, simp add: get_client_def)
  qed
  from this [of calls] tidy_aclose show ?thesis
    by (auto simp: lifespan_def aclose_def Let_def split: option.splits if_splits)
qed

end
