(* ===== verification/Spec2Isabelle.thy ===== *)
theory Spec2Isabelle
  imports System Liveness Redelivery Concurrency DataMigrations Metadata Canonical Dependencies Connections
begin

text \<open>
  A verification development of the escrow service under \<^verbatim>\<open>src/app\<close> (Python: FastAPI, SQLModel on
  PostgreSQL, Redis, the Paystack payment provider) and of its schema history under
  \<^verbatim>\<open>src/alembic\<close>.

  \<^bold>\<open>The program.\<close>  Two people make an \<^emph>\<open>agreement\<close>: a depositor invites a beneficiary, who accepts or
  rejects.  The depositor funds it from a \<^emph>\<open>wallet\<close>: the money moves from the available into the escrow
  bucket.  When every \<^emph>\<open>condition\<close> is approved the escrow is released to the beneficiary,
  automatically or by request; it goes back to the depositor on a refund; while a \<^emph>\<open>dispute\<close> is open
  it is frozen, and an administrator's resolution settles it.  Money enters by a Paystack charge,
  credited by a webhook, and leaves by a withdrawal, a transfer at the provider.  Every movement of
  a balance goes through one choke point, \<^verbatim>\<open>WalletRepository.apply_entry\<close> and \<^verbatim>\<open>apply_transfer\<close>, which
  writes ledger entries that are never changed afterwards except in their status.

  \<^bold>\<open>How the model is built.\<close>  A function that reads and writes the request's database session is a
  program of the state-and-exception monad of \<^verbatim>\<open>Prelude\<close> over a \<open>session\<close> (\<^verbatim>\<open>Session\<close>): the committed
  database, the open transaction (\<open>work\<close>), the cache, the clock, the supply of UUIDs, and what was sent
  to the provider, pushed to sockets and mailed.  A table is a list of records (\<^verbatim>\<open>Models\<close>) with its
  unique, check and length constraints, enforced at every flush; \<open>commit\<close>, \<open>rollback\<close>, locks and the
  cache behave as the repositories rely on.  Definitions have the names of the Python functions
  (\<open>_route\<close> marks a route whose service function has the same name); an exception of
  \<^verbatim>\<open>src/app/exceptions.py\<close> is a constructor of \<open>exn\<close>, a \<^verbatim>\<open>try\<close> statement is \<open>try_except\<close>, a handler that
  logs and goes on is \<open>best_effort\<close>.  A request runs in one session, and the reachable states are
  those of requests that run one after the other.  For the sections that move money this is no loss:
  \<^verbatim>\<open>Concurrency\<close> interleaves their locks, entries and commits step by step, as PostgreSQL does at READ
  COMMITTED, and shows that the result is that of running them one at a time.

  \<^bold>\<open>Which theory models what.\<close>
  \<^item> \<^verbatim>\<open>Prelude\<close>: the monad, its frame and invariant calculus (\<open>stays\<close>, \<open>keeps\<close>), lists, rounding of
    decimals.  \<^verbatim>\<open>Triples\<close>: steps that leave an invariant and come back to it.
  \<^item> \<^verbatim>\<open>Enums\<close>, \<^verbatim>\<open>Models\<close>: \<^verbatim>\<open>common/enums.py\<close>, \<^verbatim>\<open>exceptions.py\<close>, \<^verbatim>\<open>models/\<close>.  \<^verbatim>\<open>Session\<close>: \<^verbatim>\<open>database.py\<close>,
    \<^verbatim>\<open>redis.py\<close>.  \<^verbatim>\<open>Validators\<close>: \<^verbatim>\<open>core/validators.py\<close>.
  \<^item> \<^verbatim>\<open>WalletRepo\<close>: \<^verbatim>\<open>repository/wallet_repository.py\<close>; \<^verbatim>\<open>Ledger\<close>, \<^verbatim>\<open>LedgerFrames\<close>: its contract;
    \<^verbatim>\<open>Concurrency\<close>: its locking rules, as steps of concurrent transactions (\<open>tick\<close>).
    \<^verbatim>\<open>PaystackClient\<close>, \<^verbatim>\<open>WalletService\<close>, \<^verbatim>\<open>BankAccountRepo\<close>, \<^verbatim>\<open>BankAccounts\<close>: the provider, funding,
    withdrawal, payout accounts, with their routes.  \<^verbatim>\<open>Webhook\<close>: \<^verbatim>\<open>service/paystack_webhook_service.py\<close>
    and its route; \<^verbatim>\<open>Redelivery\<close>: the provider's loop around it.
  \<^item> \<^verbatim>\<open>Idempotency\<close>, \<^verbatim>\<open>Canonical\<close>: \<^verbatim>\<open>core/idempotency.py\<close> with its repository and the hash of a body.
  \<^item> \<^verbatim>\<open>Users\<close>, \<^verbatim>\<open>Auth\<close>, \<^verbatim>\<open>Notifications\<close>: profiles and \<^verbatim>\<open>core/authz.py\<close>, tokens and sign-in,
    notifications.
  \<^item> \<^verbatim>\<open>AgreementRepo\<close>, \<^verbatim>\<open>AgreementService\<close>, \<^verbatim>\<open>EscrowRoutes\<close>: agreements, invitations and
    \<^verbatim>\<open>routers/agreement.py\<close>; \<^verbatim>\<open>ConditionService\<close>, \<^verbatim>\<open>ConditionRoutes\<close>: conditions and the automatic
    release; \<^verbatim>\<open>Assets\<close>: files handed in; \<^verbatim>\<open>Disputes\<close>: disputes and \<^verbatim>\<open>routers/admin_dispute.py\<close>.
  \<^item> \<^verbatim>\<open>HistoryReads\<close>: history, totals, dashboard; \<^verbatim>\<open>PublicPages\<close>: invitation pages, e-mail, error
    answers, rate-limit key, developer routes; \<^verbatim>\<open>Realtime\<close>: \<^verbatim>\<open>realtime/manager.py\<close>; \<^verbatim>\<open>Startup\<close>:
    \<^verbatim>\<open>config.py\<close> and the application \<^verbatim>\<open>main.py\<close> builds; \<^verbatim>\<open>Dependencies\<close>: \<^verbatim>\<open>dependencies.py\<close>, the
    signatures of all routes, and which request reaches which handler; \<^verbatim>\<open>Connections\<close>: what the process
    keeps between requests (the Redis connection, the limiter's storage, the provider's HTTP client).
  \<^item> \<^verbatim>\<open>EscrowInvariant\<close>, \<^verbatim>\<open>EscrowOperations\<close>, \<^verbatim>\<open>DisputeOperations\<close>, \<^verbatim>\<open>RouteFrames\<close>: what ties ledger,
    agreements and disputes together, kept by every operation.  \<^verbatim>\<open>Api\<close>: every route as one interface,
    \<open>request\<close>.  \<^verbatim>\<open>System\<close>: runs of requests, reachable states.  \<^verbatim>\<open>Liveness\<close>: what must happen.
  \<^item> \<^verbatim>\<open>Migrations\<close>: every revision under \<^verbatim>\<open>alembic/versions\<close> as schema operations, and what PostgreSQL
    does with them; \<^verbatim>\<open>Metadata\<close>: the schema the models declare; \<^verbatim>\<open>Backfill\<close>, \<^verbatim>\<open>DataMigrations\<close>: the
    revisions that move data.
  \<^item> \<^verbatim>\<open>Samples\<close>, \<^verbatim>\<open>EscrowSamples\<close>: the concrete sessions of the witnesses.

  \<^bold>\<open>What is shown.\<close>
  \<^item> In every reachable state (\<^verbatim>\<open>System\<close>): each wallet holds the sum of its entries and nothing is
    negative; an escrow is settled at most once, never released and refunded; committed entries
    stay; the constraints of the schema hold; a live dispute freezes its agreement; and for every
    agreement the run is one of an abstract escrow with four phases (a refinement).
  \<^item> Of the choke point: an entry moves exactly its deltas, a repeated reference is a replay, a lost
    race is a replay, a failure moves nothing, a transfer is atomic and conserves money; concurrent
    money transactions are serializable and never deadlock.
  \<^item> Of the provider: a transfer is requested at most once and after the debit, an unknown outcome
    stays pending, a refused one is reversed; a webhook with a wrong signature changes nothing, a
    known event is ignored, a charge credits what was verified.
  \<^item> Of time: a ready escrow is released (liveness); the provider's redelivery, a partial function
    over one session per delivery, ends within \<open>max_attempts\<close> deliveries after the first
    (termination).
  \<^item> Of the schema: the history builds the schema of the models, every revision is reversible, data
    migrations keep money and membership and establish the ledger's invariant.
  \<^item> Of the edge: tokens, URLs, e-mail markup, sockets, the request hash (equal exactly for equal
    JSON), the checks of a started process; no handler but the public ones runs without an identified
    caller, no route hides another, the session outlives what the request holds in it.

  \<^bold>\<open>Parameters.\<close>  Code outside the repository is an argument of the definitions that use it: \<open>net\<close> (the
  provider and the network), \<open>sha256\<close>, \<open>hmac\<close>, \<open>digest\<close> (any function in the routes; \<^verbatim>\<open>Canonical\<close> is the
  code's), \<open>parse\<close> (JSON), \<open>sign\<close> (Cloudinary), \<open>jwt\<close>, \<open>firebase\<close>, \<open>email_addr\<close>, the random \<open>sweep\<close>, the
  element \<open>pick\<close> of a set that \<^verbatim>\<open>set.pop\<close> takes, and the values of the settings (\<open>cfg\<close>, \<open>web_url\<close>,
  \<open>cloud_name\<close>, \<open>max_bytes\<close>).  They are unconstrained except where a theorem states a law of theirs, as
  \<open>jwt_law\<close> (what was signed is read back until it expires).

  \<^bold>\<open>Bounds.\<close>  Recursion is structural, or has a measure; \<open>successors\<close> has as much fuel as there are
  revisions, and \<open>history_eq\<close> shows that it is used up by all of them.  Money is rational, with the
  rounding of the columns written out; \<open>Decimal\<close> arithmetic at 28 digits is exact on the amounts the
  schemas admit.  \<open>history_runs\<close> evaluates the whole schema history, forth and back, in the kernel.

  \<^bold>\<open>Not modelled.\<close>  Log lines, human-readable messages and columns nothing reads back; the set-up of
  Sentry, Cloudinary and the database engine; the counters of the rate limiter
  (slowapi) and the HTML templates; the transport of the web sockets (their frames are recorded);
  the reading of the environment by pydantic-settings; the offline mode of Alembic, which prints SQL;
  interleavings of two requests outside the sections that move money (those that lose something are
  among the findings of the manifest).
\<close>

end
